(* ===== verification/Prelude.thy ===== *)
theory Prelude
  imports Main "HOL-Library.Word" "HOL-Library.Char_ord" "HOL-Library.List_Lexorder"
begin

text \<open>
  Shared ground of the development: the named collections the component theories fill,
  the 64-bit integers of Go, clock values, and generic lemmas on lists and maps.

  \<^item> \<open>go_defs\<close> collects the definitions of Go library operations, so that a closed call of
    the model evaluates with \<open>simp add: go_defs\<close>.
  \<^item> \<open>int64\<close> is a 64-bit word read as a two's complement number by \<open>sint\<close>; \<open>+\<close> and \<open>*\<close>
    wrap as they do in Go.
  \<^item> a point in time is an \<open>int\<close> of nanoseconds; a \<open>Duration\<close> is an \<open>int\<close> in the range of
    an \<open>int64\<close>, and subtraction of two times saturates at the ends of that range.
\<close>

named_theorems go_defs "definitions of the Go library operations"

section \<open>Integers of 64 bits\<close>

type_synonym int64 = "64 word"

abbreviation max_int64 :: int where
  "max_int64 \<equiv> 9223372036854775807"

lemma sint64_range: "- 9223372036854775808 \<le> sint (a :: int64)" "sint (a :: int64) \<le> max_int64"
  using sint_ge [of a] sint_lt [of a] by simp_all

lemma signed_take_bit_63:
  assumes "- 9223372036854775808 \<le> (k :: int)" and "k < 9223372036854775808"
  shows "signed_take_bit 63 k = k"
  using assms by (simp add: signed_take_bit_int_eq_self_iff)

text \<open>The sum of two 64-bit numbers is the sum of their values as long as that sum fits.\<close>

lemma sint_add_fits:
  fixes a b :: int64
  assumes "- 9223372036854775808 \<le> sint a + sint b" and "sint a + sint b \<le> max_int64"
  shows "sint (a + b) = sint a + sint b"
  using assms by (simp add: sint_word_add signed_take_bit_63)

lemma sint_add_nonneg_fits:
  fixes a b :: int64
  assumes "0 \<le> sint a" and "0 \<le> sint b" and "sint a + sint b \<le> max_int64"
  shows "sint (a + b) = sint a + sint b"
  using assms by (intro sint_add_fits) simp_all

text \<open>Two non-negative numbers whose sum does not fit add up to a negative one.\<close>

lemma sint_add_overflow:
  fixes a b :: int64
  assumes "max_int64 < sint a + sint b"
  shows "sint (a + b) < 0"
proof -
  have "signed_take_bit 63 (sint a + sint b) \<le> sint a + sint b - 2 ^ Suc 63"
    by (rule signed_take_bit_int_less_eq) (use assms in simp)
  then have le: "signed_take_bit 63 (sint a + sint b) \<le> sint a + sint b - 18446744073709551616" by simp
  have "sint (a + b) = signed_take_bit 63 (sint a + sint b)" by (simp add: sint_word_add)
  with le sint64_range(2) [of a] sint64_range(2) [of b] show ?thesis by linarith
qed

lemma sint_of_nat_fits: "int n \<le> max_int64 \<Longrightarrow> sint (word_of_nat n :: int64) = int n"
  by (simp add: signed_of_nat signed_take_bit_63)

lemma unat_nonneg:
  fixes c :: int64
  assumes "0 \<le> sint c"
  shows "int (unat c) = sint c"
proof -
  have "take_bit 64 (sint c) = sint c"
    using assms sint64_range(2) [of c] by (simp add: take_bit_int_eq_self_iff)
  then have "uint c = sint c" using uint_sint [of c] by simp
  then show ?thesis by simp
qed

lemma sint_succ_fits:
  fixes a :: int64
  assumes "sint a < max_int64"
  shows "sint (a + 1) = sint a + 1"
  using assms sint64_range [of a] by (subst sint_add_fits) simp_all

section \<open>Time\<close>

type_synonym time = int
type_synonym duration = int

abbreviation min_duration :: duration where
  "min_duration \<equiv> - 9223372036854775808"

definition time_sub :: "time \<Rightarrow> time \<Rightarrow> duration" where
  [go_defs]: "time_sub t u = max min_duration (min max_int64 (t - u))"

definition time_is_zero :: "time \<Rightarrow> bool" where
  [go_defs]: "time_is_zero t \<longleftrightarrow> t = 0"

lemma time_sub_le: "d < max_int64 \<Longrightarrow> min_duration \<le> d \<Longrightarrow> time_sub t u \<le> d \<longleftrightarrow> t - u \<le> d"
  by (auto simp: time_sub_def)

section \<open>Lists and maps\<close>

text \<open>
  A Go loop that returns at the first failing element is a \<open>first_some\<close>: the first \<open>Some\<close>
  of a list of checks.
\<close>

fun first_some :: "'a option list \<Rightarrow> 'a option" where
  "first_some [] = None"
| "first_some (None # xs) = first_some xs"
| "first_some (Some x # xs) = Some x"

lemma first_some_None: "first_some xs = None \<longleftrightarrow> (\<forall>x \<in> set xs. x = None)"
  by (induction xs rule: first_some.induct) auto

lemma first_some_SomeD: "first_some xs = Some e \<Longrightarrow> Some e \<in> set xs"
  by (induction xs rule: first_some.induct) auto

lemma first_some_append: "first_some (xs @ ys) = (case first_some xs of None \<Rightarrow> first_some ys | Some e \<Rightarrow> Some e)"
  by (induction xs rule: first_some.induct) auto

definition check :: "bool \<Rightarrow> 'e \<Rightarrow> 'e option" where
  [simp]: "check bad e = (if bad then Some e else None)"

text \<open>Looking a key up in a Go map value that is held as an association list.\<close>

lemma map_of_filter_None: "k \<notin> fst ` set xs \<Longrightarrow> map_of xs k = None"
  by (simp add: map_of_eq_None_iff)

lemma fold_invariant:
  assumes "P s" and "\<And>x s. x \<in> set xs \<Longrightarrow> P s \<Longrightarrow> P (f x s)"
  shows "P (fold f xs s)"
  using assms by (induction xs arbitrary: s) auto

lemma list_all2_nth_eq: "length xs = length ys \<Longrightarrow> (\<And>i. i < length xs \<Longrightarrow> xs ! i = ys ! i) \<Longrightarrow> xs = ys"
  by (rule nth_equalityI)

text \<open>\<open>sort.Strings\<close> is the byte-wise lexicographic sort of the library's \<open>linorder\<close> on strings.\<close>

definition sort_strings :: "string list \<Rightarrow> string list" where
  [go_defs]: "sort_strings = sort"

lemma set_sort_strings [simp]: "set (sort_strings xs) = set xs"
  by (simp add: sort_strings_def)

lemma sorted_sort_strings [simp]: "sorted (sort_strings xs)"
  by (simp add: sort_strings_def)

lemma length_sort_strings [simp]: "length (sort_strings xs) = length xs"
  by (simp add: sort_strings_def)

end
