(* ===== verification/Go_Strings.thy ===== *)
theory Go_Strings
  imports Prelude
begin

text \<open>
  The operations of Go's packages \<open>strings\<close>, \<open>strconv\<close> and \<open>regexp\<close> that the program uses.
  A Go string is a sequence of bytes, modelled as a \<open>char list\<close> (a \<open>char\<close> of HOL is one
  byte).  \<open>trim_space\<close> and \<open>str_fields\<close> recognise every Unicode white-space rune by its UTF-8
  encoding.  \<open>to_lower\<close>, \<open>to_upper\<close> and \<open>equal_fold\<close> fold the ASCII letters only; Go also
  folds letters outside ASCII, which none of the identifiers, host names and hexadecimal
  digests these are applied to contain.
\<close>

section \<open>Prefixes, suffixes, search\<close>

definition has_prefix :: "string \<Rightarrow> string \<Rightarrow> bool" where
  [go_defs]: "has_prefix s p \<longleftrightarrow> take (length p) s = p"

definition has_suffix :: "string \<Rightarrow> string \<Rightarrow> bool" where
  [go_defs]: "has_suffix s p \<longleftrightarrow> length p \<le> length s \<and> drop (length s - length p) s = p"

definition trim_prefix :: "string \<Rightarrow> string \<Rightarrow> string" where
  [go_defs]: "trim_prefix s p = (if has_prefix s p then drop (length p) s else s)"

definition trim_suffix :: "string \<Rightarrow> string \<Rightarrow> string" where
  [go_defs]: "trim_suffix s p = (if has_suffix s p then take (length s - length p) s else s)"

fun contains_sub :: "string \<Rightarrow> string \<Rightarrow> bool" where
  "contains_sub [] p = (p = [])"
| "contains_sub (c # s) p = (has_prefix (c # s) p \<or> contains_sub s p)"

definition contains_any :: "string \<Rightarrow> string \<Rightarrow> bool" where
  [go_defs]: "contains_any s cs = list_ex (\<lambda>c. c \<in> set cs) s"

fun index_byte :: "string \<Rightarrow> char \<Rightarrow> nat option" where
  "index_byte [] c = None"
| "index_byte (x # s) c = (if x = c then Some 0 else map_option Suc (index_byte s c))"

lemma has_prefix_iff: "has_prefix s p \<longleftrightarrow> (\<exists>t. s = p @ t)"
  by (metis append_eq_conv_conj append_take_drop_id has_prefix_def)

lemma has_suffix_iff: "has_suffix s p \<longleftrightarrow> (\<exists>t. s = t @ p)"
proof
  assume "has_suffix s p"
  then show "\<exists>t. s = t @ p"
    by (metis append_take_drop_id has_suffix_def)
next
  assume "\<exists>t. s = t @ p"
  then show "has_suffix s p" by (auto simp: has_suffix_def)
qed

lemma has_prefix_Nil [simp]: "has_prefix s []"
  by (simp add: has_prefix_def)

lemma has_prefix_append [simp]: "has_prefix (p @ s) p"
  by (simp add: has_prefix_def)

lemma has_suffix_append [simp]: "has_suffix (s @ p) p"
  by (simp add: has_suffix_def)

lemma trim_suffix_append [simp]: "trim_suffix (s @ p) p = s"
  by (simp add: trim_suffix_def)

lemma contains_any_iff: "contains_any s cs \<longleftrightarrow> set s \<inter> set cs \<noteq> {}"
  by (auto simp: contains_any_def list_ex_iff)

lemma contains_sub_Nil [simp]: "contains_sub s []"
  by (cases s) auto

lemma contains_sub_iff: "contains_sub s p \<longleftrightarrow> (\<exists>a b. s = a @ p @ b)"
proof (induction s)
  case Nil
  then show ?case by auto
next
  case (Cons c s)
  have "(\<exists>a b. c # s = a @ p @ b) \<longleftrightarrow> (\<exists>b. c # s = p @ b) \<or> (\<exists>a b. s = a @ p @ b)"
    by (metis append_Cons append_Nil list.inject neq_Nil_conv)
  with Cons.IH show ?case by (simp add: has_prefix_iff)
qed

lemma index_byte_Some: "index_byte s c = Some i \<Longrightarrow> i < length s \<and> s ! i = c \<and> c \<notin> set (take i s)"
  by (induction s arbitrary: i) (auto split: if_splits)

lemma index_byte_None: "index_byte s c = None \<longleftrightarrow> c \<notin> set s"
  by (induction s) auto

lemma index_byte_append: "c \<notin> set a \<Longrightarrow> index_byte (a @ c # b) c = Some (length a)"
  by (induction a) auto

section \<open>Case\<close>

definition lower_char :: "char \<Rightarrow> char" where
  [go_defs]: "lower_char c =
     (let n = of_char c :: nat in if 65 \<le> n \<and> n \<le> 90 then char_of (n + 32) else c)"

definition upper_char :: "char \<Rightarrow> char" where
  [go_defs]: "upper_char c =
     (let n = of_char c :: nat in if 97 \<le> n \<and> n \<le> 122 then char_of (n - 32) else c)"

definition to_lower :: "string \<Rightarrow> string" where
  [go_defs]: "to_lower = map lower_char"

definition to_upper :: "string \<Rightarrow> string" where
  [go_defs]: "to_upper = map upper_char"

definition equal_fold :: "string \<Rightarrow> string \<Rightarrow> bool" where
  [go_defs]: "equal_fold a b \<longleftrightarrow> to_lower a = to_lower b"

lemma equal_fold_refl [simp]: "equal_fold a a"
  by (simp add: equal_fold_def)

section \<open>White space\<close>

text \<open>The UTF-8 encodings of the runes for which \<open>unicode.IsSpace\<close> holds.\<close>

definition space_runes :: "string list" where
  "space_runes = map (map char_of)
     [[9], [10], [11], [12], [13], [32], [194, 133], [194, 160], [225, 154, 128],
      [226, 128, 128], [226, 128, 129], [226, 128, 130], [226, 128, 131], [226, 128, 132],
      [226, 128, 133], [226, 128, 134], [226, 128, 135], [226, 128, 136], [226, 128, 137],
      [226, 128, 138], [226, 128, 168], [226, 128, 169], [226, 128, 175], [226, 129, 159],
      [227, 128, 128 :: nat]]"

definition ascii_space :: "char \<Rightarrow> bool" where
  [go_defs]: "ascii_space c \<longleftrightarrow> of_char c \<in> {9, 10, 11, 12, 13, 32 :: nat}"

text \<open>The length of the white-space rune at the head (at the end) of a string, 0 if none.\<close>

definition space_head :: "string \<Rightarrow> nat" where
  "space_head s = (case find (has_prefix s) space_runes of None \<Rightarrow> 0 | Some r \<Rightarrow> length r)"

definition space_last :: "string \<Rightarrow> nat" where
  "space_last s = (case find (has_suffix s) space_runes of None \<Rightarrow> 0 | Some r \<Rightarrow> length r)"

lemma space_head_le: "space_head s \<le> length s"
proof (cases "find (has_prefix s) space_runes")
  case None
  then show ?thesis by (simp add: space_head_def)
next
  case (Some r)
  then have "has_prefix s r" by (auto simp: find_Some_iff)
  with Some show ?thesis by (auto simp: space_head_def has_prefix_iff)
qed

lemma space_last_le: "space_last s \<le> length s"
proof (cases "find (has_suffix s) space_runes")
  case None
  then show ?thesis by (simp add: space_last_def)
next
  case (Some r)
  then have "has_suffix s r" by (auto simp: find_Some_iff)
  with Some show ?thesis by (auto simp: space_last_def has_suffix_iff)
qed

function trim_left :: "string \<Rightarrow> string" where
  "trim_left s = (if space_head s = 0 then s else trim_left (drop (space_head s) s))"
  by pat_completeness auto
termination
proof (relation "measure length")
  fix s :: string
  assume "space_head s \<noteq> 0"
  with space_head_le [of s] show "(drop (space_head s) s, s) \<in> measure length" by auto
qed simp

function trim_right :: "string \<Rightarrow> string" where
  "trim_right s = (if space_last s = 0 then s else trim_right (take (length s - space_last s) s))"
  by pat_completeness auto
termination
proof (relation "measure length")
  fix s :: string
  assume "space_last s \<noteq> 0"
  with space_last_le [of s] show "(take (length s - space_last s) s, s) \<in> measure length" by auto
qed simp

declare trim_left.simps [simp del] trim_right.simps [simp del]

definition trim_space :: "string \<Rightarrow> string" where
  "trim_space s = trim_right (trim_left s)"

lemma trim_left_id: "space_head s = 0 \<Longrightarrow> trim_left s = s"
  by (subst trim_left.simps) simp

lemma trim_right_id: "space_last s = 0 \<Longrightarrow> trim_right s = s"
  by (subst trim_right.simps) simp

lemma trim_space_id: "space_head s = 0 \<Longrightarrow> space_last s = 0 \<Longrightarrow> trim_space s = s"
  by (simp add: trim_space_def trim_left_id trim_right_id)

lemma trim_right_idem [simp]: "trim_right (trim_right s) = trim_right s"
  by (induction s rule: trim_right.induct) (metis trim_right.simps)

lemma space_last_trim_right: "space_last (trim_right s) = 0"
  by (induction s rule: trim_right.induct) (metis trim_right.simps)

lemma set_trim_left: "set (trim_left s) \<subseteq> set s"
proof (induction s rule: trim_left.induct)
  case (1 s)
  show ?case
  proof (cases "space_head s = 0")
    case True
    then show ?thesis by (subst trim_left.simps) simp
  next
    case False
    with 1 have "set (trim_left (drop (space_head s) s)) \<subseteq> set (drop (space_head s) s)" by blast
    also have "\<dots> \<subseteq> set s" by (rule set_drop_subset)
    finally show ?thesis using False by (subst trim_left.simps) simp
  qed
qed

lemma set_trim_right: "set (trim_right s) \<subseteq> set s"
proof (induction s rule: trim_right.induct)
  case (1 s)
  show ?case
  proof (cases "space_last s = 0")
    case True
    then show ?thesis by (subst trim_right.simps) simp
  next
    case False
    with 1 have "set (trim_right (take (length s - space_last s) s)) \<subseteq> set (take (length s - space_last s) s)"
      by blast
    also have "\<dots> \<subseteq> set s" by (rule set_take_subset)
    finally show ?thesis using False by (subst trim_right.simps) simp
  qed
qed

lemma set_trim_space: "set (trim_space s) \<subseteq> set s"
  using set_trim_left set_trim_right unfolding trim_space_def by blast

text \<open>An ASCII byte that is no white space at both ends: nothing to trim.\<close>

definition plain_edge :: "char \<Rightarrow> bool" where
  "plain_edge c \<longleftrightarrow> (of_char c :: nat) < 128 \<and> \<not> ascii_space c"

lemma space_runes_shape:
  "r \<in> set space_runes \<Longrightarrow> r \<noteq> [] \<and> \<not> plain_edge (hd r) \<and> \<not> plain_edge (last r)"
  by (auto simp: space_runes_def plain_edge_def ascii_space_def)

lemma space_head_plain: "plain_edge (hd s) \<Longrightarrow> space_head s = 0"
proof -
  assume e: "plain_edge (hd s)"
  have "\<not> has_prefix s r" if "r \<in> set space_runes" for r
    using space_runes_shape [OF that] e by (cases r) (auto simp: has_prefix_iff)
  then have "find (has_prefix s) space_runes = None" by (auto simp: find_None_iff)
  then show ?thesis by (simp add: space_head_def)
qed

lemma space_last_plain: "s \<noteq> [] \<Longrightarrow> plain_edge (last s) \<Longrightarrow> space_last s = 0"
proof -
  assume e: "s \<noteq> []" "plain_edge (last s)"
  have "\<not> has_suffix s r" if "r \<in> set space_runes" for r
    using space_runes_shape [OF that] e by (auto simp: has_suffix_iff)
  then have "find (has_suffix s) space_runes = None" by (auto simp: find_None_iff)
  then show ?thesis by (simp add: space_last_def)
qed

lemma trim_space_plain [simp]: "s \<noteq> [] \<Longrightarrow> plain_edge (hd s) \<Longrightarrow> plain_edge (last s) \<Longrightarrow> trim_space s = s"
  by (intro trim_space_id space_head_plain space_last_plain)

lemma trim_space_Nil [simp]: "trim_space [] = []"
  using space_head_le [of "[]"] space_last_le [of "[]"] by (intro trim_space_id) simp_all

text \<open>\<open>strings.Fields\<close>: the maximal runs without white space.\<close>

fun str_fields_aux :: "string \<Rightarrow> nat \<Rightarrow> string \<Rightarrow> string list" where
  "str_fields_aux [] _ cur = (if cur = [] then [] else [rev cur])"
| "str_fields_aux (c # s) (Suc k) cur = str_fields_aux s k cur"
| "str_fields_aux (c # s) 0 cur =
     (case space_head (c # s) of
        0 \<Rightarrow> str_fields_aux s 0 (c # cur)
      | Suc k \<Rightarrow> (if cur = [] then [] else [rev cur]) @ str_fields_aux s k [])"

definition str_fields :: "string \<Rightarrow> string list" where
  [go_defs]: "str_fields s = str_fields_aux s 0 []"

section \<open>Splitting and joining\<close>

fun split_char :: "char \<Rightarrow> string \<Rightarrow> string list" where
  "split_char c [] = [[]]"
| "split_char c (x # s) =
     (if x = c then [] # split_char c s
      else (case split_char c s of [] \<Rightarrow> [[x]] | p # ps \<Rightarrow> (x # p) # ps))"

fun join :: "string list \<Rightarrow> string \<Rightarrow> string" where
  "join [] sep = []"
| "join [s] sep = s"
| "join (s # t # ts) sep = s @ sep @ join (t # ts) sep"

lemma split_char_nonempty [simp]: "split_char c s \<noteq> []"
  by (cases s) (auto split: list.splits)

lemma join_split: "join (split_char c s) [c] = s"
proof (induction s)
  case Nil
  then show ?case by simp
next
  case (Cons x s)
  then show ?case
    by (cases "split_char c s"; cases "tl (split_char c s)") (auto split: list.splits)
qed

lemma split_char_free: "c \<notin> set s \<Longrightarrow> split_char c s = [s]"
  by (induction s) auto

lemma split_char_append: "c \<notin> set a \<Longrightarrow> split_char c (a @ c # b) = a # split_char c b"
  by (induction a) auto

lemma split_join:
  "ps \<noteq> [] \<Longrightarrow> \<forall>p \<in> set ps. c \<notin> set p \<Longrightarrow> split_char c (join ps [c]) = ps"
proof (induction ps "[c]" rule: join.induct)
  case (2 s)
  then show ?case by (simp add: split_char_free)
next
  case (3 s t ts)
  then show ?case by (simp add: split_char_append)
qed simp

text \<open>Joining with a separator that occurs in no part is injective on lists of one length.\<close>

lemma join_inj:
  assumes "join ps [c] = join qs [c]" and "ps \<noteq> []" and "qs \<noteq> []"
    and "\<forall>p \<in> set ps. c \<notin> set p" and "\<forall>q \<in> set qs. c \<notin> set q"
  shows "ps = qs"
  by (metis assms split_join)

section \<open>Numbers\<close>

definition is_digit :: "char \<Rightarrow> bool" where
  [go_defs]: "is_digit c \<longleftrightarrow> 48 \<le> (of_char c :: nat) \<and> (of_char c :: nat) \<le> 57"

definition digits_value :: "string \<Rightarrow> int" where
  [go_defs]: "digits_value s = foldl (\<lambda>n c. n * 10 + (of_char c - 48)) 0 s"

text \<open>\<open>strconv.Atoi\<close>: an optional sign, decimal digits, and a range check against \<open>int\<close>.\<close>

definition atoi :: "string \<Rightarrow> int option" where
  [go_defs]: "atoi s =
     (let neg = has_prefix s ''-'';
          ds = (if has_prefix s ''-'' \<or> has_prefix s ''+'' then drop 1 s else s);
          n = (if neg then - digits_value ds else digits_value ds)
      in if ds = [] \<or> \<not> list_all is_digit ds then None
         else if n < min_duration \<or> n > max_int64 then None else Some n)"

end
