(* ===== verification/Contract.thy ===== *)
theory Contract
  imports Go_Strings
begin

text \<open>
  The data of package \<open>pkg/skil\<close> that the runtime enforcement works on: the trust lattice,
  the effect classes, an operation, a decision record (file \<open>enforcement.go\<close>) and the skill
  contract with its capability sections and resource limits (file \<open>contracts.go\<close>).
  A Go \<open>int\<close> or \<open>int64\<close> is an \<open>int64\<close>; a string-typed enumeration stays a string, because
  the code takes any string there and its \<open>default\<close> branches decide on the others.
\<close>

section \<open>Trust levels and effects\<close>

definition TrustUntrusted :: string where [go_defs]: "TrustUntrusted = ''UNTRUSTED''"
definition TrustObserved :: string where [go_defs]: "TrustObserved = ''OBSERVED''"
definition TrustVerified :: string where [go_defs]: "TrustVerified = ''VERIFIED''"
definition TrustAuthorized :: string where [go_defs]: "TrustAuthorized = ''AUTHORIZED''"
definition TrustAttested :: string where [go_defs]: "TrustAttested = ''ATTESTED''"

definition trust_rank :: "string \<Rightarrow> int" where
  [go_defs]: "trust_rank level =
     (if level = TrustUntrusted then 1
      else if level = TrustObserved then 2
      else if level = TrustVerified then 3
      else if level = TrustAuthorized then 4
      else if level = TrustAttested then 5
      else 0)"

definition EffectIrreversibleWrite :: string where
  [go_defs]: "EffectIrreversibleWrite = ''IRREVERSIBLE_WRITE''"
definition EffectExternalSideEffect :: string where
  [go_defs]: "EffectExternalSideEffect = ''EXTERNAL_SIDE_EFFECT''"
definition EffectDestructive :: string where
  [go_defs]: "EffectDestructive = ''DESTRUCTIVE''"

section \<open>Operations and decisions\<close>

record operation =
  op_capability :: string
  op_target :: string
  op_command :: "string list"
  op_external :: bool
  op_destructive :: bool
  op_confirmed :: bool
  op_network_bytes :: int64
  op_digest :: string
  op_model_tokens :: int64
  op_retry_count :: int64
  op_delegation_depth :: int64
  op_recursion_depth :: int64
  op_mutation :: bool
  op_source_trust :: string
  op_required_trust :: string
  op_trust_verified :: bool
  op_effect :: string
  op_idempotent :: bool

text \<open>The zero value of the Go struct.\<close>

definition zero_operation :: operation where
  [go_defs]: "zero_operation =
     \<lparr>op_capability = [], op_target = [], op_command = [], op_external = False,
      op_destructive = False, op_confirmed = False, op_network_bytes = 0, op_digest = [],
      op_model_tokens = 0, op_retry_count = 0, op_delegation_depth = 0, op_recursion_depth = 0,
      op_mutation = False, op_source_trust = [], op_required_trust = [], op_trust_verified = False,
      op_effect = [], op_idempotent = False\<rparr>"

text \<open>
  The reason of a record is the error value itself (\<open>None\<close> for an allowed operation); the
  program stores its rendering as text.
\<close>

record 'e decision_record =
  dr_timestamp :: time
  dr_capability :: string
  dr_target :: string
  dr_arguments_digest :: string
  dr_decision :: string
  dr_reason :: "'e option"
  dr_external :: bool
  dr_destructive :: bool
  dr_artifact_digest :: string
  dr_contract_digest :: string

section \<open>The skill contract\<close>

record skill_identity =
  si_name :: string
  si_version :: string
  si_description :: string

record reviewed_dependency =
  rd_identifier :: string
  rd_sha256 :: string

record compatibility =
  co_agents :: "string list"
  co_platforms :: "string list"
  co_min_version :: string

record security_posture =
  sp_requires_network :: bool
  sp_requires_secrets :: bool
  sp_writes_files :: bool
  sp_runs_commands :: bool

record filesystem_capability =
  fs_read :: "string list"
  fs_write :: "string list"
  fs_delete :: "string list"

record network_capability =
  net_inbound :: bool
  net_outbound :: bool
  net_hosts :: "string list"

record command_capability =
  cmd_execute :: bool
  cmd_allow :: "string list"

record secret_capability =
  sec_read :: "string list"
  sec_expose :: bool

record tool_capability =
  tool_allow :: "string list"
  tool_deny :: "string list"

record mcp_capability =
  mcp_servers :: "string list"
  mcp_tools :: "string list"

record agent_capability =
  ag_autonomous_actions :: bool
  ag_external_side_effects :: bool
  ag_confirm_destructive :: bool
  ag_confirm_external :: bool
  ag_external_targets :: "string list"

record resource_limits =
  max_runtime_seconds :: int64
  max_memory_mb :: int64
  max_network_bytes :: int64
  max_tool_calls :: int64
  max_model_tokens :: int64
  max_retries :: int64
  max_delegation_depth :: int64
  max_recursion_depth :: int64
  max_external_mutations :: int64

record capabilities =
  cap_filesystem :: filesystem_capability
  cap_network :: network_capability
  cap_commands :: command_capability
  cap_secrets :: secret_capability
  cap_environment_read :: "string list"
  cap_tools :: tool_capability
  cap_mcp :: mcp_capability
  cap_persistence :: bool
  cap_agent :: agent_capability
  cap_resources :: resource_limits

record skill_contract =
  sc_version :: int64
  sc_skill :: skill_identity
  sc_owner :: string
  sc_entrypoint :: string
  sc_compatibility :: "compatibility option"
  sc_security :: "security_posture option"
  sc_capabilities :: capabilities
  sc_reviewed_closure :: "reviewed_dependency list"
  sc_reviewed_root_digest :: string
  sc_reviewed_closure_digest :: string

text \<open>The zero values of the structs: a contract that grants nothing and limits nothing.\<close>

definition zero_limits :: resource_limits where
  [go_defs]: "zero_limits =
     \<lparr>max_runtime_seconds = 0, max_memory_mb = 0, max_network_bytes = 0, max_tool_calls = 0,
      max_model_tokens = 0, max_retries = 0, max_delegation_depth = 0, max_recursion_depth = 0,
      max_external_mutations = 0\<rparr>"

definition zero_capabilities :: capabilities where
  [go_defs]: "zero_capabilities =
     \<lparr>cap_filesystem = \<lparr>fs_read = [], fs_write = [], fs_delete = []\<rparr>,
      cap_network = \<lparr>net_inbound = False, net_outbound = False, net_hosts = []\<rparr>,
      cap_commands = \<lparr>cmd_execute = False, cmd_allow = []\<rparr>,
      cap_secrets = \<lparr>sec_read = [], sec_expose = False\<rparr>,
      cap_environment_read = [],
      cap_tools = \<lparr>tool_allow = [], tool_deny = []\<rparr>,
      cap_mcp = \<lparr>mcp_servers = [], mcp_tools = []\<rparr>,
      cap_persistence = False,
      cap_agent = \<lparr>ag_autonomous_actions = False, ag_external_side_effects = False,
        ag_confirm_destructive = False, ag_confirm_external = False, ag_external_targets = []\<rparr>,
      cap_resources = zero_limits\<rparr>"

definition zero_contract :: skill_contract where
  [go_defs]: "zero_contract =
     \<lparr>sc_version = 0, sc_skill = \<lparr>si_name = [], si_version = [], si_description = []\<rparr>,
      sc_owner = [], sc_entrypoint = [], sc_compatibility = None, sc_security = None, sc_capabilities = zero_capabilities,
      sc_reviewed_closure = [], sc_reviewed_root_digest = [], sc_reviewed_closure_digest = []\<rparr>"

section \<open>The trust lattice\<close>

lemma trust_rank_bounds: "0 \<le> trust_rank l" "trust_rank l \<le> 5"
  by (simp_all add: trust_rank_def)

lemma trust_rank_inj:
  "trust_rank a = trust_rank b \<Longrightarrow> trust_rank a \<noteq> 0 \<Longrightarrow> a = b"
  by (simp add: trust_rank_def split: if_splits)

end
