(* ===== verification/Go_Path.thy ===== *)
theory Go_Path
  imports Go_Strings
begin

text \<open>
  The operations of Go's package \<open>path/filepath\<close> that the program uses, on a system whose
  separator is the slash: \<open>IsAbs\<close>, \<open>Clean\<close>, \<open>Dir\<close>, \<open>Base\<close>, \<open>Join\<close> and \<open>Match\<close>
  (\<open>ToSlash\<close> and \<open>FromSlash\<close> are the identity there), with the UTF-8 decoding that
  \<open>Match\<close> does for \<open>?\<close> and for character classes.
\<close>

section \<open>Lexical paths\<close>

definition is_abs :: "string \<Rightarrow> bool" where
  [go_defs]: "is_abs p = has_prefix p ''/''"

text \<open>The elements of a cleaned path, innermost first: \<open>..\<close> removes the element before it.\<close>

fun clean_elems :: "bool \<Rightarrow> string list \<Rightarrow> string list \<Rightarrow> string list" where
  "clean_elems rooted [] out = out"
| "clean_elems rooted (e # es) out =
     (if e = [] \<or> e = ''.'' then clean_elems rooted es out
      else if e = ''..'' then
        (case out of
           [] \<Rightarrow> clean_elems rooted es (if rooted then [] else [''..''])
         | x # xs \<Rightarrow> if x = ''..'' then clean_elems rooted es (''..'' # out) else clean_elems rooted es xs)
      else clean_elems rooted es (e # out))"

definition path_clean :: "string \<Rightarrow> string" where
  [go_defs]: "path_clean p =
     (let rooted = is_abs p;
          body = join (rev (clean_elems rooted (split_char (CHR ''/'') p) [])) ''/'';
          r = (if rooted then CHR ''/'' # body else body)
      in if r = [] then ''.'' else r)"

text \<open>Everything up to the last slash, and what follows it.\<close>

definition path_split :: "string \<Rightarrow> string \<times> string" where
  [go_defs]: "path_split p =
     (let f = rev (takeWhile (\<lambda>c. c \<noteq> CHR ''/'') (rev p)) in (take (length p - length f) p, f))"

definition path_dir :: "string \<Rightarrow> string" where
  [go_defs]: "path_dir p = path_clean (fst (path_split p))"

definition strip_slashes :: "string \<Rightarrow> string" where
  [go_defs]: "strip_slashes p = rev (dropWhile (\<lambda>c. c = CHR ''/'') (rev p))"

definition path_base :: "string \<Rightarrow> string" where
  [go_defs]: "path_base p =
     (if p = [] then ''.''
      else let q = strip_slashes p in if q = [] then ''/'' else snd (path_split q))"

definition path_join2 :: "string \<Rightarrow> string \<Rightarrow> string" where
  [go_defs]: "path_join2 a b =
     (if a = [] \<and> b = [] then [] else if a = [] then path_clean b else path_clean (a @ ''/'' @ b))"

text \<open>Without \<open>..\<close> elements, cleaning only drops the empty elements and the single dots.\<close>

lemma clean_elems_plain:
  "''..'' \<notin> set es \<Longrightarrow> clean_elems r es out = rev (filter (\<lambda>e. e \<noteq> [] \<and> e \<noteq> ''.'') es) @ out"
proof (induction es arbitrary: out)
  case Nil
  then show ?case by simp
next
  case (Cons e es)
  then have e: "e \<noteq> ''..''" and es: "''..'' \<notin> set es" by auto
  show ?case
  proof (cases "e = [] \<or> e = ''.''")
    case True
    then show ?thesis by (simp only: clean_elems.simps Cons.IH [OF es] if_True) auto
  next
    case False
    then have "clean_elems r (e # es) out = clean_elems r es (e # out)"
      using e by (simp only: clean_elems.simps if_False)
    with False show ?thesis by (simp only: Cons.IH [OF es] filter.simps) simp
  qed
qed

section \<open>UTF-8 decoding\<close>

definition byte_val :: "char \<Rightarrow> nat" where
  [go_defs]: "byte_val c = of_char c"

definition cont_byte :: "nat \<Rightarrow> bool" where
  [go_defs]: "cont_byte n \<longleftrightarrow> 128 \<le> n \<and> n \<le> 191"

text \<open>The first rune of a string and its width; an invalid encoding is \<open>RuneError\<close>, width 1.\<close>

definition decode_rune :: "string \<Rightarrow> nat \<times> nat" where
  [go_defs]: "decode_rune s =
     (let b = map byte_val (take 4 s) in
      case b of
        [] \<Rightarrow> (65533, 0)
      | b0 # r \<Rightarrow>
          if b0 < 128 then (b0, 1)
          else if 194 \<le> b0 \<and> b0 \<le> 223 \<and> length r \<ge> 1 \<and> cont_byte (r ! 0)
            then ((b0 mod 32) * 64 + r ! 0 mod 64, 2)
          else if 224 \<le> b0 \<and> b0 \<le> 239 \<and> length r \<ge> 2 \<and> cont_byte (r ! 0) \<and> cont_byte (r ! 1)
                \<and> (b0 = 224 \<longrightarrow> 160 \<le> r ! 0) \<and> (b0 = 237 \<longrightarrow> r ! 0 \<le> 159)
            then ((b0 mod 16) * 4096 + (r ! 0 mod 64) * 64 + r ! 1 mod 64, 3)
          else if 240 \<le> b0 \<and> b0 \<le> 244 \<and> length r \<ge> 3 \<and> cont_byte (r ! 0) \<and> cont_byte (r ! 1) \<and> cont_byte (r ! 2)
                \<and> (b0 = 240 \<longrightarrow> 144 \<le> r ! 0) \<and> (b0 = 244 \<longrightarrow> r ! 0 \<le> 143)
            then ((b0 mod 8) * 262144 + (r ! 0 mod 64) * 4096 + (r ! 1 mod 64) * 64 + r ! 2 mod 64, 4)
          else (65533, 1))"

lemma decode_rune_width: "s \<noteq> [] \<Longrightarrow> 0 < snd (decode_rune s)"
  by (cases s) (auto simp: decode_rune_def Let_def)

section \<open>Match\<close>

text \<open>\<open>getEsc\<close>: one possibly escaped rune of a character class, \<open>None\<close> for a bad pattern.\<close>

definition get_esc :: "string \<Rightarrow> (nat \<times> string) option" where
  [go_defs]: "get_esc chunk =
     (if chunk = [] \<or> hd chunk = CHR ''-'' \<or> hd chunk = CHR '']'' then None
      else let chunk' = (if hd chunk = CHR 0x5C then tl chunk else chunk) in
        if chunk' = [] then None
        else let (r, n) = decode_rune chunk'; rest = drop n chunk' in
          if r = 65533 \<and> n = 1 then None
          else if rest = [] then None
          else Some (r, rest))"

lemma get_esc_shorter: "get_esc c = Some (r, d) \<Longrightarrow> length d < length c"
proof -
  assume a: "get_esc c = Some (r, d)"
  define c' where "c' = (if hd c = CHR 0x5C then tl c else c)"
  from a have c: "c \<noteq> []" and c': "c' \<noteq> []" and d: "d = drop (snd (decode_rune c')) c'"
    by (auto simp: get_esc_def c'_def Let_def split: if_splits prod.splits)
  from c' have "length d < length c'"
    using decode_rune_width [OF c'] d by simp
  also have "length c' \<le> length c" by (simp add: c'_def)
  finally show ?thesis .
qed

function match_ranges :: "string \<Rightarrow> nat \<Rightarrow> bool \<Rightarrow> bool \<Rightarrow> (string \<times> bool) option" where
  "match_ranges chunk r some m =
     (if chunk \<noteq> [] \<and> hd chunk = CHR '']'' \<and> some then Some (tl chunk, m)
      else case get_esc chunk of
        None \<Rightarrow> None
      | Some (lo, c1) \<Rightarrow>
          if hd c1 = CHR ''-'' then
            (case get_esc (tl c1) of
               None \<Rightarrow> None
             | Some (hi, c2) \<Rightarrow> match_ranges c2 r True (m \<or> (lo \<le> r \<and> r \<le> hi)))
          else match_ranges c1 r True (m \<or> lo = r))"
  by pat_completeness auto
termination
  by (relation "measure (\<lambda>(c, _). length c)") (fastforce dest: get_esc_shorter)+

declare match_ranges.simps [simp del]

lemma match_ranges_shorter: "match_ranges c r b m = Some (d, m') \<Longrightarrow> length d < length c"
proof (induction c r b m rule: match_ranges.induct)
  case (1 c r b m)
  show ?case
  proof (cases "c \<noteq> [] \<and> hd c = CHR '']'' \<and> b")
    case True
    with "1.prems" show ?thesis by (auto simp: match_ranges.simps [of c])
  next
    case False
    then obtain lo c1 where e1: "get_esc c = Some (lo, c1)"
      using "1.prems" by (auto simp: match_ranges.simps [of c] split: option.splits if_splits)
    show ?thesis
    proof (cases "hd c1 = CHR ''-''")
      case True
      then obtain hi c2 where e2: "get_esc (tl c1) = Some (hi, c2)"
        using "1.prems" False e1 by (auto simp: match_ranges.simps [of c] split: option.splits if_splits)
      have "length d < length c2"
        using "1.IH"(1) [OF False e1 refl True e2 refl] "1.prems" False e1 e2 True
        by (simp add: match_ranges.simps [of c] split: if_splits)
      with get_esc_shorter [OF e1] get_esc_shorter [OF e2] show ?thesis by simp
    next
      case nodash: False
      have "length d < length c1"
        using "1.IH"(2) [OF False e1 refl nodash] "1.prems" False e1 nodash
        by (simp add: match_ranges.simps [of c] split: if_splits)
      with get_esc_shorter [OF e1] show ?thesis by simp
    qed
  qed
qed

datatype chunk_result = Bad_Pattern | No_Match | Rest string

text \<open>\<open>matchChunk\<close>: after a failure the chunk is still checked for well-formedness.\<close>

function match_chunk :: "string \<Rightarrow> string \<Rightarrow> bool \<Rightarrow> chunk_result" where
  "match_chunk chunk s failed0 =
     (case chunk of
        [] \<Rightarrow> if failed0 then No_Match else Rest s
      | c # cs \<Rightarrow>
          let failed = (failed0 \<or> s = []) in
          if c = CHR ''['' then
            (let (r, n) = (if failed then (0, 0) else decode_rune s);
                 negated = (cs \<noteq> [] \<and> hd cs = CHR ''^'');
                 cs' = (if negated then tl cs else cs)
             in case match_ranges cs' r False False of
                  None \<Rightarrow> Bad_Pattern
                | Some (rest, m) \<Rightarrow> match_chunk rest (drop n s) (failed \<or> m = negated))
          else if c = CHR ''?'' then
            (if failed then match_chunk cs s True
             else match_chunk cs (drop (snd (decode_rune s)) s) (hd s = CHR ''/''))
          else if c = CHR 0x5C then
            (case cs of
               [] \<Rightarrow> Bad_Pattern
             | d # ds \<Rightarrow> if failed then match_chunk ds s True else match_chunk ds (tl s) (d \<noteq> hd s))
          else if failed then match_chunk cs s True else match_chunk cs (tl s) (c \<noteq> hd s))"
  by pat_completeness auto
termination
proof (relation "measure (\<lambda>(c, _). length c)", goal_cases)
  case (2 chunk s failed0 c cs failed x r n negated cs' y rest m)
  then have "length rest < length cs'" using match_ranges_shorter by blast
  moreover have "length cs' \<le> length cs" using 2 by simp
  ultimately show ?case using 2 by simp
qed auto

declare match_chunk.simps [simp del]

text \<open>\<open>scanChunk\<close>: the number of bytes before the next star outside a character class.\<close>

fun scan_len :: "string \<Rightarrow> bool \<Rightarrow> nat" where
  "scan_len [] inr = 0"
| "scan_len (c # s) inr =
     (if c = CHR 0x5C then (case s of [] \<Rightarrow> 1 | d # s' \<Rightarrow> 2 + scan_len s' inr)
      else if c = CHR ''['' then Suc (scan_len s True)
      else if c = CHR '']'' then Suc (scan_len s False)
      else if c = CHR ''*'' \<and> \<not> inr then 0
      else Suc (scan_len s inr))"

definition scan_chunk :: "string \<Rightarrow> bool \<times> string \<times> string" where
  [go_defs]: "scan_chunk p =
     (let q = dropWhile (\<lambda>c. c = CHR ''*'') p; i = scan_len q False
      in (q \<noteq> p, take i q, drop i q))"

text \<open>
  The search of \<open>Match\<close> after a star: \<open>Some t\<close> is the rest of the name to continue with;
  the flag says that the pattern is exhausted, when the rest has to be empty.
\<close>

fun star_search :: "string \<Rightarrow> bool \<Rightarrow> string \<Rightarrow> string option" where
  "star_search chunk is_last [] = None"
| "star_search chunk is_last (c # s) =
     (if c = CHR ''/'' then None
      else case match_chunk chunk s False of
        Bad_Pattern \<Rightarrow> None
      | Rest t \<Rightarrow> if is_last \<and> t \<noteq> [] then star_search chunk is_last s else Some t
      | No_Match \<Rightarrow> star_search chunk is_last s)"

lemma scan_len_le: "scan_len q b \<le> length q"
  by (induction q b rule: scan_len.induct) (auto split: list.splits)

lemma scan_len_pos: "q \<noteq> [] \<Longrightarrow> hd q \<noteq> CHR ''*'' \<Longrightarrow> 0 < scan_len q False"
  by (cases q) (auto split: list.splits)

lemma scan_chunk_shorter:
  assumes "p \<noteq> []" shows "length (snd (snd (scan_chunk p))) < length p"
proof -
  let ?q = "dropWhile (\<lambda>c. c = CHR ''*'') p"
  have le: "length ?q \<le> length p" by (rule length_dropWhile_le)
  show ?thesis
  proof (cases "?q = []")
    case True
    then show ?thesis using assms unfolding scan_chunk_def Let_def snd_conv by (simp only: True) simp
  next
    case False
    then have "0 < scan_len ?q False"
      using hd_dropWhile [OF False] by (intro scan_len_pos) auto
    then have "length ?q - scan_len ?q False < length ?q"
      using False by (metis diff_less length_greater_0_conv)
    also note le
    finally show ?thesis unfolding scan_chunk_def Let_def snd_conv length_drop .
  qed
qed

text \<open>
  \<open>path_match p s\<close> is the boolean result of \<open>filepath.Match(p, s)\<close>; it is false where Go
  also returns \<open>ErrBadPattern\<close>, as the program ignores that error.
\<close>

function path_match :: "string \<Rightarrow> string \<Rightarrow> bool" where
  "path_match pattern name =
     (if pattern = [] then name = []
      else let sc = scan_chunk pattern; star = fst sc; chunk = fst (snd sc); rest = snd (snd sc) in
        if star \<and> chunk = [] then CHR ''/'' \<notin> set name
        else let first = (case match_chunk chunk name False of
                            Rest t \<Rightarrow> if t = [] \<or> rest \<noteq> [] then Inl t else Inr True
                          | No_Match \<Rightarrow> Inr True
                          | Bad_Pattern \<Rightarrow> Inr False)
          in case first of
               Inl t \<Rightarrow> path_match rest t
             | Inr go_on \<Rightarrow>
                 if go_on \<and> star then
                   (case star_search chunk (rest = []) name of
                      None \<Rightarrow> False
                    | Some t \<Rightarrow> path_match rest t)
                 else False)"
  by pat_completeness auto
termination
  by (relation "measure (\<lambda>(p, _). length p)") (simp_all add: scan_chunk_shorter)

declare path_match.simps [simp del]

text \<open>A pattern without special bytes matches itself only.\<close>

definition plain_pattern :: "string \<Rightarrow> bool" where
  [go_defs]: "plain_pattern p \<longleftrightarrow> set p \<inter> set [CHR ''*'', CHR ''?'', CHR ''['', CHR 0x5C] = {}"

lemma scan_len_plain: "plain_pattern p \<Longrightarrow> scan_len p b = length p"
  by (induction p b rule: scan_len.induct) (auto simp: plain_pattern_def)

lemma match_chunk_plain:
  "plain_pattern p \<Longrightarrow> match_chunk p s failed =
     (if failed \<or> \<not> has_prefix s p then No_Match else Rest (drop (length p) s))"
proof (induction p arbitrary: s failed)
  case Nil
  then show ?case by (simp add: match_chunk.simps)
next
  case (Cons c p)
  then have "plain_pattern p" by (auto simp: plain_pattern_def)
  note IH = Cons.IH [OF this]
  have c: "c \<noteq> CHR ''*''" "c \<noteq> CHR ''?''" "c \<noteq> CHR ''[''" "c \<noteq> CHR 0x5C"
    using Cons.prems unfolding plain_pattern_def by auto
  have step: "match_chunk (c # p) s failed =
      (if failed \<or> s = [] then match_chunk p s True else match_chunk p (tl s) (c \<noteq> hd s))"
    using c by (simp only: match_chunk.simps [of "c # p"] list.case Let_def if_False)
  show ?case
    unfolding step IH by (cases s) (auto simp: has_prefix_def)
qed

lemma path_match_plain: "plain_pattern p \<Longrightarrow> path_match p s \<longleftrightarrow> s = p"
proof (cases "p = []")
  case True
  then show ?thesis by (simp add: path_match.simps)
next
  case False
  assume p: "plain_pattern p"
  from p False have "dropWhile (\<lambda>c. c = CHR ''*'') p = p"
    by (cases p) (auto simp: plain_pattern_def)
  with p have sc: "scan_chunk p = (False, p, [])"
    by (simp add: scan_chunk_def Let_def scan_len_plain)
  have "path_match p s \<longleftrightarrow> has_prefix s p \<and> drop (length p) s = []"
    using False by (simp add: path_match.simps [of p] path_match.simps [of "[]"] sc match_chunk_plain [OF p] Let_def)
  also have "\<dots> \<longleftrightarrow> s = p" by (auto simp: has_prefix_def)
  finally show ?thesis .
qed


text \<open>A plain prefix followed by a star: the rest must stay within one path element.\<close>

lemma scan_len_plain_star: "plain_pattern p \<Longrightarrow> scan_len (p @ CHR ''*'' # q) False = length p"
  by (induction p) (auto simp: plain_pattern_def)

lemma path_match_plain_stars:
  assumes "plain_pattern p" "p \<noteq> []"
  shows "path_match (p @ ''**'') s \<longleftrightarrow> has_prefix s p \<and> CHR ''/'' \<notin> set (drop (length p) s)"
proof -
  have "dropWhile (\<lambda>c. c = CHR ''*'') (p @ ''**'') = p @ ''**''"
    using assms by (cases p) (auto simp: plain_pattern_def)
  then have sc: "scan_chunk (p @ ''**'') = (False, p, ''**'')"
    using scan_len_plain_star [OF assms(1), of "''*''"] by (simp add: scan_chunk_def Let_def)
  have stars: "path_match ''**'' t \<longleftrightarrow> CHR ''/'' \<notin> set t" for t
    by (subst path_match.simps) (simp add: scan_chunk_def)
  show ?thesis
    using assms(2)
    by (subst path_match.simps) (simp add: sc match_chunk_plain [OF assms(1)] stars Let_def)
qed

end
