(* ===== verification/Meter.thy ===== *)
theory Meter
  imports Prelude
begin

text \<open>
  The contract of a cumulative budget: a step may leave the counter alone or add the cost of
  its argument, and it adds only while the sum stays within a positive limit.  The law
  speaks of counters that have not left the 64-bit range: the providers add with wrap-around.
\<close>

locale budget_meter =
  fixes step :: "'o \<Rightarrow> 's \<Rightarrow> 's"
    and used :: "'s \<Rightarrow> int"
    and cost :: "'o \<Rightarrow> int"
    and limit :: "'s \<Rightarrow> int"
  assumes limit_kept: "limit (step x s) = limit s"
    and used_step: "0 \<le> used s \<Longrightarrow> used s + cost x \<le> max_int64 \<Longrightarrow>
      used (step x s) = used s \<or>
      (used (step x s) = used s + cost x \<and> 0 \<le> cost x \<and>
       (0 < limit s \<longrightarrow> used s \<le> limit s \<longrightarrow> used s + cost x \<le> limit s))"
begin

lemma limit_fold: "limit (fold step xs s) = limit s"
  by (induction xs arbitrary: s) (simp_all add: limit_kept)

lemma step_bounded:
  assumes "0 < limit s" "0 \<le> used s" "used s \<le> limit s" "limit s + cost x \<le> max_int64"
  shows "0 \<le> used (step x s) \<and> used (step x s) \<le> limit s"
  using used_step [of s x] assms by auto

text \<open>No history exceeds a positive limit if the limit plus any single cost fits in 64 bits.\<close>

lemma fold_bounded:
  assumes "0 < limit s" "0 \<le> used s" "used s \<le> limit s"
    and "\<forall>x \<in> set xs. limit s + cost x \<le> max_int64"
  shows "0 \<le> used (fold step xs s) \<and> used (fold step xs s) \<le> limit s"
  using assms
proof (induction xs arbitrary: s)
  case Nil
  then show ?case by simp
next
  case (Cons x xs)
  from Cons.prems have "0 \<le> used (step x s) \<and> used (step x s) \<le> limit s"
    by (intro step_bounded) auto
  with Cons.prems Cons.IH [of "step x s"] show ?case by (simp add: limit_kept)
qed

text \<open>The counter never decreases on such a history.\<close>

lemma fold_mono:
  assumes "0 < limit s" "0 \<le> used s" "used s \<le> limit s"
    and "\<forall>x \<in> set xs. limit s + cost x \<le> max_int64"
  shows "used s \<le> used (fold step xs s)"
  using assms
proof (induction xs arbitrary: s)
  case Nil
  then show ?case by simp
next
  case (Cons x xs)
  from Cons.prems have "0 \<le> used (step x s) \<and> used (step x s) \<le> limit s"
    by (intro step_bounded) auto
  moreover from Cons.prems have "used s \<le> used (step x s)"
    using used_step [of s x] by auto
  ultimately show ?case using Cons.prems Cons.IH [of "step x s"] by (simp add: limit_kept)
qed

end

end
