(* ===== verification/Enforcer.thy ===== *)
theory Enforcer
  imports Contract Go_Path Meter
begin

text \<open>
  The runtime enforcer, \<open>pkg/enforcement/enforcer.go\<close>: the guards of \<open>Authorize\<close> in their
  order, the cumulative budgets, the capability table, the matching of paths, hosts and
  commands, and the decision log.

  The state is the Go struct without its mutex: every method holds it from its first to its
  last statement, so a concurrent history is a sequence of the steps modelled here.  The
  clock, SHA-256 in hexadecimal and the JSON encoding of a contract are parameters.  The authorizer of
  operations is a function, its answer at the call: what a gateway behind it changes is in \<open>Gateway\<close>.
\<close>

section \<open>Errors and state\<close>

text \<open>One constructor per \<open>errors.New\<close> or \<open>fmt.Errorf\<close> of the file.\<close>

datatype enf_error =
    RootDigestMismatch string string
  | ClosureDigestMismatch string string
  | CapabilityRequired
  | MaxRuntimeExceeded
  | DestructiveUnconfirmed
  | ExternalUnconfirmed
  | ExternalNotAllowed
  | MaxRetriesExceeded
  | MaxDelegationExceeded
  | MaxRecursionExceeded
  | TrustBoundaryViolation string string
  | NonIdempotentRetry string
  | NotAllowedByContract string string
  | PrivilegeEscalation
  | RuntimeEscape
  | EnforcementBypass
  | GoalBoundary
  | NotInReviewedClosure string
  | UnknownCapability string
  | DigestNotReported string
  | ToctouViolation string string string
  | AuthorizerNotConfigured
  | AuthorizerRefused string
  | MaxToolCallsExceeded
  | NegativeNetworkBytes
  | NetworkBudgetExceeded
  | NegativeModelTokens
  | TokenBudgetExceeded
  | MutationBudgetExceeded

record enforcer =
  en_contract :: skill_contract
  en_contract_digest :: string
  en_started :: time
  en_tool_calls :: int64
  en_network_bytes :: int64
  en_model_tokens :: int64
  en_external_mutations :: int64
  en_decisions :: "enf_error decision_record list"
  en_startup_error :: "enf_error option"
  en_op_authorizer :: "(operation \<Rightarrow> string option) option"
  en_require_op_auth :: bool

abbreviation limits_of :: "enforcer \<Rightarrow> resource_limits" where
  "limits_of e \<equiv> cap_resources (sc_capabilities (en_contract e))"

abbreviation agent_of :: "enforcer \<Rightarrow> agent_capability" where
  "agent_of e \<equiv> cap_agent (sc_capabilities (en_contract e))"

definition contract_digest :: "(string \<Rightarrow> string) \<Rightarrow> (skill_contract \<Rightarrow> string option) \<Rightarrow> skill_contract \<Rightarrow> string" where
  [go_defs]: "contract_digest sha json c = (case json c of None \<Rightarrow> [] | Some bytes \<Rightarrow> sha bytes)"

text \<open>Startup binds the measured root and closure digests to the pinned ones.\<close>

definition startup_check :: "skill_contract \<Rightarrow> string \<Rightarrow> string \<Rightarrow> enf_error option" where
  [go_defs]: "startup_check c root closure =
     (if sc_reviewed_root_digest c \<noteq> [] \<and> \<not> equal_fold (sc_reviewed_root_digest c) root
      then Some (RootDigestMismatch root (sc_reviewed_root_digest c))
      else if sc_reviewed_closure_digest c \<noteq> [] \<and> \<not> equal_fold (sc_reviewed_closure_digest c) closure
      then Some (ClosureDigestMismatch closure (sc_reviewed_closure_digest c))
      else None)"

definition new_with_assurance ::
    "(string \<Rightarrow> string) \<Rightarrow> (skill_contract \<Rightarrow> string option) \<Rightarrow> time \<Rightarrow> skill_contract \<Rightarrow> string \<Rightarrow> string \<Rightarrow> enforcer" where
  [go_defs]: "new_with_assurance sha json now c root closure =
     \<lparr>en_contract = c, en_contract_digest = contract_digest sha json c, en_started = now,
      en_tool_calls = 0, en_network_bytes = 0, en_model_tokens = 0, en_external_mutations = 0,
      en_decisions = [], en_startup_error = startup_check c root closure,
      en_op_authorizer = None, en_require_op_auth = False\<rparr>"

definition new_enforcer :: "(string \<Rightarrow> string) \<Rightarrow> (skill_contract \<Rightarrow> string option) \<Rightarrow> time \<Rightarrow> skill_contract \<Rightarrow> enforcer" where
  [go_defs]: "new_enforcer sha json now c = new_with_assurance sha json now c [] []"

definition with_operation_authorizer :: "enforcer \<Rightarrow> (operation \<Rightarrow> string option) option \<Rightarrow> bool \<Rightarrow> enforcer" where
  [go_defs]: "with_operation_authorizer e auth required =
     e\<lparr>en_op_authorizer := auth, en_require_op_auth := required\<rparr>"

definition arguments_digest :: "(string \<Rightarrow> string) \<Rightarrow> operation \<Rightarrow> string" where
  [go_defs]: "arguments_digest sha p =
     (if op_command p = [] \<and> op_target p = [] then []
      else sha (join (op_target p # op_command p) [CHR 0x00]))"

text \<open>\<open>record\<close>: append one decision and hand the error back.\<close>

definition record_decision ::
    "(string \<Rightarrow> string) \<Rightarrow> time \<Rightarrow> enforcer \<Rightarrow> operation \<Rightarrow> enf_error option \<Rightarrow> enforcer \<times> enf_error option" where
  [go_defs]: "record_decision sha now e p err =
     (e\<lparr>en_decisions := en_decisions e @
          [\<lparr>dr_timestamp = now, dr_capability = op_capability p, dr_target = op_target p,
            dr_arguments_digest = arguments_digest sha p,
            dr_decision = (if err \<noteq> None then ''deny'' else ''allow''), dr_reason = err,
            dr_external = op_external p, dr_destructive = op_destructive p,
            dr_artifact_digest = op_digest p, dr_contract_digest = en_contract_digest e\<rparr>]\<rparr>, err)"

section \<open>Matching\<close>

definition match_path :: "string \<Rightarrow> string list \<Rightarrow> bool" where
  [go_defs]: "match_path v patterns =
     (if v = [] \<or> is_abs v \<or> has_prefix v ''../'' then False
      else let value = path_clean v in
        list_ex (\<lambda>pattern.
          path_match pattern value \<or>
          (let pre = trim_suffix pattern ''/**'' in
             pre \<noteq> pattern \<and> (value = pre \<or> has_prefix value (pre @ ''/'')))) patterns)"

definition match_host :: "string \<Rightarrow> string list \<Rightarrow> bool" where
  [go_defs]: "match_host v allowed =
     (let value = to_lower (trim_suffix v ''.'') in
      list_ex (\<lambda>item0.
        let item = to_lower (trim_suffix item0 ''.'') in
        value = item \<or>
        (has_prefix item ''*.'' \<and> has_suffix value (drop 1 item) \<and> value \<noteq> drop 2 item)) allowed)"

definition match_command :: "string list \<Rightarrow> string list \<Rightarrow> bool" where
  [go_defs]: "match_command argv allowed =
     (case argv of
        [] \<Rightarrow> False
      | a # _ \<Rightarrow>
          if a = [] then False
          else if list_ex (\<lambda>arg. contains_any arg [CHR 0x00, CHR 0x0D, CHR 0x0A]) argv then False
          else list_ex (\<lambda>item.
            let fs = str_fields item in
            0 < length fs \<and> length fs \<le> length argv \<and> take (length fs) argv = fs) allowed)"

definition contains_item :: "string list \<Rightarrow> string \<Rightarrow> bool" where
  [go_defs]: "contains_item items v = list_ex (\<lambda>item. item = v) items"

fun reviewed_digest :: "reviewed_dependency list \<Rightarrow> string \<Rightarrow> string option" where
  "reviewed_digest [] i = None"
| "reviewed_digest (d # ds) i = (if rd_identifier d = i then Some (rd_sha256 d) else reviewed_digest ds i)"

section \<open>The guards\<close>

definition is_tool_invocation :: "string \<Rightarrow> bool" where
  [go_defs]: "is_tool_invocation c \<longleftrightarrow> c \<in> {''tools.call'', ''tool.invoke'', ''mcp.tool'', ''mcp.invoke''}"

definition is_network_egress :: "string \<Rightarrow> bool" where
  [go_defs]: "is_network_egress c \<longleftrightarrow> c \<in> {''network.outbound'', ''network.external'', ''network.lateral''}"

definition external_capability :: "string \<Rightarrow> bool" where
  [go_defs]: "external_capability c \<longleftrightarrow> c \<in> set
     [''filesystem.write'', ''filesystem.delete'', ''network.outbound'', ''network.external'',
      ''network.lateral'', ''network.inbound'', ''secrets.expose'', ''mcp.tool'', ''mcp.invoke'',
      ''external.action'', ''persistence'', ''dependency.load'']"

definition classify_operation_risk :: "operation \<Rightarrow> operation" where
  [go_defs]: "classify_operation_risk p0 =
     (let p1 = (if external_capability (op_capability p0) then p0\<lparr>op_external := True\<rparr> else p0);
          p2 = (if op_capability p1 = ''filesystem.delete'' then p1\<lparr>op_destructive := True\<rparr> else p1)
      in if op_effect p2 = EffectDestructive then p2\<lparr>op_destructive := True, op_external := True\<rparr>
         else if op_effect p2 = EffectIrreversibleWrite \<or> op_effect p2 = EffectExternalSideEffect
         then p2\<lparr>op_external := True\<rparr>
         else p2)"

definition verify_trust_boundary :: "operation \<Rightarrow> enf_error option" where
  [go_defs]: "verify_trust_boundary p =
     (if op_source_trust p = [] \<or> op_required_trust p = [] then None
      else if trust_rank (op_source_trust p) \<ge> trust_rank (op_required_trust p) then None
      else if op_trust_verified p then None
      else Some (TrustBoundaryViolation (op_source_trust p) (op_required_trust p)))"

definition verify_idempotency_on_retry :: "operation \<Rightarrow> enf_error option" where
  [go_defs]: "verify_idempotency_on_retry p =
     (if op_retry_count p = 0 \<or> op_idempotent p then None
      else if op_effect p \<in> {EffectIrreversibleWrite, EffectExternalSideEffect, EffectDestructive}
      then Some (NonIdempotentRetry (op_effect p))
      else None)"

definition verify_reviewed_closure :: "enforcer \<Rightarrow> operation \<Rightarrow> enf_error option" where
  [go_defs]: "verify_reviewed_closure e p =
     (if op_target p = [] then None
      else case reviewed_digest (sc_reviewed_closure (en_contract e)) (op_target p) of
        None \<Rightarrow> None
      | Some expected \<Rightarrow>
          if op_digest p = [] then Some (DigestNotReported (op_target p))
          else if \<not> equal_fold (op_digest p) expected
          then Some (ToctouViolation (op_target p) (op_digest p) expected)
          else None)"

text \<open>The capability table: one branch per \<open>case\<close> of the switch, in its order.\<close>

definition authorize_capability :: "enforcer \<Rightarrow> operation \<Rightarrow> enf_error option" where
  [go_defs]: "authorize_capability e p =
     (let c = sc_capabilities (en_contract e);
          cap = op_capability p; target = op_target p;
          deny_unless = (\<lambda>ok. if ok then None else Some (NotAllowedByContract cap target))
      in
      if cap = ''filesystem.read'' then deny_unless (match_path target (fs_read (cap_filesystem c)))
      else if cap = ''filesystem.write'' then deny_unless (match_path target (fs_write (cap_filesystem c)))
      else if cap = ''filesystem.delete'' then deny_unless (match_path target (fs_delete (cap_filesystem c)))
      else if is_network_egress cap
        then deny_unless (net_outbound (cap_network c) \<and> match_host target (net_hosts (cap_network c)))
      else if cap = ''network.inbound'' then deny_unless (net_inbound (cap_network c))
      else if cap = ''commands.execute''
        then deny_unless (target = [] \<and> cmd_execute (cap_commands c) \<and>
                          match_command (op_command p) (cmd_allow (cap_commands c)))
      else if cap = ''secrets.read'' then deny_unless (contains_item (sec_read (cap_secrets c)) target)
      else if cap = ''secrets.expose'' then deny_unless (sec_expose (cap_secrets c))
      else if cap = ''environment.read'' then deny_unless (contains_item (cap_environment_read c) target)
      else if cap \<in> {''tools.call'', ''tool.invoke''}
        then deny_unless (\<not> contains_item (tool_deny (cap_tools c)) target \<and>
                          contains_item (tool_allow (cap_tools c)) target)
      else if cap = ''mcp.server'' then deny_unless (contains_item (mcp_servers (cap_mcp c)) target)
      else if cap \<in> {''mcp.tool'', ''mcp.invoke''}
        then deny_unless (contains_item (mcp_tools (cap_mcp c)) target)
      else if cap = ''external.action''
        then deny_unless (ag_external_side_effects (cap_agent c) \<and>
                          contains_item (ag_external_targets (cap_agent c)) target)
      else if cap = ''privilege.escalate'' then Some PrivilegeEscalation
      else if cap = ''runtime.escape'' then Some RuntimeEscape
      else if cap = ''enforcement.bypass'' then Some EnforcementBypass
      else if cap = ''goal.boundary'' then Some GoalBoundary
      else if cap = ''persistence'' then deny_unless (cap_persistence c)
      else if cap = ''dependency.load''
        then (case reviewed_digest (sc_reviewed_closure (en_contract e)) target of
                None \<Rightarrow> Some (NotInReviewedClosure target)
              | Some _ \<Rightarrow> None)
      else if cap = ''agent.autonomous'' then deny_unless (ag_autonomous_actions (cap_agent c))
      else Some (UnknownCapability cap))"

text \<open>\<open>time.Duration(limit) * time.Second\<close>, a product of 64-bit numbers.\<close>

definition runtime_exceeded :: "enforcer \<Rightarrow> time \<Rightarrow> bool" where
  [go_defs]: "runtime_exceeded e now \<longleftrightarrow>
     0 <s max_runtime_seconds (limits_of e) \<and>
     time_sub now (en_started e) > sint (max_runtime_seconds (limits_of e) * 1000000000)"

definition authorizer_check :: "enforcer \<Rightarrow> operation \<Rightarrow> enf_error option" where
  [go_defs]: "authorizer_check e p =
     (case en_op_authorizer e of
        None \<Rightarrow> if en_require_op_auth e then Some AuthorizerNotConfigured else None
      | Some auth \<Rightarrow> map_option AuthorizerRefused (auth p))"

text \<open>
  The guards of \<open>Authorize\<close> after the risk classification and before the budgets, in order;
  the first that fails decides.
\<close>

definition static_guards :: "enforcer \<Rightarrow> time \<Rightarrow> operation \<Rightarrow> enf_error option" where
  [go_defs]: "static_guards e now p =
     (if runtime_exceeded e now then Some MaxRuntimeExceeded
      else if op_destructive p \<and> ag_confirm_destructive (agent_of e) \<and> \<not> op_confirmed p
        then Some DestructiveUnconfirmed
      else if op_external p \<and> ag_confirm_external (agent_of e) \<and> \<not> op_confirmed p
        then Some ExternalUnconfirmed
      else if op_external p \<and> \<not> ag_external_side_effects (agent_of e) then Some ExternalNotAllowed
      else if 0 <s max_retries (limits_of e) \<and> max_retries (limits_of e) <s op_retry_count p
        then Some MaxRetriesExceeded
      else if 0 <s max_delegation_depth (limits_of e) \<and> max_delegation_depth (limits_of e) <s op_delegation_depth p
        then Some MaxDelegationExceeded
      else if 0 <s max_recursion_depth (limits_of e) \<and> max_recursion_depth (limits_of e) <s op_recursion_depth p
        then Some MaxRecursionExceeded
      else case verify_trust_boundary p of Some err \<Rightarrow> Some err | None \<Rightarrow>
        (case verify_idempotency_on_retry p of Some err \<Rightarrow> Some err | None \<Rightarrow>
          (case authorize_capability e p of Some err \<Rightarrow> Some err | None \<Rightarrow>
            (case verify_reviewed_closure e p of Some err \<Rightarrow> Some err | None \<Rightarrow>
              authorizer_check e p))))"

section \<open>The budgets\<close>

text \<open>
  Each budget block of \<open>Authorize\<close>: it may fail, or add to its counter.  The sums are
  64-bit sums, as in the code.
\<close>

definition charge_tool_calls :: "enforcer \<Rightarrow> operation \<Rightarrow> enforcer \<times> enf_error option" where
  [go_defs]: "charge_tool_calls e p =
     (if is_tool_invocation (op_capability p) then
        (if 0 <s max_tool_calls (limits_of e) \<and> max_tool_calls (limits_of e) <s en_tool_calls e + 1
         then (e, Some MaxToolCallsExceeded)
         else (e\<lparr>en_tool_calls := en_tool_calls e + 1\<rparr>, None))
      else (e, None))"

definition charge_network :: "enforcer \<Rightarrow> operation \<Rightarrow> enforcer \<times> enf_error option" where
  [go_defs]: "charge_network e p =
     (if is_network_egress (op_capability p) then
        (if op_network_bytes p <s 0 then (e, Some NegativeNetworkBytes)
         else if 0 <s max_network_bytes (limits_of e) \<and>
                 max_network_bytes (limits_of e) <s en_network_bytes e + op_network_bytes p
         then (e, Some NetworkBudgetExceeded)
         else (e\<lparr>en_network_bytes := en_network_bytes e + op_network_bytes p\<rparr>, None))
      else (e, None))"

definition charge_tokens :: "enforcer \<Rightarrow> operation \<Rightarrow> enforcer \<times> enf_error option" where
  [go_defs]: "charge_tokens e p =
     (if op_model_tokens p <s 0 then (e, Some NegativeModelTokens)
      else if 0 <s op_model_tokens p then
        (if 0 <s max_model_tokens (limits_of e) \<and>
            max_model_tokens (limits_of e) <s en_model_tokens e + op_model_tokens p
         then (e, Some TokenBudgetExceeded)
         else (e\<lparr>en_model_tokens := en_model_tokens e + op_model_tokens p\<rparr>, None))
      else (e, None))"

definition charge_mutations :: "enforcer \<Rightarrow> operation \<Rightarrow> enforcer \<times> enf_error option" where
  [go_defs]: "charge_mutations e p =
     (if op_mutation p then
        (if 0 <s max_external_mutations (limits_of e) \<and>
            max_external_mutations (limits_of e) <s en_external_mutations e + 1
         then (e, Some MutationBudgetExceeded)
         else (e\<lparr>en_external_mutations := en_external_mutations e + 1\<rparr>, None))
      else (e, None))"

text \<open>A charge that fails leaves the charges made before it in place.\<close>

definition then_charge ::
    "enforcer \<times> enf_error option \<Rightarrow> (enforcer \<Rightarrow> operation \<Rightarrow> enforcer \<times> enf_error option) \<Rightarrow> operation
      \<Rightarrow> enforcer \<times> enf_error option" where
  [go_defs]: "then_charge r f p = (case r of (e, Some err) \<Rightarrow> (e, Some err) | (e, None) \<Rightarrow> f e p)"

definition charge_all :: "enforcer \<Rightarrow> operation \<Rightarrow> enforcer \<times> enf_error option" where
  [go_defs]: "charge_all e p =
     then_charge (then_charge (then_charge (charge_tool_calls e p) charge_network p) charge_tokens p)
       charge_mutations p"

section \<open>Authorize\<close>

text \<open>\<open>t1\<close> is the clock reading of the runtime check, \<open>t2\<close> the one of the decision record.\<close>

definition authorize ::
    "(string \<Rightarrow> string) \<Rightarrow> time \<Rightarrow> time \<Rightarrow> enforcer \<Rightarrow> operation \<Rightarrow> enforcer \<times> enf_error option" where
  [go_defs]: "authorize sha t1 t2 e p0 =
     (case en_startup_error e of
        Some err \<Rightarrow> record_decision sha t2 e p0 (Some err)
      | None \<Rightarrow>
          if op_capability p0 = [] then record_decision sha t2 e p0 (Some CapabilityRequired)
          else let p = classify_operation_risk p0 in
            case static_guards e t1 p of
              Some err \<Rightarrow> record_decision sha t2 e p (Some err)
            | None \<Rightarrow> (case charge_all e p of (e', r) \<Rightarrow> record_decision sha t2 e' p r))"

text \<open>A history: the operations presented to one enforcer, each with its clock readings.\<close>

fun run_authorize ::
    "(string \<Rightarrow> string) \<Rightarrow> enforcer \<Rightarrow> (time \<times> time \<times> operation) list \<Rightarrow> enforcer \<times> enf_error option list" where
  "run_authorize sha e [] = (e, [])"
| "run_authorize sha e ((t1, t2, p) # ps) =
     (let (e1, r) = authorize sha t1 t2 e p; (e2, rs) = run_authorize sha e1 ps in (e2, r # rs))"

section \<open>The ledger\<close>

record budget_usage =
  bu_used :: int64
  bu_limit :: int64

record budget_ledger =
  bl_runtime_seconds :: budget_usage
  bl_tool_calls :: budget_usage
  bl_network_bytes :: budget_usage
  bl_model_tokens :: budget_usage
  bl_external_mutations :: budget_usage

text \<open>
  \<open>Duration.Seconds\<close> goes through a floating-point number; the seconds are passed in by
  the caller's clock reading \<open>secs\<close>.
\<close>

definition ledger :: "int64 \<Rightarrow> enforcer \<Rightarrow> budget_ledger" where
  [go_defs]: "ledger secs e =
     \<lparr>bl_runtime_seconds = \<lparr>bu_used = secs, bu_limit = max_runtime_seconds (limits_of e)\<rparr>,
      bl_tool_calls = \<lparr>bu_used = en_tool_calls e, bu_limit = max_tool_calls (limits_of e)\<rparr>,
      bl_network_bytes = \<lparr>bu_used = en_network_bytes e, bu_limit = max_network_bytes (limits_of e)\<rparr>,
      bl_model_tokens = \<lparr>bu_used = en_model_tokens e, bu_limit = max_model_tokens (limits_of e)\<rparr>,
      bl_external_mutations = \<lparr>bu_used = en_external_mutations e, bu_limit = max_external_mutations (limits_of e)\<rparr>\<rparr>"

definition decisions :: "enforcer \<Rightarrow> enf_error decision_record list" where
  [go_defs]: "decisions e = en_decisions e"


section \<open>Frame lemmas\<close>

lemma record_decision_simps [simp]:
  "snd (record_decision sha now e p err) = err"
  "en_contract (fst (record_decision sha now e p err)) = en_contract e"
  "en_tool_calls (fst (record_decision sha now e p err)) = en_tool_calls e"
  "en_network_bytes (fst (record_decision sha now e p err)) = en_network_bytes e"
  "en_model_tokens (fst (record_decision sha now e p err)) = en_model_tokens e"
  "en_external_mutations (fst (record_decision sha now e p err)) = en_external_mutations e"
  "en_startup_error (fst (record_decision sha now e p err)) = en_startup_error e"
  "en_op_authorizer (fst (record_decision sha now e p err)) = en_op_authorizer e"
  "en_require_op_auth (fst (record_decision sha now e p err)) = en_require_op_auth e"
  "en_started (fst (record_decision sha now e p err)) = en_started e"
  by (simp_all add: record_decision_def)

lemma classify_simps [simp]:
  "op_capability (classify_operation_risk p) = op_capability p"
  "op_target (classify_operation_risk p) = op_target p"
  "op_command (classify_operation_risk p) = op_command p"
  "op_confirmed (classify_operation_risk p) = op_confirmed p"
  "op_digest (classify_operation_risk p) = op_digest p"
  "op_network_bytes (classify_operation_risk p) = op_network_bytes p"
  "op_model_tokens (classify_operation_risk p) = op_model_tokens p"
  "op_mutation (classify_operation_risk p) = op_mutation p"
  "op_retry_count (classify_operation_risk p) = op_retry_count p"
  "op_delegation_depth (classify_operation_risk p) = op_delegation_depth p"
  "op_recursion_depth (classify_operation_risk p) = op_recursion_depth p"
  "op_source_trust (classify_operation_risk p) = op_source_trust p"
  "op_required_trust (classify_operation_risk p) = op_required_trust p"
  "op_trust_verified (classify_operation_risk p) = op_trust_verified p"
  "op_effect (classify_operation_risk p) = op_effect p"
  "op_idempotent (classify_operation_risk p) = op_idempotent p"
  by (simp_all add: classify_operation_risk_def Let_def)

text \<open>What no budget block changes.\<close>

definition same_frame :: "enforcer \<Rightarrow> enforcer \<Rightarrow> bool" where
  "same_frame e e' \<longleftrightarrow> en_contract e' = en_contract e \<and> en_contract_digest e' = en_contract_digest e \<and>
     en_started e' = en_started e \<and> en_decisions e' = en_decisions e \<and>
     en_startup_error e' = en_startup_error e \<and> en_op_authorizer e' = en_op_authorizer e \<and>
     en_require_op_auth e' = en_require_op_auth e"

lemma same_frame_refl [simp]: "same_frame e e"
  by (simp add: same_frame_def)

lemma charge_frames:
  "same_frame e (fst (charge_tool_calls e p))" "same_frame e (fst (charge_network e p))"
  "same_frame e (fst (charge_tokens e p))" "same_frame e (fst (charge_mutations e p))"
  by (simp_all add: charge_tool_calls_def charge_network_def charge_tokens_def charge_mutations_def
      same_frame_def)

lemma then_charge_frame:
  assumes "same_frame e (fst r)" and "\<And>e. same_frame e (fst (f e p))"
  shows "same_frame e (fst (then_charge r f p))"
  using assms by (cases r; cases "snd r") (auto simp: then_charge_def same_frame_def)

lemma charge_all_frame: "same_frame e (fst (charge_all e p))"
  unfolding charge_all_def by (intro then_charge_frame charge_frames)

text \<open>The two ways \<open>Authorize\<close> ends: refused before the budgets, or decided by them.\<close>

lemma authorize_cases:
  obtains (refused) p' err where "authorize sha t1 t2 e p = record_decision sha t2 e p' (Some err)"
  | (charged) "en_startup_error e = None" "op_capability p \<noteq> []"
      "static_guards e t1 (classify_operation_risk p) = None"
      "authorize sha t1 t2 e p =
         record_decision sha t2 (fst (charge_all e (classify_operation_risk p)))
           (classify_operation_risk p) (snd (charge_all e (classify_operation_risk p)))"
proof (cases "en_startup_error e = None \<and> op_capability p \<noteq> [] \<and> static_guards e t1 (classify_operation_risk p) = None")
  case True
  then show ?thesis by (intro charged) (auto simp: authorize_def Let_def split: prod.splits)
next
  case False
  then show ?thesis
    by (cases "en_startup_error e"; cases "op_capability p = []";
        cases "static_guards e t1 (classify_operation_risk p)")
      (auto simp: authorize_def Let_def intro: refused)
qed

text \<open>The counters after a call are those before it, or those the budget blocks computed.\<close>

lemma authorize_contract [simp]: "en_contract (fst (authorize sha t1 t2 e p)) = en_contract e"
  using charge_all_frame [of e "classify_operation_risk p"] unfolding same_frame_def
  by (cases rule: authorize_cases [of sha t1 t2 e p]) simp_all

lemma authorize_startup [simp]: "en_startup_error (fst (authorize sha t1 t2 e p)) = en_startup_error e"
  using charge_all_frame [of e "classify_operation_risk p"] unfolding same_frame_def
  by (cases rule: authorize_cases [of sha t1 t2 e p]) simp_all

section \<open>Budgets as meters\<close>

definition authorize_step :: "(string \<Rightarrow> string) \<Rightarrow> time \<times> time \<times> operation \<Rightarrow> enforcer \<Rightarrow> enforcer" where
  "authorize_step sha x e = (case x of (t1, t2, p) \<Rightarrow> fst (authorize sha t1 t2 e p))"

lemma run_authorize_Cons [simp]:
  "fst (run_authorize sha e (x # ps)) = fst (run_authorize sha (authorize_step sha x e) ps)"
  "snd (run_authorize sha e (x # ps)) =
     snd (authorize sha (fst x) (fst (snd x)) e (snd (snd x))) # snd (run_authorize sha (authorize_step sha x e) ps)"
  by (cases x, simp add: authorize_step_def Let_def split: prod.splits)+

declare run_authorize.simps(2) [simp del]

lemma run_authorize_fold: "fst (run_authorize sha e ps) = fold (authorize_step sha) ps e"
  by (induction ps arbitrary: e) simp_all

text \<open>Each counter after \<open>charge_all\<close>, in terms of the counter before.\<close>

lemma then_charge_iff:
  "then_charge r f p = (if snd r = None then f (fst r) p else r)"
  by (cases r; cases "snd r") (auto simp: then_charge_def)

lemma charge_keeps:
  "en_network_bytes (fst (charge_tool_calls e p)) = en_network_bytes e"
  "en_model_tokens (fst (charge_tool_calls e p)) = en_model_tokens e"
  "en_external_mutations (fst (charge_tool_calls e p)) = en_external_mutations e"
  "en_tool_calls (fst (charge_network e p)) = en_tool_calls e"
  "en_model_tokens (fst (charge_network e p)) = en_model_tokens e"
  "en_external_mutations (fst (charge_network e p)) = en_external_mutations e"
  "en_tool_calls (fst (charge_tokens e p)) = en_tool_calls e"
  "en_network_bytes (fst (charge_tokens e p)) = en_network_bytes e"
  "en_external_mutations (fst (charge_tokens e p)) = en_external_mutations e"
  "en_tool_calls (fst (charge_mutations e p)) = en_tool_calls e"
  "en_network_bytes (fst (charge_mutations e p)) = en_network_bytes e"
  "en_model_tokens (fst (charge_mutations e p)) = en_model_tokens e"
  by (simp_all add: charge_tool_calls_def charge_network_def charge_tokens_def charge_mutations_def)

lemma charge_contract:
  "en_contract (fst (charge_tool_calls e p)) = en_contract e"
  "en_contract (fst (charge_network e p)) = en_contract e"
  "en_contract (fst (charge_tokens e p)) = en_contract e"
  using charge_frames [where e = e and p = p] by (simp_all add: same_frame_def)

text \<open>A budget block reads the contract and its own counter only.\<close>

lemma charge_congs:
  "en_contract e' = en_contract e \<Longrightarrow> en_network_bytes e' = en_network_bytes e \<Longrightarrow>
     en_network_bytes (fst (charge_network e' p)) = en_network_bytes (fst (charge_network e p))"
  "en_contract e' = en_contract e \<Longrightarrow> en_model_tokens e' = en_model_tokens e \<Longrightarrow>
     en_model_tokens (fst (charge_tokens e' p)) = en_model_tokens (fst (charge_tokens e p))"
  "en_contract e' = en_contract e \<Longrightarrow> en_external_mutations e' = en_external_mutations e \<Longrightarrow>
     en_external_mutations (fst (charge_mutations e' p)) = en_external_mutations (fst (charge_mutations e p))"
  by (simp_all add: charge_network_def charge_tokens_def charge_mutations_def)

lemma charge_counters:
  "en_tool_calls (fst (charge_all e p)) = en_tool_calls (fst (charge_tool_calls e p))"
  "en_network_bytes (fst (charge_all e p)) \<in>
     {en_network_bytes e, en_network_bytes (fst (charge_network e p))}"
  "en_model_tokens (fst (charge_all e p)) \<in>
     {en_model_tokens e, en_model_tokens (fst (charge_tokens e p))}"
  "en_external_mutations (fst (charge_all e p)) \<in>
     {en_external_mutations e, en_external_mutations (fst (charge_mutations e p))}"
proof -
  define e1 where "e1 = fst (charge_tool_calls e p)"
  define e2 where "e2 = fst (charge_network e1 p)"
  define e3 where "e3 = fst (charge_tokens e2 p)"
  define e4 where "e4 = fst (charge_mutations e3 p)"
  have "charge_all e p \<in> {charge_tool_calls e p, charge_network e1 p, charge_tokens e2 p, charge_mutations e3 p}"
    unfolding charge_all_def then_charge_iff e1_def e2_def e3_def
    by (cases "snd (charge_tool_calls e p) = None";
        cases "snd (charge_network (fst (charge_tool_calls e p)) p) = None";
        cases "snd (charge_tokens (fst (charge_network (fst (charge_tool_calls e p)) p)) p) = None")
      (simp_all only: if_True if_False simp_thms insert_iff)
  then have all: "fst (charge_all e p) \<in> {e1, e2, e3, e4}"
    by (auto simp: e1_def e2_def e3_def e4_def)
  have cs: "en_contract e1 = en_contract e" "en_contract e2 = en_contract e" "en_contract e3 = en_contract e"
    by (simp_all add: e1_def e2_def e3_def charge_contract)
  have ts: "en_tool_calls e2 = en_tool_calls e1" "en_tool_calls e3 = en_tool_calls e1" "en_tool_calls e4 = en_tool_calls e1"
    and ns: "en_network_bytes e1 = en_network_bytes e" "en_network_bytes e3 = en_network_bytes e2"
      "en_network_bytes e4 = en_network_bytes e2"
    and ks: "en_model_tokens e1 = en_model_tokens e" "en_model_tokens e2 = en_model_tokens e"
      "en_model_tokens e4 = en_model_tokens e3"
    and ms: "en_external_mutations e1 = en_external_mutations e" "en_external_mutations e2 = en_external_mutations e"
      "en_external_mutations e3 = en_external_mutations e"
    by (simp_all add: e1_def e2_def e3_def e4_def charge_keeps)
  have n2: "en_network_bytes e2 = en_network_bytes (fst (charge_network e p))"
    unfolding e2_def by (rule charge_congs(1)) (simp_all add: cs ns)
  have k3: "en_model_tokens e3 = en_model_tokens (fst (charge_tokens e p))"
    unfolding e3_def by (rule charge_congs(2)) (simp_all add: cs ks)
  have m4: "en_external_mutations e4 = en_external_mutations (fst (charge_mutations e p))"
    unfolding e4_def by (rule charge_congs(3)) (simp_all add: cs ms)
  show "en_tool_calls (fst (charge_all e p)) = en_tool_calls (fst (charge_tool_calls e p))"
    using all ts by (auto simp: e1_def)
  show "en_network_bytes (fst (charge_all e p)) \<in> {en_network_bytes e, en_network_bytes (fst (charge_network e p))}"
    using all ns n2 by auto
  show "en_model_tokens (fst (charge_all e p)) \<in> {en_model_tokens e, en_model_tokens (fst (charge_tokens e p))}"
    using all ks k3 by auto
  show "en_external_mutations (fst (charge_all e p)) \<in>
     {en_external_mutations e, en_external_mutations (fst (charge_mutations e p))}"
    using all ms m4 by auto
qed

lemma signed_less_iff: "(a :: int64) <s b \<longleftrightarrow> sint a < sint b"
  by (simp add: word_sless_alt)

lemma tool_meter_step:
  assumes "0 \<le> sint (en_tool_calls e)" and "sint (en_tool_calls e) + 1 \<le> max_int64"
  shows "sint (en_tool_calls (fst (charge_tool_calls e p))) = sint (en_tool_calls e) \<or>
    (sint (en_tool_calls (fst (charge_tool_calls e p))) = sint (en_tool_calls e) + 1 \<and>
     (0 < sint (max_tool_calls (limits_of e)) \<longrightarrow> sint (en_tool_calls e) + 1 \<le> sint (max_tool_calls (limits_of e))))"
  using assms sint_succ_fits [of "en_tool_calls e"]
  by (auto simp: charge_tool_calls_def signed_less_iff)

lemma mutation_meter_step:
  assumes "0 \<le> sint (en_external_mutations e)" and "sint (en_external_mutations e) + 1 \<le> max_int64"
  shows "sint (en_external_mutations (fst (charge_mutations e p))) = sint (en_external_mutations e) \<or>
    (sint (en_external_mutations (fst (charge_mutations e p))) = sint (en_external_mutations e) + 1 \<and>
     (0 < sint (max_external_mutations (limits_of e)) \<longrightarrow>
      sint (en_external_mutations e) + 1 \<le> sint (max_external_mutations (limits_of e))))"
  using assms sint_succ_fits [of "en_external_mutations e"]
  by (auto simp: charge_mutations_def signed_less_iff)

lemma network_meter_step:
  assumes "0 \<le> sint (en_network_bytes e)" and "sint (en_network_bytes e) + sint (op_network_bytes p) \<le> max_int64"
  shows "sint (en_network_bytes (fst (charge_network e p))) = sint (en_network_bytes e) \<or>
    (sint (en_network_bytes (fst (charge_network e p))) = sint (en_network_bytes e) + sint (op_network_bytes p) \<and>
     0 \<le> sint (op_network_bytes p) \<and>
     (0 < sint (max_network_bytes (limits_of e)) \<longrightarrow>
      sint (en_network_bytes e) + sint (op_network_bytes p) \<le> sint (max_network_bytes (limits_of e))))"
proof (cases "0 \<le> sint (op_network_bytes p)")
  case True
  with assms show ?thesis
    using sint_add_nonneg_fits [OF assms(1) True assms(2)]
    by (auto simp: charge_network_def signed_less_iff)
next
  case False
  then show ?thesis by (auto simp: charge_network_def signed_less_iff)
qed

lemma token_meter_step:
  assumes "0 \<le> sint (en_model_tokens e)" and "sint (en_model_tokens e) + sint (op_model_tokens p) \<le> max_int64"
  shows "sint (en_model_tokens (fst (charge_tokens e p))) = sint (en_model_tokens e) \<or>
    (sint (en_model_tokens (fst (charge_tokens e p))) = sint (en_model_tokens e) + sint (op_model_tokens p) \<and>
     0 \<le> sint (op_model_tokens p) \<and>
     (0 < sint (max_model_tokens (limits_of e)) \<longrightarrow>
      sint (en_model_tokens e) + sint (op_model_tokens p) \<le> sint (max_model_tokens (limits_of e))))"
proof (cases "0 \<le> sint (op_model_tokens p)")
  case True
  with assms show ?thesis
    using sint_add_nonneg_fits [OF assms(1) True assms(2)]
    by (auto simp: charge_tokens_def signed_less_iff)
next
  case False
  then show ?thesis by (auto simp: charge_tokens_def signed_less_iff)
qed

lemma authorize_step_counter:
  assumes "\<And>e p err. f (fst (record_decision sha t2 e p err)) = f e"
  shows "f (authorize_step sha (t1, t2, p) e) = f e \<or>
         f (authorize_step sha (t1, t2, p) e) = f (fst (charge_all e (classify_operation_risk p)))"
  by (rule authorize_cases [of sha t1 t2 e p]) (simp_all add: authorize_step_def assms)

interpretation tools: budget_meter "authorize_step sha" "\<lambda>e. sint (en_tool_calls e)" "\<lambda>_. 1"
    "\<lambda>e. sint (max_tool_calls (limits_of e))" for sha
proof unfold_locales
  fix x :: "time \<times> time \<times> operation" and e :: enforcer
  show "sint (max_tool_calls (limits_of (authorize_step sha x e))) = sint (max_tool_calls (limits_of e))"
    by (cases x) (simp add: authorize_step_def)
next
  fix e :: enforcer and x :: "time \<times> time \<times> operation"
  assume e: "0 \<le> sint (en_tool_calls e)" "sint (en_tool_calls e) + 1 \<le> max_int64"
  obtain t1 t2 p where x: "x = (t1, t2, p)" by (cases x)
  have "en_tool_calls (authorize_step sha x e) = en_tool_calls e \<or>
        en_tool_calls (authorize_step sha x e) = en_tool_calls (fst (charge_tool_calls e (classify_operation_risk p)))"
    using authorize_step_counter [of en_tool_calls sha t2 t1 p e] by (simp add: x charge_counters(1))
  with tool_meter_step [OF e, of "classify_operation_risk p"]
  show "sint (en_tool_calls (authorize_step sha x e)) = sint (en_tool_calls e) \<or>
     sint (en_tool_calls (authorize_step sha x e)) = sint (en_tool_calls e) + 1 \<and> 0 \<le> (1 :: int) \<and>
     (0 < sint (max_tool_calls (limits_of e)) \<longrightarrow>
      sint (en_tool_calls e) \<le> sint (max_tool_calls (limits_of e)) \<longrightarrow>
      sint (en_tool_calls e) + 1 \<le> sint (max_tool_calls (limits_of e)))"
    by auto
qed

interpretation mutations: budget_meter "authorize_step sha" "\<lambda>e. sint (en_external_mutations e)" "\<lambda>_. 1"
    "\<lambda>e. sint (max_external_mutations (limits_of e))" for sha
proof unfold_locales
  fix x :: "time \<times> time \<times> operation" and e :: enforcer
  show "sint (max_external_mutations (limits_of (authorize_step sha x e))) = sint (max_external_mutations (limits_of e))"
    by (cases x) (simp add: authorize_step_def)
next
  fix e :: enforcer and x :: "time \<times> time \<times> operation"
  assume e: "0 \<le> sint (en_external_mutations e)" "sint (en_external_mutations e) + 1 \<le> max_int64"
  obtain t1 t2 p where x: "x = (t1, t2, p)" by (cases x)
  have "en_external_mutations (authorize_step sha x e) = en_external_mutations e \<or>
        en_external_mutations (authorize_step sha x e) =
          en_external_mutations (fst (charge_mutations e (classify_operation_risk p)))"
    using authorize_step_counter [of en_external_mutations sha t2 t1 p e]
      charge_counters(4) [of e "classify_operation_risk p"] by (auto simp: x)
  with mutation_meter_step [OF e, of "classify_operation_risk p"]
  show "sint (en_external_mutations (authorize_step sha x e)) = sint (en_external_mutations e) \<or>
     sint (en_external_mutations (authorize_step sha x e)) = sint (en_external_mutations e) + 1 \<and> 0 \<le> (1 :: int) \<and>
     (0 < sint (max_external_mutations (limits_of e)) \<longrightarrow>
      sint (en_external_mutations e) \<le> sint (max_external_mutations (limits_of e)) \<longrightarrow>
      sint (en_external_mutations e) + 1 \<le> sint (max_external_mutations (limits_of e)))"
    by auto
qed

interpretation network: budget_meter "authorize_step sha" "\<lambda>e. sint (en_network_bytes e)"
    "\<lambda>x. sint (op_network_bytes (snd (snd x)))" "\<lambda>e. sint (max_network_bytes (limits_of e))" for sha
proof unfold_locales
  fix x :: "time \<times> time \<times> operation" and e :: enforcer
  show "sint (max_network_bytes (limits_of (authorize_step sha x e))) = sint (max_network_bytes (limits_of e))"
    by (cases x) (simp add: authorize_step_def)
next
  fix e :: enforcer and x :: "time \<times> time \<times> operation"
  assume e: "0 \<le> sint (en_network_bytes e)" "sint (en_network_bytes e) + sint (op_network_bytes (snd (snd x))) \<le> max_int64"
  obtain t1 t2 p where x: "x = (t1, t2, p)" by (cases x)
  have "en_network_bytes (authorize_step sha x e) = en_network_bytes e \<or>
        en_network_bytes (authorize_step sha x e) =
          en_network_bytes (fst (charge_network e (classify_operation_risk p)))"
    using authorize_step_counter [of en_network_bytes sha t2 t1 p e]
      charge_counters(2) [of e "classify_operation_risk p"] by (auto simp: x)
  with network_meter_step [of e "classify_operation_risk p"] e
  show "sint (en_network_bytes (authorize_step sha x e)) = sint (en_network_bytes e) \<or>
     sint (en_network_bytes (authorize_step sha x e)) = sint (en_network_bytes e) + sint (op_network_bytes (snd (snd x))) \<and>
     0 \<le> sint (op_network_bytes (snd (snd x))) \<and>
     (0 < sint (max_network_bytes (limits_of e)) \<longrightarrow>
      sint (en_network_bytes e) \<le> sint (max_network_bytes (limits_of e)) \<longrightarrow>
      sint (en_network_bytes e) + sint (op_network_bytes (snd (snd x))) \<le> sint (max_network_bytes (limits_of e)))"
    by (auto simp: x)
qed

interpretation tokens: budget_meter "authorize_step sha" "\<lambda>e. sint (en_model_tokens e)"
    "\<lambda>x. sint (op_model_tokens (snd (snd x)))" "\<lambda>e. sint (max_model_tokens (limits_of e))" for sha
proof unfold_locales
  fix x :: "time \<times> time \<times> operation" and e :: enforcer
  show "sint (max_model_tokens (limits_of (authorize_step sha x e))) = sint (max_model_tokens (limits_of e))"
    by (cases x) (simp add: authorize_step_def)
next
  fix e :: enforcer and x :: "time \<times> time \<times> operation"
  assume e: "0 \<le> sint (en_model_tokens e)" "sint (en_model_tokens e) + sint (op_model_tokens (snd (snd x))) \<le> max_int64"
  obtain t1 t2 p where x: "x = (t1, t2, p)" by (cases x)
  have "en_model_tokens (authorize_step sha x e) = en_model_tokens e \<or>
        en_model_tokens (authorize_step sha x e) =
          en_model_tokens (fst (charge_tokens e (classify_operation_risk p)))"
    using authorize_step_counter [of en_model_tokens sha t2 t1 p e]
      charge_counters(3) [of e "classify_operation_risk p"] by (auto simp: x)
  with token_meter_step [of e "classify_operation_risk p"] e
  show "sint (en_model_tokens (authorize_step sha x e)) = sint (en_model_tokens e) \<or>
     sint (en_model_tokens (authorize_step sha x e)) = sint (en_model_tokens e) + sint (op_model_tokens (snd (snd x))) \<and>
     0 \<le> sint (op_model_tokens (snd (snd x))) \<and>
     (0 < sint (max_model_tokens (limits_of e)) \<longrightarrow>
      sint (en_model_tokens e) \<le> sint (max_model_tokens (limits_of e)) \<longrightarrow>
      sint (en_model_tokens e) + sint (op_model_tokens (snd (snd x))) \<le> sint (max_model_tokens (limits_of e)))"
    by (auto simp: x)
qed

end
