(* ===== verification/Enforcer_Props.thy ===== *)
theory Enforcer_Props
  imports Enforcer
begin

text \<open>
  What the enforcer guarantees.  \<open>grants\<close> is the abstract reading of the skill contract, one
  rule per capability a contract can grant; the capability switch is proved equivalent to
  it, an allowed operation is proved to meet it together with every other guard, histories
  stay within the budgets, and the decision log has one entry per call.
\<close>

section \<open>The contract as a specification\<close>

inductive grants :: "skill_contract \<Rightarrow> operation \<Rightarrow> bool" for c where
  grant_fs_read: "op_capability p = ''filesystem.read'' \<Longrightarrow>
     match_path (op_target p) (fs_read (cap_filesystem (sc_capabilities c))) \<Longrightarrow> grants c p"
| grant_fs_write: "op_capability p = ''filesystem.write'' \<Longrightarrow>
     match_path (op_target p) (fs_write (cap_filesystem (sc_capabilities c))) \<Longrightarrow> grants c p"
| grant_fs_delete: "op_capability p = ''filesystem.delete'' \<Longrightarrow>
     match_path (op_target p) (fs_delete (cap_filesystem (sc_capabilities c))) \<Longrightarrow> grants c p"
| grant_egress: "is_network_egress (op_capability p) \<Longrightarrow> net_outbound (cap_network (sc_capabilities c)) \<Longrightarrow>
     match_host (op_target p) (net_hosts (cap_network (sc_capabilities c))) \<Longrightarrow> grants c p"
| grant_inbound: "op_capability p = ''network.inbound'' \<Longrightarrow> net_inbound (cap_network (sc_capabilities c)) \<Longrightarrow> grants c p"
| grant_command: "op_capability p = ''commands.execute'' \<Longrightarrow> op_target p = [] \<Longrightarrow>
     cmd_execute (cap_commands (sc_capabilities c)) \<Longrightarrow>
     match_command (op_command p) (cmd_allow (cap_commands (sc_capabilities c))) \<Longrightarrow> grants c p"
| grant_secret: "op_capability p = ''secrets.read'' \<Longrightarrow>
     contains_item (sec_read (cap_secrets (sc_capabilities c))) (op_target p) \<Longrightarrow> grants c p"
| grant_expose: "op_capability p = ''secrets.expose'' \<Longrightarrow> sec_expose (cap_secrets (sc_capabilities c)) \<Longrightarrow> grants c p"
| grant_env: "op_capability p = ''environment.read'' \<Longrightarrow>
     contains_item (cap_environment_read (sc_capabilities c)) (op_target p) \<Longrightarrow> grants c p"
| grant_tool: "op_capability p \<in> {''tools.call'', ''tool.invoke''} \<Longrightarrow>
     \<not> contains_item (tool_deny (cap_tools (sc_capabilities c))) (op_target p) \<Longrightarrow>
     contains_item (tool_allow (cap_tools (sc_capabilities c))) (op_target p) \<Longrightarrow> grants c p"
| grant_mcp_server: "op_capability p = ''mcp.server'' \<Longrightarrow>
     contains_item (mcp_servers (cap_mcp (sc_capabilities c))) (op_target p) \<Longrightarrow> grants c p"
| grant_mcp_tool: "op_capability p \<in> {''mcp.tool'', ''mcp.invoke''} \<Longrightarrow>
     contains_item (mcp_tools (cap_mcp (sc_capabilities c))) (op_target p) \<Longrightarrow> grants c p"
| grant_external: "op_capability p = ''external.action'' \<Longrightarrow>
     ag_external_side_effects (cap_agent (sc_capabilities c)) \<Longrightarrow>
     contains_item (ag_external_targets (cap_agent (sc_capabilities c))) (op_target p) \<Longrightarrow> grants c p"
| grant_persistence: "op_capability p = ''persistence'' \<Longrightarrow> cap_persistence (sc_capabilities c) \<Longrightarrow> grants c p"
| grant_dependency: "op_capability p = ''dependency.load'' \<Longrightarrow>
     reviewed_digest (sc_reviewed_closure c) (op_target p) \<noteq> None \<Longrightarrow> grants c p"
| grant_autonomous: "op_capability p = ''agent.autonomous'' \<Longrightarrow>
     ag_autonomous_actions (cap_agent (sc_capabilities c)) \<Longrightarrow> grants c p"

lemma grants_capability:
  assumes "grants (en_contract e) p" shows "authorize_capability e p = None"
  using assms
  by cases (auto simp: authorize_capability_def is_network_egress_def)

lemma capability_grants:
  assumes "authorize_capability e p = None" shows "grants (en_contract e) p"
  using assms unfolding authorize_capability_def Let_def
  by (auto split: if_split_asm option.split_asm intro: grants.intros)

text \<open>
  The capability switch of \<open>authorizeCapability\<close> lets an operation pass exactly when the
  contract grants it in the sense of \<open>grants\<close>; in particular the four attempt-only
  capabilities and every unknown name are refused whatever the contract says.
\<close>

theorem capability_switch_correct:
  "authorize_capability e p = None \<longleftrightarrow> grants (en_contract e) p"
  using grants_capability capability_grants by blast


section \<open>What an allowed operation has passed\<close>

lemma static_guards_None:
  "static_guards e now p = None \<longleftrightarrow>
     \<not> runtime_exceeded e now \<and>
     (op_destructive p \<and> ag_confirm_destructive (agent_of e) \<longrightarrow> op_confirmed p) \<and>
     (op_external p \<and> ag_confirm_external (agent_of e) \<longrightarrow> op_confirmed p) \<and>
     (op_external p \<longrightarrow> ag_external_side_effects (agent_of e)) \<and>
     (0 <s max_retries (limits_of e) \<longrightarrow> \<not> max_retries (limits_of e) <s op_retry_count p) \<and>
     (0 <s max_delegation_depth (limits_of e) \<longrightarrow> \<not> max_delegation_depth (limits_of e) <s op_delegation_depth p) \<and>
     (0 <s max_recursion_depth (limits_of e) \<longrightarrow> \<not> max_recursion_depth (limits_of e) <s op_recursion_depth p) \<and>
     verify_trust_boundary p = None \<and> verify_idempotency_on_retry p = None \<and>
     authorize_capability e p = None \<and> verify_reviewed_closure e p = None \<and> authorizer_check e p = None"
  unfolding static_guards_def by (auto split: option.splits if_splits)

lemma trust_boundary_None:
  "verify_trust_boundary p = None \<longleftrightarrow>
     op_source_trust p = [] \<or> op_required_trust p = [] \<or>
     trust_rank (op_required_trust p) \<le> trust_rank (op_source_trust p) \<or> op_trust_verified p"
  by (simp add: verify_trust_boundary_def)

lemma idempotency_None:
  "verify_idempotency_on_retry p = None \<longleftrightarrow>
     op_retry_count p = 0 \<or> op_idempotent p \<or>
     op_effect p \<notin> {EffectIrreversibleWrite, EffectExternalSideEffect, EffectDestructive}"
  by (simp add: verify_idempotency_on_retry_def)

lemma reviewed_closure_None:
  assumes "verify_reviewed_closure e p = None" "op_target p \<noteq> []"
    and "reviewed_digest (sc_reviewed_closure (en_contract e)) (op_target p) = Some d"
  shows "op_digest p \<noteq> [] \<and> equal_fold (op_digest p) d"
  using assms by (auto simp: verify_reviewed_closure_def split: if_splits)

lemma authorizer_check_None:
  "authorizer_check e p = None \<longleftrightarrow>
     (case en_op_authorizer e of None \<Rightarrow> \<not> en_require_op_auth e | Some auth \<Rightarrow> auth p = None)"
  by (simp add: authorizer_check_def split: option.splits)

lemma authorize_allowed:
  assumes "snd (authorize sha t1 t2 e p) = None"
  shows "en_startup_error e = None" "op_capability p \<noteq> []"
    "static_guards e t1 (classify_operation_risk p) = None"
    "snd (charge_all e (classify_operation_risk p)) = None"
  using assms by (cases rule: authorize_cases [of sha t1 t2 e p], simp_all)+

lemma classified_external:
  "external_capability (op_capability p) \<Longrightarrow> op_external (classify_operation_risk p)"
  "op_effect p \<in> {EffectIrreversibleWrite, EffectExternalSideEffect, EffectDestructive} \<Longrightarrow>
     op_external (classify_operation_risk p)"
  "op_external p \<Longrightarrow> op_external (classify_operation_risk p)"
  by (simp_all add: classify_operation_risk_def Let_def EffectDestructive_def
      EffectIrreversibleWrite_def EffectExternalSideEffect_def) blast+

lemma grants_cong:
  assumes "op_capability p' = op_capability p" "op_target p' = op_target p" "op_command p' = op_command p"
    and "grants c p'"
  shows "grants c p"
  using assms(4) by cases (use assms(1-3) in \<open>simp_all add: grants.intros\<close>)

text \<open>The four budget blocks look at the contract and at a counter of their own.\<close>

lemma charge_snd_congs:
  "en_contract e' = en_contract e \<Longrightarrow> en_network_bytes e' = en_network_bytes e \<Longrightarrow>
     snd (charge_network e' p) = snd (charge_network e p)"
  "en_contract e' = en_contract e \<Longrightarrow> en_model_tokens e' = en_model_tokens e \<Longrightarrow>
     snd (charge_tokens e' p) = snd (charge_tokens e p)"
  "en_contract e' = en_contract e \<Longrightarrow> en_external_mutations e' = en_external_mutations e \<Longrightarrow>
     snd (charge_mutations e' p) = snd (charge_mutations e p)"
  by (simp_all add: charge_network_def charge_tokens_def charge_mutations_def)

lemma charge_all_None:
  "snd (charge_all e p) = None \<longleftrightarrow> snd (charge_tool_calls e p) = None \<and> snd (charge_network e p) = None \<and>
     snd (charge_tokens e p) = None \<and> snd (charge_mutations e p) = None"
proof -
  let ?a = "fst (charge_tool_calls e p)"
  let ?b = "fst (charge_network ?a p)"
  let ?c = "fst (charge_tokens ?b p)"
  have n: "snd (charge_network ?a p) = snd (charge_network e p)"
    by (rule charge_snd_congs(1)) (simp_all only: charge_contract charge_keeps)
  have t: "snd (charge_tokens ?b p) = snd (charge_tokens e p)"
    by (rule charge_snd_congs(2)) (simp_all only: charge_contract charge_keeps)
  have m: "snd (charge_mutations ?c p) = snd (charge_mutations e p)"
    by (rule charge_snd_congs(3)) (simp_all only: charge_contract charge_keeps)
  have "snd (then_charge r f p) = None \<longleftrightarrow> snd r = None \<and> snd (f (fst r) p) = None" for r f
    by (cases "snd r") (simp_all add: then_charge_iff)
  then show ?thesis unfolding charge_all_def by (auto simp: then_charge_iff n t m)
qed

lemma budget_ifs:
  "snd (if a then if b \<and> c then (e, Some x) else (f, None) else (g, None)) = None \<longleftrightarrow> (a \<and> b \<longrightarrow> \<not> c)"
  "snd (if a then if n then (e, Some x) else if b \<and> c then (e, Some y) else (f, None) else (g, None)) = None \<longleftrightarrow>
     (a \<longrightarrow> \<not> n \<and> (b \<longrightarrow> \<not> c))"
  "snd (if n then (e, Some x) else if a then if b \<and> c then (e, Some y) else (f, None) else (g, None)) = None \<longleftrightarrow>
     \<not> n \<and> (a \<and> b \<longrightarrow> \<not> c)"
  by auto

lemma charges_None:
  "snd (charge_tool_calls e p) = None \<longleftrightarrow>
     (is_tool_invocation (op_capability p) \<and> 0 < sint (max_tool_calls (limits_of e)) \<longrightarrow>
        sint (en_tool_calls e + 1) \<le> sint (max_tool_calls (limits_of e)))"
  "snd (charge_network e p) = None \<longleftrightarrow>
     (is_network_egress (op_capability p) \<longrightarrow> 0 \<le> sint (op_network_bytes p) \<and>
        (0 < sint (max_network_bytes (limits_of e)) \<longrightarrow>
           sint (en_network_bytes e + op_network_bytes p) \<le> sint (max_network_bytes (limits_of e))))"
  "snd (charge_tokens e p) = None \<longleftrightarrow>
     0 \<le> sint (op_model_tokens p) \<and> (0 < sint (op_model_tokens p) \<and> 0 < sint (max_model_tokens (limits_of e)) \<longrightarrow>
        sint (en_model_tokens e + op_model_tokens p) \<le> sint (max_model_tokens (limits_of e)))"
  "snd (charge_mutations e p) = None \<longleftrightarrow>
     (op_mutation p \<and> 0 < sint (max_external_mutations (limits_of e)) \<longrightarrow>
        sint (en_external_mutations e + 1) \<le> sint (max_external_mutations (limits_of e)))"
  by (simp_all only: charge_tool_calls_def charge_network_def charge_tokens_def charge_mutations_def budget_ifs
      signed_less_iff not_less sint_0)

lemma limit_iff: "(0 <s m \<longrightarrow> \<not> m <s x) \<longleftrightarrow> (0 < sint m \<longrightarrow> sint x \<le> sint (m :: int64))"
  by (simp add: signed_less_iff not_less)

lemma runtime_within:
  "\<not> runtime_exceeded e t \<longleftrightarrow> (0 < sint (max_runtime_seconds (limits_of e)) \<longrightarrow>
     time_sub t (en_started e) \<le> sint (max_runtime_seconds (limits_of e) * 1000000000))"
  by (auto simp: runtime_exceeded_def signed_less_iff not_less)

text \<open>What the risk classification makes of an operation.\<close>

definition external_op :: "operation \<Rightarrow> bool" where
  "external_op p \<longleftrightarrow> op_external p \<or> external_capability (op_capability p) \<or>
     op_effect p \<in> {EffectIrreversibleWrite, EffectExternalSideEffect, EffectDestructive}"

definition destructive_op :: "operation \<Rightarrow> bool" where
  "destructive_op p \<longleftrightarrow> op_destructive p \<or> op_capability p = ''filesystem.delete'' \<or> op_effect p = EffectDestructive"

lemma classified_risk:
  "op_external (classify_operation_risk p) = external_op p"
  "op_destructive (classify_operation_risk p) = destructive_op p"
  by (auto simp: classify_operation_risk_def external_op_def destructive_op_def Let_def EffectDestructive_def
      EffectIrreversibleWrite_def EffectExternalSideEffect_def)

lemma grants_same:
  "op_capability p' = op_capability p \<Longrightarrow> op_target p' = op_target p \<Longrightarrow> op_command p' = op_command p \<Longrightarrow>
   grants c p' = grants c p"
  using grants_cong [of p' p c] grants_cong [of p p' c] by metis

lemma reviewed_closure_iff:
  "verify_reviewed_closure e p = None \<longleftrightarrow>
     (\<forall>d. op_target p \<noteq> [] \<and> reviewed_digest (sc_reviewed_closure (en_contract e)) (op_target p) = Some d \<longrightarrow>
        op_digest p \<noteq> [] \<and> equal_fold (op_digest p) d)"
  by (auto simp: verify_reviewed_closure_def split: option.splits)

lemma no_grant_without_capability: "op_capability p = [] \<Longrightarrow> \<not> grants c p"
  by (auto elim!: grants.cases simp: is_network_egress_def)

lemma authorize_None:
  "snd (authorize sha t1 t2 e p) = None \<longleftrightarrow> en_startup_error e = None \<and> op_capability p \<noteq> [] \<and>
     static_guards e t1 (classify_operation_risk p) = None \<and> snd (charge_all e (classify_operation_risk p)) = None"
  by (simp add: authorize_def Let_def split: option.splits prod.splits)

text \<open>
  C10. \<open>Authorize\<close> allows an operation exactly when the startup pins matched, the contract grants it, and every
  guard passes: the run time is not used up; a destructive operation (by declaration, capability or effect) is
  confirmed where the contract demands that; an external one is permitted, and confirmed where the contract
  demands that; retries, delegation and recursion stay within their limits; data of a lower trust than the
  destination demands was verified; a retried effectful operation is idempotent; a target pinned in the reviewed
  closure was reported with the reviewed digest; the operation authorizer, if there is one, agrees; and tool
  calls, network bytes, model tokens and mutations, in 64-bit sums, stay within the budgets that are set.
\<close>

theorem authorize_allows_exactly:
  "snd (authorize sha t1 t2 e p) = None \<longleftrightarrow>
    en_startup_error e = None \<and> grants (en_contract e) p \<and>
    (0 < sint (max_runtime_seconds (limits_of e)) \<longrightarrow>
       time_sub t1 (en_started e) \<le> sint (max_runtime_seconds (limits_of e) * 1000000000)) \<and>
    (destructive_op p \<and> ag_confirm_destructive (agent_of e) \<longrightarrow> op_confirmed p) \<and>
    (external_op p \<and> ag_confirm_external (agent_of e) \<longrightarrow> op_confirmed p) \<and>
    (external_op p \<longrightarrow> ag_external_side_effects (agent_of e)) \<and>
    (0 < sint (max_retries (limits_of e)) \<longrightarrow> sint (op_retry_count p) \<le> sint (max_retries (limits_of e))) \<and>
    (0 < sint (max_delegation_depth (limits_of e)) \<longrightarrow>
       sint (op_delegation_depth p) \<le> sint (max_delegation_depth (limits_of e))) \<and>
    (0 < sint (max_recursion_depth (limits_of e)) \<longrightarrow>
       sint (op_recursion_depth p) \<le> sint (max_recursion_depth (limits_of e))) \<and>
    (op_source_trust p = [] \<or> op_required_trust p = [] \<or>
       trust_rank (op_required_trust p) \<le> trust_rank (op_source_trust p) \<or> op_trust_verified p) \<and>
    (op_retry_count p = 0 \<or> op_idempotent p \<or>
       op_effect p \<notin> {EffectIrreversibleWrite, EffectExternalSideEffect, EffectDestructive}) \<and>
    (\<forall>d. op_target p \<noteq> [] \<and> reviewed_digest (sc_reviewed_closure (en_contract e)) (op_target p) = Some d \<longrightarrow>
       op_digest p \<noteq> [] \<and> equal_fold (op_digest p) d) \<and>
    (case en_op_authorizer e of None \<Rightarrow> \<not> en_require_op_auth e
     | Some auth \<Rightarrow> auth (classify_operation_risk p) = None) \<and>
    (is_tool_invocation (op_capability p) \<and> 0 < sint (max_tool_calls (limits_of e)) \<longrightarrow>
       sint (en_tool_calls e + 1) \<le> sint (max_tool_calls (limits_of e))) \<and>
    (is_network_egress (op_capability p) \<longrightarrow> 0 \<le> sint (op_network_bytes p) \<and>
       (0 < sint (max_network_bytes (limits_of e)) \<longrightarrow>
          sint (en_network_bytes e + op_network_bytes p) \<le> sint (max_network_bytes (limits_of e)))) \<and>
    (0 \<le> sint (op_model_tokens p) \<and> (0 < sint (op_model_tokens p) \<and> 0 < sint (max_model_tokens (limits_of e)) \<longrightarrow>
       sint (en_model_tokens e + op_model_tokens p) \<le> sint (max_model_tokens (limits_of e)))) \<and>
    (op_mutation p \<and> 0 < sint (max_external_mutations (limits_of e)) \<longrightarrow>
       sint (en_external_mutations e + 1) \<le> sint (max_external_mutations (limits_of e)))"
proof -
  let ?q = "classify_operation_risk p"
  have g: "authorize_capability e ?q = None \<longleftrightarrow> grants (en_contract e) p"
    using grants_capability [of e ?q] capability_grants [of e ?q] grants_same [of ?q p] by auto
  have cap: "op_capability p \<noteq> []" if "grants (en_contract e) p" using that no_grant_without_capability by blast
  show ?thesis
    unfolding authorize_None static_guards_None g charge_all_None charges_None trust_boundary_None idempotency_None
      authorizer_check_None reviewed_closure_iff runtime_within limit_iff classified_risk classify_simps
    by (intro iffI; elim conjE; intro conjI; (assumption | rule cap, assumption))
qed

text \<open>A contract that lets a skill write below \<open>out\<close> and run \<open>git status\<close>, used by the witnesses.\<close>

definition demo_contract :: skill_contract where
  "demo_contract = zero_contract
     \<lparr>sc_capabilities := zero_capabilities
        \<lparr>cap_filesystem := \<lparr>fs_read = [''docs/**''], fs_write = [''out/**''], fs_delete = []\<rparr>,
         cap_network := \<lparr>net_inbound = False, net_outbound = True, net_hosts = [''api.example.com'']\<rparr>,
         cap_tools := \<lparr>tool_allow = [''search''], tool_deny = []\<rparr>,
         cap_agent := \<lparr>ag_autonomous_actions = False, ag_external_side_effects = True,
           ag_confirm_destructive = True, ag_confirm_external = False, ag_external_targets = []\<rparr>,
         cap_resources := zero_limits\<lparr>max_tool_calls := 2, max_network_bytes := 1000,
           max_model_tokens := 500, max_external_mutations := 1\<rparr>\<rparr>\<rparr>"

definition demo_enforcer :: enforcer where
  "demo_enforcer = new_enforcer (\<lambda>s. s) (\<lambda>_. None) 0 demo_contract"

definition tool_call :: operation where
  "tool_call = zero_operation\<lparr>op_capability := ''tools.call'', op_target := ''search''\<rparr>"

definition net_call :: "int64 \<Rightarrow> operation" where
  "net_call n = zero_operation
     \<lparr>op_capability := ''network.outbound'', op_target := ''api.example.com'', op_network_bytes := n\<rparr>"

lemmas demo_defs = demo_enforcer_def demo_contract_def tool_call_def net_call_def

lemma demo_tool_call: "snd (authorize (\<lambda>s. s) 0 0 demo_enforcer tool_call) = None"
  by (simp add: demo_defs go_defs word_sless_alt)

lemma demo_net_call: "snd (authorize (\<lambda>s. s) 0 0 demo_enforcer (net_call 1)) = None"
  by (simp add: demo_defs go_defs word_sless_alt)

theorem authorize_allows_exactly_witness:
  "snd (authorize (\<lambda>s. s) 0 0 demo_enforcer (net_call 1)) = None \<and> grants (en_contract demo_enforcer) (net_call 1) \<and>
   ag_external_side_effects (agent_of demo_enforcer) \<and> sint (en_network_bytes demo_enforcer + 1) \<le> 1000"
proof -
  have "external_op (net_call 1)" "is_network_egress (op_capability (net_call 1))" "op_network_bytes (net_call 1) = 1"
    by (simp_all add: net_call_def go_defs external_op_def)
  moreover have "max_network_bytes (limits_of demo_enforcer) = 1000" by (simp add: demo_defs go_defs)
  ultimately show ?thesis using authorize_allows_exactly [of "\<lambda>s. s" 0 0 demo_enforcer "net_call 1"] demo_net_call by simp
qed

section \<open>Histories\<close>

text \<open>
  C19. On a history of calls from a fresh enforcer, the four budgets hold at every length:
  a positive limit on tool calls, network bytes, model tokens or external mutations is not
  exceeded, provided the limit plus any single charge fits in 64 bits.
\<close>

theorem budgets_never_exceeded:
  fixes ps :: "(time \<times> time \<times> operation) list"
  assumes e: "e = new_with_assurance sha0 json t0 c root closure"
    and e': "e' = fst (run_authorize sha e ps)"
    and lim: "l = cap_resources (sc_capabilities c)"
    and fits: "sint (max_tool_calls l) < max_int64" "sint (max_external_mutations l) < max_int64"
      "\<forall>x \<in> set ps. sint (max_network_bytes l) + sint (op_network_bytes (snd (snd x))) \<le> max_int64"
      "\<forall>x \<in> set ps. sint (max_model_tokens l) + sint (op_model_tokens (snd (snd x))) \<le> max_int64"
  shows "(0 < sint (max_tool_calls l) \<longrightarrow> sint (en_tool_calls e') \<le> sint (max_tool_calls l)) \<and>
    (0 < sint (max_network_bytes l) \<longrightarrow> sint (en_network_bytes e') \<le> sint (max_network_bytes l)) \<and>
    (0 < sint (max_model_tokens l) \<longrightarrow> sint (en_model_tokens e') \<le> sint (max_model_tokens l)) \<and>
    (0 < sint (max_external_mutations l) \<longrightarrow> sint (en_external_mutations e') \<le> sint (max_external_mutations l))"
proof -
  have init: "en_contract e = c" "en_tool_calls e = 0" "en_network_bytes e = 0" "en_model_tokens e = 0"
    "en_external_mutations e = 0"
    by (simp_all add: e new_with_assurance_def)
  show ?thesis
    using tools.fold_bounded [of e ps sha] network.fold_bounded [of e ps sha]
      tokens.fold_bounded [of e ps sha] mutations.fold_bounded [of e ps sha] fits
    by (simp add: e' run_authorize_fold init lim)
qed

theorem budgets_never_exceeded_witness:
  "sint (en_tool_calls (fst (run_authorize (\<lambda>s. s) demo_enforcer [(0, 0, tool_call), (1, 1, tool_call), (2, 2, tool_call)]))) \<le> 2"
proof -
  let ?ps = "[(0, 0, tool_call), (1, 1, tool_call), (2, 2, tool_call)]"
  have e: "demo_enforcer = new_with_assurance (\<lambda>s. s) (\<lambda>_. None) 0 demo_contract [] []"
    by (simp add: demo_enforcer_def new_enforcer_def)
  have l: "max_tool_calls (cap_resources (sc_capabilities demo_contract)) = 2"
    "max_network_bytes (cap_resources (sc_capabilities demo_contract)) = 1000"
    "max_model_tokens (cap_resources (sc_capabilities demo_contract)) = 500"
    "max_external_mutations (cap_resources (sc_capabilities demo_contract)) = 1"
    by (simp_all add: demo_contract_def)
  have z: "op_network_bytes tool_call = 0" "op_model_tokens tool_call = 0"
    by (simp_all add: tool_call_def zero_operation_def)
  show ?thesis
    using budgets_never_exceeded [OF e refl refl, of ?ps "\<lambda>s. s"] by (simp add: l z)
qed

text \<open>
  The proviso of the budgets is needed: the byte counter is a 64-bit sum, so a single
  operation that reports the largest byte count wraps it.  The enforcer allows that
  operation against a limit of 1000 bytes and is left with a negative counter.
\<close>

theorem network_budget_wraps:
  "\<exists>c ps e'. max_network_bytes (cap_resources (sc_capabilities c)) = 1000 \<and>
     run_authorize (\<lambda>s. s) (new_enforcer (\<lambda>s. s) (\<lambda>_. None) 0 c) ps = (e', [None, None]) \<and>
     (\<exists>x \<in> set ps. sint (op_network_bytes (snd (snd x))) = max_int64) \<and>
     sint (en_network_bytes e') < 0"
proof -
  let ?ps = "[(0, 0, net_call 1), (0, 0, net_call 9223372036854775807)]"
  define e1 where "e1 = fst (authorize (\<lambda>s. s) 0 0 demo_enforcer (net_call 1))"
  define e2 where "e2 = fst (authorize (\<lambda>s. s) 0 0 e1 (net_call 9223372036854775807))"
  have e1: "authorize (\<lambda>s. s) 0 0 demo_enforcer (net_call 1) = (e1, None)"
    using demo_net_call by (simp add: e1_def prod_eq_iff)
  have "snd (authorize (\<lambda>s. s) 0 0 e1 (net_call 9223372036854775807)) = None"
    by (simp add: e1_def demo_defs go_defs word_sless_alt)
  then have e2: "authorize (\<lambda>s. s) 0 0 e1 (net_call 9223372036854775807) = (e2, None)"
    by (simp add: e2_def prod_eq_iff)
  have neg: "sint (en_network_bytes e2) < 0"
    by (simp add: e2_def e1_def demo_defs go_defs word_sless_alt)
  have run: "run_authorize (\<lambda>s. s) (new_enforcer (\<lambda>s. s) (\<lambda>_. None) 0 demo_contract) ?ps = (e2, [None, None])"
    using e1 e2 by (simp add: demo_enforcer_def run_authorize.simps)
  show ?thesis
  proof (intro exI conjI)
    show "max_network_bytes (cap_resources (sc_capabilities demo_contract)) = 1000"
      by (simp add: demo_contract_def)
    show "run_authorize (\<lambda>s. s) (new_enforcer (\<lambda>s. s) (\<lambda>_. None) 0 demo_contract) ?ps = (e2, [None, None])"
      by (rule run)
    show "\<exists>x \<in> set ?ps. sint (op_network_bytes (snd (snd x))) = max_int64"
      by (simp add: net_call_def)
    show "sint (en_network_bytes e2) < 0" by (rule neg)
  qed
qed


section \<open>The decision log\<close>

text \<open>One entry for one call: who asked for what, when, and what was decided.\<close>

definition decision_matches ::
    "time \<times> time \<times> operation \<Rightarrow> enf_error option \<Rightarrow> enf_error decision_record \<Rightarrow> bool" where
  "decision_matches x r d \<longleftrightarrow>
     dr_timestamp d = fst (snd x) \<and> dr_capability d = op_capability (snd (snd x)) \<and>
     dr_target d = op_target (snd (snd x)) \<and> dr_artifact_digest d = op_digest (snd (snd x)) \<and>
     dr_reason d = r \<and> dr_decision d = (if r = None then ''allow'' else ''deny'')"

lemma authorize_decision:
  "\<exists>d. en_decisions (fst (authorize sha t1 t2 e p)) = en_decisions e @ [d] \<and>
     decision_matches (t1, t2, p) (snd (authorize sha t1 t2 e p)) d"
proof (cases "en_startup_error e = None \<and> op_capability p \<noteq> []")
  case False
  then show ?thesis
    by (cases "en_startup_error e")
      (auto simp: authorize_def record_decision_def decision_matches_def)
next
  case True
  have "en_decisions (fst (charge_all e (classify_operation_risk p))) = en_decisions e"
    using charge_all_frame [of e "classify_operation_risk p"] by (simp add: same_frame_def)
  with True show ?thesis
    by (auto simp: authorize_def Let_def record_decision_def decision_matches_def
        split: option.splits prod.splits)
qed

text \<open>
  Every call of \<open>Authorize\<close> appends exactly one entry to the decision log and changes
  no earlier entry; the entry names the capability, target and digest of that call and
  says \<open>allow\<close> exactly when the call returned no error, with that error as its reason.
\<close>

theorem decision_log_complete:
  "\<exists>ds. en_decisions (fst (run_authorize sha e ps)) = en_decisions e @ ds \<and>
     length ds = length ps \<and> length (snd (run_authorize sha e ps)) = length ps \<and>
     list_all2 (\<lambda>(x, r) d. decision_matches x r d) (zip ps (snd (run_authorize sha e ps))) ds"
proof (induction ps arbitrary: e)
  case Nil
  then show ?case by simp
next
  case (Cons x ps)
  obtain t1 t2 p where x: "x = (t1, t2, p)" by (cases x)
  obtain d where d: "en_decisions (authorize_step sha x e) = en_decisions e @ [d]"
    "decision_matches x (snd (authorize sha t1 t2 e p)) d"
    using authorize_decision [of sha t1 t2 e p] by (auto simp: x authorize_step_def)
  obtain ds where ds: "en_decisions (fst (run_authorize sha (authorize_step sha x e) ps)) =
      en_decisions (authorize_step sha x e) @ ds" "length ds = length ps"
    "length (snd (run_authorize sha (authorize_step sha x e) ps)) = length ps"
    "list_all2 (\<lambda>(x, r) d. decision_matches x r d)
       (zip ps (snd (run_authorize sha (authorize_step sha x e) ps))) ds"
    using Cons.IH [of "authorize_step sha x e"] by blast
  show ?case
    by (rule exI [of _ "d # ds"]) (use d ds in \<open>simp add: x\<close>)
qed

section \<open>Refusals\<close>

text \<open>
  When the contract pins a root or closure digest and the measured one differs, no
  operation is ever allowed and no budget is ever consumed.
\<close>

theorem startup_mismatch_fails_closed:
  assumes e: "e = new_with_assurance sha0 json t0 c root closure"
    and mismatch: "(sc_reviewed_root_digest c \<noteq> [] \<and> \<not> equal_fold (sc_reviewed_root_digest c) root) \<or>
      (sc_reviewed_closure_digest c \<noteq> [] \<and> \<not> equal_fold (sc_reviewed_closure_digest c) closure)"
    and run: "run_authorize sha e ps = (e', rs)"
  shows "None \<notin> set rs \<and> en_tool_calls e' = 0 \<and> en_network_bytes e' = 0 \<and>
    en_model_tokens e' = 0 \<and> en_external_mutations e' = 0"
proof -
  have "en_startup_error e \<noteq> None" "en_tool_calls e = 0" "en_network_bytes e = 0"
    "en_model_tokens e = 0" "en_external_mutations e = 0"
    using mismatch by (auto simp: e new_with_assurance_def startup_check_def)
  with run show ?thesis
  proof (induction ps arbitrary: e e' rs)
    case Nil
    then show ?case by simp
  next
    case (Cons x ps)
    obtain t1 t2 p where x: "x = (t1, t2, p)" by (cases x)
    obtain err where "authorize sha t1 t2 e p = record_decision sha t2 e p (Some err)"
      using Cons.prems by (auto simp: authorize_def)
    then have "authorize_step sha x e = fst (record_decision sha t2 e p (Some err))"
      and r: "snd (authorize sha t1 t2 e p) = Some err"
      by (simp_all add: x authorize_step_def)
    then have "en_startup_error (authorize_step sha x e) \<noteq> None" "en_tool_calls (authorize_step sha x e) = 0"
      "en_network_bytes (authorize_step sha x e) = 0" "en_model_tokens (authorize_step sha x e) = 0"
      "en_external_mutations (authorize_step sha x e) = 0"
      using Cons.prems by simp_all
    with Cons.IH [of "authorize_step sha x e", OF prod.collapse [symmetric]] Cons.prems(1) r
    show ?case
      using run_authorize_Cons(1) [of sha e x ps] run_authorize_Cons(2) [of sha e x ps] by (simp add: x)
  qed
qed

theorem startup_mismatch_fails_closed_witness:
  "None \<notin> set (snd (run_authorize (\<lambda>s. s)
     (new_with_assurance (\<lambda>s. s) (\<lambda>_. None) 0 (zero_contract\<lparr>sc_reviewed_root_digest := ''ab''\<rparr>) ''cd'' []) [(0, 0, tool_call)]))"
proof -
  have "(sc_reviewed_root_digest (zero_contract\<lparr>sc_reviewed_root_digest := ''ab''\<rparr>) \<noteq> [] \<and>
      \<not> equal_fold (sc_reviewed_root_digest (zero_contract\<lparr>sc_reviewed_root_digest := ''ab''\<rparr>)) ''cd'') \<or>
    (sc_reviewed_closure_digest (zero_contract\<lparr>sc_reviewed_root_digest := ''ab''\<rparr>) \<noteq> [] \<and>
      \<not> equal_fold (sc_reviewed_closure_digest (zero_contract\<lparr>sc_reviewed_root_digest := ''ab''\<rparr>)) [])"
    by (simp add: go_defs)
  from startup_mismatch_fails_closed [OF refl this prod.collapse [symmetric]] show ?thesis by blast
qed

definition budget_error :: "enf_error \<Rightarrow> bool" where
  "budget_error err \<longleftrightarrow> err \<in> {MaxToolCallsExceeded, NegativeNetworkBytes, NetworkBudgetExceeded,
     NegativeModelTokens, TokenBudgetExceeded, MutationBudgetExceeded}"

lemma charge_all_error: "snd (charge_all e p) = Some err \<Longrightarrow> budget_error err"
  unfolding charge_all_def then_charge_iff budget_error_def
  by (auto simp: charge_tool_calls_def charge_network_def charge_tokens_def charge_mutations_def
      split: if_split_asm)

text \<open>
  A refusal that does not come from a budget leaves all four counters as they were.
\<close>

theorem refusal_keeps_counters:
  assumes "authorize sha t1 t2 e p = (e', Some err)" and "\<not> budget_error err"
  shows "en_tool_calls e' = en_tool_calls e \<and> en_network_bytes e' = en_network_bytes e \<and>
    en_model_tokens e' = en_model_tokens e \<and> en_external_mutations e' = en_external_mutations e"
proof (cases rule: authorize_cases [of sha t1 t2 e p])
  case (refused p' err')
  with assms(1) have "e' = fst (record_decision sha t2 e p' (Some err'))" by (metis fst_conv)
  then show ?thesis by simp
next
  case charged
  with assms(1) have "snd (charge_all e (classify_operation_risk p)) = Some err"
    by (metis record_decision_simps(1) snd_conv)
  with assms(2) charge_all_error show ?thesis by blast
qed

lemma demo_refusal:
  "snd (authorize (\<lambda>s. s) 0 0 demo_enforcer (zero_operation\<lparr>op_capability := ''runtime.escape''\<rparr>)) = Some RuntimeEscape"
  by (simp add: demo_defs go_defs word_sless_alt)

theorem refusal_keeps_counters_witness:
  "en_tool_calls (fst (authorize (\<lambda>s. s) 0 0 demo_enforcer (zero_operation\<lparr>op_capability := ''runtime.escape''\<rparr>))) = 0"
proof -
  let ?p = "zero_operation\<lparr>op_capability := ''runtime.escape''\<rparr>"
  have a: "authorize (\<lambda>s. s) 0 0 demo_enforcer ?p = (fst (authorize (\<lambda>s. s) 0 0 demo_enforcer ?p), Some RuntimeEscape)"
    using demo_refusal by (simp add: prod_eq_iff)
  have "\<not> budget_error RuntimeEscape" by (simp add: budget_error_def)
  from refusal_keeps_counters [OF a this] show ?thesis by (simp add: demo_defs go_defs)
qed

text \<open>
  A call that a later budget refuses keeps the charges of the earlier blocks: the demo
  enforcer refuses a tool call for its model tokens and has counted the tool call.
\<close>

theorem refused_call_is_charged:
  "\<exists>p e'. authorize (\<lambda>s. s) 0 0 demo_enforcer p = (e', Some TokenBudgetExceeded) \<and>
     en_tool_calls demo_enforcer = 0 \<and> en_tool_calls e' = 1"
proof -
  let ?p = "tool_call\<lparr>op_model_tokens := 501\<rparr>"
  have "snd (authorize (\<lambda>s. s) 0 0 demo_enforcer ?p) = Some TokenBudgetExceeded"
    and "en_tool_calls (fst (authorize (\<lambda>s. s) 0 0 demo_enforcer ?p)) = 1"
    by (simp_all add: demo_defs go_defs word_sless_alt)
  moreover have "en_tool_calls demo_enforcer = 0" by (simp add: demo_defs go_defs)
  ultimately show ?thesis by (metis prod.collapse)
qed

section \<open>Matching\<close>

text \<open>
  A host matches an allow list exactly when, up to case and one trailing dot, it equals
  an entry, or an entry is \<open>*.\<close> followed by a domain and the host ends in a dot and that
  domain.  A wildcard never matches the bare domain.
\<close>

theorem match_host_spec:
  "match_host v allowed \<longleftrightarrow>
     (\<exists>item \<in> set allowed.
        let host = to_lower (trim_suffix v ''.''); entry = to_lower (trim_suffix item ''.'') in
        host = entry \<or> (\<exists>domain labels. entry = ''*.'' @ domain \<and> host = labels @ ''.'' @ domain))"
proof -
  have wild: "(has_prefix i ''*.'' \<and> has_suffix h (drop 1 i) \<and> h \<noteq> drop 2 i) \<longleftrightarrow>
      (\<exists>domain labels. i = ''*.'' @ domain \<and> h = labels @ ''.'' @ domain)" for h i
  proof
    assume a: "has_prefix i ''*.'' \<and> has_suffix h (drop 1 i) \<and> h \<noteq> drop 2 i"
    then obtain d where "i = ''*.'' @ d" by (auto simp: has_prefix_iff)
    moreover from this a obtain l where "h = l @ ''.'' @ d" by (auto simp: has_suffix_iff)
    ultimately show "\<exists>domain labels. i = ''*.'' @ domain \<and> h = labels @ ''.'' @ domain" by blast
  next
    assume "\<exists>domain labels. i = ''*.'' @ domain \<and> h = labels @ ''.'' @ domain"
    then obtain d l where "i = ''*.'' @ d" "h = l @ ''.'' @ d" by blast
    then show "has_prefix i ''*.'' \<and> has_suffix h (drop 1 i) \<and> h \<noteq> drop 2 i"
      by (auto simp: has_prefix_iff has_suffix_iff)
  qed
  show ?thesis
    unfolding match_host_def Let_def list_ex_iff wild by simp
qed

text \<open>
  A directory grant \<open>d/**\<close> with a plain \<open>d\<close> admits a relative path exactly when its
  cleaned form is \<open>d\<close> or lies below \<open>d\<close>, so dot-dot elements cannot leave the directory.
\<close>

theorem match_path_directory_grant:
  assumes "plain_pattern d" and "d \<noteq> []"
  shows "match_path v [d @ ''/**''] \<longleftrightarrow>
    v \<noteq> [] \<and> \<not> is_abs v \<and> \<not> has_prefix v ''../'' \<and>
    (path_clean v = d \<or> has_prefix (path_clean v) (d @ ''/''))"
proof -
  have "plain_pattern (d @ ''/'')" using assms(1) by (auto simp: plain_pattern_def)
  then have "path_match (d @ ''/**'') w \<Longrightarrow> has_prefix w (d @ ''/'')" for w
    using path_match_plain_stars [of "d @ ''/''" w] by simp
  moreover have "trim_suffix (d @ ''/**'') ''/**'' = d" by (rule trim_suffix_append)
  moreover have "d \<noteq> d @ ''/**''" by simp
  ultimately show ?thesis
    unfolding match_path_def Let_def by auto
qed

theorem match_path_directory_grant_witness:
  "match_path ''out/a/../b'' [''out'' @ ''/**''] \<and> \<not> match_path ''out/../../b'' [''out'' @ ''/**'']"
proof -
  have "plain_pattern ''out''" by (simp add: go_defs)
  note spec = match_path_directory_grant [OF this]
  show ?thesis by (simp only: spec [OF list.distinct(2)]) (simp add: go_defs)
qed

text \<open>
  The check for a leading dot-dot is made before the path is cleaned: a path that
  climbs out of the workspace only after cleaning is accepted by a pattern that starts with
  a star, although the same path written directly is refused.
\<close>

theorem match_path_escapes_workspace:
  "\<exists>v. path_clean v = ''../secret'' \<and> match_path v [''*/secret''] \<and> \<not> match_path (path_clean v) [''*/secret'']"
proof (intro exI conjI)
  show "path_clean ''a/../../secret'' = ''../secret''" by (simp add: go_defs)
  show "match_path ''a/../../secret'' [''*/secret'']"
    by (simp add: go_defs path_match.simps match_chunk.simps)
  show "\<not> match_path (path_clean ''a/../../secret'') [''*/secret'']" by (simp add: go_defs)
qed

end
