(* ===== verification/Go_Encoding.thy ===== *)
theory Go_Encoding
  imports Go_Path
begin

text \<open>
  The encodings of Go's standard library that the signed artifacts of the program are built
  from: decimal numbers, RFC 3339 time stamps, standard base64 (\<open>encoding/base64\<close>) and JSON
  (\<open>encoding/json\<close>).

  \<open>canonical_json\<close> is \<open>CanonicalJSON\<close> of internal/signing/ed25519.go: it marshals a value,
  decodes the text into a generic value that keeps number literals, and marshals that again.
  The second pass sees objects as Go maps, so the result has the keys of every object in byte
  order.  A Go value is represented by the JSON tree its marshaller walks over
  (\<open>JUnsupported\<close> is a value \<open>encoding/json\<close> refuses: a channel, a function, a NaN).
\<close>

section \<open>Decimal numbers\<close>

fun dec_nat :: "nat \<Rightarrow> string" where
  "dec_nat n = (if n < 10 then [char_of (48 + n)] else dec_nat (n div 10) @ [char_of (48 + n mod 10)])"

declare dec_nat.simps [simp del]

definition dec_int :: "int \<Rightarrow> string" where
  [go_defs]: "dec_int i = (if i < 0 then CHR ''-'' # dec_nat (nat (- i)) else dec_nat (nat i))"

lemma dec_nat_digits: "c \<in> set (dec_nat n) \<Longrightarrow> is_digit c"
proof (induction n rule: dec_nat.induct)
  case (1 n)
  show ?case
  proof (cases "n < 10")
    case True
    with 1 show ?thesis by (subst (asm) (2) dec_nat.simps) (auto simp: is_digit_def)
  next
    case False
    with 1 show ?thesis by (subst (asm) (2) dec_nat.simps) (auto simp: is_digit_def)
  qed
qed

lemma dec_nat_nonempty [simp]: "dec_nat n \<noteq> []"
  by (subst dec_nat.simps) simp

lemma dec_nat_no_space: "CHR '' '' \<notin> set (dec_nat n)"
  using dec_nat_digits [of "CHR '' ''" n] by (auto simp: is_digit_def)

lemma of_char_of_int: "k < 256 \<Longrightarrow> (of_char (char_of (k :: nat)) :: int) = int k"
  by (metis mod_less of_char_of of_nat_of_char)

lemma foldl_digits_append: "digits_value (s @ [c]) = digits_value s * 10 + (of_char c - 48)"
  by (simp add: digits_value_def)

lemma digits_value_dec_nat: "digits_value (dec_nat n) = int n"
proof (induction n rule: dec_nat.induct)
  case (1 n)
  show ?case
  proof (cases "n < 10")
    case True
    then show ?thesis by (subst dec_nat.simps) (simp add: digits_value_def of_char_of_int)
  next
    case False
    then have "dec_nat n = dec_nat (n div 10) @ [char_of (48 + n mod 10)]"
      by (subst dec_nat.simps) simp
    then have "digits_value (dec_nat n) = int (n div 10) * 10 + int (n mod 10)"
      using 1 False by (simp add: foldl_digits_append of_char_of_int)
    also have "\<dots> = int n" using div_mult_mod_eq [of n 10] by linarith
    finally show ?thesis .
  qed
qed

lemma dec_nat_inj: "dec_nat m = dec_nat n \<longleftrightarrow> m = n"
  by (metis digits_value_dec_nat of_nat_eq_iff)

section \<open>Time stamps\<close>

text \<open>
  \<open>RFC3339Nano\<close> of a time in UTC.  A time counts nanoseconds from the first of January of
  the year 1; the civil date is computed from days in the proleptic Gregorian calendar, with
  years starting in March.
\<close>

definition civil_date :: "int \<Rightarrow> int \<times> int \<times> int" where
  [go_defs]: "civil_date day =
     (let z = day + 306;
          era = z div 146097;
          doe = z mod 146097;
          yoe = (doe - doe div 1460 + doe div 36524 - doe div 146096) div 365;
          doy = doe - (365 * yoe + yoe div 4 - yoe div 100);
          mp = (5 * doy + 2) div 153;
          d = doy - (153 * mp + 2) div 5 + 1;
          m = (if mp < 10 then mp + 3 else mp - 9)
      in (yoe + era * 400 + (if m \<le> 2 then 1 else 0), m, d))"

definition pad :: "nat \<Rightarrow> int \<Rightarrow> string" where
  [go_defs]: "pad w n = (let s = dec_int n in replicate (w - length s) (CHR ''0'') @ s)"

definition frac_nanos :: "int \<Rightarrow> string" where
  [go_defs]: "frac_nanos n =
     (if n = 0 then [] else CHR ''.'' # rev (dropWhile (\<lambda>c. c = CHR ''0'') (rev (pad 9 n))))"

definition rfc3339_nano :: "time \<Rightarrow> string" where
  [go_defs]: "rfc3339_nano t =
     (let secs = t div 1000000000; (y, m, d) = civil_date (secs div 86400); s = secs mod 86400
      in pad 4 y @ ''-'' @ pad 2 m @ ''-'' @ pad 2 d @ ''T'' @ pad 2 (s div 3600) @ '':'' @
         pad 2 (s div 60 mod 60) @ '':'' @ pad 2 (s mod 60) @ frac_nanos (t mod 1000000000) @ ''Z'')"

text \<open>\<open>Time.MarshalJSON\<close> refuses a year outside 0 to 9999.\<close>

definition time_year_ok :: "time \<Rightarrow> bool" where
  [go_defs]: "time_year_ok t =
     (let y = fst (civil_date (t div 1000000000 div 86400)) in 0 \<le> y \<and> y \<le> 9999)"

section \<open>Base64\<close>

definition b64_alphabet :: string where
  "b64_alphabet = ''ABCDEFGHIJKLMNOPQRSTUVWXYZabcdefghijklmnopqrstuvwxyz0123456789+/''"

definition enc6 :: "nat \<Rightarrow> char" where
  "enc6 n = b64_alphabet ! n"

definition dec6 :: "char \<Rightarrow> nat option" where
  "dec6 c = index_byte b64_alphabet c"

fun enc_bytes :: "nat list \<Rightarrow> string" where
  "enc_bytes [] = []"
| "enc_bytes [a] = [enc6 (a div 4), enc6 (a mod 4 * 16), CHR ''='', CHR ''='']"
| "enc_bytes [a, b] =
     [enc6 (a div 4), enc6 (a mod 4 * 16 + b div 16), enc6 (b mod 16 * 4), CHR ''='']"
| "enc_bytes (a # b # c # r) =
     enc6 (a div 4) # enc6 (a mod 4 * 16 + b div 16) # enc6 (b mod 16 * 4 + c div 64) #
     enc6 (c mod 64) # enc_bytes r"

fun dec_bytes :: "string \<Rightarrow> nat list option" where
  "dec_bytes [] = Some []"
| "dec_bytes (p # q # r # s # t) =
     (case (dec6 p, dec6 q) of
        (Some a, Some b) \<Rightarrow>
          let x = a * 4 + b div 16 in
          (case dec6 r of
             None \<Rightarrow> if r = CHR ''='' \<and> s = CHR ''='' \<and> t = [] then Some [x] else None
           | Some c \<Rightarrow>
               let y = b mod 16 * 16 + c div 4 in
               (case dec6 s of
                  None \<Rightarrow> if s = CHR ''='' \<and> t = [] then Some [x, y] else None
                | Some d \<Rightarrow> map_option (\<lambda>zs. x # y # (c mod 4 * 64 + d) # zs) (dec_bytes t)))
      | _ \<Rightarrow> None)"
| "dec_bytes _ = None"

definition b64_encode :: "string \<Rightarrow> string" where
  "b64_encode s = enc_bytes (map of_char s)"

text \<open>The decoder skips line breaks.\<close>

definition b64_decode :: "string \<Rightarrow> string option" where
  "b64_decode s = map_option (map char_of)
     (dec_bytes (filter (\<lambda>c. c \<noteq> CHR 0x0A \<and> c \<noteq> CHR 0x0D) s))"

lemma distinct_alphabet: "distinct b64_alphabet"
  by (simp add: b64_alphabet_def)

lemma index_byte_nth: "distinct s \<Longrightarrow> i < length s \<Longrightarrow> index_byte s (s ! i) = Some i"
proof (induction s arbitrary: i)
  case (Cons x s)
  then show ?case by (cases i) auto
qed simp

lemma dec6_enc6 [simp]: "n < 64 \<Longrightarrow> dec6 (enc6 n) = Some n"
  unfolding dec6_def enc6_def by (rule index_byte_nth [OF distinct_alphabet]) (simp add: b64_alphabet_def)

lemma dec6_pad [simp]: "dec6 (CHR ''='') = None"
  by (simp add: dec6_def index_byte_None b64_alphabet_def)

lemma dec_enc_bytes: "\<forall>b \<in> set bs. b < 256 \<Longrightarrow> dec_bytes (enc_bytes bs) = Some bs"
proof (induction bs rule: enc_bytes.induct)
  case (2 a)
  then have "a div 4 < 64" by simp
  then show ?case by (simp add: Let_def)
next
  case (3 a b)
  then have "a div 4 < 64" "a mod 4 * 16 + b div 16 < 64" "b mod 16 * 4 < 64" by auto
  moreover have "(a mod 4 * 16 + b div 16) div 16 = a mod 4" "(a mod 4 * 16 + b div 16) mod 16 = b div 16"
    using 3 by (auto simp: div_mult_self3 mod_mult_self3 less_mult_imp_div_less)
  ultimately show ?case using 3 by (simp add: Let_def)
next
  case (4 a b c r)
  then have "a div 4 < 64" "a mod 4 * 16 + b div 16 < 64" "b mod 16 * 4 + c div 64 < 64" "c mod 64 < 64"
    by auto
  moreover have "(a mod 4 * 16 + b div 16) div 16 = a mod 4" "(a mod 4 * 16 + b div 16) mod 16 = b div 16"
    "(b mod 16 * 4 + c div 64) div 4 = b mod 16" "(b mod 16 * 4 + c div 64) mod 4 = c div 64"
    using 4 by (auto simp: div_mult_self3 mod_mult_self3 less_mult_imp_div_less)
  ultimately show ?case using 4 by (simp add: Let_def)
qed simp

lemma enc6_printable: "n < 64 \<Longrightarrow> enc6 n \<noteq> CHR 0x0A \<and> enc6 n \<noteq> CHR 0x0D"
proof -
  assume "n < 64"
  then have "n < length b64_alphabet" by (simp add: b64_alphabet_def)
  then have "enc6 n \<in> set b64_alphabet" unfolding enc6_def by (rule nth_mem)
  then show ?thesis by (auto simp: b64_alphabet_def)
qed

lemma enc_bytes_printable:
  "\<forall>b \<in> set bs. b < 256 \<Longrightarrow> c \<in> set (enc_bytes bs) \<Longrightarrow> c \<noteq> CHR 0x0A \<and> c \<noteq> CHR 0x0D"
proof (induction bs rule: enc_bytes.induct)
  case (2 a)
  then have "a div 4 < 64" "a mod 4 * 16 < 64" by auto
  with 2 show ?case using enc6_printable by auto
next
  case (3 a b)
  then have "a div 4 < 64" "a mod 4 * 16 + b div 16 < 64" "b mod 16 * 4 < 64" by auto
  with 3 show ?case using enc6_printable by auto
next
  case (4 a b c' r)
  then have "a div 4 < 64" "a mod 4 * 16 + b div 16 < 64" "b mod 16 * 4 + c' div 64 < 64" "c' mod 64 < 64"
    by auto
  with 4 show ?case using enc6_printable by auto
qed simp

lemma of_char_bound: "(of_char (c :: char) :: nat) < 256"
  by (metis mod_less_divisor of_char_mod_256 zero_less_numeral)

lemma b64_decode_encode [simp]: "b64_decode (b64_encode s) = Some s"
proof -
  let ?bs = "map of_char s :: nat list"
  have b: "\<forall>b \<in> set ?bs. b < 256" by (simp add: of_char_bound)
  have "filter (\<lambda>c. c \<noteq> CHR 0x0A \<and> c \<noteq> CHR 0x0D) (enc_bytes ?bs) = enc_bytes ?bs"
    using enc_bytes_printable [OF b] by (intro filter_True) auto
  then show ?thesis
    by (simp add: b64_decode_def b64_encode_def dec_enc_bytes [OF b] comp_def)
qed

section \<open>JSON\<close>

datatype json =
    JNull
  | JBool bool
  | JNum string
  | JStr string
  | JArr "json list"
  | JObj "(string \<times> json) list"
  | JUnsupported

text \<open>
  The string encoder: quotes, backslashes and control characters are escaped, and so are the
  three HTML characters and the line separators U+2028 and U+2029; a byte that starts no valid
  UTF-8 sequence becomes U+FFFD.
\<close>

definition hex_digit :: "nat \<Rightarrow> char" where
  [go_defs]: "hex_digit n = (if n < 10 then char_of (48 + n) else char_of (87 + n))"

definition u_escape :: "nat \<Rightarrow> string" where
  [go_defs]: "u_escape n =
     [CHR 0x5C, CHR ''u'', hex_digit (n div 4096 mod 16), hex_digit (n div 256 mod 16),
      hex_digit (n div 16 mod 16), hex_digit (n mod 16)]"

definition esc_ascii :: "nat \<Rightarrow> string" where
  [go_defs]: "esc_ascii n =
     (if n = 34 then [CHR 0x5C, CHR 0x22] else if n = 92 then [CHR 0x5C, CHR 0x5C]
      else if n = 8 then [CHR 0x5C, CHR ''b''] else if n = 12 then [CHR 0x5C, CHR ''f'']
      else if n = 10 then [CHR 0x5C, CHR ''n''] else if n = 13 then [CHR 0x5C, CHR ''r'']
      else if n = 9 then [CHR 0x5C, CHR ''t'']
      else if n < 32 \<or> n = 60 \<or> n = 62 \<or> n = 38 then u_escape n
      else [char_of n])"

function esc_string :: "string \<Rightarrow> string" where
  "esc_string s =
     (if s = [] then []
      else let (r, w) = decode_rune s in
        (if r < 128 then esc_ascii r
         else if r = 65533 \<and> w = 1 then map char_of [239, 191, 189 :: nat]
         else if r = 8232 \<or> r = 8233 then u_escape r
         else take w s) @ esc_string (drop w s))"
  by pat_completeness auto
termination
proof (relation "measure length")
  fix s :: string and x r w
  assume "s \<noteq> []" and "x = decode_rune s" and "(r, w) = x"
  then have "0 < w" using decode_rune_width [of s] by (metis snd_conv)
  with \<open>s \<noteq> []\<close> show "(drop w s, s) \<in> measure length" by simp
qed simp

declare esc_string.simps [simp del]

definition json_string :: "string \<Rightarrow> string" where
  "json_string s = CHR 0x22 # esc_string s @ [CHR 0x22]"

text \<open>The text of a value; objects come out with sorted keys.\<close>

fun json_text :: "json \<Rightarrow> string option"
and json_elems :: "json list \<Rightarrow> string list option"
and json_members :: "(string \<times> json) list \<Rightarrow> (string \<times> string) list option" where
  "json_text JNull = Some ''null''"
| "json_text (JBool b) = Some (if b then ''true'' else ''false'')"
| "json_text (JNum n) = Some n"
| "json_text (JStr s) = Some (json_string s)"
| "json_text (JArr xs) =
     map_option (\<lambda>ts. ''['' @ join ts '','' @ '']'') (json_elems xs)"
| "json_text (JObj ms) =
     map_option (\<lambda>ts. ''{'' @ join (map snd (sort_key fst ts)) '','' @ ''}'') (json_members ms)"
| "json_text JUnsupported = None"
| "json_elems [] = Some []"
| "json_elems (x # xs) =
     (case (json_text x, json_elems xs) of (Some t, Some ts) \<Rightarrow> Some (t # ts) | _ \<Rightarrow> None)"
| "json_members [] = Some []"
| "json_members ((k, v) # ms) =
     (case (json_text v, json_members ms) of
        (Some t, Some ts) \<Rightarrow> Some ((k, json_string k @ '':'' @ t) # ts) | _ \<Rightarrow> None)"

definition canonical_json :: "json \<Rightarrow> string option" where
  "canonical_json = json_text"

text \<open>The order in which the members of an object are given does not matter.\<close>

lemma json_members_keys: "json_members ms = Some ts \<Longrightarrow> map fst ts = map fst ms"
  by (induction ms arbitrary: ts) (auto split: option.splits)

lemma json_members_map_of:
  "json_members ms = Some ts \<Longrightarrow>
   (k, v) \<in> set ms \<Longrightarrow> \<exists>t. json_text v = Some t \<and> (k, json_string k @ '':'' @ t) \<in> set ts"
  by (induction ms arbitrary: ts) (auto split: option.splits)

text \<open>A field with the \<open>omitempty\<close> tag is left out when it holds the zero value of its type.\<close>

definition omit_str :: "string \<Rightarrow> string \<Rightarrow> (string \<times> json) list" where
  [go_defs]: "omit_str k s = (if s = [] then [] else [(k, JStr s)])"

definition omit_strs :: "string \<Rightarrow> string list \<Rightarrow> (string \<times> json) list" where
  [go_defs]: "omit_strs k ss = (if ss = [] then [] else [(k, JArr (map JStr ss))])"

definition omit_int :: "string \<Rightarrow> int \<Rightarrow> (string \<times> json) list" where
  [go_defs]: "omit_int k n = (if n = 0 then [] else [(k, JNum (dec_int n))])"

definition omit_none :: "string \<Rightarrow> ('a \<Rightarrow> json) \<Rightarrow> 'a option \<Rightarrow> (string \<times> json) list" where
  [go_defs]: "omit_none k f x = (case x of None \<Rightarrow> [] | Some v \<Rightarrow> [(k, f v)])"

text \<open>A nil slice is marshalled as \<open>null\<close>.\<close>

definition strs_json :: "string list \<Rightarrow> json" where
  [go_defs]: "strs_json ss = (if ss = [] then JNull else JArr (map JStr ss))"

definition time_json :: "time \<Rightarrow> json" where
  [go_defs]: "time_json t = (if time_year_ok t then JStr (rfc3339_nano t) else JUnsupported)"

end
