(* ===== verification/Signing.thy ===== *)
theory Signing
  imports Go_Encoding
begin

text \<open>
  Signatures, internal/signing/ed25519.go: key identifiers, the DSSE pre-authentication
  encoding, the loop that looks for a signature by a trusted key, and signed provenance.

  SHA-256 and Ed25519 are the fields of the record \<open>crypto\<close>, an argument of every definition
  that uses them.  \<open>signing_key\<close> states what the documentation of \<open>crypto/ed25519\<close> promises of
  a private key: its sizes, and that a signature made with it verifies.
\<close>

section \<open>The primitives\<close>

record crypto =
  sha256_hex :: "string \<Rightarrow> string"
  ed_verify :: "string \<Rightarrow> string \<Rightarrow> string \<Rightarrow> bool"
  ed_sign :: "string \<Rightarrow> string \<Rightarrow> string"
  ed_public :: "string \<Rightarrow> string"

definition signing_key :: "crypto \<Rightarrow> string \<Rightarrow> bool" where
  "signing_key cr key \<longleftrightarrow> length (ed_public cr key) = 32 \<and>
     (\<forall>m. length (ed_sign cr key m) = 64 \<and> ed_verify cr (ed_public cr key) m (ed_sign cr key m))"

text \<open>An instance of the primitives, for concrete runs: the digest is the first two bytes, a key
  is its own public key, and a signature is the first 64 bytes of key and message.\<close>

definition fit :: "nat \<Rightarrow> string \<Rightarrow> string" where
  "fit n s = take n (s @ replicate n (CHR ''.''))"

definition toy_crypto :: crypto where
  "toy_crypto = \<lparr>sha256_hex = take 2,
     ed_verify = (\<lambda>pub m s. s = fit 64 (pub @ m)),
     ed_sign = (\<lambda>key m. fit 64 (fit 32 key @ m)),
     ed_public = fit 32\<rparr>"

lemma length_fit [simp]: "length (fit n s) = n"
  by (simp add: fit_def)

lemma signing_key_toy [simp]: "signing_key toy_crypto key"
  by (simp add: signing_key_def toy_crypto_def)

definition sha_digest :: "crypto \<Rightarrow> string \<Rightarrow> string" where
  "sha_digest cr s = ''sha256:'' @ sha256_hex cr s"

lemma sha_digest_eq: "sha_digest cr s = sha_digest cr t \<longleftrightarrow> sha256_hex cr s = sha256_hex cr t"
  by (simp add: sha_digest_def)

lemma sha_digest_not_empty [simp]: "sha_digest cr s \<noteq> []"
  by (simp add: sha_digest_def)

section \<open>Keys and signatures\<close>

definition PublicKeyBase64 :: "crypto \<Rightarrow> string \<Rightarrow> string" where
  "PublicKeyBase64 cr key = b64_encode (ed_public cr key)"

definition KeyID :: "crypto \<Rightarrow> string \<Rightarrow> string" where
  "KeyID cr pub = ''sha256:'' @ sha256_hex cr pub"

record dsse_signature =
  sig_keyid :: string
  sig_value :: string

definition dsse_pae :: "string \<Rightarrow> string \<Rightarrow> string" where
  "dsse_pae payload_type payload =
     ''DSSEv1 '' @ dec_nat (length payload_type) @ '' '' @ payload_type @ '' '' @
     dec_nat (length payload) @ '' '' @ payload"

text \<open>The body of the loop over the signatures of an artifact: does this one verify under a
  trusted key?\<close>

definition sig_ok :: "crypto \<Rightarrow> (string \<rightharpoonup> string) \<Rightarrow> string \<Rightarrow> dsse_signature \<Rightarrow> bool" where
  "sig_ok cr keys pae s =
     (case keys (sig_keyid s) of
        None \<Rightarrow> False
      | Some pub64 \<Rightarrow>
          (case b64_decode pub64 of
             None \<Rightarrow> False
           | Some pub \<Rightarrow>
               if length pub \<noteq> 32 then False
               else case b64_decode (sig_value s) of
                 None \<Rightarrow> False
               | Some v \<Rightarrow> if length v \<noteq> 64 then False else ed_verify cr pub pae v))"

text \<open>The key identifier of the first signature that verifies, empty if none does.\<close>

fun verified_key_id :: "crypto \<Rightarrow> (string \<rightharpoonup> string) \<Rightarrow> string \<Rightarrow> dsse_signature list \<Rightarrow> string" where
  "verified_key_id cr keys pae [] = []"
| "verified_key_id cr keys pae (s # ss) =
     (if sig_ok cr keys pae s then sig_keyid s else verified_key_id cr keys pae ss)"

text \<open>One signature over the digest of an artifact.\<close>

definition sign_digest :: "crypto \<Rightarrow> string \<Rightarrow> string \<Rightarrow> string \<Rightarrow> string \<Rightarrow> dsse_signature" where
  "sign_digest cr key key_id payload_type digest =
     \<lparr>sig_keyid = (if key_id = [] then KeyID cr (ed_public cr key) else key_id),
      sig_value = b64_encode (ed_sign cr key (dsse_pae payload_type digest))\<rparr>"

section \<open>Provenance envelopes\<close>

datatype verify_error =
    UnsupportedAlgorithm string string
  | UntrustedKey string
  | BadTrustedKey string
  | BadSignatureValue
  | SignatureFailed

record signature =
  s_provider :: string
  s_algorithm :: string
  s_key_id :: string
  s_value :: string

definition Provider :: string where
  "Provider = ''builtin.ed25519''"

definition Algorithm :: string where
  "Algorithm = ''Ed25519''"

definition verify :: "crypto \<Rightarrow> string \<Rightarrow> signature \<Rightarrow> (string \<rightharpoonup> string) \<Rightarrow> verify_error option" where
  "verify cr payload sg keys =
     (if s_provider sg \<noteq> Provider \<or> \<not> equal_fold (s_algorithm sg) Algorithm
      then Some (UnsupportedAlgorithm (s_provider sg) (s_algorithm sg))
      else case keys (s_key_id sg) of
        None \<Rightarrow> Some (UntrustedKey (s_key_id sg))
      | Some pub64 \<Rightarrow>
          (case b64_decode pub64 of
             None \<Rightarrow> Some (BadTrustedKey (s_key_id sg))
           | Some pub \<Rightarrow>
               if length pub \<noteq> 32 then Some (BadTrustedKey (s_key_id sg))
               else case b64_decode (s_value sg) of
                 None \<Rightarrow> Some BadSignatureValue
               | Some v \<Rightarrow>
                   if length v \<noteq> 64 then Some BadSignatureValue
                   else if \<not> ed_verify cr pub payload v then Some SignatureFailed
                   else None))"

record provenance =
  pv_payload_type :: string
  pv_payload :: string
  pv_signatures :: "dsse_signature list"

definition sign_provenance :: "crypto \<Rightarrow> provenance option \<Rightarrow> string \<Rightarrow> string \<Rightarrow> provenance option" where
  "sign_provenance cr pv key key_id =
     (case pv of
        None \<Rightarrow> None
      | Some p \<Rightarrow>
          (case b64_decode (pv_payload p) of
             None \<Rightarrow> None
           | Some payload \<Rightarrow>
               Some (p\<lparr>pv_signatures := [sign_digest cr key key_id (pv_payload_type p) payload]\<rparr>)))"

text \<open>\<open>True\<close> when \<open>VerifyProvenance\<close> returns no error.\<close>

definition verify_provenance :: "crypto \<Rightarrow> provenance \<Rightarrow> (string \<rightharpoonup> string) \<Rightarrow> bool" where
  "verify_provenance cr pv keys =
     (if pv_signatures pv = [] then False
      else case b64_decode (pv_payload pv) of
        None \<Rightarrow> False
      | Some payload \<Rightarrow>
          list_ex (\<lambda>s. verify cr (dsse_pae (pv_payload_type pv) payload)
             \<lparr>s_provider = Provider, s_algorithm = Algorithm, s_key_id = sig_keyid s,
              s_value = sig_value s\<rparr> keys = None) (pv_signatures pv))"

section \<open>Package statements\<close>

record package_statement =
  pk_version :: int
  pk_name :: string
  pk_version_name :: string
  pk_package_sha :: string
  pk_manifest_sha :: string
  pk_timestamp :: time
  pk_signature :: "signature option"

definition signature_json :: "signature \<Rightarrow> json" where
  "signature_json s = JObj [(''provider'', JStr (s_provider s)), (''algorithm'', JStr (s_algorithm s)),
     (''key_id'', JStr (s_key_id s)), (''value'', JStr (s_value s))]"

definition package_json :: "package_statement \<Rightarrow> json" where
  "package_json p = JObj ([(''version'', JNum (dec_int (pk_version p))), (''name'', JStr (pk_name p)),
     (''package_version'', JStr (pk_version_name p)), (''package_sha256'', JStr (pk_package_sha p)),
     (''content_manifest_sha256'', JStr (pk_manifest_sha p)), (''timestamp'', time_json (pk_timestamp p))] @
     omit_none ''signature'' signature_json (pk_signature p))"

definition package_payload :: "package_statement \<Rightarrow> string option" where
  "package_payload p = canonical_json (package_json (p\<lparr>pk_signature := None\<rparr>))"

definition sign_package_statement ::
  "crypto \<Rightarrow> package_statement option \<Rightarrow> string \<Rightarrow> string \<Rightarrow> package_statement option" where
  "sign_package_statement cr st key key_id =
     (case st of
        None \<Rightarrow> None
      | Some p \<Rightarrow>
          (case package_payload p of
             None \<Rightarrow> None
           | Some payload \<Rightarrow>
               Some (p\<lparr>pk_signature := Some
                 \<lparr>s_provider = Provider, s_algorithm = Algorithm,
                  s_key_id = (if key_id = [] then KeyID cr (ed_public cr key) else key_id),
                  s_value = b64_encode (ed_sign cr key payload)\<rparr>\<rparr>)))"

text \<open>\<open>True\<close> when \<open>VerifyPackageStatement\<close> returns no error.\<close>

definition verify_package_statement :: "crypto \<Rightarrow> package_statement \<Rightarrow> (string \<rightharpoonup> string) \<Rightarrow> bool" where
  "verify_package_statement cr p keys =
     (case pk_signature p of
        None \<Rightarrow> False
      | Some sg \<Rightarrow>
          (case package_payload p of None \<Rightarrow> False | Some payload \<Rightarrow> verify cr payload sg keys = None))"

section \<open>Lemmas\<close>

lemma takeWhile_dec_space:
  "takeWhile (\<lambda>c. c \<noteq> CHR '' '') (dec_nat n @ CHR '' '' # s) = dec_nat n"
  using dec_nat_no_space by (subst takeWhile_append2) auto

lemma dec_space_inj:
  assumes "dec_nat m @ CHR '' '' # s = dec_nat n @ CHR '' '' # t"
  shows "m = n \<and> s = t"
proof -
  from assms have "dec_nat m = dec_nat n" by (metis takeWhile_dec_space)
  with assms show ?thesis by (simp add: dec_nat_inj)
qed

lemma dsse_pae_inj:
  assumes "dsse_pae t p = dsse_pae u q"
  shows "t = u \<and> p = q"
proof -
  from assms have *: "length t = length u \<and>
      t @ '' '' @ dec_nat (length p) @ '' '' @ p = u @ '' '' @ dec_nat (length q) @ '' '' @ q"
    using dec_space_inj [of "length t" _ "length u"] by (simp add: dsse_pae_def)
  then have t: "t = u" by (metis append_eq_append_conv)
  with * have "dec_nat (length p) @ '' '' @ p = dec_nat (length q) @ '' '' @ q" by simp
  then have "p = q" using dec_space_inj [of "length p" p "length q" q] by simp
  with t show ?thesis by simp
qed

lemma sig_ok_iff:
  "sig_ok cr keys pae s \<longleftrightarrow>
     (\<exists>pub64 pub v. keys (sig_keyid s) = Some pub64 \<and> b64_decode pub64 = Some pub \<and> length pub = 32 \<and>
        b64_decode (sig_value s) = Some v \<and> length v = 64 \<and> ed_verify cr pub pae v)"
  by (auto simp: sig_ok_def split: option.splits)

lemma verified_key_id_sound:
  "verified_key_id cr keys pae ss \<noteq> [] \<Longrightarrow>
   \<exists>s \<in> set ss. sig_keyid s = verified_key_id cr keys pae ss \<and> sig_ok cr keys pae s"
  by (induction ss) (auto split: if_splits)

lemma verify_None_iff:
  "verify cr payload sg keys = None \<longleftrightarrow>
     s_provider sg = Provider \<and> equal_fold (s_algorithm sg) Algorithm \<and>
     sig_ok cr keys payload \<lparr>sig_keyid = s_key_id sg, sig_value = s_value sg\<rparr>"
  by (auto simp: verify_def sig_ok_iff split: option.splits if_splits)

lemma dsse_signature_eta [simp]: "\<lparr>sig_keyid = sig_keyid s, sig_value = sig_value s\<rparr> = s"
  by simp

lemma verify_provenance_iff:
  "verify_provenance cr pv keys \<longleftrightarrow>
     (\<exists>payload. b64_decode (pv_payload pv) = Some payload \<and>
        (\<exists>s \<in> set (pv_signatures pv). sig_ok cr keys (dsse_pae (pv_payload_type pv) payload) s))"
  by (cases "b64_decode (pv_payload pv)")
     (auto simp: verify_provenance_def verify_None_iff list_ex_iff)

lemma sign_digest_ok:
  assumes "signing_key cr key"
    and "keys (sig_keyid (sign_digest cr key key_id t d)) = Some (PublicKeyBase64 cr key)"
  shows "sig_ok cr keys (dsse_pae t d) (sign_digest cr key key_id t d)"
  using assms by (simp add: sig_ok_iff signing_key_def PublicKeyBase64_def sign_digest_def)

section \<open>Properties\<close>

text \<open>
  The text that is signed determines the payload type and the payload: a signature made
  for one kind of artifact or one payload is over a different message than any other, and a
  provenance envelope that verifies carries the signature of a trusted key over exactly its
  own type and payload.
\<close>

theorem signed_text_unambiguous:
  "(dsse_pae t p = dsse_pae u q \<longleftrightarrow> t = u \<and> p = q) \<and>
   (verify_provenance cr pv keys \<longleftrightarrow>
     (\<exists>payload pub64 pub v. \<exists>s \<in> set (pv_signatures pv).
        b64_decode (pv_payload pv) = Some payload \<and>
        keys (sig_keyid s) = Some pub64 \<and> b64_decode pub64 = Some pub \<and> length pub = 32 \<and>
        b64_decode (sig_value s) = Some v \<and> length v = 64 \<and>
        ed_verify cr pub (dsse_pae (pv_payload_type pv) payload) v))"
proof
  show "dsse_pae t p = dsse_pae u q \<longleftrightarrow> t = u \<and> p = q" using dsse_pae_inj by blast
next
  show "verify_provenance cr pv keys \<longleftrightarrow>
     (\<exists>payload pub64 pub v. \<exists>s \<in> set (pv_signatures pv).
        b64_decode (pv_payload pv) = Some payload \<and>
        keys (sig_keyid s) = Some pub64 \<and> b64_decode pub64 = Some pub \<and> length pub = 32 \<and>
        b64_decode (sig_value s) = Some v \<and> length v = 64 \<and>
        ed_verify cr pub (dsse_pae (pv_payload_type pv) payload) v)"
    unfolding verify_provenance_iff sig_ok_iff by blast
qed

text \<open>
  What the program signs, it accepts: a package statement and a provenance envelope signed
  with a key verify when the key's public half is trusted under the identifier that was signed
  with (the digest of the public key when no identifier was given), and changing nothing but
  the signature list of an envelope leaves its payload alone.
\<close>

theorem signed_artifacts_verify:
  assumes "signing_key cr key" and "kid = (if key_id = [] then KeyID cr (ed_public cr key) else key_id)"
    and "keys kid = Some (PublicKeyBase64 cr key)"
  shows "(sign_package_statement cr (Some p) key key_id = Some p' \<longrightarrow>
            verify_package_statement cr p' keys \<and> package_payload p' = package_payload p) \<and>
         (sign_provenance cr (Some v) key key_id = Some v' \<longrightarrow>
            verify_provenance cr v' keys \<and> pv_payload v' = pv_payload v)"
proof -
  have v: "sig_ok cr keys (dsse_pae t d) (sign_digest cr key key_id t d)" for t d
    using assms by (intro sign_digest_ok) (simp_all add: sign_digest_def)
  have k: "sig_ok cr keys m \<lparr>sig_keyid = kid, sig_value = b64_encode (ed_sign cr key m)\<rparr>" for m
    using assms by (simp add: sig_ok_iff signing_key_def PublicKeyBase64_def)
  have "verify_package_statement cr p' keys \<and> package_payload p' = package_payload p"
    if s: "sign_package_statement cr (Some p) key key_id = Some p'"
  proof -
    from s obtain m where m: "package_payload p = Some m"
      and p': "p' = p\<lparr>pk_signature := Some \<lparr>s_provider = Provider, s_algorithm = Algorithm,
                 s_key_id = kid, s_value = b64_encode (ed_sign cr key m)\<rparr>\<rparr>"
      using assms(2) by (auto simp: sign_package_statement_def split: option.splits)
    then have "package_payload p' = Some m" by (simp add: package_payload_def)
    with k [of m] m p' show ?thesis
      by (simp add: verify_package_statement_def verify_None_iff)
  qed
  moreover have "verify_provenance cr v' keys \<and> pv_payload v' = pv_payload v"
    if "sign_provenance cr (Some v) key key_id = Some v'"
    using that v by (auto simp: sign_provenance_def verify_provenance_iff split: option.splits)
  ultimately show ?thesis by blast
qed

text \<open>A statement and an envelope signed with the concrete primitives.\<close>

definition sample_provenance :: provenance where
  "sample_provenance = \<lparr>pv_payload_type = ''t'', pv_payload = b64_encode ''{}'', pv_signatures = []\<rparr>"

lemma signed_artifacts_verify_witness:
  "\<exists>v'. sign_provenance toy_crypto (Some sample_provenance) ''k'' ''kid'' = Some v' \<and>
     verify_provenance toy_crypto v' [''kid'' \<mapsto> PublicKeyBase64 toy_crypto ''k'']"
proof -
  have "\<exists>v'. sign_provenance toy_crypto (Some sample_provenance) ''k'' ''kid'' = Some v'"
    by (simp add: sign_provenance_def sample_provenance_def)
  then show ?thesis
    using signed_artifacts_verify [of toy_crypto "''k''" "''kid''" "''kid''"
        "[''kid'' \<mapsto> PublicKeyBase64 toy_crypto ''k'']" undefined undefined sample_provenance]
    by auto
qed

end
