(* ===== verification/File_Identity.thy ===== *)
theory File_Identity
  imports Signing
begin

text \<open>
  The file identity binding of internal/receipt/authorization.go: \<open>CaptureFileIdentity\<close> and
  \<open>VerifyFileIdentityAtUse\<close>, and \<open>filepath.Rel\<close>, which the capture uses.

  The file system is a value of type \<open>fs\<close>: what \<open>Lstat\<close> and \<open>ReadFile\<close> return for each
  absolute path at the time of the call.  A change of the file system between capture and use
  is a second value.
\<close>

section \<open>File system and errors\<close>

record file_info =
  fi_symlink :: bool
  fi_regular :: bool
  fi_size :: int64
  fi_perm :: "32 word"

datatype lstat_result = L_NotExist | L_Error | L_Info file_info

record fs =
  lstat :: "string \<Rightarrow> lstat_result"
  read_file :: "string \<Rightarrow> string option"

datatype file_error =
    RootNotAbsolute
  | PathNotRelative
  | PathNotCanonical
  | PathEscapesRoot
  | LstatFailed string
  | AncestorSymlink string
  | TargetLstatFailed
  | TargetSymlink
  | TargetNotRegular
  | ReadFailed

datatype toctou_error =
    IncompleteBinding
  | CaptureFailed file_error
  | ExistenceChanged bool bool
  | ContentChanged string string

section \<open>filepath.Rel\<close>

text \<open>The elements of a cleaned path as \<open>Rel\<close> walks over them: the root has the empty element
  before its slash and nothing after it.\<close>

definition rel_elems :: "string \<Rightarrow> string list" where
  [go_defs]: "rel_elems p =
     (if p = [] then [] else if p = ''/'' then [[]] else split_char (CHR ''/'') p)"

fun strip_common :: "string list \<Rightarrow> string list \<Rightarrow> string list \<times> string list" where
  "strip_common (b # bs) (t # ts) = (if b = t then strip_common bs ts else (b # bs, t # ts))"
| "strip_common bs ts = (bs, ts)"

definition path_rel :: "string \<Rightarrow> string \<Rightarrow> string option" where
  [go_defs]: "path_rel base0 targ0 =
     (let base1 = path_clean base0; targ = path_clean targ0 in
      if targ = base1 then Some ''.''
      else let base = (if base1 = ''.'' then [] else base1) in
        if is_abs base \<noteq> is_abs targ then None
        else case strip_common (rel_elems base) (rel_elems targ) of
          (bs, ts) \<Rightarrow>
            if bs \<noteq> [] \<and> ts \<noteq> [] \<and> hd bs = ''..'' then None
            else if bs \<noteq> [] then Some (join (replicate (length bs) ''..'' @ ts) ''/'')
            else Some (join ts ''/''))"

section \<open>Capture\<close>

record file_identity_binding =
  workspace_root :: string
  canonical_rel_path :: string
  exists_at_check :: bool
  content_sha256 :: string
  size_bytes :: int64
  mode_perm :: "32 word"
  symlink_free_verified :: bool
  atomic_handle_bound :: bool
  residual_risk :: string

text \<open>The walk over the ancestor directories of the target.\<close>

fun ancestor_check :: "fs \<Rightarrow> string \<Rightarrow> string list \<Rightarrow> file_error option" where
  "ancestor_check f current [] = None"
| "ancestor_check f current (part # parts) =
     (if part = [] \<or> part = ''.'' then ancestor_check f current parts
      else let next = path_join2 current part in
        case lstat f next of
          L_NotExist \<Rightarrow> None
        | L_Error \<Rightarrow> Some (LstatFailed part)
        | L_Info i \<Rightarrow>
            if fi_symlink i then Some (AncestorSymlink part) else ancestor_check f next parts)"

definition residual_risk_text :: string where
  "residual_risk_text = ''userspace_pre_post_stat_digest_verification_without_kernel_openat2''"

text \<open>The argument checks at the head of the function, and the state of the target at its end.\<close>

definition canonical_relative :: "string \<Rightarrow> file_error option" where
  "canonical_relative rel =
     (if rel = [] \<or> CHR 0x00 \<in> set rel \<or> is_abs rel \<or> has_prefix rel ''/'' \<or> has_prefix rel [CHR 0x5C]
      then Some PathNotRelative
      else let cleaned = path_clean rel in
        if cleaned = ''.'' \<or> cleaned = ''..'' \<or> has_prefix cleaned ''../'' \<or> cleaned \<noteq> rel
        then Some PathNotCanonical else None)"

definition escapes_root :: "string \<Rightarrow> string \<Rightarrow> bool" where
  "escapes_root root target =
     (case path_rel root target of
        None \<Rightarrow> True
      | Some r \<Rightarrow> r = ''..'' \<or> has_prefix r ''../'')"

definition capture_target ::
  "crypto \<Rightarrow> fs \<Rightarrow> string \<Rightarrow> file_identity_binding \<Rightarrow> file_error + file_identity_binding" where
  "capture_target cr f target b =
     (case lstat f target of
        L_NotExist \<Rightarrow> Inr (b\<lparr>exists_at_check := False\<rparr>)
      | L_Error \<Rightarrow> Inl TargetLstatFailed
      | L_Info i \<Rightarrow>
          if fi_symlink i then Inl TargetSymlink
          else if \<not> fi_regular i then Inl TargetNotRegular
          else case read_file f target of
            None \<Rightarrow> Inl ReadFailed
          | Some data \<Rightarrow>
              Inr (b\<lparr>exists_at_check := True, content_sha256 := sha_digest cr data,
                     size_bytes := fi_size i, mode_perm := fi_perm i\<rparr>))"

definition capture_file_identity ::
  "crypto \<Rightarrow> fs \<Rightarrow> string \<Rightarrow> string \<Rightarrow> bool \<Rightarrow> file_error + file_identity_binding" where
  "capture_file_identity cr f root rel atomic =
     (if trim_space root = [] \<or> \<not> is_abs root then Inl RootNotAbsolute
      else case canonical_relative rel of
        Some e \<Rightarrow> Inl e
      | None \<Rightarrow>
          let cleaned = path_clean rel; rc = path_clean root; target = path_join2 rc cleaned in
          if escapes_root rc target then Inl PathEscapesRoot
          else case ancestor_check f rc (split_char (CHR ''/'') (path_dir cleaned)) of
            Some e \<Rightarrow> Inl e
          | None \<Rightarrow>
              capture_target cr f target
                \<lparr>workspace_root = rc, canonical_rel_path = cleaned, exists_at_check = False,
                 content_sha256 = [], size_bytes = 0, mode_perm = 0, symlink_free_verified = True,
                 atomic_handle_bound = atomic,
                 residual_risk = (if atomic then [] else residual_risk_text)\<rparr>)"

section \<open>Verification at use\<close>

definition verify_file_identity :: "crypto \<Rightarrow> fs \<Rightarrow> file_identity_binding \<Rightarrow> toctou_error option" where
  "verify_file_identity cr f expected =
     (if \<not> symlink_free_verified expected \<or> workspace_root expected = [] \<or> canonical_rel_path expected = []
      then Some IncompleteBinding
      else case capture_file_identity cr f (workspace_root expected) (canonical_rel_path expected)
                  (atomic_handle_bound expected) of
        Inl e \<Rightarrow> Some (CaptureFailed e)
      | Inr actual \<Rightarrow>
          if exists_at_check actual \<noteq> exists_at_check expected
          then Some (ExistenceChanged (exists_at_check expected) (exists_at_check actual))
          else if exists_at_check expected \<and>
               (content_sha256 actual \<noteq> content_sha256 expected \<or> size_bytes actual \<noteq> size_bytes expected)
          then Some (ContentChanged (content_sha256 expected) (content_sha256 actual))
          else None)"

section \<open>Cleaning twice\<close>

text \<open>The elements that cleaning a rooted path leaves.\<close>

lemma clean_elems_up_Nil: "clean_elems True (''..'' # es) [] = clean_elems True es []"
  by simp

lemma clean_elems_up_Cons: "x \<noteq> ''..'' \<Longrightarrow> clean_elems True (''..'' # es) (x # xs) = clean_elems True es xs"
  by simp

lemma clean_elems_skip: "e = [] \<or> e = ''.'' \<Longrightarrow> clean_elems r (e # es) out = clean_elems r es out"
  by (erule disjE) simp_all

lemma clean_elems_push:
  "e \<noteq> [] \<Longrightarrow> e \<noteq> ''.'' \<Longrightarrow> e \<noteq> ''..'' \<Longrightarrow> clean_elems r (e # es) out = clean_elems r es (e # out)"
  by simp

definition plain_elem :: "string \<Rightarrow> bool" where
  "plain_elem e \<longleftrightarrow> e \<noteq> [] \<and> e \<noteq> ''.'' \<and> e \<noteq> ''..'' \<and> CHR ''/'' \<notin> set e"

lemma clean_elems_rooted:
  "\<lbrakk>\<forall>e \<in> set out. plain_elem e; \<forall>e \<in> set es. CHR ''/'' \<notin> set e\<rbrakk>
   \<Longrightarrow> \<forall>e \<in> set (clean_elems True es out). plain_elem e"
proof (induction es arbitrary: out)
  case Nil
  then show ?case by simp
next
  case (Cons e es)
  have es: "\<forall>e \<in> set es. CHR ''/'' \<notin> set e" using Cons.prems(2) by simp
  consider "e = [] \<or> e = ''.''" | "e = ''..''" | "e \<noteq> []" "e \<noteq> ''.''" "e \<noteq> ''..''" by blast
  then show ?case
  proof cases
    case 1
    show ?thesis unfolding clean_elems_skip [OF 1] by (rule Cons.IH [OF Cons.prems(1) es])
  next
    case 2
    show ?thesis
    proof (cases out)
      case Nil
      have "\<forall>e \<in> set []. plain_elem e" by simp
      from Cons.IH [OF this es] show ?thesis by (simp only: 2 Nil clean_elems_up_Nil)
    next
      case (Cons x xs)
      then have x: "x \<noteq> ''..''" and xs: "\<forall>e \<in> set xs. plain_elem e"
        using Cons.prems(1) by (simp_all add: plain_elem_def)
      from Cons.IH [OF xs es] show ?thesis by (simp only: 2 Cons clean_elems_up_Cons [OF x])
    qed
  next
    case 3
    have "\<forall>x \<in> set (e # out). plain_elem x"
      using 3 Cons.prems by (simp add: plain_elem_def)
    from Cons.IH [OF this es] show ?thesis by (simp only: clean_elems_push [OF 3])
  qed
qed

lemma split_char_parts: "p \<in> set (split_char c s) \<Longrightarrow> c \<notin> set p"
proof (induction s arbitrary: p)
  case (Cons x s)
  then show ?case
    by (cases "split_char c s") (auto split: if_splits)
qed simp

definition clean_parts :: "string \<Rightarrow> string list" where
  "clean_parts p = rev (clean_elems True (split_char (CHR ''/'') p) [])"

lemma clean_parts_ok:
  "e \<in> set (clean_parts p) \<Longrightarrow> plain_elem e"
proof -
  have "\<forall>e \<in> set []. plain_elem e" and "\<forall>e \<in> set (split_char (CHR ''/'') p). CHR ''/'' \<notin> set e"
    using split_char_parts by auto
  from clean_elems_rooted [OF this] show "e \<in> set (clean_parts p) \<Longrightarrow> plain_elem e"
    by (simp add: clean_parts_def)
qed

lemma path_clean_rooted: "is_abs p \<Longrightarrow> path_clean p = CHR ''/'' # join (clean_parts p) ''/''"
  by (simp add: path_clean_def clean_parts_def Let_def)

lemma clean_parts_rooted:
  assumes ok: "\<forall>e \<in> set ps. plain_elem e"
  shows "clean_parts (CHR ''/'' # join ps ''/'') = ps"
proof -
  have s: "split_char (CHR ''/'') (CHR ''/'' # join ps ''/'') = [] # (if ps = [] then [[]] else ps)"
    using ok by (auto simp: split_join plain_elem_def)
  have "''..'' \<notin> set (split_char (CHR ''/'') (CHR ''/'' # join ps ''/''))"
    unfolding s using ok by (auto simp: plain_elem_def)
  from clean_elems_plain [OF this]
  have "clean_parts (CHR ''/'' # join ps ''/'') =
      filter (\<lambda>e. e \<noteq> [] \<and> e \<noteq> ''.'') ([] # (if ps = [] then [[]] else ps))"
    by (simp only: clean_parts_def s append_Nil2 rev_rev_ident)
  also have "\<dots> = ps" using ok by (auto intro: filter_True simp: plain_elem_def)
  finally show ?thesis .
qed

lemma is_abs_Cons [simp]: "is_abs (c # s) \<longleftrightarrow> c = CHR ''/''"
  by (simp add: is_abs_def has_prefix_def)

lemma path_clean_idem: "is_abs p \<Longrightarrow> path_clean (path_clean p) = path_clean p"
  using clean_parts_rooted [of "clean_parts p"] clean_parts_ok
  by (simp add: path_clean_rooted)

text \<open>White-space trimming never empties a text that starts with a slash.\<close>

lemma trim_right_hd: "s \<noteq> [] \<Longrightarrow> plain_edge (hd s) \<Longrightarrow> trim_right s \<noteq> []"
proof (induction s rule: trim_right.induct)
  case (1 s)
  show ?case
  proof (cases "space_last s = 0")
    case True
    with 1 show ?thesis by (simp add: trim_right_id)
  next
    case False
    then obtain r where r: "find (has_suffix s) space_runes = Some r" and l: "space_last s = length r"
      by (auto simp: space_last_def split: option.splits)
    from r have mem: "r \<in> set space_runes" and suf: "has_suffix s r" by (auto simp: find_Some_iff)
    from suf obtain t where t: "s = t @ r" by (auto simp: has_suffix_iff)
    have "t \<noteq> []"
      using space_runes_shape [OF mem] 1(3) t by auto
    moreover have tk: "take (length s - space_last s) s = t" unfolding l by (simp add: t)
    moreover have "hd t = hd s" using t \<open>t \<noteq> []\<close> by simp
    ultimately have "trim_right t \<noteq> []" using 1 False by simp
    with False show ?thesis
      by (subst trim_right.simps) (simp add: tk)
  qed
qed

lemma trim_space_slash: "trim_space (CHR ''/'' # s) \<noteq> []"
proof -
  have p: "plain_edge (CHR ''/'')" by (simp add: plain_edge_def ascii_space_def)
  then have "trim_left (CHR ''/'' # s) = CHR ''/'' # s"
    by (intro trim_left_id space_head_plain) simp
  with p trim_right_hd [of "CHR ''/'' # s"] show ?thesis by (simp add: trim_space_def)
qed

section \<open>What a capture establishes\<close>

lemma canonical_relative_None:
  "canonical_relative rel = None \<Longrightarrow>
     rel \<noteq> [] \<and> \<not> is_abs rel \<and> path_clean rel = rel \<and> rel \<noteq> ''.'' \<and> rel \<noteq> ''..'' \<and> \<not> has_prefix rel ''../''"
  by (auto simp: canonical_relative_def Let_def split: if_splits)

text \<open>The result of a capture that passes the checks on its arguments.\<close>

definition base_binding :: "string \<Rightarrow> string \<Rightarrow> bool \<Rightarrow> file_identity_binding" where
  "base_binding root rel atomic =
     \<lparr>workspace_root = root, canonical_rel_path = rel, exists_at_check = False, content_sha256 = [],
      size_bytes = 0, mode_perm = 0, symlink_free_verified = True, atomic_handle_bound = atomic,
      residual_risk = (if atomic then [] else residual_risk_text)\<rparr>"

definition target_path :: "string \<Rightarrow> string \<Rightarrow> string" where
  "target_path root rel = path_join2 (path_clean root) rel"

lemma capture_Inr:
  assumes "capture_file_identity cr f root rel atomic = Inr b"
  shows "is_abs root" and "canonical_relative rel = None"
    and "\<not> escapes_root (path_clean root) (target_path root rel)"
    and "ancestor_check f (path_clean root) (split_char (CHR ''/'') (path_dir rel)) = None"
    and "capture_target cr f (target_path root rel) (base_binding (path_clean root) rel atomic) = Inr b"
proof -
  show r: "is_abs root" and c: "canonical_relative rel = None"
    using assms by (auto simp: capture_file_identity_def split: if_splits option.splits)
  from c have "path_clean rel = rel" by (rule canonical_relative_None [THEN conjunct2, THEN conjunct2, THEN conjunct1])
  with assms c show "\<not> escapes_root (path_clean root) (target_path root rel)"
    and "ancestor_check f (path_clean root) (split_char (CHR ''/'') (path_dir rel)) = None"
    and "capture_target cr f (target_path root rel) (base_binding (path_clean root) rel atomic) = Inr b"
    by (auto simp: capture_file_identity_def target_path_def base_binding_def Let_def
        split: if_splits option.splits)
qed

lemma capture_target_fields:
  "capture_target cr f target b = Inr b' \<Longrightarrow>
     workspace_root b' = workspace_root b \<and> canonical_rel_path b' = canonical_rel_path b \<and>
     symlink_free_verified b' = symlink_free_verified b \<and> atomic_handle_bound b' = atomic_handle_bound b"
  by (auto simp: capture_target_def split: lstat_result.splits if_splits option.splits)

lemma capture_target_exists:
  assumes "capture_target cr f target b = Inr b'"
  shows "if exists_at_check b'
    then \<exists>i data. lstat f target = L_Info i \<and> \<not> fi_symlink i \<and> fi_regular i \<and>
           read_file f target = Some data \<and> content_sha256 b' = sha_digest cr data \<and>
           size_bytes b' = fi_size i
    else lstat f target = L_NotExist"
  using assms by (auto simp: capture_target_def split: lstat_result.splits if_splits option.splits)

lemma is_abs_path_clean: "is_abs root \<Longrightarrow> is_abs (path_clean root)"
  by (simp add: path_clean_rooted)

lemma trim_space_path_clean: "is_abs root \<Longrightarrow> trim_space (path_clean root) \<noteq> []"
  by (simp add: path_clean_rooted trim_space_slash)

text \<open>Capturing again through the binding looks at the same paths.\<close>

lemma recapture:
  assumes "is_abs root" and "canonical_relative rel = None"
  shows "capture_file_identity cr f (path_clean root) rel atomic =
    (if escapes_root (path_clean root) (target_path root rel) then Inl PathEscapesRoot
     else case ancestor_check f (path_clean root) (split_char (CHR ''/'') (path_dir rel)) of
       Some e \<Rightarrow> Inl e
     | None \<Rightarrow> capture_target cr f (target_path root rel) (base_binding (path_clean root) rel atomic))"
proof -
  from assms(2) have "path_clean rel = rel"
    by (rule canonical_relative_None [THEN conjunct2, THEN conjunct2, THEN conjunct1])
  note clean = this path_clean_idem [OF assms(1)]
  show ?thesis
    using is_abs_path_clean [OF assms(1)] trim_space_path_clean [OF assms(1)] assms
    unfolding target_path_def base_binding_def capture_file_identity_def Let_def clean by simp
qed

lemma verify_captured:
  assumes "capture_file_identity cr f root rel atomic = Inr b"
  shows "verify_file_identity cr f' b =
    (case ancestor_check f' (path_clean root) (split_char (CHR ''/'') (path_dir rel)) of
       Some e \<Rightarrow> Some (CaptureFailed e)
     | None \<Rightarrow>
         (case capture_target cr f' (target_path root rel) (base_binding (path_clean root) rel atomic) of
            Inl e \<Rightarrow> Some (CaptureFailed e)
          | Inr a \<Rightarrow>
              if exists_at_check a \<noteq> exists_at_check b
              then Some (ExistenceChanged (exists_at_check b) (exists_at_check a))
              else if exists_at_check b \<and> (content_sha256 a \<noteq> content_sha256 b \<or> size_bytes a \<noteq> size_bytes b)
              then Some (ContentChanged (content_sha256 b) (content_sha256 a))
              else None))"
proof -
  note c = capture_Inr [OF assms]
  from capture_target_fields [OF c(5)] have f: "workspace_root b = path_clean root"
    "canonical_rel_path b = rel" "symlink_free_verified b" "atomic_handle_bound b = atomic"
    by (simp_all add: base_binding_def)
  have "path_clean root \<noteq> []" using c(1) by (simp add: path_clean_rooted)
  moreover have "rel \<noteq> []" using canonical_relative_None [OF c(2)] by simp
  ultimately show ?thesis
    using c(3) f(3) unfolding verify_file_identity_def f(1,2,4) recapture [OF c(1,2)]
    by (cases "ancestor_check f' (path_clean root) (split_char (CHR ''/'') (path_dir rel))") simp_all
qed

text \<open>The ancestors of the target: those that are reached without meeting a missing one exist
  and are no symbolic links.\<close>

definition walk_parts :: "string list \<Rightarrow> string list" where
  "walk_parts ps = filter (\<lambda>p. p \<noteq> [] \<and> p \<noteq> ''.'') ps"

definition no_link :: "fs \<Rightarrow> string \<Rightarrow> bool" where
  "no_link f p \<longleftrightarrow> (case lstat f p of L_NotExist \<Rightarrow> True | L_Error \<Rightarrow> False | L_Info i \<Rightarrow> \<not> fi_symlink i)"

fun ancestors_ok :: "fs \<Rightarrow> string \<Rightarrow> string list \<Rightarrow> bool" where
  "ancestors_ok f cur [] \<longleftrightarrow> True"
| "ancestors_ok f cur (p # ps) \<longleftrightarrow>
     no_link f (path_join2 cur p) \<and>
     (lstat f (path_join2 cur p) = L_NotExist \<or> ancestors_ok f (path_join2 cur p) ps)"

lemma ancestor_check_iff: "ancestor_check f cur ps = None \<longleftrightarrow> ancestors_ok f cur (walk_parts ps)"
proof (induction ps arbitrary: cur)
  case Nil
  then show ?case by (simp add: walk_parts_def)
next
  case (Cons p ps)
  show ?case
  proof (cases "p = [] \<or> p = ''.''")
    case True
    then have "walk_parts (p # ps) = walk_parts ps" by (auto simp: walk_parts_def)
    moreover have "ancestor_check f cur (p # ps) = ancestor_check f cur ps" using True by simp
    ultimately show ?thesis by (simp only: Cons.IH)
  next
    case False
    then have "walk_parts (p # ps) = p # walk_parts ps" by (auto simp: walk_parts_def)
    with False Cons.IH show ?thesis
      by (cases "lstat f (path_join2 cur p)") (simp_all add: Let_def no_link_def)
  qed
qed

section \<open>Relative paths without \<open>..\<close>\<close>

text \<open>Cleaning an unrooted path leaves \<open>..\<close> elements only in front.\<close>

lemma clean_elems_up: "clean_elems False (''..'' # es) [] = clean_elems False es [''..'']"
  by simp

lemma clean_elems_up_up: "clean_elems False (''..'' # es) (''..'' # xs) = clean_elems False es (''..'' # ''..'' # xs)"
  by simp

lemma clean_elems_up_plain: "x \<noteq> ''..'' \<Longrightarrow> clean_elems False (''..'' # es) (x # xs) = clean_elems False es xs"
  by simp

definition relative_shape :: "string list \<Rightarrow> bool" where
  "relative_shape out \<longleftrightarrow> (\<exists>ps n. out = ps @ replicate n ''..'' \<and> (\<forall>p \<in> set ps. plain_elem p))"

lemma relative_shape_replicate: "relative_shape (replicate n ''..'')"
  unfolding relative_shape_def by (intro exI [of _ "[]"] exI [of _ n]) simp

lemma relative_shape_cases:
  assumes "relative_shape out"
  obtains n where "out = replicate n ''..''"
    | x xs where "out = x # xs" "plain_elem x" "relative_shape xs"
proof -
  from assms obtain ps n where "out = ps @ replicate n ''..''" "\<forall>p \<in> set ps. plain_elem p"
    by (auto simp: relative_shape_def)
  then show thesis using that
    by (cases ps) (auto simp: relative_shape_def)
qed

lemma relative_shape_Cons: "plain_elem x \<Longrightarrow> relative_shape xs \<Longrightarrow> relative_shape (x # xs)"
proof -
  assume x: "plain_elem x" and "relative_shape xs"
  then obtain ps n where "xs = ps @ replicate n ''..''" "\<forall>p \<in> set ps. plain_elem p"
    by (auto simp: relative_shape_def)
  with x show ?thesis unfolding relative_shape_def by (intro exI [of _ "x # ps"] exI [of _ n]) simp
qed

lemma clean_elems_relative:
  "\<lbrakk>relative_shape out; \<forall>e \<in> set es. CHR ''/'' \<notin> set e\<rbrakk> \<Longrightarrow> relative_shape (clean_elems False es out)"
proof (induction es arbitrary: out)
  case Nil
  then show ?case by simp
next
  case (Cons e es)
  have es: "\<forall>e \<in> set es. CHR ''/'' \<notin> set e" using Cons.prems(2) by simp
  consider "e = [] \<or> e = ''.''" | "e = ''..''" | "e \<noteq> []" "e \<noteq> ''.''" "e \<noteq> ''..''" by blast
  then show ?case
  proof cases
    case 1
    show ?thesis unfolding clean_elems_skip [OF 1] by (rule Cons.IH [OF Cons.prems(1) es])
  next
    case 2
    from Cons.prems(1) show ?thesis
    proof (cases rule: relative_shape_cases)
      case (1 n)
      have "clean_elems False (''..'' # es) (replicate n ''..'') = clean_elems False es (replicate (Suc n) ''..'')"
        by (cases n) (simp_all only: replicate.simps clean_elems_up clean_elems_up_up)
      with Cons.IH [OF relative_shape_replicate es] show ?thesis by (simp only: 1 2)
    next
      case (2 x xs)
      then have x: "x \<noteq> ''..''" by (simp add: plain_elem_def)
      from Cons.IH [OF 2(3) es] show ?thesis
        by (simp only: \<open>e = ''..''\<close> 2(1) clean_elems_up_plain [OF x])
    qed
  next
    case 3
    have "plain_elem e" using 3 Cons.prems(2) by (simp add: plain_elem_def)
    from Cons.IH [OF relative_shape_Cons [OF this Cons.prems(1)] es] show ?thesis
      by (simp only: clean_elems_push [OF 3])
  qed
qed

lemma join_Nil_iff: "\<forall>p \<in> set ps. p \<noteq> [] \<Longrightarrow> join ps sep = [] \<longleftrightarrow> ps = []"
  by (induction ps sep rule: join.induct) auto

lemma path_clean_relative:
  assumes "\<not> is_abs rel"
  obtains n ps where "path_clean rel = (if n = 0 \<and> ps = [] then ''.'' else join (replicate n ''..'' @ ps) ''/'')"
    and "\<forall>p \<in> set ps. plain_elem p"
proof -
  have "\<forall>e \<in> set (split_char (CHR ''/'') rel). CHR ''/'' \<notin> set e" using split_char_parts by auto
  with relative_shape_replicate [of 0]
  have "relative_shape (clean_elems False (split_char (CHR ''/'') rel) [])"
    by (intro clean_elems_relative) simp_all
  then obtain ps n where s: "clean_elems False (split_char (CHR ''/'') rel) [] = ps @ replicate n ''..''"
    and ps: "\<forall>p \<in> set ps. plain_elem p" by (auto simp: relative_shape_def)
  have ne: "join (replicate n ''..'' @ rev ps) ''/'' = [] \<longleftrightarrow> n = 0 \<and> ps = []"
  proof -
    have "p \<noteq> []" if "p \<in> set (replicate n ''..'') \<union> set ps" for p
      using that ps by (cases "p \<in> set ps") (simp_all add: plain_elem_def)
    then have "\<forall>p \<in> set (replicate n ''..'' @ rev ps). p \<noteq> []" by (simp only: set_append set_rev) blast
    from join_Nil_iff [OF this] show ?thesis
      by (simp only: append_is_Nil_conv replicate_empty rev_is_Nil_conv)
  qed
  have "path_clean rel = (if n = 0 \<and> rev ps = [] then ''.'' else join (replicate n ''..'' @ rev ps) ''/'')"
    unfolding path_clean_def Let_def
    by (simp only: assms s if_False simp_thms rev_append rev_replicate ne rev_is_Nil_conv)
  with ps that [of n "rev ps"] show thesis by simp
qed

lemma canonical_relative_plain:
  assumes "canonical_relative rel = None"
  shows "\<forall>p \<in> set (split_char (CHR ''/'') rel). plain_elem p"
proof -
  note c = canonical_relative_None [OF assms]
  from c obtain n ps where e: "rel = (if n = 0 \<and> ps = [] then ''.'' else join (replicate n ''..'' @ ps) ''/'')"
    and ps: "\<forall>p \<in> set ps. plain_elem p"
    by (metis path_clean_relative)
  have "n = 0"
  proof (rule ccontr)
    assume "n \<noteq> 0"
    then obtain k where "replicate n ''..'' @ ps = ''..'' # replicate k ''..'' @ ps"
      by (cases n) auto
    with e \<open>n \<noteq> 0\<close> have "rel = join (''..'' # replicate k ''..'' @ ps) ''/''" by simp
    then have "rel = ''..'' \<or> (\<exists>s. rel = ''../'' @ s)"
      by (cases "replicate k ''..'' @ ps") auto
    with c show False by (auto simp: has_prefix_iff)
  qed
  with e c have "rel = join ps ''/''" and "ps \<noteq> []" by (auto split: if_splits)
  moreover have "\<forall>p \<in> set ps. CHR ''/'' \<notin> set p" using ps by (auto simp: plain_elem_def)
  ultimately have "split_char (CHR ''/'') rel = ps" by (simp add: split_join)
  with ps show ?thesis by simp
qed

section \<open>Properties\<close>

text \<open>A workspace with one regular file, for concrete runs.\<close>

definition sample_fs :: "string \<Rightarrow> 32 word \<Rightarrow> fs" where
  "sample_fs data perm =
     \<lparr>lstat = (\<lambda>p. if p = ''/w/a'' then L_Info \<lparr>fi_symlink = False, fi_regular = True,
                      fi_size = of_nat (length data), fi_perm = perm\<rparr> else L_NotExist),
      read_file = (\<lambda>p. if p = ''/w/a'' then Some data else None)\<rparr>"

lemma trim_space_w: "trim_space ''/w'' \<noteq> []"
  by (rule trim_space_slash)

lemma sample_capture:
  "capture_file_identity toy_crypto (sample_fs ''hi'' 420) ''/w'' ''a'' True =
     Inr \<lparr>workspace_root = ''/w'', canonical_rel_path = ''a'', exists_at_check = True,
      content_sha256 = sha_digest toy_crypto ''hi'', size_bytes = 2, mode_perm = 420,
      symlink_free_verified = True, atomic_handle_bound = True, residual_risk = []\<rparr>"
  by (simp add: capture_file_identity_def canonical_relative_def trim_space_w go_defs Let_def
      escapes_root_def capture_target_def sample_fs_def)

text \<open>
  A captured path stays in the workspace: the binding holds the cleaned absolute root and
  a relative path none of whose elements is empty, a dot or \<open>..\<close>; everything else is an error.
\<close>

theorem captured_path_confined:
  assumes "capture_file_identity cr f root rel atomic = Inr b"
  shows "is_abs (workspace_root b) \<and> path_clean (workspace_root b) = workspace_root b \<and>
         workspace_root b = path_clean root \<and> canonical_rel_path b = rel \<and> symlink_free_verified b \<and>
         (\<forall>p \<in> set (split_char (CHR ''/'') rel). p \<noteq> [] \<and> p \<noteq> ''.'' \<and> p \<noteq> ''..'')"
proof -
  note c = capture_Inr [OF assms]
  have "p \<noteq> [] \<and> p \<noteq> ''.'' \<and> p \<noteq> ''..''" if "p \<in> set (split_char (CHR ''/'') rel)" for p
    using canonical_relative_plain [OF c(2)] that unfolding plain_elem_def by blast
  then show ?thesis
    using capture_target_fields [OF c(5)] c(1)
    by (simp add: base_binding_def is_abs_path_clean path_clean_idem)
qed

lemma captured_path_confined_witness:
  "\<exists>b. capture_file_identity toy_crypto (sample_fs ''hi'' 420) ''/w'' ''a'' True = Inr b \<and>
       workspace_root b = ''/w'' \<and> path_clean (workspace_root b) = workspace_root b"
  using captured_path_confined [OF sample_capture] sample_capture by simp

text \<open>
  Verification at use accepts a captured binding exactly when the walk to the target meets
  no symbolic link and the target is in the captured state: missing if it was missing, or else
  a regular file of the same size whose content has the captured digest.  In particular a
  binding verifies on an unchanged file system.
\<close>

theorem file_binding_toctou:
  assumes "capture_file_identity cr f root rel atomic = Inr b"
  shows "(verify_file_identity cr f' b = None \<longleftrightarrow>
            ancestors_ok f' (path_clean root) (walk_parts (split_char (CHR ''/'') (path_dir rel))) \<and>
            (if exists_at_check b
             then \<exists>i data. lstat f' (target_path root rel) = L_Info i \<and> \<not> fi_symlink i \<and> fi_regular i \<and>
                    read_file f' (target_path root rel) = Some data \<and>
                    sha_digest cr data = content_sha256 b \<and> fi_size i = size_bytes b
             else lstat f' (target_path root rel) = L_NotExist)) \<and>
         verify_file_identity cr f b = None"
proof -
  note c = capture_Inr [OF assms]
  let ?base = "base_binding (path_clean root) rel atomic" and ?t = "target_path root rel"
  have iff: "verify_file_identity cr g b = None \<longleftrightarrow>
      ancestors_ok g (path_clean root) (walk_parts (split_char (CHR ''/'') (path_dir rel))) \<and>
      (\<exists>a. capture_target cr g ?t ?base = Inr a \<and> exists_at_check a = exists_at_check b \<and>
         (exists_at_check b \<longrightarrow> content_sha256 a = content_sha256 b \<and> size_bytes a = size_bytes b))" for g
    unfolding verify_captured [OF assms] ancestor_check_iff [symmetric]
    by (cases "ancestor_check g (path_clean root) (split_char (CHR ''/'') (path_dir rel))";
        cases "capture_target cr g ?t ?base") auto
  have tgt: "(\<exists>a. capture_target cr f' ?t ?base = Inr a \<and> exists_at_check a = exists_at_check b \<and>
         (exists_at_check b \<longrightarrow> content_sha256 a = content_sha256 b \<and> size_bytes a = size_bytes b)) \<longleftrightarrow>
      (if exists_at_check b
       then \<exists>i data. lstat f' ?t = L_Info i \<and> \<not> fi_symlink i \<and> fi_regular i \<and>
              read_file f' ?t = Some data \<and> sha_digest cr data = content_sha256 b \<and> fi_size i = size_bytes b
       else lstat f' ?t = L_NotExist)"
    by (cases "lstat f' ?t"; cases "read_file f' ?t") (auto simp: capture_target_def)
  show ?thesis
    using iff [of f'] iff [of f] c(4,5) unfolding tgt ancestor_check_iff by auto
qed

lemma file_binding_toctou_witness:
  "\<exists>b. capture_file_identity toy_crypto (sample_fs ''hi'' 420) ''/w'' ''a'' True = Inr b \<and>
       verify_file_identity toy_crypto (sample_fs ''hi'' 420) b = None \<and>
       verify_file_identity toy_crypto (sample_fs ''ho'' 420) b \<noteq> None"
proof -
  have "sha_digest toy_crypto ''ho'' \<noteq> sha_digest toy_crypto ''hi''"
    by (simp add: sha_digest_eq toy_crypto_def)
  moreover have "target_path ''/w'' ''a'' = ''/w/a''" by (simp add: target_path_def go_defs Let_def)
  ultimately show ?thesis
    using file_binding_toctou [OF sample_capture, of "sample_fs ''ho'' 420"] sample_capture
    by (auto simp: sample_fs_def)
qed

text \<open>
  The permission bits are captured but never compared: changing the mode of the file
  between check and use goes unnoticed, for every binding.
\<close>

theorem permissions_not_compared:
  "verify_file_identity cr f (b\<lparr>mode_perm := m\<rparr>) = verify_file_identity cr f b \<and>
   (\<exists>b0. capture_file_identity toy_crypto (sample_fs ''hi'' 256) ''/w'' ''a'' True = Inr b0 \<and>
      mode_perm b0 = 256 \<and> verify_file_identity toy_crypto (sample_fs ''hi'' 511) b0 = None)"
proof
  show "verify_file_identity cr f (b\<lparr>mode_perm := m\<rparr>) = verify_file_identity cr f b"
    by (auto simp: verify_file_identity_def split: sum.split)
next
  let ?b = "\<lparr>workspace_root = ''/w'', canonical_rel_path = ''a'', exists_at_check = True,
      content_sha256 = sha_digest toy_crypto ''hi'', size_bytes = 2, mode_perm = 256,
      symlink_free_verified = True, atomic_handle_bound = True, residual_risk = []\<rparr>"
  have "capture_file_identity toy_crypto (sample_fs ''hi'' p) ''/w'' ''a'' True = Inr (?b\<lparr>mode_perm := p\<rparr>)" for p
    by (simp add: capture_file_identity_def canonical_relative_def trim_space_w go_defs Let_def
        escapes_root_def capture_target_def sample_fs_def)
  then show "\<exists>b0. capture_file_identity toy_crypto (sample_fs ''hi'' 256) ''/w'' ''a'' True = Inr b0 \<and>
      mode_perm b0 = 256 \<and> verify_file_identity toy_crypto (sample_fs ''hi'' 511) b0 = None"
    by (intro exI [of _ ?b]) (simp add: verify_file_identity_def)
qed

end
