(* ===== verification/Tool_Grants.thy ===== *)
theory Tool_Grants
  imports Go_Strings
begin

text \<open>
  Scoped tool grants, \<open>internal/toolgrants/toolgrants.go\<close>: the parser of a declaration such
  as \<open>Bash(git:*) Read\<close>, the test whether a grant allows an invocation, and the audit of
  invocations against grants.  The parser walks bytes; the bytes it looks for are ASCII, so
  this agrees with Go's walk over runes.
\<close>

section \<open>Grants and their parser\<close>

datatype grant_error =
    UnbalancedClose
  | UnbalancedOpen
  | InvalidToolName string
  | MalformedGrant string
  | EmptyScope string
  | InvalidPrefixScope string
  | UnsupportedWildcard string

record grant =
  g_tool :: string
  g_scope :: string
  g_prefix :: bool
  g_unrestricted :: bool
  g_raw :: string

definition is_separator :: "char \<Rightarrow> bool" where
  [go_defs]: "is_separator c \<longleftrightarrow> c \<in> set [CHR '' '', CHR 0x09, CHR 0x0A, CHR '','']"

definition flush :: "string option \<Rightarrow> string list \<Rightarrow> string list" where
  [go_defs]: "flush cur tokens = (case cur of None \<Rightarrow> tokens | Some w \<Rightarrow> tokens @ [rev w])"

text \<open>
  The loop of \<open>Parse\<close>.  \<open>cur\<close> is the reversed text since \<open>start\<close>, \<open>None\<close> for a negative
  \<open>start\<close>.
\<close>

fun tokenize :: "string \<Rightarrow> int \<Rightarrow> string option \<Rightarrow> string list \<Rightarrow> grant_error + string list" where
  "tokenize [] depth cur tokens =
     (if depth \<noteq> 0 then Inl UnbalancedOpen else Inr (flush cur tokens))"
| "tokenize (r # s) depth cur tokens =
     (if r = CHR ''('' then
        tokenize s (depth + 1) (case cur of None \<Rightarrow> Some [r] | Some w \<Rightarrow> Some (r # w)) tokens
      else if r = CHR '')'' then
        (if depth - 1 < 0 then Inl UnbalancedClose
         else tokenize s (depth - 1) (map_option (\<lambda>w. r # w) cur) tokens)
      else if depth = 0 \<and> is_separator r then tokenize s depth None (flush cur tokens)
      else tokenize s depth (case cur of None \<Rightarrow> Some [r] | Some w \<Rightarrow> Some (r # w)) tokens)"

definition parse_one :: "string \<Rightarrow> grant_error + grant" where
  [go_defs]: "parse_one tok =
     (case index_byte tok (CHR ''('') of
        None \<Rightarrow>
          if tok = [] \<or> contains_any tok '')*'' then Inl (InvalidToolName tok)
          else Inr \<lparr>g_tool = tok, g_scope = [], g_prefix = False, g_unrestricted = True, g_raw = tok\<rparr>
      | Some open \<Rightarrow>
          if \<not> has_suffix tok '')'' \<or> open = 0 then Inl (MalformedGrant tok)
          else let tool = take open tok;
                   inner = trim_space (take (length tok - 1 - (open + 1)) (drop (open + 1) tok)) in
            if contains_any tool '')*'' \<or> contains_any inner ''()'' then Inl (MalformedGrant tok)
            else if inner = [] then Inl (EmptyScope tok)
            else if inner = ''*'' then
              Inr \<lparr>g_tool = tool, g_scope = [], g_prefix = False, g_unrestricted = True, g_raw = tok\<rparr>
            else if has_suffix inner '':*'' then
              (let scope = trim_space (trim_suffix inner '':*'') in
               if scope = [] \<or> contains_sub scope ''*'' then Inl (InvalidPrefixScope tok)
               else Inr \<lparr>g_tool = tool, g_scope = scope, g_prefix = True, g_unrestricted = False, g_raw = tok\<rparr>)
            else if contains_sub inner ''*'' then Inl (UnsupportedWildcard tok)
            else Inr \<lparr>g_tool = tool, g_scope = inner, g_prefix = False, g_unrestricted = False, g_raw = tok\<rparr>)"

fun parse_all :: "string list \<Rightarrow> grant_error + grant list" where
  "parse_all [] = Inr []"
| "parse_all (t # ts) =
     (case parse_one t of
        Inl e \<Rightarrow> Inl e
      | Inr g \<Rightarrow> (case parse_all ts of Inl e \<Rightarrow> Inl e | Inr gs \<Rightarrow> Inr (g # gs)))"

definition parse_grants :: "string \<Rightarrow> grant_error + grant list" where
  [go_defs]: "parse_grants declaration =
     (case tokenize declaration 0 None [] of Inl e \<Rightarrow> Inl e | Inr tokens \<Rightarrow> parse_all tokens)"

section \<open>Allows and Audit\<close>

definition shell_meta :: string where
  [go_defs]: "shell_meta = '';&|`$()<>'' @ [CHR 0x0A, CHR 0x0D, CHR 0x5C]"

definition grant_allows :: "grant \<Rightarrow> string \<Rightarrow> string \<Rightarrow> bool" where
  [go_defs]: "grant_allows g tool command0 =
     (if g_tool g \<noteq> tool then False
      else if g_unrestricted g then True
      else let command = trim_space command0 in
        if contains_any command shell_meta then False
        else if \<not> g_prefix g then command = g_scope g
        else if command = g_scope g then True
        else has_prefix command (g_scope g @ '' ''))"

record invocation =
  inv_tool :: string
  inv_command :: string

record grant_violation =
  gv_tool :: string
  gv_command :: string
  gv_reason :: string

definition audit :: "grant list \<Rightarrow> invocation list \<Rightarrow> grant_violation list" where
  [go_defs]: "audit grants invocations =
     concat (map (\<lambda>inv.
       if list_ex (\<lambda>g. grant_allows g (inv_tool inv) (inv_command inv)) grants then []
       else [\<lparr>gv_tool = inv_tool inv, gv_command = inv_command inv,
              gv_reason = ''invocation is outside every declared grant''\<rparr>]) invocations)"

section \<open>The parser never widens\<close>

lemma parse_one_cases:
  assumes "parse_one tok = Inr g"
  shows "g_raw g = tok \<and>
    ((g_unrestricted g \<and> g_tool g = tok \<and> CHR ''('' \<notin> set tok \<and> CHR ''*'' \<notin> set tok) \<or>
     (\<exists>inner. tok = g_tool g @ ''('' @ inner @ '')'' \<and> g_tool g \<noteq> [] \<and>
        ((g_unrestricted g \<and> trim_space inner = ''*'') \<or>
         (\<not> g_unrestricted g \<and> g_scope g \<noteq> [] \<and> CHR ''*'' \<notin> set (g_scope g)))))"
proof (cases "index_byte tok (CHR ''('')")
  case None
  then have "CHR ''('' \<notin> set tok" by (simp add: index_byte_None)
  with None assms show ?thesis
    by (auto simp: parse_one_def contains_any_iff split: if_splits)
next
  case (Some i)
  note i = index_byte_Some [OF Some]
  define inner where "inner = take (length tok - 1 - (i + 1)) (drop (i + 1) tok)"
  from assms Some have suf: "has_suffix tok '')''" and i0: "i \<noteq> 0"
    by (auto simp: parse_one_def split: if_splits)
  from suf obtain body where body: "tok = body @ '')''" by (auto simp: has_suffix_iff)
  with i have ib: "i < length body"
    by (cases "i < length body") (auto simp: nth_append split: if_splits)
  have "inner = drop (i + 1) body" using body ib by (simp add: inner_def)
  moreover have "body = take i body @ body ! i # drop (Suc i) body"
    by (rule id_take_nth_drop) (rule ib)
  moreover have "body ! i = CHR ''(''" "take i body = take i tok"
    using body ib i by (simp_all add: nth_append)
  ultimately have tok: "tok = take i tok @ ''('' @ inner @ '')''"
    using body by (metis Suc_eq_plus1 append_Cons append_Nil append_assoc)
  have star: "contains_sub s ''*'' \<longleftrightarrow> CHR ''*'' \<in> set s" for s
    by (auto simp: contains_sub_iff in_set_conv_decomp)
  have p: "parse_one tok =
      (let tool = take i tok; v = trim_space inner in
       if contains_any tool '')*'' \<or> contains_any v ''()'' then Inl (MalformedGrant tok)
       else if v = [] then Inl (EmptyScope tok)
       else if v = ''*'' then
         Inr \<lparr>g_tool = tool, g_scope = [], g_prefix = False, g_unrestricted = True, g_raw = tok\<rparr>
       else if has_suffix v '':*'' then
         (let scope = trim_space (trim_suffix v '':*'') in
          if scope = [] \<or> contains_sub scope ''*'' then Inl (InvalidPrefixScope tok)
          else Inr \<lparr>g_tool = tool, g_scope = scope, g_prefix = True, g_unrestricted = False, g_raw = tok\<rparr>)
       else if contains_sub v ''*'' then Inl (UnsupportedWildcard tok)
       else Inr \<lparr>g_tool = tool, g_scope = v, g_prefix = False, g_unrestricted = False, g_raw = tok\<rparr>)"
    using Some suf i0 by (simp add: parse_one_def inner_def Let_def)
  have g: "g_raw g = tok" "g_tool g = take i tok"
    "(g_unrestricted g \<and> trim_space inner = ''*'') \<or>
     (\<not> g_unrestricted g \<and> g_scope g \<noteq> [] \<and> CHR ''*'' \<notin> set (g_scope g))"
    using assms unfolding p Let_def star by (auto split: if_split_asm)
  have "take i tok \<noteq> []" using i0 body by (cases tok) auto
  with g tok show ?thesis by metis
qed

lemma parse_all_set:
  "parse_all ts = Inr gs \<Longrightarrow> list_all2 (\<lambda>t g. parse_one t = Inr g) ts gs"
  by (induction ts arbitrary: gs) (auto split: sum.splits)

text \<open>
  The parser never widens a grant: a grant of a parsed declaration is unrestricted only
  if its text is the bare tool name or the tool with a lone star in parentheses; every other
  grant has a non-empty scope that is free of wildcards.
\<close>

theorem parse_never_widens:
  assumes "parse_grants declaration = Inr gs" and "g \<in> set gs"
  shows "(g_unrestricted g \<and>
          (g_raw g = g_tool g \<or> (\<exists>inner. g_raw g = g_tool g @ ''('' @ inner @ '')'' \<and> trim_space inner = ''*''))) \<or>
         (\<not> g_unrestricted g \<and> g_scope g \<noteq> [] \<and> CHR ''*'' \<notin> set (g_scope g) \<and>
          (\<exists>inner. g_raw g = g_tool g @ ''('' @ inner @ '')''))"
proof -
  from assms(1) obtain ts where "parse_all ts = Inr gs"
    by (auto simp: parse_grants_def split: sum.splits)
  then have "list_all2 (\<lambda>t g. parse_one t = Inr g) ts gs" by (rule parse_all_set)
  with assms(2) obtain t where "parse_one t = Inr g"
    by (auto simp: list_all2_conv_all_nth in_set_conv_nth)
  from parse_one_cases [OF this] show ?thesis by auto
qed

text \<open>
  The audit reports, in order, exactly the invocations that no grant covers, where a grant
  covers an invocation of its own tool if it is unrestricted, or if the command holds no shell
  metacharacter and is the granted scope or, for a prefix grant, the scope followed by a blank and
  arguments.
\<close>

theorem audit_clean:
  "audit gs invs =
     map (\<lambda>inv. \<lparr>gv_tool = inv_tool inv, gv_command = inv_command inv,
                 gv_reason = ''invocation is outside every declared grant''\<rparr>)
       (filter (\<lambda>inv. \<not> list_ex (\<lambda>g. g_tool g = inv_tool inv \<and>
          (g_unrestricted g \<or>
           (set (trim_space (inv_command inv)) \<inter> set shell_meta = {} \<and>
            (trim_space (inv_command inv) = g_scope g \<or>
             (g_prefix g \<and> (\<exists>args. trim_space (inv_command inv) = g_scope g @ '' '' @ args)))))) gs) invs)"
proof -
  have allows: "grant_allows g (inv_tool inv) (inv_command inv) \<longleftrightarrow> g_tool g = inv_tool inv \<and>
        (g_unrestricted g \<or>
         (set (trim_space (inv_command inv)) \<inter> set shell_meta = {} \<and>
          (trim_space (inv_command inv) = g_scope g \<or>
           (g_prefix g \<and> (\<exists>args. trim_space (inv_command inv) = g_scope g @ '' '' @ args)))))" for g inv
    unfolding grant_allows_def Let_def contains_any_iff has_prefix_iff append_assoc
    by (cases "g_tool g = inv_tool inv"; cases "g_unrestricted g"; cases "g_prefix g") auto
  show ?thesis unfolding audit_def allows [symmetric] by (induction invs) simp_all
qed

section \<open>Printing and parsing\<close>

definition render_grant :: "grant \<Rightarrow> string" where
  [go_defs]: "render_grant g =
     (if g_unrestricted g then g_tool g
      else if g_prefix g then g_tool g @ ''('' @ g_scope g @ '':*)''
      else g_tool g @ ''('' @ g_scope g @ '')'')"

definition printable :: "grant \<Rightarrow> bool" where
  [go_defs]: "printable g \<longleftrightarrow>
     g_tool g \<noteq> [] \<and> set (g_tool g) \<inter> set (''()*, '' @ [CHR 0x09, CHR 0x0A]) = {} \<and>
     g_raw g = render_grant g \<and>
     (if g_unrestricted g then g_scope g = [] \<and> \<not> g_prefix g
      else g_scope g \<noteq> [] \<and> set (g_scope g) \<inter> set ''()*'' = {} \<and>
           trim_space (g_scope g) = g_scope g \<and> trim_space (g_scope g @ '':*'') = g_scope g @ '':*'')"

lemma tokenize_plain:
  "set w \<inter> set ''()'' = {} \<Longrightarrow> depth \<noteq> 0 \<or> (\<forall>c \<in> set w. \<not> is_separator c) \<Longrightarrow>
   tokenize (w @ s) depth (Some v) ts = tokenize s depth (Some (rev w @ v)) ts"
  by (induction w arbitrary: v) auto

lemma tokenize_word:
  assumes "w \<noteq> []" "set w \<inter> set ''()'' = {}" "\<forall>c \<in> set w. \<not> is_separator c"
  shows "tokenize (w @ s) 0 None ts = tokenize s 0 (Some (rev w)) ts"
proof -
  obtain c v where w: "w = c # v" using assms(1) by (cases w) auto
  have "tokenize (w @ s) 0 None ts = tokenize (v @ s) 0 (Some [c]) ts"
    using assms w by auto
  also have "\<dots> = tokenize s 0 (Some (rev v @ [c])) ts"
    using assms w by (intro tokenize_plain) auto
  finally show ?thesis by (simp add: w)
qed

lemma tokenize_scoped:
  assumes "w \<noteq> []" "set w \<inter> set ''()'' = {}" "\<forall>c \<in> set w. \<not> is_separator c" "set v \<inter> set ''()'' = {}"
  shows "tokenize (w @ ''('' @ v @ '')'' @ s) 0 None ts = tokenize s 0 (Some (rev (w @ ''('' @ v @ '')''))) ts"
proof -
  have "tokenize (w @ ''('' @ v @ '')'' @ s) 0 None ts = tokenize (''('' @ v @ '')'' @ s) 0 (Some (rev w)) ts"
    by (rule tokenize_word) (use assms in auto)
  also have "\<dots> = tokenize (v @ '')'' @ s) 1 (Some (CHR ''('' # rev w)) ts" by simp
  also have "\<dots> = tokenize ('')'' @ s) 1 (Some (rev v @ CHR ''('' # rev w)) ts"
    by (rule tokenize_plain) (use assms in auto)
  finally show ?thesis by simp
qed

lemma printable_word:
  assumes "printable g"
  shows "tokenize (render_grant g @ s) 0 None ts = tokenize s 0 (Some (rev (render_grant g))) ts"
proof -
  have w: "g_tool g \<noteq> []" "set (g_tool g) \<inter> set ''()'' = {}" "\<forall>c \<in> set (g_tool g). \<not> is_separator c"
    using assms by (auto simp: printable_def is_separator_def)
  show ?thesis
  proof (cases "g_unrestricted g")
    case True
    with tokenize_word [OF w] show ?thesis by (simp add: render_grant_def)
  next
    case False
    with assms have v: "set (g_scope g) \<inter> set ''()'' = {}" "set (g_scope g @ '':*'') \<inter> set ''()'' = {}"
      by (auto simp: printable_def)
    show ?thesis
      using tokenize_scoped [OF w v(1)] tokenize_scoped [OF w v(2)] False
      by (auto simp: render_grant_def)
  qed
qed

lemma tokenize_join:
  "\<forall>g \<in> set gs. printable g \<Longrightarrow>
   tokenize (join (map render_grant gs) '' '') 0 None ts = Inr (ts @ map render_grant gs)"
proof (induction "map render_grant gs" "'' ''" arbitrary: gs ts rule: join.induct)
  case 1
  then show ?case by (simp add: flush_def)
next
  case (2 s)
  then obtain g where "gs = [g]" by auto
  with 2 printable_word [of g "[]" ts] show ?case by (auto simp: flush_def)
next
  case (3 s t us)
  then obtain g h hs where gs: "gs = g # h # hs" by (auto simp: Cons_eq_map_conv)
  have "tokenize (join (map render_grant gs) '' '') 0 None ts =
      tokenize ('' '' @ join (map render_grant (h # hs)) '' '') 0 (Some (rev (render_grant g))) ts"
    using printable_word [of g] 3 by (simp add: gs)
  also have "\<dots> = tokenize (join (map render_grant (h # hs)) '' '') 0 None (ts @ [render_grant g])"
    by (simp add: is_separator_def flush_def)
  also have "\<dots> = Inr ((ts @ [render_grant g]) @ map render_grant (h # hs))"
    by (rule "3.hyps"(1)) (use 3 gs in auto)
  finally show ?case by (simp add: gs)
qed

lemma contains_sub_star: "contains_sub s ''*'' \<longleftrightarrow> CHR ''*'' \<in> set s"
  by (auto simp: contains_sub_iff in_set_conv_decomp)

lemma parse_one_scoped:
  assumes "CHR ''('' \<notin> set w" "w \<noteq> []" "trim_space v = v"
  shows "parse_one (w @ ''('' @ v @ '')'') =
    (let tok = w @ ''('' @ v @ '')'' in
     if contains_any w '')*'' \<or> contains_any v ''()'' then Inl (MalformedGrant tok)
     else if v = [] then Inl (EmptyScope tok)
     else if v = ''*'' then
       Inr \<lparr>g_tool = w, g_scope = [], g_prefix = False, g_unrestricted = True, g_raw = tok\<rparr>
     else if has_suffix v '':*'' then
       (let scope = trim_space (trim_suffix v '':*'') in
        if scope = [] \<or> contains_sub scope ''*'' then Inl (InvalidPrefixScope tok)
        else Inr \<lparr>g_tool = w, g_scope = scope, g_prefix = True, g_unrestricted = False, g_raw = tok\<rparr>)
     else if contains_sub v ''*'' then Inl (UnsupportedWildcard tok)
     else Inr \<lparr>g_tool = w, g_scope = v, g_prefix = False, g_unrestricted = False, g_raw = tok\<rparr>)"
proof -
  have "index_byte (w @ ''('' @ v @ '')'') (CHR ''('') = Some (length w)"
    using index_byte_append [OF assms(1), of "v @ '')''"] by simp
  moreover have "has_suffix (w @ ''('' @ v @ '')'') '')''"
    by (simp add: has_suffix_def)
  ultimately show ?thesis
    using assms(2,3) by (simp add: parse_one_def Let_def)
qed

lemma parse_one_render: "printable g \<Longrightarrow> parse_one (render_grant g) = Inr g"
proof -
  assume g: "printable g"
  then have w: "CHR ''('' \<notin> set (g_tool g)" "g_tool g \<noteq> []" "\<not> contains_any (g_tool g) '')*''"
    by (auto simp: printable_def contains_any_iff)
  show ?thesis
  proof (cases "g_unrestricted g")
    case True
    with g w show ?thesis
      by (cases g) (simp add: render_grant_def parse_one_def index_byte_None [THEN iffD2] printable_def)
  next
    case False
    with g have s: "g_scope g \<noteq> []" "\<not> contains_any (g_scope g) ''()''" "CHR ''*'' \<notin> set (g_scope g)"
      "trim_space (g_scope g) = g_scope g" "trim_space (g_scope g @ '':*'') = g_scope g @ '':*''"
      "\<not> contains_any (g_scope g @ '':*'') ''()''"
      by (auto simp: printable_def contains_any_iff)
    have nostar: "\<not> has_suffix (g_scope g) '':*''" "g_scope g \<noteq> ''*''" "g_scope g @ '':*'' \<noteq> ''*''"
      using s(3) by (auto simp: has_suffix_iff)
    show ?thesis
    proof (cases "g_prefix g")
      case True
      have "parse_one (g_tool g @ ''('' @ (g_scope g @ '':*'') @ '')'') = Inr g"
        unfolding parse_one_scoped [OF w(1,2) s(5)]
        using g w s nostar True False
        by (cases g) (simp add: Let_def contains_sub_star render_grant_def printable_def)
      with True False show ?thesis by (simp add: render_grant_def)
    next
      case noprefix: False
      have "parse_one (g_tool g @ ''('' @ g_scope g @ '')'') = Inr g"
        unfolding parse_one_scoped [OF w(1,2) s(4)]
        using g w s nostar noprefix False
        by (cases g) (simp add: Let_def contains_sub_star render_grant_def printable_def)
      with noprefix False show ?thesis by (simp add: render_grant_def)
    qed
  qed
qed

text \<open>
  Printing grants with blanks between them and parsing the text gives the grants back,
  for grants with a plain tool name and a trimmed scope without parentheses and stars.
\<close>

theorem parse_render_roundtrip:
  assumes "\<forall>g \<in> set gs. printable g"
  shows "parse_grants (join (map render_grant gs) '' '') = Inr gs"
proof -
  have "parse_all (map render_grant gs) = Inr gs"
    using assms by (induction gs) (auto simp: parse_one_render)
  with tokenize_join [OF assms, of "[]"] show ?thesis by (simp add: parse_grants_def)
qed

definition bash_git :: grant where
  "bash_git = \<lparr>g_tool = ''Bash'', g_scope = ''git status'', g_prefix = True, g_unrestricted = False,
     g_raw = ''Bash(git status:*)''\<rparr>"

definition read_all :: grant where
  "read_all = \<lparr>g_tool = ''Read'', g_scope = [], g_prefix = False, g_unrestricted = True, g_raw = ''Read''\<rparr>"

lemma demo_grants_printable: "printable bash_git" "printable read_all"
  by (simp_all add: bash_git_def read_all_def go_defs plain_edge_def)

theorem parse_render_roundtrip_witness:
  "parse_grants ''Bash(git status:*) Read'' = Inr [bash_git, read_all]"
proof -
  have "\<forall>g \<in> set [bash_git, read_all]. printable g" using demo_grants_printable by simp
  from parse_render_roundtrip [OF this] show ?thesis
    by (simp add: bash_git_def read_all_def render_grant_def)
qed

theorem parse_never_widens_witness:
  "\<not> g_unrestricted bash_git \<and> CHR ''*'' \<notin> set (g_scope bash_git)"
proof -
  have "\<forall>g \<in> set [bash_git]. printable g" using demo_grants_printable by simp
  then have "parse_grants (render_grant bash_git) = Inr [bash_git]"
    using tokenize_join [of "[bash_git]" "[]"] by (simp add: parse_grants_def parse_one_render)
  from parse_never_widens [OF this, of bash_git] show ?thesis by (simp add: bash_git_def)
qed

end
