(* ===== verification/Authorization.thy ===== *)
theory Authorization
  imports File_Identity Tool_Grants "HOL-Library.Multiset"
begin

text \<open>
  The proof-carrying authorization of internal/receipt/authorization.go: the artifact
  \<open>ExecutionAuthorization\<close> with its structural validation, its digest and its signature, the
  canonical digests of operations, arguments and tool schemas, and the pattern that keeps
  credentials out of its fields.

  Strings are bytes.  The credential pattern runs on their runes, as Go's regular expressions
  do.  Times are in UTC, as the issuing code makes them.
\<close>

section \<open>The credential pattern\<close>

function runes :: "string \<Rightarrow> nat list" where
  "runes s = (if s = [] then [] else fst (decode_rune s) # runes (drop (snd (decode_rune s)) s))"
  by pat_completeness auto
termination
proof (relation "measure length")
  fix s :: string
  assume "s \<noteq> []"
  with decode_rune_width [OF this]
  show "(drop (snd (decode_rune s)) s, s) \<in> measure length" by simp
qed simp

declare runes.simps [simp del]

text \<open>A piece of a pattern maps a text to the texts that can be left after it.\<close>

type_synonym matcher = "nat list \<Rightarrow> nat list list"

definition m_class :: "(nat \<Rightarrow> bool) \<Rightarrow> matcher" where
  "m_class p s = (case s of [] \<Rightarrow> [] | c # cs \<Rightarrow> if p c then [cs] else [])"

definition m_seq :: "matcher \<Rightarrow> matcher \<Rightarrow> matcher" where
  "m_seq a b s = concat (map b (a s))"

definition m_alt :: "matcher list \<Rightarrow> matcher" where
  "m_alt ms s = concat (map (\<lambda>m. m s) ms)"

definition m_empty :: matcher where
  "m_empty s = [s]"

fun m_star :: "(nat \<Rightarrow> bool) \<Rightarrow> matcher" where
  "m_star p [] = [[]]"
| "m_star p (c # cs) = (if p c then m_star p cs else []) @ [c # cs]"

fun m_times :: "nat \<Rightarrow> (nat \<Rightarrow> bool) \<Rightarrow> matcher" where
  "m_times 0 p = m_empty"
| "m_times (Suc n) p = m_seq (m_class p) (m_times n p)"

text \<open>At least \<open>n\<close> times.\<close>

definition m_min :: "nat \<Rightarrow> (nat \<Rightarrow> bool) \<Rightarrow> matcher" where
  "m_min n p = m_seq (m_times n p) (m_star p)"

text \<open>Case-insensitive literals and classes: \<open>s\<close> also matches U+017F and \<open>k\<close> the Kelvin sign.\<close>

definition fold_char :: "char \<Rightarrow> nat \<Rightarrow> bool" where
  "fold_char c r \<longleftrightarrow> r = of_char (lower_char c) \<or> r = of_char (upper_char c) \<or>
     (lower_char c = CHR ''s'' \<and> r = 383) \<or> (lower_char c = CHR ''k'' \<and> r = 8490)"

fun m_lit :: "string \<Rightarrow> matcher" where
  "m_lit [] = m_empty"
| "m_lit (c # cs) = m_seq (m_class (fold_char c)) (m_lit cs)"

definition fold_alnum :: "nat \<Rightarrow> bool" where
  "fold_alnum r \<longleftrightarrow> (48 \<le> r \<and> r \<le> 57) \<or> (65 \<le> r \<and> r \<le> 90) \<or> (97 \<le> r \<and> r \<le> 122) \<or> r = 383 \<or> r = 8490"

definition token_rune :: "nat \<Rightarrow> bool" where
  "token_rune r \<longleftrightarrow> fold_alnum r \<or> r = 95 \<or> r = 45"

definition bearer_rune :: "nat \<Rightarrow> bool" where
  "bearer_rune r \<longleftrightarrow> token_rune r \<or> r = 46"

definition perl_space :: "nat \<Rightarrow> bool" where
  "perl_space r \<longleftrightarrow> r \<in> {9, 10, 12, 13, 32}"

definition m_opt_quote :: matcher where
  "m_opt_quote = m_alt [m_class (\<lambda>r. r = 34 \<or> r = 39), m_empty]"

definition credential_matcher :: matcher where
  "credential_matcher = m_alt
     [m_seq (m_lit ''sk-'') (m_min 16 fold_alnum),
      m_seq (m_lit ''ghp_'') (m_min 20 fold_alnum),
      m_seq (m_lit ''AKIA'') (m_times 16 fold_alnum),
      m_seq (m_lit ''-----BEGIN '') (m_seq
        (m_alt [m_lit ''RSA '', m_lit ''EC '', m_lit ''OPENSSH '', m_empty]) (m_lit ''PRIVATE KEY-----'')),
      m_seq (m_lit ''bearer'') (m_seq (m_min 1 perl_space) (m_min 16 bearer_rune)),
      m_seq (m_alt [m_lit ''api_key'', m_lit ''secret'', m_lit ''password'', m_lit ''token''])
        (m_seq (m_star perl_space) (m_seq (m_class (\<lambda>r. r = 58 \<or> r = 61))
          (m_seq (m_star perl_space) (m_seq m_opt_quote (m_min 8 token_rune)))))]"

fun some_suffix :: "(nat list \<Rightarrow> bool) \<Rightarrow> nat list \<Rightarrow> bool" where
  "some_suffix p [] = p []"
| "some_suffix p (c # cs) = (p (c # cs) \<or> some_suffix p cs)"

definition contains_sensitive_credential_material :: "string \<Rightarrow> bool" where
  "contains_sensitive_credential_material s = some_suffix (\<lambda>t. credential_matcher t \<noteq> []) (runes s)"

text \<open>A piece that consumes at least \<open>n\<close> runes.\<close>

definition consumes :: "nat \<Rightarrow> matcher \<Rightarrow> bool" where
  "consumes n m \<longleftrightarrow> (\<forall>s. \<forall>r \<in> set (m s). length r + n \<le> length s)"

lemma consumes_class: "consumes 1 (m_class p)"
  by (auto simp: consumes_def m_class_def split: list.splits)

lemma consumes_empty: "consumes 0 m_empty"
  by (simp add: consumes_def m_empty_def)

lemma consumes_seq: "consumes a m \<Longrightarrow> consumes b n \<Longrightarrow> consumes (a + b) (m_seq m n)"
  by (fastforce simp: consumes_def m_seq_def)

lemma consumes_alt: "\<forall>m \<in> set ms. consumes a m \<Longrightarrow> consumes a (m_alt ms)"
  by (auto simp: consumes_def m_alt_def)

lemma consumes_mono: "consumes a m \<Longrightarrow> b \<le> a \<Longrightarrow> consumes b m"
  by (fastforce simp: consumes_def)

lemma consumes_star: "consumes 0 (m_star p)"
proof -
  have "r \<in> set (m_star p s) \<Longrightarrow> length r \<le> length s" for r s
    by (induction p s rule: m_star.induct) (auto split: if_splits)
  then show ?thesis by (simp add: consumes_def)
qed

lemma consumes_times: "consumes n (m_times n p)"
proof (induction n)
  case (Suc n)
  from consumes_seq [OF consumes_class this] show ?case by simp
qed (simp add: consumes_empty)

lemma consumes_min: "consumes n (m_min n p)"
  unfolding m_min_def using consumes_seq [OF consumes_times consumes_star] by simp

lemma consumes_lit: "consumes (length cs) (m_lit cs)"
proof (induction cs)
  case (Cons c cs)
  from consumes_seq [OF consumes_class this] show ?case by simp
qed (simp add: consumes_empty)

lemma consumes_lit': "n \<le> length cs \<Longrightarrow> consumes n (m_lit cs)"
  using consumes_lit consumes_mono by blast

lemma consumes_seq_le: "consumes a m \<Longrightarrow> consumes b n \<Longrightarrow> c \<le> a + b \<Longrightarrow> consumes c (m_seq m n)"
  using consumes_seq consumes_mono by blast

lemma consumes_credential: "consumes 14 credential_matcher"
proof -
  have 1: "consumes 14 (m_seq (m_lit ''sk-'') (m_min 16 fold_alnum))"
    by (rule consumes_seq_le [OF consumes_lit consumes_min]) simp
  have 2: "consumes 14 (m_seq (m_lit ''ghp_'') (m_min 20 fold_alnum))"
    by (rule consumes_seq_le [OF consumes_lit consumes_min]) simp
  have 3: "consumes 14 (m_seq (m_lit ''AKIA'') (m_times 16 fold_alnum))"
    by (rule consumes_seq_le [OF consumes_lit consumes_times]) simp
  have "consumes 0 (m_alt [m_lit ''RSA '', m_lit ''EC '', m_lit ''OPENSSH '', m_empty])"
    by (rule consumes_alt) (simp add: consumes_lit' consumes_empty del: m_lit.simps)
  then have 4: "consumes 14 (m_seq (m_lit ''-----BEGIN '') (m_seq
        (m_alt [m_lit ''RSA '', m_lit ''EC '', m_lit ''OPENSSH '', m_empty]) (m_lit ''PRIVATE KEY-----'')))"
    by (rule consumes_seq_le [OF consumes_lit consumes_seq [OF _ consumes_lit]]) simp
  have 5: "consumes 14 (m_seq (m_lit ''bearer'') (m_seq (m_min 1 perl_space) (m_min 16 bearer_rune)))"
    by (rule consumes_seq_le [OF consumes_lit consumes_seq [OF consumes_min consumes_min]]) simp
  have "consumes 5 (m_alt [m_lit ''api_key'', m_lit ''secret'', m_lit ''password'', m_lit ''token''])"
    by (rule consumes_alt) (simp add: consumes_lit' del: m_lit.simps)
  moreover have "consumes 0 m_opt_quote"
    unfolding m_opt_quote_def
    by (rule consumes_alt) (simp add: consumes_empty consumes_mono [OF consumes_class])
  ultimately have 6: "consumes 14 (m_seq (m_alt [m_lit ''api_key'', m_lit ''secret'', m_lit ''password'', m_lit ''token''])
        (m_seq (m_star perl_space) (m_seq (m_class (\<lambda>r. r = 58 \<or> r = 61))
          (m_seq (m_star perl_space) (m_seq m_opt_quote (m_min 8 token_rune))))))"
    by (rule consumes_seq_le [OF _ consumes_seq [OF consumes_star consumes_seq [OF consumes_class
              consumes_seq [OF consumes_star consumes_seq [OF _ consumes_min]]]]]) simp
  from 1 2 3 4 5 6 show ?thesis
    unfolding credential_matcher_def by (intro consumes_alt) (simp only: list.set ball_simps simp_thms)
qed

lemma length_runes: "length (runes s) \<le> length s"
proof (induction s rule: runes.induct)
  case (1 s)
  show ?case
  proof (cases "s = []")
    case True
    then show ?thesis by (simp add: runes.simps)
  next
    case False
    then have "0 < length s" by simp
    with 1 [OF False] decode_rune_width [OF False]
    have "Suc (length (runes (drop (snd (decode_rune s)) s))) \<le> length s"
      unfolding length_drop by linarith
    with False show ?thesis by (subst runes.simps) simp
  qed
qed

text \<open>A text of fewer than 14 bytes holds no credential.\<close>

lemma short_no_credential: "length s < 14 \<Longrightarrow> \<not> contains_sensitive_credential_material s"
proof -
  have "some_suffix (\<lambda>t. credential_matcher t \<noteq> []) rs \<Longrightarrow> 14 \<le> length rs" for rs
  proof (induction rs)
    case Nil
    then obtain r where "r \<in> set (credential_matcher [])"
      by (cases "credential_matcher []") auto
    then show ?case using consumes_credential by (fastforce simp: consumes_def)
  next
    case (Cons c cs)
    show ?case
    proof (cases "credential_matcher (c # cs) = []")
      case True
      with Cons show ?thesis by auto
    next
      case False
      then obtain r where "r \<in> set (credential_matcher (c # cs))"
        by (cases "credential_matcher (c # cs)") auto
      then show ?thesis using consumes_credential unfolding consumes_def by fastforce
    qed
  qed
  then show "length s < 14 \<Longrightarrow> \<not> contains_sensitive_credential_material s"
    using length_runes [of s] unfolding contains_sensitive_credential_material_def by fastforce
qed

section \<open>The artifact\<close>

record mcp_invocation_binding =
  mb_server_id :: string
  mb_tool_name :: string
  mb_schema_digest :: string
  mb_argument_digest :: string

record execution_authorization =
  schema_version :: string
  authorization_id :: string
  subject_id :: string
  subject_digest :: string
  agent_id :: string
  session_id :: string
  parent_agent_id :: string
  tool_or_server_id :: string
  requested_capability :: string
  effective_scope :: "string list"
  allowed_targets :: "string list"
  operation_id :: string
  argument_digest :: string
  policy_id :: string
  policy_digest :: string
  decision_id :: string
  assurance_state :: string
  assurance_evidence_digest :: string
  issuer_id :: string
  audience_id :: string
  issued_at :: time
  expires_at :: time
  nonce :: string
  single_use :: bool
  file_binding :: "file_identity_binding option"
  mcp_binding :: "mcp_invocation_binding option"
  authorization_digest :: string
  auth_signatures :: "dsse_signature list"

definition AuthorizationSchemaV1 :: string where
  "AuthorizationSchemaV1 = ''1.0''"

definition PayloadTypeAuthorizationV1 :: string where
  "PayloadTypeAuthorizationV1 = ''application/vnd.skil.execution-authorization.v1+json''"

definition AssuranceSafe :: string where
  "AssuranceSafe = ''SAFE''"

datatype auth_error =
    MissingField string
  | CredentialField string
  | EmptyScopeList
  | EmptyScopeEntry
  | CredentialScope
  | CredentialTarget
  | BadWindow
  | NotSafe string
  | NilAuthorization
  | NilPrivateKey
  | NotMarshallable

section \<open>Canonical digests\<close>

definition canonical_operation_id :: "crypto \<Rightarrow> string \<Rightarrow> string \<Rightarrow> string \<Rightarrow> string" where
  "canonical_operation_id cr capability tool target =
     ''op:sha256:'' @ sha256_hex cr (join [trim_space capability, trim_space tool, trim_space target] [CHR 0x00])"

definition canonical_argument_digest :: "crypto \<Rightarrow> (string \<times> json) list \<Rightarrow> string option" where
  "canonical_argument_digest cr arguments =
     (if arguments = [] then Some (sha_digest cr ''{}'')
      else map_option (sha_digest cr) (canonical_json (JObj arguments)))"

definition canonical_schema_digest :: "crypto \<Rightarrow> json option \<Rightarrow> string option" where
  "canonical_schema_digest cr schema =
     (case schema of None \<Rightarrow> None | Some s \<Rightarrow> map_option (sha_digest cr) (canonical_json s))"

section \<open>Validation\<close>

text \<open>The loop over the required fields.  Go ranges over them in an unspecified order.\<close>

definition required_fields :: "execution_authorization \<Rightarrow> (string \<times> string) list" where
  "required_fields a =
     [(''authorization_id'', authorization_id a), (''subject_id'', subject_id a),
      (''subject_digest'', subject_digest a), (''agent_id'', agent_id a), (''session_id'', session_id a),
      (''tool_or_server_id'', tool_or_server_id a), (''requested_capability'', requested_capability a),
      (''operation_id'', operation_id a), (''argument_digest'', argument_digest a),
      (''policy_id'', policy_id a), (''policy_digest'', policy_digest a), (''decision_id'', decision_id a),
      (''assurance_evidence_digest'', assurance_evidence_digest a), (''issuer_id'', issuer_id a),
      (''audience_id'', audience_id a), (''nonce'', nonce a)]"

definition check_field :: "string \<times> string \<Rightarrow> auth_error option" where
  "check_field f =
     (if trim_space (snd f) = [] then Some (MissingField (fst f))
      else if contains_sensitive_credential_material (snd f) then Some (CredentialField (fst f))
      else None)"

definition check_scope :: "string \<Rightarrow> auth_error option" where
  "check_scope s =
     (if trim_space s = [] then Some EmptyScopeEntry
      else if contains_sensitive_credential_material s then Some CredentialScope
      else None)"

definition validate_structure :: "execution_authorization \<Rightarrow> auth_error option" where
  "validate_structure a = first_some
     (map check_field (required_fields a) @
      [check (effective_scope a = []) EmptyScopeList] @
      map check_scope (effective_scope a) @
      map (\<lambda>t. check (contains_sensitive_credential_material t) CredentialTarget) (allowed_targets a) @
      [check (time_is_zero (issued_at a) \<or> time_is_zero (expires_at a) \<or> \<not> issued_at a < expires_at a) BadWindow,
       check (assurance_state a \<noteq> AssuranceSafe) (NotSafe (assurance_state a))])"

section \<open>Digest and signature\<close>

definition file_binding_json :: "file_identity_binding \<Rightarrow> json" where
  "file_binding_json b = JObj
     ([(''workspace_root'', JStr (workspace_root b)), (''canonical_rel_path'', JStr (canonical_rel_path b)),
       (''exists_at_check'', JBool (exists_at_check b))] @
      omit_str ''content_sha256'' (content_sha256 b) @
      omit_int ''size_bytes'' (sint (size_bytes b)) @
      omit_int ''mode_perm'' (uint (mode_perm b)) @
      [(''symlink_free_verified'', JBool (symlink_free_verified b)),
       (''atomic_handle_bound'', JBool (atomic_handle_bound b))] @
      omit_str ''residual_risk'' (residual_risk b))"

definition mcp_binding_json :: "mcp_invocation_binding \<Rightarrow> json" where
  "mcp_binding_json b = JObj
     [(''server_id'', JStr (mb_server_id b)), (''tool_name'', JStr (mb_tool_name b)),
      (''negotiated_schema_digest'', JStr (mb_schema_digest b)),
      (''argument_digest'', JStr (mb_argument_digest b))]"

definition dsse_signature_json :: "dsse_signature \<Rightarrow> json" where
  "dsse_signature_json s = JObj [(''keyid'', JStr (sig_keyid s)), (''sig'', JStr (sig_value s))]"

definition authorization_json :: "execution_authorization \<Rightarrow> json" where
  "authorization_json a = JObj
     ([(''schema_version'', JStr (schema_version a)), (''authorization_id'', JStr (authorization_id a)),
       (''subject_id'', JStr (subject_id a)), (''subject_digest'', JStr (subject_digest a)),
       (''agent_id'', JStr (agent_id a)), (''session_id'', JStr (session_id a))] @
      omit_str ''parent_agent_id'' (parent_agent_id a) @
      [(''tool_or_server_id'', JStr (tool_or_server_id a)),
       (''requested_capability'', JStr (requested_capability a)),
       (''effective_scope'', strs_json (effective_scope a))] @
      omit_strs ''allowed_targets'' (allowed_targets a) @
      [(''operation_id'', JStr (operation_id a)), (''argument_digest'', JStr (argument_digest a)),
       (''policy_id'', JStr (policy_id a)), (''policy_digest'', JStr (policy_digest a)),
       (''decision_id'', JStr (decision_id a)), (''assurance_state'', JStr (assurance_state a)),
       (''assurance_evidence_digest'', JStr (assurance_evidence_digest a)),
       (''issuer_id'', JStr (issuer_id a)), (''audience_id'', JStr (audience_id a)),
       (''issued_at'', time_json (issued_at a)), (''expires_at'', time_json (expires_at a)),
       (''nonce'', JStr (nonce a)), (''single_use'', JBool (single_use a))] @
      omit_none ''file_binding'' file_binding_json (file_binding a) @
      omit_none ''mcp_binding'' mcp_binding_json (mcp_binding a) @
      [(''authorization_digest'', JStr (authorization_digest a))] @
      (if auth_signatures a = [] then []
       else [(''signatures'', JArr (map dsse_signature_json (auth_signatures a)))]))"

definition digest_form :: "execution_authorization \<Rightarrow> execution_authorization" where
  "digest_form a = a\<lparr>schema_version := AuthorizationSchemaV1, authorization_digest := [],
     auth_signatures := [], effective_scope := sort_strings (effective_scope a),
     allowed_targets := sort_strings (allowed_targets a)\<rparr>"

definition compute_auth_digest :: "crypto \<Rightarrow> execution_authorization \<Rightarrow> string option" where
  "compute_auth_digest cr a =
     map_option (sha_digest cr) (canonical_json (authorization_json (digest_form a)))"

text \<open>The receiver after \<open>Sign\<close>, and its error.\<close>

definition normalize_auth :: "execution_authorization \<Rightarrow> execution_authorization" where
  "normalize_auth a = a\<lparr>schema_version := (if schema_version a = [] then AuthorizationSchemaV1 else schema_version a),
     effective_scope := sort_strings (effective_scope a), allowed_targets := sort_strings (allowed_targets a)\<rparr>"

definition sign_authorization ::
  "crypto \<Rightarrow> execution_authorization option \<Rightarrow> string option \<Rightarrow> string \<Rightarrow>
   execution_authorization option \<times> auth_error option" where
  "sign_authorization cr receiver priv key_id =
     (case receiver of
        None \<Rightarrow> (None, Some NilAuthorization)
      | Some a0 \<Rightarrow>
          (case priv of
             None \<Rightarrow> (Some a0, Some NilPrivateKey)
           | Some key \<Rightarrow>
               let a = normalize_auth a0 in
               (case validate_structure a of
                  Some e \<Rightarrow> (Some a, Some e)
                | None \<Rightarrow>
                    (case compute_auth_digest cr a of
                       None \<Rightarrow> (Some a, Some NotMarshallable)
                     | Some d \<Rightarrow>
                         (Some (a\<lparr>authorization_digest := d,
                            auth_signatures := [sign_digest cr key key_id PayloadTypeAuthorizationV1 d]\<rparr>),
                          None)))))"

section \<open>Lemmas\<close>

lemma check_field_None:
  "check_field f = None \<longleftrightarrow> trim_space (snd f) \<noteq> [] \<and> \<not> contains_sensitive_credential_material (snd f)"
  by (simp add: check_field_def)

lemma check_scope_None:
  "check_scope s = None \<longleftrightarrow> trim_space s \<noteq> [] \<and> \<not> contains_sensitive_credential_material s"
  by (simp add: check_scope_def)

lemma validate_structure_None:
  "validate_structure a = None \<longleftrightarrow>
     (\<forall>f \<in> set (required_fields a). trim_space (snd f) \<noteq> [] \<and> \<not> contains_sensitive_credential_material (snd f)) \<and>
     effective_scope a \<noteq> [] \<and>
     (\<forall>s \<in> set (effective_scope a). trim_space s \<noteq> [] \<and> \<not> contains_sensitive_credential_material s) \<and>
     (\<forall>t \<in> set (allowed_targets a). \<not> contains_sensitive_credential_material t) \<and>
     \<not> time_is_zero (issued_at a) \<and> \<not> time_is_zero (expires_at a) \<and> issued_at a < expires_at a \<and>
     assurance_state a = AssuranceSafe"
  unfolding validate_structure_def first_some_None
  by (simp add: ball_Un check_field_None check_scope_None) blast

text \<open>Only the set of the scopes and targets matters to the validation.\<close>

lemma validate_structure_normalize: "validate_structure (normalize_auth a) = None \<longleftrightarrow> validate_structure a = None"
proof -
  have "required_fields (normalize_auth a) = required_fields a"
    by (simp add: required_fields_def normalize_auth_def)
  moreover have "sort_strings xs = [] \<longleftrightarrow> xs = []" for xs
    using length_sort_strings [of xs] by (metis length_0_conv)
  ultimately show ?thesis unfolding validate_structure_None
    by (simp add: normalize_auth_def)
qed

lemma sort_strings_idem [simp]: "sort_strings (sort_strings xs) = sort_strings xs"
  by (simp add: sort_strings_def sorted_sort_id)

lemma digest_form_normalize [simp]: "digest_form (normalize_auth a) = digest_form a"
  by (simp add: digest_form_def normalize_auth_def)

lemma digest_form_signed [simp]: "digest_form (a\<lparr>authorization_digest := d, auth_signatures := s\<rparr>) = digest_form a"
  by (simp add: digest_form_def)

lemma validate_structure_signed [simp]:
  "validate_structure (a\<lparr>authorization_digest := d, auth_signatures := s\<rparr>) = validate_structure a"
  by (simp add: validate_structure_def required_fields_def)

lemma sort_strings_perm: "mset xs = mset ys \<Longrightarrow> sort_strings xs = sort_strings ys"
  unfolding sort_strings_def by (rule properties_for_sort) simp_all

text \<open>The members of an object may be given in any order.\<close>

lemma json_members_None: "json_members ms = None \<longleftrightarrow> (\<exists>(k, v) \<in> set ms. json_text v = None)"
  by (induction ms) (auto split: option.splits)

lemma json_members_mset:
  "json_members ms = Some ts \<Longrightarrow>
     mset ts = image_mset (\<lambda>(k, v). (k, json_string k @ '':'' @ the (json_text v))) (mset ms)"
  by (induction ms arbitrary: ts) (auto split: option.splits)

lemma json_text_perm:
  assumes "mset ms = mset ms'" and "distinct (map fst ms)"
  shows "json_text (JObj ms) = json_text (JObj ms')"
proof (cases "json_members ms")
  case None
  with assms(1) have "json_members ms' = None"
    unfolding json_members_None by (metis set_mset_mset)
  with None show ?thesis by simp
next
  case (Some ts)
  have "set ms = set ms'" using assms(1) by (metis set_mset_mset)
  with Some have "json_members ms' \<noteq> None"
    unfolding json_members_None using json_members_None [of ms] by auto
  then obtain ts' where ts': "json_members ms' = Some ts'" by auto
  have m: "mset ts = mset ts'"
    using json_members_mset [OF Some] json_members_mset [OF ts'] assms(1) by simp
  have d: "distinct (map fst ts)" using json_members_keys [OF Some] assms(2) by simp
  have d': "distinct (map fst ts')"
    using d m by (metis mset_eq_imp_distinct_iff mset_map)
  have "sort_key fst ts = sort_key fst ts'"
  proof (rule map_sorted_distinct_set_unique [of fst])
    show "inj_on fst (set (sort_key fst ts) \<union> set (sort_key fst ts'))"
      using d m by (simp add: distinct_map) (metis set_mset_mset sup.idem)
    show "distinct (map fst (sort_key fst ts))" "distinct (map fst (sort_key fst ts'))"
      using d d' by (metis mset_eq_imp_distinct_iff mset_map mset_sort)+
    show "set (sort_key fst ts) = set (sort_key fst ts')"
      using m by simp (metis set_mset_mset)
  qed simp_all
  with Some ts' show ?thesis by simp
qed

lemma compute_auth_digest_normalize [simp]: "compute_auth_digest cr (normalize_auth a) = compute_auth_digest cr a"
  by (simp add: compute_auth_digest_def)

lemma compute_auth_digest_signed [simp]:
  "compute_auth_digest cr (a\<lparr>authorization_digest := d, auth_signatures := s\<rparr>) = compute_auth_digest cr a"
  by (simp add: compute_auth_digest_def)

lemma json_elems_strs: "json_elems (map JStr ss) = Some (map json_string ss)"
  by (induction ss) simp_all

lemma json_text_time: "json_text (time_json t) = None \<longleftrightarrow> \<not> time_year_ok t"
  by (simp add: time_json_def)

lemma json_text_Obj_None: "json_text (JObj ms) = None \<longleftrightarrow> (\<exists>(k, v) \<in> set ms. json_text v = None)"
  by (simp add: json_members_None)

lemma json_text_strs: "\<exists>t. json_text (strs_json ss) = Some t"
  by (simp add: strs_json_def json_elems_strs)

lemma json_ok_parts:
  "(k, v) \<in> set (omit_str f s) \<Longrightarrow> \<exists>t. json_text v = Some t"
  "(k, v) \<in> set (omit_strs f ss) \<Longrightarrow> \<exists>t. json_text v = Some t"
  "(k, v) \<in> set (omit_int f n) \<Longrightarrow> \<exists>t. json_text v = Some t"
  by (auto simp: omit_str_def omit_strs_def omit_int_def json_elems_strs split: if_splits)

lemma json_text_file_binding: "\<exists>t. json_text (file_binding_json b) = Some t"
proof -
  have "json_text (file_binding_json b) \<noteq> None"
    unfolding file_binding_json_def json_text_Obj_None by (auto dest: json_ok_parts)
  then show ?thesis by blast
qed

lemma json_text_mcp_binding: "\<exists>t. json_text (mcp_binding_json b) = Some t"
proof -
  have "json_text (mcp_binding_json b) \<noteq> None"
    unfolding mcp_binding_json_def json_text_Obj_None by auto
  then show ?thesis by blast
qed

lemma json_ok_bindings:
  "(k, v) \<in> set (omit_none f file_binding_json x) \<Longrightarrow> \<exists>t. json_text v = Some t"
  "(k, v) \<in> set (omit_none f mcp_binding_json y) \<Longrightarrow> \<exists>t. json_text v = Some t"
  using json_text_file_binding json_text_mcp_binding
  by (auto simp: omit_none_def simp del: json_text.simps split: option.splits)

lemma authorization_json_None:
  assumes "auth_signatures a = []"
  shows "json_text (authorization_json a) = None \<longleftrightarrow> \<not> time_year_ok (issued_at a) \<or> \<not> time_year_ok (expires_at a)"
proof
  assume "json_text (authorization_json a) = None"
  then show "\<not> time_year_ok (issued_at a) \<or> \<not> time_year_ok (expires_at a)"
    using json_text_strs [of "effective_scope a"] assms
    unfolding authorization_json_def json_text_Obj_None json_text_time [symmetric]
    by (auto dest: json_ok_parts json_ok_bindings)
next
  assume "\<not> time_year_ok (issued_at a) \<or> \<not> time_year_ok (expires_at a)"
  then have "json_text (time_json (issued_at a)) = None \<or> json_text (time_json (expires_at a)) = None"
    by (simp only: json_text_time)
  then show "json_text (authorization_json a) = None"
    unfolding authorization_json_def json_text_Obj_None by auto
qed

lemma compute_auth_digest_None:
  "compute_auth_digest cr a = None \<longleftrightarrow> \<not> time_year_ok (issued_at a) \<or> \<not> time_year_ok (expires_at a)"
  using authorization_json_None [of "digest_form a"]
  by (simp add: compute_auth_digest_def canonical_json_def digest_form_def)

lemma sign_authorization_ok:
  "sign_authorization cr (Some a0) (Some key) key_id = (Some a, None) \<longleftrightarrow>
     validate_structure a0 = None \<and>
     (\<exists>d. compute_auth_digest cr a0 = Some d \<and>
          a = (normalize_auth a0)\<lparr>authorization_digest := d,
                auth_signatures := [sign_digest cr key key_id PayloadTypeAuthorizationV1 d]\<rparr>)"
  using validate_structure_normalize [of a0]
  by (auto simp: sign_authorization_def Let_def split: option.splits)

section \<open>Properties\<close>

text \<open>
  The argument digest does not depend on the order in which the arguments are held, at the
  top level and for the objects of a tool schema, and it exists whenever every argument can be
  marshalled.
\<close>

theorem argument_digest_order_independent:
  assumes "mset args = mset args'" and "distinct (map fst args)"
  shows "canonical_argument_digest cr args = canonical_argument_digest cr args' \<and>
         canonical_schema_digest cr (Some (JObj args)) = canonical_schema_digest cr (Some (JObj args')) \<and>
         (canonical_argument_digest cr args = None \<longleftrightarrow> (\<exists>(k, v) \<in> set args. json_text v = None))"
proof -
  have "args = [] \<longleftrightarrow> args' = []" using assms(1) by (metis mset_zero_iff)
  then show ?thesis
    using json_text_perm [OF assms] json_text_Obj_None [of args]
    by (simp add: canonical_argument_digest_def canonical_schema_digest_def canonical_json_def
        del: json_text.simps) auto
qed

lemma argument_digest_order_independent_witness:
  "canonical_argument_digest toy_crypto [(''a'', JNum ''1''), (''b'', JNull)] =
   canonical_argument_digest toy_crypto [(''b'', JNull), (''a'', JNum ''1'')]"
  using argument_digest_order_independent
      [of "[(''a'', JNum ''1''), (''b'', JNull)]" "[(''b'', JNull), (''a'', JNum ''1'')]" toy_crypto]
  by simp

text \<open>What \<open>Sign\<close> returns.\<close>

lemma signed_authorization_valid:
  assumes "signing_key cr key" and kid: "kid = (if key_id = [] then KeyID cr (ed_public cr key) else key_id)"
    and "keys kid = Some (PublicKeyBase64 cr key)"
    and s: "sign_authorization cr (Some a0) (Some key) key_id = (Some a, None)"
  shows "validate_structure a = None \<and> compute_auth_digest cr a = Some (authorization_digest a) \<and>
    auth_signatures a \<noteq> [] \<and>
    verified_key_id cr keys (dsse_pae PayloadTypeAuthorizationV1 (authorization_digest a)) (auth_signatures a) = kid"
proof -
  from s obtain d where v: "validate_structure a0 = None" and d: "compute_auth_digest cr a0 = Some d"
    and a: "a = (normalize_auth a0)\<lparr>authorization_digest := d,
              auth_signatures := [sign_digest cr key key_id PayloadTypeAuthorizationV1 d]\<rparr>"
    by (auto simp: sign_authorization_ok)
  have "sig_ok cr keys (dsse_pae PayloadTypeAuthorizationV1 d) (sign_digest cr key key_id PayloadTypeAuthorizationV1 d)"
    using assms by (intro sign_digest_ok) (simp_all add: sign_digest_def)
  moreover have "sig_keyid (sign_digest cr key key_id PayloadTypeAuthorizationV1 d) = kid"
    using kid by (simp add: sign_digest_def)
  ultimately show ?thesis using v d by (simp add: a validate_structure_normalize)
qed

text \<open>
  \<open>Sign\<close> succeeds exactly for an authorization that passes the structural validation (no
  empty required field, no credential in any of them, a non-empty scope, a proper validity
  window, the assurance state SAFE) and whose times can be written in RFC 3339.  What it returns
  passes the validation again, carries its own digest, and has a signature that verifies
  under the key identifier it was signed with.
\<close>

theorem sign_authorization_correct:
  assumes "signing_key cr key" and "kid = (if key_id = [] then KeyID cr (ed_public cr key) else key_id)"
    and "keys kid = Some (PublicKeyBase64 cr key)"
  shows "((\<exists>a. sign_authorization cr (Some a0) (Some key) key_id = (Some a, None)) \<longleftrightarrow>
            validate_structure a0 = None \<and> time_year_ok (issued_at a0) \<and> time_year_ok (expires_at a0)) \<and>
         (sign_authorization cr (Some a0) (Some key) key_id = (Some a, None) \<longrightarrow>
            validate_structure a = None \<and> assurance_state a = AssuranceSafe \<and>
            compute_auth_digest cr a = Some (authorization_digest a) \<and>
            verified_key_id cr keys (dsse_pae PayloadTypeAuthorizationV1 (authorization_digest a))
              (auth_signatures a) = kid)"
proof
  have "compute_auth_digest cr a0 = None \<longleftrightarrow> \<not> (time_year_ok (issued_at a0) \<and> time_year_ok (expires_at a0))"
    unfolding compute_auth_digest_None by simp
  then show "(\<exists>a. sign_authorization cr (Some a0) (Some key) key_id = (Some a, None)) \<longleftrightarrow>
      validate_structure a0 = None \<and> time_year_ok (issued_at a0) \<and> time_year_ok (expires_at a0)"
    by (auto simp: sign_authorization_ok)
  show "sign_authorization cr (Some a0) (Some key) key_id = (Some a, None) \<longrightarrow>
      validate_structure a = None \<and> assurance_state a = AssuranceSafe \<and>
      compute_auth_digest cr a = Some (authorization_digest a) \<and>
      verified_key_id cr keys (dsse_pae PayloadTypeAuthorizationV1 (authorization_digest a))
        (auth_signatures a) = kid"
    using signed_authorization_valid [OF assms(1,2), of keys a0 a] assms(3) validate_structure_None [of a]
    by blast
qed

text \<open>An authorization for concrete runs.\<close>

definition sample_auth :: execution_authorization where
  "sample_auth = \<lparr>schema_version = [], authorization_id = ''az1'', subject_id = ''s'', subject_digest = ''sd'',
     agent_id = ''ag'', session_id = ''se'', parent_agent_id = [], tool_or_server_id = ''srv'',
     requested_capability = ''Read'', effective_scope = [''Read''], allowed_targets = [],
     operation_id = canonical_operation_id toy_crypto ''Read'' ''srv'' ''f'',
     argument_digest = ''sha256:{}'', policy_id = ''p'', policy_digest = ''pd'', decision_id = ''d'',
     assurance_state = AssuranceSafe, assurance_evidence_digest = ''ed'', issuer_id = ''iss'',
     audience_id = ''aud'', issued_at = 1000000000, expires_at = 9000000000, nonce = ''n1'',
     single_use = True, file_binding = None, mcp_binding = None, authorization_digest = [],
     auth_signatures = []\<rparr>"

lemma plain_field:
  "s \<noteq> [] \<Longrightarrow> plain_edge (hd s) \<Longrightarrow> plain_edge (last s) \<Longrightarrow> length s < 14 \<Longrightarrow>
   trim_space s \<noteq> [] \<and> \<not> contains_sensitive_credential_material s"
  by (simp add: short_no_credential)

lemma sample_operation_id: "canonical_operation_id toy_crypto ''Read'' ''srv'' ''f'' = ''op:sha256:Re''"
  by (simp add: canonical_operation_id_def toy_crypto_def plain_edge_def ascii_space_def)

lemma validate_sample: "validate_structure sample_auth = None"
  unfolding validate_structure_None
proof (intro conjI)
  show "\<forall>f \<in> set (required_fields sample_auth).
      trim_space (snd f) \<noteq> [] \<and> \<not> contains_sensitive_credential_material (snd f)"
    unfolding required_fields_def sample_auth_def sample_operation_id
    by (simp add: short_no_credential plain_edge_def ascii_space_def)
  show "\<forall>s \<in> set (effective_scope sample_auth). trim_space s \<noteq> [] \<and> \<not> contains_sensitive_credential_material s"
    by (simp add: sample_auth_def short_no_credential plain_edge_def ascii_space_def)
qed (simp_all add: sample_auth_def time_is_zero_def)

lemma sample_times: "time_year_ok (issued_at sample_auth) \<and> time_year_ok (expires_at sample_auth)"
proof -
  have "time_year_ok 1000000000 \<and> time_year_ok 9000000000" by code_simp
  then show ?thesis by (simp add: sample_auth_def)
qed

lemma sign_authorization_correct_witness:
  "\<exists>a. sign_authorization toy_crypto (Some sample_auth) (Some ''key'') ''kid'' = (Some a, None) \<and>
     validate_structure a = None"
  using sign_authorization_correct [of toy_crypto "''key''" "''kid''" "''kid''"
      "[''kid'' \<mapsto> PublicKeyBase64 toy_crypto ''key'']" sample_auth]
    validate_sample sample_times
  by auto

text \<open>Two objects whose members have the same texts have the same text.\<close>

definition same_member :: "string \<times> json \<Rightarrow> string \<times> json \<Rightarrow> bool" where
  "same_member m n \<longleftrightarrow> fst m = fst n \<and> json_text (snd m) = json_text (snd n)"

lemma same_member_refl: "list_all2 same_member ms ms"
  by (simp add: list.rel_refl same_member_def)

lemma json_text_Obj_cong:
  assumes "list_all2 same_member ms ns"
  shows "json_text (JObj ms) = json_text (JObj ns)"
proof -
  from assms have "json_members ms = json_members ns"
  proof (induction rule: list_all2_induct)
    case (Cons m ms n ns)
    then show ?case by (cases m; cases n) (simp add: same_member_def)
  qed simp
  then show ?thesis by simp
qed

lemma compute_auth_digest_nonce:
  assumes "json_string n = json_string n'"
  shows "compute_auth_digest cr (a\<lparr>nonce := n\<rparr>) = compute_auth_digest cr (a\<lparr>nonce := n'\<rparr>)"
proof -
  have "json_text (authorization_json (digest_form (a\<lparr>nonce := n\<rparr>))) =
        json_text (authorization_json (digest_form (a\<lparr>nonce := n'\<rparr>)))"
    unfolding authorization_json_def digest_form_def execution_authorization.simps
    by (intro json_text_Obj_cong list_all2_appendI same_member_refl list_all2_Cons [THEN iffD2] conjI)
       (simp_all add: same_member_refl, simp_all add: same_member_def assms)
  then show ?thesis by (simp add: compute_auth_digest_def canonical_json_def)
qed

text \<open>
  The digest does not distinguish strings that differ only in invalid UTF-8 bytes, because
  the JSON encoder replaces each of them by U+FFFD; nor does it cover the schema version.
\<close>

theorem digest_blind_spots:
  "compute_auth_digest cr (a\<lparr>nonce := [CHR 0xFF]\<rparr>) = compute_auth_digest cr (a\<lparr>nonce := [CHR 0xFE]\<rparr>) \<and>
   compute_auth_digest cr (a\<lparr>schema_version := v\<rparr>) = compute_auth_digest cr a"
proof
  have e: "esc_string [CHR 0xFF] = esc_string [CHR 0xFE]"
    by (simp add: esc_string.simps [of "[c]" for c] esc_string.simps [of "[]"] decode_rune_def byte_val_def)
  show "compute_auth_digest cr (a\<lparr>nonce := [CHR 0xFF]\<rparr>) = compute_auth_digest cr (a\<lparr>nonce := [CHR 0xFE]\<rparr>)"
    by (rule compute_auth_digest_nonce) (simp add: json_string_def e)
  show "compute_auth_digest cr (a\<lparr>schema_version := v\<rparr>) = compute_auth_digest cr a"
    by (simp add: compute_auth_digest_def digest_form_def)
qed

end
