(* ===== verification/Nonce_Ledger.thy ===== *)
theory Nonce_Ledger
  imports Authorization
begin

text \<open>
  Replay protection: \<open>NonceLedger\<close> of internal/receipt/authorization.go, in memory and backed by
  a directory of lock files, and the interface \<open>replay_guard\<close> that single use rests on.

  The directory is a map from paths to contents.  What the file operations of one call return
  (\<open>OpenFile\<close> failing for another reason than an existing file, a write, sync or close that
  fails) is the argument \<open>lock_io\<close>.  The mutex of a ledger makes \<open>Consume\<close> atomic within a
  process, and the exclusive creation of the lock file decides between processes.
\<close>

section \<open>Replay guards\<close>

text \<open>A run of a step function over a list of inputs, with the results in order.\<close>

fun run_steps :: "('i \<Rightarrow> 's \<Rightarrow> 'r \<times> 's) \<Rightarrow> 'i list \<Rightarrow> 's \<Rightarrow> 'r list \<times> 's" where
  "run_steps f [] s = ([], s)"
| "run_steps f (i # is) s =
     (let (r, s1) = f i s; (rs, s2) = run_steps f is s1 in (r # rs, s2))"

lemma run_steps_Cons:
  "run_steps f (i # is) s =
     (fst (f i s) # fst (run_steps f is (snd (f i s))), snd (run_steps f is (snd (f i s))))"
  by (simp add: Let_def split: prod.splits)

declare run_steps.simps(2) [simp del]

lemma run_steps_length [simp]: "length (fst (run_steps f is s)) = length is"
  by (induction "is" arbitrary: s) (simp_all add: run_steps_Cons)

text \<open>
  The interface: a step accepts or refuses an input; an accepted key was unused and is used
  from then on.  Then no run accepts two inputs with one key.
\<close>

locale replay_guard =
  fixes step :: "'i \<Rightarrow> 's \<Rightarrow> bool \<times> 's"
    and key :: "'i \<Rightarrow> 'k"
    and used :: "'s \<Rightarrow> 'k \<Rightarrow> bool"
  assumes accepted_fresh: "fst (step i s) \<Longrightarrow> \<not> used s (key i)"
    and accepted_used: "fst (step i s) \<Longrightarrow> used (snd (step i s)) (key i)"
    and used_kept: "used s k \<Longrightarrow> used (snd (step i s)) k"
begin

lemma used_refused: "used s (key i) \<Longrightarrow> \<not> fst (step i s)"
  using accepted_fresh by blast

lemma used_never_accepted:
  "used s k \<Longrightarrow> n < length is \<Longrightarrow> key (is ! n) = k \<Longrightarrow> \<not> fst (run_steps step is s) ! n"
proof (induction "is" arbitrary: s n)
  case (Cons i "is")
  show ?case
  proof (cases n)
    case 0
    with Cons.prems used_refused show ?thesis by (simp add: run_steps_Cons)
  next
    case (Suc m)
    with Cons.prems Cons.IH [of "snd (step i s)" m] used_kept show ?thesis
      by (simp add: run_steps_Cons)
  qed
qed simp

lemma accepted_once:
  assumes "m < n" and "n < length is" and "key (is ! m) = key (is ! n)"
    and "fst (run_steps step is s) ! m"
  shows "\<not> fst (run_steps step is s) ! n"
  using assms
proof (induction "is" arbitrary: s m n)
  case (Cons i "is")
  obtain n' where n: "n = Suc n'" using Cons.prems(1) by (cases n) auto
  show ?case
  proof (cases m)
    case 0
    with Cons.prems have "fst (step i s)" by (simp add: run_steps_Cons)
    then have "used (snd (step i s)) (key i)" by (rule accepted_used)
    from used_never_accepted [OF this, of n' "is"] Cons.prems 0 n show ?thesis
      by (simp add: run_steps_Cons)
  next
    case (Suc m')
    with Cons.prems Cons.IH [of m' n' "snd (step i s)"] n show ?thesis
      by (simp add: run_steps_Cons)
  qed
qed simp

end

section \<open>The ledger\<close>

type_synonym disk = "string \<rightharpoonup> string"

record nonce_ledger =
  seen :: "string \<rightharpoonup> time"
  durable_dir :: string
  replay_scope :: string

record lock_io =
  io_open_fails :: bool
  io_commit_fails :: bool

datatype nonce_error =
    NilLedger
  | MissingNonce
  | ReplayDetected string string time
  | DurableReplayDetected string string
  | PersistFailed
  | CommitFailed

datatype ledger_error = NoDirectory | AbsFailed | MkdirFailed

definition ReplayScopeProcessLocal :: string where
  "ReplayScopeProcessLocal = ''process-local''"

definition ReplayScopeHostDurable :: string where
  "ReplayScopeHostDurable = ''host-durable''"

definition new_nonce_ledger :: nonce_ledger where
  "new_nonce_ledger = \<lparr>seen = Map.empty, durable_dir = [], replay_scope = ReplayScopeProcessLocal\<rparr>"

text \<open>\<open>absf\<close> is \<open>filepath.Abs\<close>, which depends on the working directory; \<open>mkdir\<close> tells whether
  \<open>MkdirAll\<close> succeeds.\<close>

definition new_durable_nonce_ledger ::
  "(string \<Rightarrow> string option) \<Rightarrow> (string \<Rightarrow> bool) \<Rightarrow> string \<Rightarrow> ledger_error + nonce_ledger" where
  "new_durable_nonce_ledger absf mkdir dir =
     (let cleaned = trim_space dir in
      if cleaned = [] then Inl NoDirectory
      else case absf cleaned of
        None \<Rightarrow> Inl AbsFailed
      | Some abs_dir \<Rightarrow>
          if \<not> mkdir abs_dir then Inl MkdirFailed
          else Inr \<lparr>seen = Map.empty, durable_dir = abs_dir, replay_scope = ReplayScopeHostDurable\<rparr>)"

definition ledger_scope :: "nonce_ledger option \<Rightarrow> string" where
  "ledger_scope l =
     (case l of
        None \<Rightarrow> []
      | Some x \<Rightarrow> if replay_scope x = [] then ReplayScopeProcessLocal else replay_scope x)"

definition is_distributed :: "nonce_ledger option \<Rightarrow> bool" where
  "is_distributed l = False"

definition nonce_key :: "string \<Rightarrow> string \<Rightarrow> string" where
  "nonce_key auth_id n = auth_id @ CHR 0x00 # n"

definition entry_path :: "crypto \<Rightarrow> nonce_ledger \<Rightarrow> string \<Rightarrow> string" where
  "entry_path cr l key = path_join2 (durable_dir l) (''nonce-'' @ sha256_hex cr key @ ''.lock'')"

definition consume ::
  "crypto \<Rightarrow> lock_io \<Rightarrow> nonce_ledger \<Rightarrow> disk \<Rightarrow> string \<Rightarrow> string \<Rightarrow> time \<Rightarrow>
   nonce_error option \<times> nonce_ledger \<times> disk" where
  "consume cr io l d auth_id n now =
     (if trim_space auth_id = [] \<or> trim_space n = [] then (Some MissingNonce, l, d)
      else let key = nonce_key auth_id n in
        case seen l key of
          Some prior \<Rightarrow> (Some (ReplayDetected auth_id n prior), l, d)
        | None \<Rightarrow>
            if durable_dir l \<noteq> [] then
              let entry = entry_path cr l key in
              if d entry \<noteq> None then (Some (DurableReplayDetected auth_id n), l, d)
              else if io_open_fails io then (Some PersistFailed, l, d)
              else if io_commit_fails io then (Some CommitFailed, l, d(entry := None))
              else (None, l\<lparr>seen := (seen l)(key \<mapsto> now)\<rparr>, d(entry \<mapsto> rfc3339_nano now @ [CHR 0x0A]))
            else (None, l\<lparr>seen := (seen l)(key \<mapsto> now)\<rparr>, d))"

text \<open>The receiver may be nil.\<close>

definition consume_nonce ::
  "crypto \<Rightarrow> lock_io \<Rightarrow> nonce_ledger option \<Rightarrow> disk \<Rightarrow> string \<Rightarrow> string \<Rightarrow> time \<Rightarrow>
   nonce_error option \<times> nonce_ledger option \<times> disk" where
  "consume_nonce cr io l d auth_id n now =
     (case l of
        None \<Rightarrow> (Some NilLedger, None, d)
      | Some x \<Rightarrow> (let (e, y, d') = consume cr io x d auth_id n now in (e, Some y, d')))"

section \<open>One ledger\<close>

type_synonym consume_call = "lock_io \<times> string \<times> string \<times> time"

definition ledger_step :: "crypto \<Rightarrow> consume_call \<Rightarrow> nonce_ledger \<times> disk \<Rightarrow> bool \<times> nonce_ledger \<times> disk" where
  "ledger_step cr c s =
     (case c of (io, a, n, t) \<Rightarrow>
        let (e, l, d) = consume cr io (fst s) (snd s) a n t in (e = None, l, d))"

definition call_key :: "consume_call \<Rightarrow> string" where
  "call_key c = (case c of (io, a, n, t) \<Rightarrow> nonce_key a n)"

definition seen_key :: "nonce_ledger \<times> disk \<Rightarrow> string \<Rightarrow> bool" where
  "seen_key s k \<longleftrightarrow> seen (fst s) k \<noteq> None"

lemma consume_accepted:
  "consume cr io l d a n t = (None, l', d') \<Longrightarrow>
     seen l (nonce_key a n) = None \<and> l' = l\<lparr>seen := (seen l)(nonce_key a n \<mapsto> t)\<rparr> \<and>
     trim_space a \<noteq> [] \<and> trim_space n \<noteq> [] \<and>
     (durable_dir l \<noteq> [] \<longrightarrow> d (entry_path cr l (nonce_key a n)) = None \<and>
        d' = d(entry_path cr l (nonce_key a n) \<mapsto> rfc3339_nano t @ [CHR 0x0A]))"
  by (auto simp: consume_def Let_def split: if_splits option.splits)

lemma consume_seen_kept: "consume cr io l d a n t = (e, l', d') \<Longrightarrow> seen l k \<noteq> None \<Longrightarrow> seen l' k \<noteq> None"
  by (auto simp: consume_def Let_def split: if_splits option.splits)

lemma consume_disk_kept: "consume cr io l d a n t = (e, l', d') \<Longrightarrow> d p \<noteq> None \<Longrightarrow> d' p \<noteq> None"
  by (auto simp: consume_def Let_def split: if_splits option.splits)

lemma consume_dir: "consume cr io l d a n t = (e, l', d') \<Longrightarrow> durable_dir l' = durable_dir l"
  by (auto simp: consume_def Let_def split: if_splits option.splits)

interpretation ledger: replay_guard "ledger_step cr" call_key seen_key for cr
proof
  fix c :: consume_call and s :: "nonce_ledger \<times> disk" and k
  obtain io a n t where c: "c = (io, a, n, t)" by (cases c)
  obtain e l d where r: "consume cr io (fst s) (snd s) a n t = (e, l, d)"
    by (cases "consume cr io (fst s) (snd s) a n t")
  have st: "ledger_step cr (io, a, n, t) s = (e = None, l, d)" by (simp add: ledger_step_def r)
  show "fst (ledger_step cr c s) \<Longrightarrow> \<not> seen_key s (call_key c)"
    using r consume_accepted [of cr io "fst s" "snd s" a n t l d] by (auto simp: st seen_key_def call_key_def c)
  show "fst (ledger_step cr c s) \<Longrightarrow> seen_key (snd (ledger_step cr c s)) (call_key c)"
    using r consume_accepted [of cr io "fst s" "snd s" a n t l d]
    by (auto simp: st seen_key_def call_key_def c)
  show "seen_key s k \<Longrightarrow> seen_key (snd (ledger_step cr c s)) k"
    using consume_seen_kept [OF r] by (simp add: st seen_key_def c)
qed

section \<open>Several processes on one directory\<close>

text \<open>
  Processes with durable ledgers on the same directory: each event is a consume by one of them,
  or a restart that gives a process a fresh ledger on the directory.
\<close>

datatype host_event = HostConsume nat consume_call | HostRestart nat

type_synonym host = "(nat \<Rightarrow> string \<rightharpoonup> time) \<times> disk"

definition durable_ledger :: "string \<Rightarrow> (string \<rightharpoonup> time) \<Rightarrow> nonce_ledger" where
  "durable_ledger dir m = \<lparr>seen = m, durable_dir = dir, replay_scope = ReplayScopeHostDurable\<rparr>"

definition host_step :: "crypto \<Rightarrow> string \<Rightarrow> host_event \<Rightarrow> host \<Rightarrow> bool \<times> host" where
  "host_step cr dir ev h =
     (case ev of
        HostRestart p \<Rightarrow> (False, (fst h)(p := Map.empty), snd h)
      | HostConsume p c \<Rightarrow>
          (let (ok, l, d) = ledger_step cr c (durable_ledger dir (fst h p), snd h)
           in (ok, (fst h)(p := seen l), d)))"

definition event_entry :: "crypto \<Rightarrow> string \<Rightarrow> host_event \<Rightarrow> string option" where
  "event_entry cr dir ev =
     (case ev of
        HostRestart p \<Rightarrow> None
      | HostConsume p c \<Rightarrow> Some (entry_path cr (durable_ledger dir Map.empty) (call_key c)))"

definition entry_used :: "host \<Rightarrow> string option \<Rightarrow> bool" where
  "entry_used h k = (case k of None \<Rightarrow> False | Some p \<Rightarrow> snd h p \<noteq> None)"

lemma entry_path_durable: "entry_path cr (durable_ledger dir m) k = entry_path cr (durable_ledger dir Map.empty) k"
  by (simp add: entry_path_def durable_ledger_def)

lemma new_durable_dir:
  "new_durable_nonce_ledger absf mkdir dir = Inr l \<Longrightarrow> \<exists>p. absf (trim_space dir) = Some p \<and> l = durable_ledger p Map.empty"
  by (auto simp: new_durable_nonce_ledger_def durable_ledger_def Let_def split: if_splits option.splits)

interpretation host: replay_guard "host_step cr (CHR ''/'' # dir)" "event_entry cr (CHR ''/'' # dir)" entry_used
  for cr dir
proof
  fix ev :: host_event and h :: host and k
  let ?dir = "CHR ''/'' # dir" and ?step = "host_step cr (CHR ''/'' # dir)"
  have "(fst (?step ev h) \<longrightarrow> \<not> entry_used h (event_entry cr ?dir ev) \<and>
           entry_used (snd (?step ev h)) (event_entry cr ?dir ev)) \<and>
        (entry_used h k \<longrightarrow> entry_used (snd (?step ev h)) k)"
  proof (cases ev)
    case (HostRestart p)
    then show ?thesis by (cases k) (auto simp: host_step_def entry_used_def)
  next
    case (HostConsume p c)
    obtain io a n t where c: "c = (io, a, n, t)" by (cases c)
    define l0 where "l0 = durable_ledger ?dir (fst h p)"
    obtain e l d where r: "consume cr io l0 (snd h) a n t = (e, l, d)"
      by (cases "consume cr io l0 (snd h) a n t")
    have st: "?step ev h = (e = None, (fst h)(p := seen l), d)"
      unfolding HostConsume c host_step_def ledger_step_def host_event.case l0_def [symmetric]
      by (simp add: r)
    have en: "event_entry cr ?dir ev = Some (entry_path cr l0 (nonce_key a n))"
      by (simp add: event_entry_def HostConsume c call_key_def l0_def entry_path_durable [of cr _ "fst h p"])
    have dir: "durable_dir l0 \<noteq> []" by (simp add: l0_def durable_ledger_def)
    show ?thesis
      unfolding st en
      using r dir consume_accepted [of cr io l0 "snd h" a n t l d] consume_disk_kept [OF r]
      by (cases k) (auto simp: entry_used_def)
  qed
  then show "fst (?step ev h) \<Longrightarrow> \<not> entry_used h (event_entry cr ?dir ev)"
    and "fst (?step ev h) \<Longrightarrow> entry_used (snd (?step ev h)) (event_entry cr ?dir ev)"
    and "entry_used h k \<Longrightarrow> entry_used (snd (?step ev h)) k" by blast+
qed

section \<open>Properties\<close>

text \<open>
  No ledger accepts a nonce of an authorization twice, in memory or on disk: whatever calls
  are made in between and however their file operations end, a pair that was consumed is refused
  ever after.
\<close>

theorem nonce_consumed_once:
  assumes "m < n" and "n < length calls" and "call_key (calls ! m) = call_key (calls ! n)"
    and "fst (run_steps (ledger_step cr) calls (l, d)) ! m"
  shows "\<not> fst (run_steps (ledger_step cr) calls (l, d)) ! n"
  using ledger.accepted_once [OF assms] .

definition sample_io :: lock_io where
  "sample_io = \<lparr>io_open_fails = False, io_commit_fails = False\<rparr>"

lemma nonce_consumed_once_witness:
  "fst (run_steps (ledger_step toy_crypto) [(sample_io, ''a'', ''n'', 5), (sample_io, ''a'', ''n'', 6)]
     (new_nonce_ledger, Map.empty)) = [True, False]"
proof -
  let ?c = "[(sample_io, ''a'', ''n'', 5), (sample_io, ''a'', ''n'', 6)]"
  let ?r = "fst (run_steps (ledger_step toy_crypto) ?c (new_nonce_ledger, Map.empty))"
  have 0: "?r ! 0"
    by (simp add: run_steps_Cons ledger_step_def consume_def new_nonce_ledger_def plain_edge_def ascii_space_def)
  then have "\<not> ?r ! 1"
    using nonce_consumed_once [of 0 1 ?c toy_crypto new_nonce_ledger Map.empty] by (simp add: call_key_def)
  with 0 show ?thesis by (simp add: run_steps_Cons)
qed

text \<open>
  C27. On one host, processes that share a lock directory accept a nonce at most once between
  them, also when processes are restarted and lose their memory in between.
\<close>

theorem durable_nonce_consumed_once:
  assumes "new_durable_nonce_ledger absf mkdir dir0 = Inr l" and "durable_dir l = CHR ''/'' # dir"
    and "m < n" and "n < length evs" and "evs ! m = HostConsume p c" and "evs ! n = HostConsume q c'"
    and "call_key c = call_key c'"
    and "fst (run_steps (host_step cr (durable_dir l)) evs (mem, d)) ! m"
  shows "\<not> fst (run_steps (host_step cr (durable_dir l)) evs (mem, d)) ! n"
proof -
  have "event_entry cr (durable_dir l) (evs ! m) = event_entry cr (durable_dir l) (evs ! n)"
    using assms by (simp add: event_entry_def)
  from host.accepted_once [OF assms(3,4) this [unfolded assms(2)] assms(8) [unfolded assms(2)]]
  show ?thesis unfolding assms(2) .
qed

lemma durable_nonce_consumed_once_witness:
  "\<exists>l. new_durable_nonce_ledger Some (\<lambda>p. True) ''/d'' = Inr l \<and>
     fst (run_steps (host_step toy_crypto (durable_dir l))
       [HostConsume 0 (sample_io, ''a'', ''n'', 5), HostRestart 0, HostConsume 0 (sample_io, ''a'', ''n'', 6)]
       (\<lambda>p. Map.empty, Map.empty)) = [True, False, False]"
proof -
  let ?e = "[HostConsume 0 (sample_io, ''a'', ''n'', 5), HostRestart 0, HostConsume 0 (sample_io, ''a'', ''n'', 6)]"
  let ?r = "fst (run_steps (host_step toy_crypto ''/d'') ?e (\<lambda>p. Map.empty, Map.empty))"
  have new: "new_durable_nonce_ledger Some (\<lambda>p. True) ''/d'' = Inr (durable_ledger ''/d'' Map.empty)"
    by (simp add: new_durable_nonce_ledger_def durable_ledger_def plain_edge_def ascii_space_def)
  have 0: "?r ! 0"
    by (simp add: run_steps_Cons host_step_def ledger_step_def consume_def durable_ledger_def sample_io_def
        Let_def plain_edge_def ascii_space_def)
  have "\<not> ?r ! 2"
    using durable_nonce_consumed_once [OF new, of "''d''" 0 2 ?e 0 _ 0 _ toy_crypto "\<lambda>p. Map.empty" Map.empty] 0
    by (simp add: durable_ledger_def call_key_def)
  with 0 new show ?thesis by (auto simp: run_steps_Cons host_step_def durable_ledger_def numeral_2_eq_2)
qed

end
