(* ===== verification/Gateway.thy ===== *)
theory Gateway
  imports Nonce_Ledger
begin

text \<open>
  \<open>ExecutionGateway\<close> of internal/receipt/authorization.go: the validation of an authorization
  against the operation about to run, step by step in the order of the code, revocation, and
  \<open>AuthorizeAndExecute\<close> with its signed receipt.

  The gateway is the record of its configuration; revocation and the nonce ledger change it.
  The clock readings, the file system at the time of the check, the outcome of the lock file
  operations and the handler are arguments.
\<close>

section \<open>Requests and the gateway\<close>

record protected_operation_request =
  req_execution_id :: string
  req_subject_id :: string
  req_subject_digest :: string
  req_agent_id :: string
  req_session_id :: string
  req_parent_agent_id :: string
  req_tool_or_server_id :: string
  req_capability :: string
  req_target :: string
  req_command_text :: string
  req_arguments :: "(string \<times> json) list"
  req_negotiated_tool_schema :: "json option"
  req_negotiated_schema_digest :: string
  req_active_policy_id :: string
  req_active_policy_digest :: string

type_synonym validity_oracle = "string \<Rightarrow> string \<Rightarrow> string \<Rightarrow> string \<Rightarrow> bool \<times> string"

record gateway =
  runtime_audience_id :: string
  trusted_issuers :: "string \<rightharpoonup> string list"
  trusted_public_keys :: "string \<rightharpoonup> string"
  assurance_oracle :: "validity_oracle option"
  revoked_digests :: "string \<rightharpoonup> string"
  revoked_decisions :: "string \<rightharpoonup> string"
  nonces :: "nonce_ledger option"

datatype gate_error =
    InvalidStructure auth_error
  | Unsigned
  | DigestMismatch
  | SignatureVerificationFailed
  | IssuerNotTrusted string string
  | NotYetValid
  | Expired
  | AudienceMismatch
  | SubjectMismatch
  | AgentMismatch
  | SessionMismatch
  | ParentMismatch
  | OperationMismatch
  | ArgumentsNotCanonical
  | ArgumentMismatch
  | CapabilityMismatch
  | OutsideScope
  | PolicyIDChanged
  | PolicyDigestChanged
  | DecisionInvalidated string
  | SubjectRevoked string
  | EvidenceRevoked string
  | AssuranceInvalid string
  | NoFileBinding
  | FileBindingMismatch
  | FileChanged toctou_error
  | NoMCPBinding
  | MCPMismatch
  | MCPToolMismatch
  | SchemaNotCanonical
  | NoNegotiatedSchema
  | SchemaDrift
  | NonceRefused nonce_error

text \<open>\<open>NewExecutionGateway\<close> replaces a missing ledger by a process-local one.\<close>

definition new_execution_gateway :: "gateway \<Rightarrow> gateway" where
  "new_execution_gateway cfg =
     cfg\<lparr>nonces := (case nonces cfg of None \<Rightarrow> Some new_nonce_ledger | Some l \<Rightarrow> Some l)\<rparr>"

definition revoke_decision :: "string \<Rightarrow> string \<Rightarrow> gateway \<Rightarrow> gateway" where
  "revoke_decision decision reason g = g\<lparr>revoked_decisions := (revoked_decisions g)(decision \<mapsto> reason)\<rparr>"

definition revoke_digest :: "string \<Rightarrow> string \<Rightarrow> gateway \<Rightarrow> gateway" where
  "revoke_digest digest reason g = g\<lparr>revoked_digests := (revoked_digests g)(digest \<mapsto> reason)\<rparr>"

section \<open>Scope\<close>

definition normalize_digest_prefix :: "string \<Rightarrow> string" where
  "normalize_digest_prefix d0 =
     (let d = trim_space d0 in
      if d = [] then [] else if \<not> has_prefix d ''sha256:'' then ''sha256:'' @ d else d)"

definition target_permitted :: "string list \<Rightarrow> string \<Rightarrow> bool" where
  "target_permitted targets target \<longleftrightarrow>
     targets = [] \<or> target = [] \<or> list_ex (\<lambda>t. t = target \<or> t = ''*'') targets"

definition grants_permit :: "string list \<Rightarrow> protected_operation_request \<Rightarrow> bool" where
  "grants_permit scopes req =
     (case parse_grants (join scopes '' '') of
        Inl e \<Rightarrow> False
      | Inr gs \<Rightarrow>
          let arg = (if req_command_text req = [] then req_target req else req_command_text req) in
          list_ex (\<lambda>g. grant_allows g (req_capability req) arg \<or> grant_allows g (req_tool_or_server_id req) arg) gs)"

definition scope_permits_operation :: "string list \<Rightarrow> string list \<Rightarrow> protected_operation_request \<Rightarrow> bool" where
  "scope_permits_operation scopes targets req =
     (if \<not> target_permitted targets (req_target req) then False
      else if grants_permit scopes req then True
      else list_ex (\<lambda>s. s = req_capability req \<or> s = req_capability req @ '':'' @ req_target req) scopes)"

section \<open>The checks\<close>

text \<open>Step 1: structure, digest, signature.\<close>

definition verified_key :: "crypto \<Rightarrow> gateway \<Rightarrow> execution_authorization \<Rightarrow> string" where
  "verified_key cr g auth =
     (case compute_auth_digest cr auth of
        None \<Rightarrow> []
      | Some d \<Rightarrow> verified_key_id cr (trusted_public_keys g) (dsse_pae PayloadTypeAuthorizationV1 d) (auth_signatures auth))"

definition check_authenticity :: "crypto \<Rightarrow> gateway \<Rightarrow> execution_authorization \<Rightarrow> gate_error option" where
  "check_authenticity cr g auth = first_some
     [map_option InvalidStructure (validate_structure auth),
      check (auth_signatures auth = []) Unsigned,
      check (compute_auth_digest cr auth \<noteq> Some (authorization_digest auth)) DigestMismatch,
      check (verified_key cr g auth = []) SignatureVerificationFailed]"

text \<open>Step 2: the issuer may use the verified key.\<close>

definition check_issuer :: "crypto \<Rightarrow> gateway \<Rightarrow> execution_authorization \<Rightarrow> gate_error option" where
  "check_issuer cr g auth =
     (case trusted_issuers g (issuer_id auth) of
        None \<Rightarrow> Some (IssuerNotTrusted (issuer_id auth) (verified_key cr g auth))
      | Some allowed \<Rightarrow>
          check (verified_key cr g auth \<notin> set allowed) (IssuerNotTrusted (issuer_id auth) (verified_key cr g auth)))"

text \<open>Steps 3 to 5: validity window, audience, identity of the caller.\<close>

definition check_identity :: "gateway \<Rightarrow> time \<Rightarrow> execution_authorization \<Rightarrow> protected_operation_request \<Rightarrow> gate_error option" where
  "check_identity g now auth req = first_some
     [check (now < issued_at auth) NotYetValid,
      check (\<not> now < expires_at auth) Expired,
      check (runtime_audience_id g = [] \<or> audience_id auth \<noteq> runtime_audience_id g) AudienceMismatch,
      check (subject_id auth \<noteq> req_subject_id req \<or> subject_digest auth \<noteq> req_subject_digest req) SubjectMismatch,
      check (agent_id auth \<noteq> req_agent_id req) AgentMismatch,
      check (session_id auth \<noteq> req_session_id req) SessionMismatch,
      check (parent_agent_id auth \<noteq> req_parent_agent_id req) ParentMismatch]"

text \<open>Steps 6 and 7: operation, arguments, capability, scope.\<close>

definition check_operation :: "crypto \<Rightarrow> execution_authorization \<Rightarrow> protected_operation_request \<Rightarrow> gate_error option" where
  "check_operation cr auth req = first_some
     [check (operation_id auth \<noteq>
               canonical_operation_id cr (req_capability req) (req_tool_or_server_id req) (req_target req) \<or>
             tool_or_server_id auth \<noteq> req_tool_or_server_id req) OperationMismatch,
      (case canonical_argument_digest cr (req_arguments req) of
         None \<Rightarrow> Some ArgumentsNotCanonical
       | Some d \<Rightarrow> check (argument_digest auth \<noteq> d) ArgumentMismatch),
      check (requested_capability auth \<noteq> req_capability req) CapabilityMismatch,
      check (\<not> scope_permits_operation (effective_scope auth) (allowed_targets auth) req) OutsideScope]"

text \<open>Steps 8 and 9: policy, revocation, live assurance.\<close>

definition check_oracle :: "gateway \<Rightarrow> execution_authorization \<Rightarrow> gate_error option" where
  "check_oracle g auth =
     (case assurance_oracle g of
        None \<Rightarrow> None
      | Some oracle \<Rightarrow>
          (let (valid, reason) = oracle (subject_digest auth) (assurance_evidence_digest auth)
                 (policy_digest auth) (decision_id auth)
           in check (\<not> valid) (AssuranceInvalid reason)))"

definition check_validity :: "gateway \<Rightarrow> execution_authorization \<Rightarrow> protected_operation_request \<Rightarrow> gate_error option" where
  "check_validity g auth req = first_some
     [check (req_active_policy_id req \<noteq> [] \<and> policy_id auth \<noteq> req_active_policy_id req) PolicyIDChanged,
      check (req_active_policy_digest req \<noteq> [] \<and> policy_digest auth \<noteq> req_active_policy_digest req) PolicyDigestChanged,
      map_option DecisionInvalidated (revoked_decisions g (decision_id auth)),
      map_option SubjectRevoked (revoked_digests g (subject_digest auth)),
      map_option EvidenceRevoked (revoked_digests g (assurance_evidence_digest auth)),
      check_oracle g auth]"

text \<open>Step 10: the state of the file, the schema of the tool.\<close>

definition check_file :: "crypto \<Rightarrow> fs \<Rightarrow> execution_authorization \<Rightarrow> protected_operation_request \<Rightarrow> gate_error option" where
  "check_file cr f auth req =
     (if has_prefix (req_capability req) ''filesystem.'' then
        (case file_binding auth of
           None \<Rightarrow> Some NoFileBinding
         | Some b \<Rightarrow>
             if canonical_rel_path b \<noteq> req_target req then Some FileBindingMismatch
             else map_option FileChanged (verify_file_identity cr f b))
      else None)"

definition actual_schema_digest :: "crypto \<Rightarrow> protected_operation_request \<Rightarrow> gate_error + string" where
  "actual_schema_digest cr req =
     (case req_negotiated_tool_schema req of
        Some s \<Rightarrow>
          (case canonical_schema_digest cr (Some s) of None \<Rightarrow> Inl SchemaNotCanonical | Some d \<Rightarrow> Inr d)
      | None \<Rightarrow>
          if trim_space (req_negotiated_schema_digest req) \<noteq> []
          then Inr (normalize_digest_prefix (req_negotiated_schema_digest req))
          else Inl NoNegotiatedSchema)"

definition check_mcp :: "crypto \<Rightarrow> execution_authorization \<Rightarrow> protected_operation_request \<Rightarrow> gate_error option" where
  "check_mcp cr auth req =
     (if has_prefix (req_capability req) ''mcp.'' then
        (case mcp_binding auth of
           None \<Rightarrow> Some NoMCPBinding
         | Some b \<Rightarrow>
             if mb_server_id b \<noteq> req_tool_or_server_id req \<or>
                canonical_argument_digest cr (req_arguments req) \<noteq> Some (mb_argument_digest b)
             then Some MCPMismatch
             else if mb_tool_name b \<noteq> [] \<and> req_target req \<noteq> [] \<and> mb_tool_name b \<noteq> req_target req
             then Some MCPToolMismatch
             else case actual_schema_digest cr req of
               Inl e \<Rightarrow> Some e
             | Inr d \<Rightarrow> check (d \<noteq> normalize_digest_prefix (mb_schema_digest b)) SchemaDrift)
      else None)"

definition gate_checks ::
  "crypto \<Rightarrow> fs \<Rightarrow> time \<Rightarrow> gateway \<Rightarrow> execution_authorization \<Rightarrow> protected_operation_request \<Rightarrow> gate_error option" where
  "gate_checks cr f now g auth req = first_some
     [check_authenticity cr g auth, check_issuer cr g auth, check_identity g now auth req,
      check_operation cr auth req, check_validity g auth req, check_file cr f auth req,
      check_mcp cr auth req]"

text \<open>Step 11: the nonce is consumed when everything else holds.\<close>

definition validate_authorization ::
  "crypto \<Rightarrow> fs \<Rightarrow> lock_io \<Rightarrow> time \<Rightarrow> gateway \<Rightarrow> disk \<Rightarrow> execution_authorization \<Rightarrow>
   protected_operation_request \<Rightarrow> gate_error option \<times> gateway \<times> disk" where
  "validate_authorization cr f io now g d auth req =
     (case gate_checks cr f now g auth req of
        Some e \<Rightarrow> (Some e, g, d)
      | None \<Rightarrow>
          if single_use auth then
            (let (e, l, d') = consume_nonce cr io (nonces g) d (authorization_id auth) (nonce auth) now
             in (map_option NonceRefused e, g\<lparr>nonces := l\<rparr>, d'))
          else (None, g, d))"

section \<open>What passing the checks means\<close>

lemma first_some_Cons_None: "first_some (x # xs) = None \<longleftrightarrow> x = None \<and> first_some xs = None"
  by (simp add: first_some_None)

lemma gate_checks_None:
  "gate_checks cr f now g auth req = None \<longleftrightarrow>
     check_authenticity cr g auth = None \<and> check_issuer cr g auth = None \<and>
     check_identity g now auth req = None \<and> check_operation cr auth req = None \<and>
     check_validity g auth req = None \<and> check_file cr f auth req = None \<and> check_mcp cr auth req = None"
  by (simp add: gate_checks_def first_some_Cons_None)

lemma check_authenticity_None:
  "check_authenticity cr g auth = None \<longleftrightarrow>
     validate_structure auth = None \<and> auth_signatures auth \<noteq> [] \<and>
     compute_auth_digest cr auth = Some (authorization_digest auth) \<and> verified_key cr g auth \<noteq> []"
  by (simp add: check_authenticity_def first_some_Cons_None)

lemma check_issuer_None:
  "check_issuer cr g auth = None \<longleftrightarrow>
     (\<exists>ks. trusted_issuers g (issuer_id auth) = Some ks \<and> verified_key cr g auth \<in> set ks)"
  by (auto simp: check_issuer_def split: option.splits)

lemma check_identity_None:
  "check_identity g now auth req = None \<longleftrightarrow>
     issued_at auth \<le> now \<and> now < expires_at auth \<and>
     runtime_audience_id g \<noteq> [] \<and> audience_id auth = runtime_audience_id g \<and>
     subject_id auth = req_subject_id req \<and> subject_digest auth = req_subject_digest req \<and>
     agent_id auth = req_agent_id req \<and> session_id auth = req_session_id req \<and>
     parent_agent_id auth = req_parent_agent_id req"
  by (auto simp: check_identity_def first_some_Cons_None)

lemma check_operation_None:
  "check_operation cr auth req = None \<longleftrightarrow>
     operation_id auth = canonical_operation_id cr (req_capability req) (req_tool_or_server_id req) (req_target req) \<and>
     tool_or_server_id auth = req_tool_or_server_id req \<and>
     canonical_argument_digest cr (req_arguments req) = Some (argument_digest auth) \<and>
     requested_capability auth = req_capability req \<and>
     scope_permits_operation (effective_scope auth) (allowed_targets auth) req"
  by (auto simp: check_operation_def first_some_Cons_None split: option.splits)

lemma check_validity_None:
  "check_validity g auth req = None \<longleftrightarrow>
     (req_active_policy_id req = [] \<or> policy_id auth = req_active_policy_id req) \<and>
     (req_active_policy_digest req = [] \<or> policy_digest auth = req_active_policy_digest req) \<and>
     revoked_decisions g (decision_id auth) = None \<and> revoked_digests g (subject_digest auth) = None \<and>
     revoked_digests g (assurance_evidence_digest auth) = None \<and>
     (\<forall>oracle. assurance_oracle g = Some oracle \<longrightarrow>
        fst (oracle (subject_digest auth) (assurance_evidence_digest auth) (policy_digest auth) (decision_id auth)))"
  by (auto simp: check_validity_def check_oracle_def first_some_Cons_None split: option.splits prod.splits)

lemma check_file_None:
  "check_file cr f auth req = None \<longleftrightarrow>
     (has_prefix (req_capability req) ''filesystem.'' \<longrightarrow>
        (\<exists>b. file_binding auth = Some b \<and> canonical_rel_path b = req_target req \<and>
             verify_file_identity cr f b = None))"
  by (auto simp: check_file_def split: option.splits)

lemma check_mcp_None:
  "check_mcp cr auth req = None \<longleftrightarrow>
     (has_prefix (req_capability req) ''mcp.'' \<longrightarrow>
        (\<exists>b. mcp_binding auth = Some b \<and> mb_server_id b = req_tool_or_server_id req \<and>
             canonical_argument_digest cr (req_arguments req) = Some (mb_argument_digest b) \<and>
             (mb_tool_name b = [] \<or> req_target req = [] \<or> mb_tool_name b = req_target req) \<and>
             actual_schema_digest cr req = Inr (normalize_digest_prefix (mb_schema_digest b))))"
  by (auto simp: check_mcp_def split: option.splits sum.splits)

lemma verified_key_sound:
  assumes "check_authenticity cr g auth = None"
  shows "\<exists>s \<in> set (auth_signatures auth). sig_keyid s = verified_key cr g auth \<and>
    sig_ok cr (trusted_public_keys g)
      (dsse_pae PayloadTypeAuthorizationV1 (authorization_digest auth)) s"
  using assms verified_key_id_sound
  by (auto simp: check_authenticity_None verified_key_def)

lemma validate_accepts:
  assumes "validate_authorization cr f io now g d auth req = (None, g', d')"
  shows "gate_checks cr f now g auth req = None" and "revoked_decisions g' = revoked_decisions g"
    and "revoked_digests g' = revoked_digests g"
    and "if single_use auth
         then \<exists>l l'. nonces g = Some l \<and> nonces g' = Some l' \<and>
                consume cr io l d (authorization_id auth) (nonce auth) now = (None, l', d')
         else g' = g \<and> d' = d"
proof -
  show "gate_checks cr f now g auth req = None"
    using assms by (auto simp: validate_authorization_def split: option.splits)
  then show "revoked_decisions g' = revoked_decisions g" and "revoked_digests g' = revoked_digests g"
    and "if single_use auth
         then \<exists>l l'. nonces g = Some l \<and> nonces g' = Some l' \<and>
                consume cr io l d (authorization_id auth) (nonce auth) now = (None, l', d')
         else g' = g \<and> d' = d"
    using assms
    by (auto simp: validate_authorization_def consume_nonce_def split: option.splits prod.splits if_splits)
qed

lemma validate_frame:
  assumes "validate_authorization cr f io now g d auth req = (e, g', d')"
  shows "revoked_decisions g' = revoked_decisions g \<and> revoked_digests g' = revoked_digests g \<and>
    (\<forall>l k. nonces g = Some l \<longrightarrow> seen l k \<noteq> None \<longrightarrow> (\<exists>l'. nonces g' = Some l' \<and> seen l' k \<noteq> None))"
proof (cases "gate_checks cr f now g auth req = None \<and> single_use auth")
  case False
  with assms show ?thesis by (auto simp: validate_authorization_def split: option.splits)
next
  case True
  show ?thesis
  proof (cases "nonces g")
    case None
    with True assms show ?thesis by (auto simp: validate_authorization_def consume_nonce_def)
  next
    case (Some l)
    obtain e' l' d'' where r: "consume cr io l d (authorization_id auth) (nonce auth) now = (e', l', d'')"
      by (cases "consume cr io l d (authorization_id auth) (nonce auth) now")
    then have "g' = g\<lparr>nonces := Some l'\<rparr>"
      using True Some assms by (auto simp: validate_authorization_def consume_nonce_def)
    then show ?thesis using Some consume_seen_kept [OF r] by simp
  qed
qed

section \<open>Histories of a gateway\<close>

datatype gate_event =
    Attempt fs lock_io time execution_authorization protected_operation_request
  | RevokeDecision string string
  | RevokeDigest string string

text \<open>The result tells whether an attempt to use a single-use authorization was accepted.\<close>

definition gateway_step :: "crypto \<Rightarrow> gate_event \<Rightarrow> gateway \<times> disk \<Rightarrow> bool \<times> gateway \<times> disk" where
  "gateway_step cr ev s =
     (case ev of
        Attempt f io now auth req \<Rightarrow>
          (let (e, g, d) = validate_authorization cr f io now (fst s) (snd s) auth req
           in (e = None \<and> single_use auth, g, d))
      | RevokeDecision i r \<Rightarrow> (False, revoke_decision i r (fst s), snd s)
      | RevokeDigest i r \<Rightarrow> (False, revoke_digest i r (fst s), snd s))"

definition event_nonce :: "gate_event \<Rightarrow> string option" where
  "event_nonce ev =
     (case ev of
        Attempt f io now auth req \<Rightarrow> Some (nonce_key (authorization_id auth) (nonce auth))
      | _ \<Rightarrow> None)"

definition nonce_used :: "gateway \<times> disk \<Rightarrow> string option \<Rightarrow> bool" where
  "nonce_used s k =
     (case k of
        None \<Rightarrow> False
      | Some n \<Rightarrow> (case nonces (fst s) of None \<Rightarrow> False | Some l \<Rightarrow> seen l n \<noteq> None))"

lemma gateway_step_attempt:
  assumes "validate_authorization cr f io now g d auth req = (e, g', d')"
  shows "gateway_step cr (Attempt f io now auth req) (g, d) = (e = None \<and> single_use auth, g', d')"
  by (simp add: gateway_step_def assms)

interpretation gate: replay_guard "gateway_step cr" event_nonce nonce_used for cr
proof
  fix ev :: gate_event and s :: "gateway \<times> disk" and k
  obtain g d where s: "s = (g, d)" by (cases s)
  have "(fst (gateway_step cr ev s) \<longrightarrow> \<not> nonce_used s (event_nonce ev) \<and>
           nonce_used (snd (gateway_step cr ev s)) (event_nonce ev)) \<and>
        (nonce_used s k \<longrightarrow> nonce_used (snd (gateway_step cr ev s)) k)"
  proof (cases ev)
    case (Attempt f io now auth req)
    obtain e g' d' where r: "validate_authorization cr f io now g d auth req = (e, g', d')"
      by (cases "validate_authorization cr f io now g d auth req")
    note st = gateway_step_attempt [OF r]
    have "\<not> nonce_used s (event_nonce ev) \<and> nonce_used (g', d') (event_nonce ev)"
      if acc: "e = None" "single_use auth"
    proof -
      from validate_accepts(4) [of cr f io now g d auth req g' d'] r acc obtain l l' where
        "nonces g = Some l" "nonces g' = Some l'"
        and "consume cr io l d (authorization_id auth) (nonce auth) now = (None, l', d')" by auto
      then show ?thesis
        using consume_accepted [of cr io l d "authorization_id auth" "nonce auth" now l' d']
        by (simp add: nonce_used_def event_nonce_def Attempt s)
    qed
    moreover have "nonce_used s k \<longrightarrow> nonce_used (g', d') k"
      using validate_frame [OF r] by (auto simp: nonce_used_def s split: option.splits)
    ultimately show ?thesis by (simp add: Attempt s st)
  next
    case (RevokeDecision i r)
    then show ?thesis by (cases k) (simp_all add: gateway_step_def revoke_decision_def nonce_used_def)
  next
    case (RevokeDigest i r)
    then show ?thesis by (cases k) (simp_all add: gateway_step_def revoke_digest_def nonce_used_def)
  qed
  then show "fst (gateway_step cr ev s) \<Longrightarrow> \<not> nonce_used s (event_nonce ev)"
    and "fst (gateway_step cr ev s) \<Longrightarrow> nonce_used (snd (gateway_step cr ev s)) (event_nonce ev)"
    and "nonce_used s k \<Longrightarrow> nonce_used (snd (gateway_step cr ev s)) k" by blast+
qed

text \<open>Revocations are never taken back.\<close>

lemma gateway_step_revoked:
  "(revoked_decisions (fst s) i \<noteq> None \<longrightarrow> revoked_decisions (fst (snd (gateway_step cr ev s))) i \<noteq> None) \<and>
   (revoked_digests (fst s) i \<noteq> None \<longrightarrow> revoked_digests (fst (snd (gateway_step cr ev s))) i \<noteq> None)"
proof (cases ev)
  case (Attempt f io now auth req)
  obtain e g' d' where r: "validate_authorization cr f io now (fst s) (snd s) auth req = (e, g', d')"
    by (cases "validate_authorization cr f io now (fst s) (snd s) auth req")
  with validate_frame [OF r] show ?thesis by (simp add: Attempt gateway_step_def)
qed (simp_all add: gateway_step_def revoke_decision_def revoke_digest_def)

lemma run_gateway_revoked:
  "(revoked_decisions (fst s) i \<noteq> None \<longrightarrow> revoked_decisions (fst (snd (run_steps (gateway_step cr) evs s))) i \<noteq> None) \<and>
   (revoked_digests (fst s) i \<noteq> None \<longrightarrow> revoked_digests (fst (snd (run_steps (gateway_step cr) evs s))) i \<noteq> None)"
proof (induction evs arbitrary: s)
  case Nil
  then show ?case by simp
next
  case (Cons ev evs)
  from Cons.IH [of "snd (gateway_step cr ev s)"] gateway_step_revoked [of s i cr ev] show ?case
    by (simp add: run_steps_Cons)
qed

section \<open>Properties of the gateway\<close>

text \<open>A gateway, a request and the signed sample authorization, for concrete runs.\<close>

definition sample_gateway :: gateway where
  "sample_gateway = new_execution_gateway \<lparr>runtime_audience_id = ''aud'',
     trusted_issuers = [''iss'' \<mapsto> [''kid'']],
     trusted_public_keys = [''kid'' \<mapsto> PublicKeyBase64 toy_crypto ''key''],
     assurance_oracle = None, revoked_digests = Map.empty, revoked_decisions = Map.empty, nonces = None\<rparr>"

definition sample_request :: protected_operation_request where
  "sample_request = \<lparr>req_execution_id = ''x1'', req_subject_id = ''s'', req_subject_digest = ''sd'',
     req_agent_id = ''ag'', req_session_id = ''se'', req_parent_agent_id = [],
     req_tool_or_server_id = ''srv'', req_capability = ''Read'', req_target = ''f'',
     req_command_text = [], req_arguments = [], req_negotiated_tool_schema = None,
     req_negotiated_schema_digest = [], req_active_policy_id = ''p'', req_active_policy_digest = []\<rparr>"

definition signed_sample :: "string \<Rightarrow> execution_authorization" where
  "signed_sample n = the (fst (sign_authorization toy_crypto (Some (sample_auth\<lparr>nonce := n\<rparr>)) (Some ''key'') ''kid''))"

lemma validate_sample_nonce:
  assumes "trim_space n \<noteq> []" and "length n < 14"
  shows "validate_structure (sample_auth\<lparr>nonce := n\<rparr>) = None"
proof -
  have "set (required_fields (sample_auth\<lparr>nonce := n\<rparr>)) \<subseteq> insert (''nonce'', n) (set (required_fields sample_auth))"
    by (auto simp: required_fields_def)
  with assms validate_sample show ?thesis
    unfolding validate_structure_None by (auto simp: short_no_credential)
qed

lemma signed_sample_eq:
  assumes "trim_space n \<noteq> []" and "length n < 14"
  obtains d where "compute_auth_digest toy_crypto (sample_auth\<lparr>nonce := n\<rparr>) = Some d"
    and "sign_authorization toy_crypto (Some (sample_auth\<lparr>nonce := n\<rparr>)) (Some ''key'') ''kid'' = (Some (signed_sample n), None)"
    and "signed_sample n = (normalize_auth (sample_auth\<lparr>nonce := n\<rparr>))\<lparr>authorization_digest := d,
           auth_signatures := [sign_digest toy_crypto ''key'' ''kid'' PayloadTypeAuthorizationV1 d]\<rparr>"
proof -
  have "compute_auth_digest toy_crypto (sample_auth\<lparr>nonce := n\<rparr>) \<noteq> None"
    using sample_times unfolding compute_auth_digest_None by simp
  then obtain d where d: "compute_auth_digest toy_crypto (sample_auth\<lparr>nonce := n\<rparr>) = Some d" by blast
  let ?a = "(normalize_auth (sample_auth\<lparr>nonce := n\<rparr>))\<lparr>authorization_digest := d,
           auth_signatures := [sign_digest toy_crypto ''key'' ''kid'' PayloadTypeAuthorizationV1 d]\<rparr>"
  have s: "sign_authorization toy_crypto (Some (sample_auth\<lparr>nonce := n\<rparr>)) (Some ''key'') ''kid'' = (Some ?a, None)"
    unfolding sign_authorization_ok using validate_sample_nonce [OF assms] d by blast
  then have "signed_sample n = ?a" by (simp add: signed_sample_def)
  with d s that show thesis by simp
qed

lemma sort_strings_single: "sort_strings [x] = [x]"
  by (simp add: sort_strings_def)

lemma normalize_sample:
  "normalize_auth (sample_auth\<lparr>nonce := n\<rparr>) = sample_auth\<lparr>nonce := n, schema_version := AuthorizationSchemaV1\<rparr>"
  by (simp add: normalize_auth_def sample_auth_def sort_strings_single sort_strings_def)

lemma sample_scope: "scope_permits_operation [''Read''] [] sample_request"
  by (simp add: scope_permits_operation_def target_permitted_def sample_request_def)

lemma gate_checks_sample:
  assumes "trim_space n \<noteq> []" and "length n < 14"
  shows "gate_checks toy_crypto f 2000000000 sample_gateway (signed_sample n) sample_request = None"
  unfolding gate_checks_None
proof (intro conjI)
  from signed_sample_eq [OF assms] obtain d where
    s: "sign_authorization toy_crypto (Some (sample_auth\<lparr>nonce := n\<rparr>)) (Some ''key'') ''kid'' = (Some (signed_sample n), None)"
    and e: "signed_sample n = (sample_auth\<lparr>nonce := n, schema_version := AuthorizationSchemaV1\<rparr>)\<lparr>authorization_digest := d,
           auth_signatures := [sign_digest toy_crypto ''key'' ''kid'' PayloadTypeAuthorizationV1 d]\<rparr>"
    unfolding normalize_sample by blast
  have t: "trusted_public_keys sample_gateway = [''kid'' \<mapsto> PublicKeyBase64 toy_crypto ''key'']"
    by (simp add: sample_gateway_def new_execution_gateway_def)
  have c: "validate_structure (signed_sample n) = None \<and>
      compute_auth_digest toy_crypto (signed_sample n) = Some (authorization_digest (signed_sample n)) \<and>
      verified_key_id toy_crypto (trusted_public_keys sample_gateway)
        (dsse_pae PayloadTypeAuthorizationV1 (authorization_digest (signed_sample n)))
        (auth_signatures (signed_sample n)) = ''kid''"
    using signed_authorization_valid [OF _ _ _ s, of "''kid''" "trusted_public_keys sample_gateway"] by (simp add: t)
  then have v: "verified_key toy_crypto sample_gateway (signed_sample n) = ''kid''"
    by (simp add: verified_key_def)
  show "check_authenticity toy_crypto sample_gateway (signed_sample n) = None"
    unfolding check_authenticity_None using c v by (simp add: e)
  show "check_issuer toy_crypto sample_gateway (signed_sample n) = None"
    unfolding check_issuer_None v
    by (simp add: e sample_auth_def sample_gateway_def new_execution_gateway_def)
  show "check_identity sample_gateway 2000000000 (signed_sample n) sample_request = None"
    by (simp add: check_identity_None e sample_auth_def sample_gateway_def new_execution_gateway_def sample_request_def)
  show "check_operation toy_crypto (signed_sample n) sample_request = None"
    unfolding check_operation_None using sample_scope
    by (simp add: e sample_auth_def sample_request_def canonical_argument_digest_def sha_digest_def toy_crypto_def)
  show "check_validity sample_gateway (signed_sample n) sample_request = None"
    by (simp add: check_validity_None e sample_auth_def sample_gateway_def new_execution_gateway_def sample_request_def)
  show "check_file toy_crypto f (signed_sample n) sample_request = None"
    by (simp add: check_file_None sample_request_def has_prefix_def)
  show "check_mcp toy_crypto (signed_sample n) sample_request = None"
    by (simp add: check_mcp_None sample_request_def has_prefix_def)
qed

lemma signed_sample_fields:
  assumes "trim_space n \<noteq> []" and "length n < 14"
  shows "single_use (signed_sample n)" and "authorization_id (signed_sample n) = ''az1''"
    and "nonce (signed_sample n) = n"
proof -
  from signed_sample_eq [OF assms] obtain d where e: "signed_sample n =
      (sample_auth\<lparr>nonce := n, schema_version := AuthorizationSchemaV1\<rparr>)\<lparr>authorization_digest := d,
         auth_signatures := [sign_digest toy_crypto ''key'' ''kid'' PayloadTypeAuthorizationV1 d]\<rparr>"
    unfolding normalize_sample by blast
  show "single_use (signed_sample n)" "authorization_id (signed_sample n) = ''az1''" "nonce (signed_sample n) = n"
    by (simp_all add: e sample_auth_def)
qed

lemma trim_space_n1: "trim_space ''n1'' \<noteq> []"
  by (simp add: plain_edge_def ascii_space_def)

text \<open>
  C1. An accepted authorization is bound to the operation: it is well-formed and carries the signature of a
  trusted key that its issuer may use, over its own digest; it is inside its validity window, for this runtime,
  for exactly this subject, agent, session and parent (a parent's authorization never serves a child), this
  operation and tool, these arguments and this capability within scope; where the request names the active
  policy, it is that policy; nothing it rests on is revoked or, where an oracle is configured, invalidated.  For a
  capability \<open>filesystem.*\<close> it has a binding for the target that holds now, for \<open>mcp.*\<close> one for this server, tool,
  arguments and negotiated schema.  A single-use authorization's nonce was fresh and is now consumed; one that
  is not single-use leaves gateway and disk as they were.
\<close>

theorem gateway_accepts_only_bound_operations:
  assumes "validate_authorization cr f io now g d auth req = (None, g', d')"
  shows "(\<exists>s \<in> set (auth_signatures auth). \<exists>ks.
            sig_ok cr (trusted_public_keys g) (dsse_pae PayloadTypeAuthorizationV1 (authorization_digest auth)) s \<and>
            trusted_issuers g (issuer_id auth) = Some ks \<and> sig_keyid s \<in> set ks) \<and>
         validate_structure auth = None \<and> compute_auth_digest cr auth = Some (authorization_digest auth) \<and>
         issued_at auth \<le> now \<and> now < expires_at auth \<and> audience_id auth = runtime_audience_id g \<and>
         runtime_audience_id g \<noteq> [] \<and>
         subject_id auth = req_subject_id req \<and> subject_digest auth = req_subject_digest req \<and>
         agent_id auth = req_agent_id req \<and> session_id auth = req_session_id req \<and>
         parent_agent_id auth = req_parent_agent_id req \<and>
         operation_id auth = canonical_operation_id cr (req_capability req) (req_tool_or_server_id req) (req_target req) \<and>
         tool_or_server_id auth = req_tool_or_server_id req \<and>
         canonical_argument_digest cr (req_arguments req) = Some (argument_digest auth) \<and>
         requested_capability auth = req_capability req \<and>
         scope_permits_operation (effective_scope auth) (allowed_targets auth) req \<and>
         (req_active_policy_id req \<noteq> [] \<longrightarrow> policy_id auth = req_active_policy_id req) \<and>
         (req_active_policy_digest req \<noteq> [] \<longrightarrow> policy_digest auth = req_active_policy_digest req) \<and>
         revoked_decisions g (decision_id auth) = None \<and> revoked_digests g (subject_digest auth) = None \<and>
         revoked_digests g (assurance_evidence_digest auth) = None \<and>
         (\<forall>oracle. assurance_oracle g = Some oracle \<longrightarrow>
            fst (oracle (subject_digest auth) (assurance_evidence_digest auth) (policy_digest auth) (decision_id auth))) \<and>
         (has_prefix (req_capability req) ''filesystem.'' \<longrightarrow>
            (\<exists>b. file_binding auth = Some b \<and> canonical_rel_path b = req_target req \<and> verify_file_identity cr f b = None)) \<and>
         (has_prefix (req_capability req) ''mcp.'' \<longrightarrow>
            (\<exists>b. mcp_binding auth = Some b \<and> mb_server_id b = req_tool_or_server_id req \<and>
                 mb_argument_digest b = argument_digest auth \<and>
                 (mb_tool_name b = [] \<or> req_target req = [] \<or> mb_tool_name b = req_target req) \<and>
                 actual_schema_digest cr req = Inr (normalize_digest_prefix (mb_schema_digest b)))) \<and>
         (single_use auth \<longrightarrow>
            (\<exists>l l'. nonces g = Some l \<and> nonces g' = Some l' \<and>
               seen l (nonce_key (authorization_id auth) (nonce auth)) = None \<and>
               seen l' (nonce_key (authorization_id auth) (nonce auth)) = Some now)) \<and>
         (\<not> single_use auth \<longrightarrow> g' = g \<and> d' = d)"
proof -
  have c: "gate_checks cr f now g auth req = None" using assms by (rule validate_accepts)
  note c = this [unfolded gate_checks_None]
  have nonce: "\<exists>l l'. nonces g = Some l \<and> nonces g' = Some l' \<and>
      seen l (nonce_key (authorization_id auth) (nonce auth)) = None \<and>
      seen l' (nonce_key (authorization_id auth) (nonce auth)) = Some now" if "single_use auth"
  proof -
    from that validate_accepts(4) [OF assms] obtain l l' where
      "nonces g = Some l" "nonces g' = Some l'"
      and "consume cr io l d (authorization_id auth) (nonce auth) now = (None, l', d')" by auto
    then show ?thesis
      using consume_accepted [of cr io l d "authorization_id auth" "nonce auth" now l' d'] by auto
  qed
  have sig: "\<exists>s \<in> set (auth_signatures auth). \<exists>ks.
      sig_ok cr (trusted_public_keys g) (dsse_pae PayloadTypeAuthorizationV1 (authorization_digest auth)) s \<and>
      trusted_issuers g (issuer_id auth) = Some ks \<and> sig_keyid s \<in> set ks"
    using verified_key_sound [of cr g auth] c check_issuer_None [of cr g auth] by metis
  have mcp: "has_prefix (req_capability req) ''mcp.'' \<longrightarrow>
      (\<exists>b. mcp_binding auth = Some b \<and> mb_server_id b = req_tool_or_server_id req \<and>
           mb_argument_digest b = argument_digest auth \<and>
           (mb_tool_name b = [] \<or> req_target req = [] \<or> mb_tool_name b = req_target req) \<and>
           actual_schema_digest cr req = Inr (normalize_digest_prefix (mb_schema_digest b)))"
    using c unfolding check_operation_None check_mcp_None by auto
  have kept: "\<not> single_use auth \<longrightarrow> g' = g \<and> d' = d" using validate_accepts(4) [OF assms] by auto
  show ?thesis
    using c sig mcp nonce kept
    unfolding check_authenticity_None check_identity_None check_operation_None check_file_None check_validity_None
    by blast
qed

lemma gateway_accepts_only_bound_operations_witness:
  "\<exists>g' d'. validate_authorization toy_crypto (sample_fs [] 0) sample_io 2000000000 sample_gateway Map.empty (signed_sample ''n1'')
      sample_request = (None, g', d') \<and> agent_id (signed_sample ''n1'') = req_agent_id sample_request"
proof -
  have "gate_checks toy_crypto (sample_fs [] 0) 2000000000 sample_gateway (signed_sample ''n1'') sample_request = None"
    by (rule gate_checks_sample [OF trim_space_n1]) simp
  moreover have "trim_space ''az1'' \<noteq> []" by (simp add: plain_edge_def ascii_space_def)
  ultimately have acc: "\<exists>g' d'. validate_authorization toy_crypto (sample_fs [] 0) sample_io 2000000000 sample_gateway Map.empty
      (signed_sample ''n1'') sample_request = (None, g', d')"
    using signed_sample_fields [OF trim_space_n1] trim_space_n1
    by (simp add: validate_authorization_def consume_nonce_def sample_gateway_def new_execution_gateway_def
        consume_def new_nonce_ledger_def Let_def)
  then obtain g' d' where "validate_authorization toy_crypto (sample_fs [] 0) sample_io 2000000000 sample_gateway Map.empty
      (signed_sample ''n1'') sample_request = (None, g', d')" by blast
  from gateway_accepts_only_bound_operations [OF this] this show ?thesis by blast
qed

text \<open>
  C4. Within the life of a gateway a single-use authorization is accepted at most once, whatever
  attempts, with whatever requests, times and file systems, and whatever revocations come in
  between; two authorizations that share identifier and nonce count as the same.
\<close>

theorem single_use_authorization_once:
  assumes "m < n" and "n < length evs" and "event_nonce (evs ! m) = event_nonce (evs ! n)"
    and "fst (run_steps (gateway_step cr) evs (g, d)) ! m"
  shows "\<not> fst (run_steps (gateway_step cr) evs (g, d)) ! n"
  using gate.accepted_once [OF assms] .

text \<open>The single-use sample authorization, presented at second 2.\<close>

definition sample_attempt :: "string \<Rightarrow> gate_event" where
  "sample_attempt n = Attempt (sample_fs [] 0) sample_io 2000000000 (signed_sample n) sample_request"

lemma sample_attempt_accepted:
  assumes n: "trim_space n \<noteq> []" "length n < 14"
    and l: "durable_dir l = []" "seen l (nonce_key ''az1'' n) = None"
  shows "gateway_step toy_crypto (sample_attempt n) (sample_gateway\<lparr>nonces := Some l\<rparr>, d) =
    (True, sample_gateway\<lparr>nonces := Some (l\<lparr>seen := (seen l)(nonce_key ''az1'' n \<mapsto> 2000000000)\<rparr>)\<rparr>, d)"
proof -
  let ?g = "sample_gateway\<lparr>nonces := Some l\<rparr>" and ?f = "sample_fs [] 0"
  have v: "verified_key toy_crypto ?g a = verified_key toy_crypto sample_gateway a" for a
    by (cases "compute_auth_digest toy_crypto a") (simp_all add: verified_key_def)
  have "check_authenticity toy_crypto ?g a = check_authenticity toy_crypto sample_gateway a"
    "check_identity ?g t a r = check_identity sample_gateway t a r"
    "check_validity ?g a r = check_validity sample_gateway a r" for a t r
    by (simp_all add: check_authenticity_def v check_identity_def check_validity_def check_oracle_def)
  moreover have "check_issuer toy_crypto ?g a = check_issuer toy_crypto sample_gateway a" for a
    unfolding check_issuer_def v by simp
  ultimately have c: "gate_checks toy_crypto ?f 2000000000 ?g (signed_sample n) sample_request = None"
    using gate_checks_sample [OF n] unfolding gate_checks_None by simp
  have "trim_space ''az1'' \<noteq> []" by (simp add: plain_edge_def ascii_space_def)
  then have k: "consume toy_crypto sample_io l d ''az1'' n 2000000000 =
      (None, l\<lparr>seen := (seen l)(nonce_key ''az1'' n \<mapsto> 2000000000)\<rparr>, d)"
    using n l by (simp add: consume_def Let_def)
  note s = signed_sample_fields [OF n]
  have v: "validate_authorization toy_crypto ?f sample_io 2000000000 ?g d (signed_sample n) sample_request =
      (None, sample_gateway\<lparr>nonces := Some (l\<lparr>seen := (seen l)(nonce_key ''az1'' n \<mapsto> 2000000000)\<rparr>)\<rparr>, d)"
    unfolding validate_authorization_def c option.case using s by (simp add: consume_nonce_def k)
  show ?thesis unfolding sample_attempt_def gateway_step_attempt [OF v] by (simp add: s)
qed

lemma sample_gateway_nonces: "sample_gateway\<lparr>nonces := Some new_nonce_ledger\<rparr> = sample_gateway"
  by (simp add: sample_gateway_def new_execution_gateway_def)

lemma sample_first_attempt:
  assumes "trim_space n \<noteq> []" and "length n < 14"
  shows "gateway_step toy_crypto (sample_attempt n) (sample_gateway, d) =
     (True, sample_gateway\<lparr>nonces := Some (new_nonce_ledger\<lparr>seen := [nonce_key ''az1'' n \<mapsto> 2000000000]\<rparr>)\<rparr>, d)"
  using sample_attempt_accepted [OF assms, of new_nonce_ledger d] unfolding sample_gateway_nonces
  by (simp add: new_nonce_ledger_def)

lemma single_use_authorization_once_witness:
  "fst (run_steps (gateway_step toy_crypto) [sample_attempt ''n1'', sample_attempt ''n1''] (sample_gateway, Map.empty))
     = [True, False]"
proof -
  let ?e = "[sample_attempt ''n1'', sample_attempt ''n1'']"
  have 0: "fst (run_steps (gateway_step toy_crypto) ?e (sample_gateway, Map.empty)) ! 0"
    by (simp add: run_steps_Cons sample_first_attempt [OF trim_space_n1])
  then have "\<not> fst (run_steps (gateway_step toy_crypto) ?e (sample_gateway, Map.empty)) ! 1"
    using single_use_authorization_once [of 0 1 ?e] by simp
  with 0 show ?thesis by (simp add: run_steps_Cons)
qed

text \<open>
  C21. Revocation is final: once a policy decision, a subject or an assurance evidence digest is
  revoked on a gateway, no authorization resting on it is accepted by any later attempt, whatever
  happens in between.
\<close>

theorem revocation_is_final:
  assumes "ev = RevokeDecision i r \<and> decision_id auth = i \<or>
           ev = RevokeDigest i r \<and> (subject_digest auth = i \<or> assurance_evidence_digest auth = i)"
    and "snd (run_steps (gateway_step cr) (evs0 @ ev # evs1) s0) = (g, d)"
  shows "fst (validate_authorization cr f io now g d auth req) \<noteq> None"
proof -
  have app: "snd (run_steps (gateway_step cr) (xs @ ys) s) =
      snd (run_steps (gateway_step cr) ys (snd (run_steps (gateway_step cr) xs s)))" for xs ys s
    by (induction xs arbitrary: s) (simp_all add: run_steps_Cons)
  define s1 where "s1 = snd (gateway_step cr ev (snd (run_steps (gateway_step cr) evs0 s0)))"
  have "(g, d) = snd (run_steps (gateway_step cr) evs1 s1)"
    using assms(2) unfolding app run_steps_Cons by (simp add: s1_def)
  then have keep: "(revoked_decisions (fst s1) k \<noteq> None \<longrightarrow> revoked_decisions g k \<noteq> None) \<and>
      (revoked_digests (fst s1) k \<noteq> None \<longrightarrow> revoked_digests g k \<noteq> None)" for k
    using run_gateway_revoked [of s1 k cr evs1] by (metis fst_conv)
  have "revoked_decisions g (decision_id auth) \<noteq> None \<or> revoked_digests g (subject_digest auth) \<noteq> None \<or>
      revoked_digests g (assurance_evidence_digest auth) \<noteq> None"
    using assms(1)
  proof (elim disjE conjE)
    assume "ev = RevokeDecision i r" "decision_id auth = i"
    then have "revoked_decisions (fst s1) (decision_id auth) \<noteq> None"
      by (simp add: s1_def gateway_step_def revoke_decision_def)
    then show ?thesis using keep by blast
  next
    assume "ev = RevokeDigest i r" "subject_digest auth = i"
    then have "revoked_digests (fst s1) (subject_digest auth) \<noteq> None"
      by (simp add: s1_def gateway_step_def revoke_digest_def)
    then show ?thesis using keep by blast
  next
    assume "ev = RevokeDigest i r" "assurance_evidence_digest auth = i"
    then have "revoked_digests (fst s1) (assurance_evidence_digest auth) \<noteq> None"
      by (simp add: s1_def gateway_step_def revoke_digest_def)
    then show ?thesis using keep by blast
  qed
  then have "check_validity g auth req \<noteq> None" unfolding check_validity_None by blast
  then have "gate_checks cr f now g auth req \<noteq> None" unfolding gate_checks_None by blast
  then show ?thesis by (auto simp: validate_authorization_def)
qed

lemma revocation_is_final_witness:
  "fst (validate_authorization toy_crypto (sample_fs [] 0) sample_io 5
     (fst (snd (run_steps (gateway_step toy_crypto) [RevokeDecision ''d'' ''policy changed''] (sample_gateway, Map.empty))))
     Map.empty (sample_auth\<lparr>decision_id := ''d''\<rparr>) sample_request) \<noteq> None"
proof -
  obtain g d where "snd (run_steps (gateway_step toy_crypto) ([] @ RevokeDecision ''d'' ''policy changed'' # [])
      (sample_gateway, Map.empty)) = (g, d)" by (cases "snd (run_steps (gateway_step toy_crypto)
      ([] @ RevokeDecision ''d'' ''policy changed'' # []) (sample_gateway, Map.empty))")
  moreover from this have "d = Map.empty" by (simp add: run_steps_Cons gateway_step_def)
  ultimately show ?thesis
    using revocation_is_final [of "RevokeDecision ''d'' ''policy changed''" "''d''" "''policy changed''"
        "sample_auth\<lparr>decision_id := ''d''\<rparr>" toy_crypto "[]" "[]" "(sample_gateway, Map.empty)" g d "sample_fs [] 0" sample_io 5 sample_request]
    by (simp del: run_steps.simps)
qed

lemma space_runes_low:
  "r \<in> set space_runes \<Longrightarrow> r \<noteq> [] \<and> (of_char (hd r) :: nat) < 254 \<and> (of_char (last r) :: nat) < 254"
  by (auto simp: space_runes_def)

lemma trim_high: "254 \<le> (of_char c :: nat) \<Longrightarrow> trim_space [c] = [c]"
proof (rule trim_space_id)
  assume c: "254 \<le> (of_char c :: nat)"
  have "\<not> has_prefix [c] r \<and> \<not> has_suffix [c] r" if "r \<in> set space_runes" for r
  proof -
    have "r \<noteq> [c]" using space_runes_low [OF that] c by auto
    then show ?thesis
      using space_runes_low [OF that] by (auto simp: has_prefix_iff has_suffix_iff Cons_eq_append_conv append_eq_Cons_conv)
  qed
  then have "find (has_prefix [c]) space_runes = None" "find (has_suffix [c]) space_runes = None"
    by (auto simp: find_None_iff)
  then show "space_head [c] = 0" "space_last [c] = 0"
    by (simp_all add: space_head_def space_last_def)
qed

lemma trim_invalid: "trim_space [CHR 0xFF] \<noteq> []" "trim_space [CHR 0xFE] \<noteq> []"
  by (simp_all add: trim_high)

text \<open>
  The nonce check compares bytes while the digest is taken over JSON: one signed single-use
  authorization whose nonce is an invalid UTF-8 byte is accepted a second time when that byte is
  replaced by another one.  Digest and signature are the same in both attempts.
\<close>

theorem invalid_byte_nonce_replays:
  "signed_sample [CHR 0xFE] = (signed_sample [CHR 0xFF])\<lparr>nonce := [CHR 0xFE]\<rparr> \<and>
   fst (run_steps (gateway_step toy_crypto) [sample_attempt [CHR 0xFF], sample_attempt [CHR 0xFE]]
     (sample_gateway, Map.empty)) = [True, True]"
proof
  have j: "json_string [CHR 0xFF] = json_string [CHR 0xFE]"
    by (simp add: json_string_def esc_string.simps [of "[c]" for c] esc_string.simps [of "[]"]
        decode_rune_def byte_val_def)
  have d: "compute_auth_digest toy_crypto (sample_auth\<lparr>nonce := [CHR 0xFF]\<rparr>) =
        compute_auth_digest toy_crypto (sample_auth\<lparr>nonce := [CHR 0xFE]\<rparr>)"
    by (rule compute_auth_digest_nonce [OF j])
  have l: "length [CHR 0xFF] < 14" "length [CHR 0xFE] < 14" by simp_all
  obtain e where c: "compute_auth_digest toy_crypto (sample_auth\<lparr>nonce := [CHR 0xFF]\<rparr>) = Some e"
    and 1: "signed_sample [CHR 0xFF] = (normalize_auth (sample_auth\<lparr>nonce := [CHR 0xFF]\<rparr>))\<lparr>authorization_digest := e,
           auth_signatures := [sign_digest toy_crypto ''key'' ''kid'' PayloadTypeAuthorizationV1 e]\<rparr>"
    by (rule signed_sample_eq [OF trim_invalid(1) l(1)])
  obtain e' where c': "compute_auth_digest toy_crypto (sample_auth\<lparr>nonce := [CHR 0xFE]\<rparr>) = Some e'"
    and 2: "signed_sample [CHR 0xFE] = (normalize_auth (sample_auth\<lparr>nonce := [CHR 0xFE]\<rparr>))\<lparr>authorization_digest := e',
           auth_signatures := [sign_digest toy_crypto ''key'' ''kid'' PayloadTypeAuthorizationV1 e']\<rparr>"
    by (rule signed_sample_eq [OF trim_invalid(2) l(2)])
  have "e' = e" using c c' d by simp
  then show "signed_sample [CHR 0xFE] = (signed_sample [CHR 0xFF])\<lparr>nonce := [CHR 0xFE]\<rparr>"
    unfolding 1 2 normalize_sample by simp
  let ?l = "new_nonce_ledger\<lparr>seen := [nonce_key ''az1'' [CHR 0xFF] \<mapsto> 2000000000]\<rparr>"
  have "durable_dir ?l = []" "seen ?l (nonce_key ''az1'' [CHR 0xFE]) = None"
    by (simp_all add: new_nonce_ledger_def nonce_key_def)
  from sample_attempt_accepted [OF trim_invalid(2) l(2) this] sample_first_attempt [OF trim_invalid(1) l(1)]
  show "fst (run_steps (gateway_step toy_crypto) [sample_attempt [CHR 0xFF], sample_attempt [CHR 0xFE]]
     (sample_gateway, Map.empty)) = [True, True]"
    by (simp add: run_steps_Cons)
qed

end
