(* ===== verification/Op_Receipt.thy ===== *)
theory Op_Receipt
  imports Gateway
begin

text \<open>
  The enforcement receipt of internal/receipt/authorization.go: \<open>AuthorizeAndExecute\<close>, which
  validates an authorization, runs the handler only if that succeeds and signs a receipt of the
  outcome, and \<open>VerifyOperationReceipt\<close>.

  The handler is a function from requests to a result and an optional error; \<open>ctx_expired\<close>
  tells whether the context's deadline has passed when the handler returns; \<open>show_err\<close> and the
  text in an execution error stand for \<open>Error()\<close>, whose strings only end up in the receipt.
\<close>

section \<open>Receipts\<close>

definition OutcomeAuthorized :: string where "OutcomeAuthorized = ''AUTHORIZED''"
definition OutcomeAttempted :: string where "OutcomeAttempted = ''ATTEMPTED''"
definition OutcomeAccepted :: string where "OutcomeAccepted = ''ACCEPTED''"
definition OutcomeExecuted :: string where "OutcomeExecuted = ''EXECUTED''"
definition OutcomeDenied :: string where "OutcomeDenied = ''DENIED''"
definition OutcomeFailed :: string where "OutcomeFailed = ''FAILED''"
definition OutcomeTimedOut :: string where "OutcomeTimedOut = ''TIMED_OUT''"

definition EnforcementVerified :: string where "EnforcementVerified = ''ENFORCED''"
definition EnforcementDenied :: string where "EnforcementDenied = ''DENIED_BY_GATEWAY''"
definition EnforcementFailed :: string where "EnforcementFailed = ''ENFORCEMENT_FAILED''"
definition EnforcementUnknown :: string where "EnforcementUnknown = ''UNKNOWN''"

lemmas outcome_defs = OutcomeAuthorized_def OutcomeAttempted_def OutcomeAccepted_def OutcomeExecuted_def
  OutcomeDenied_def OutcomeFailed_def OutcomeTimedOut_def
  EnforcementVerified_def EnforcementDenied_def EnforcementFailed_def EnforcementUnknown_def

definition OperationReceiptSchemaV1 :: string where
  "OperationReceiptSchemaV1 = ''1.0''"

definition PayloadTypeOpReceiptV1 :: string where
  "PayloadTypeOpReceiptV1 = ''application/vnd.skil.operation-receipt.v1+json''"

record operation_receipt =
  rc_schema_version :: string
  rc_receipt_id :: string
  rc_authorization_id :: string
  rc_authorization_digest :: string
  rc_effective_operation_id :: string
  rc_execution_id :: string
  rc_runtime_identity :: string
  rc_subject_digest :: string
  rc_policy_digest :: string
  rc_observed_capabilities :: "string list"
  rc_started_at :: time
  rc_completed_at :: time
  rc_execution_outcome :: string
  rc_enforcement_outcome :: string
  rc_output_digest :: string
  rc_evidence_id :: string
  rc_deny_reason :: string
  rc_residual_risk :: string
  rc_receipt_digest :: string
  rc_signatures :: "dsse_signature list"

definition receipt_json :: "operation_receipt \<Rightarrow> json" where
  "receipt_json r = JObj
     ([(''schema_version'', JStr (rc_schema_version r)), (''receipt_id'', JStr (rc_receipt_id r)),
       (''authorization_id'', JStr (rc_authorization_id r)),
       (''authorization_digest'', JStr (rc_authorization_digest r)),
       (''effective_operation_id'', JStr (rc_effective_operation_id r)),
       (''execution_id'', JStr (rc_execution_id r)), (''runtime_identity'', JStr (rc_runtime_identity r)),
       (''subject_digest'', JStr (rc_subject_digest r)), (''policy_digest'', JStr (rc_policy_digest r))] @
      omit_strs ''observed_capabilities'' (rc_observed_capabilities r) @
      [(''started_at'', time_json (rc_started_at r)), (''completed_at'', time_json (rc_completed_at r)),
       (''execution_outcome'', JStr (rc_execution_outcome r)),
       (''enforcement_outcome'', JStr (rc_enforcement_outcome r))] @
      omit_str ''output_digest'' (rc_output_digest r) @
      [(''evidence_id'', JStr (rc_evidence_id r))] @
      omit_str ''deny_reason'' (rc_deny_reason r) @
      omit_str ''residual_risk'' (rc_residual_risk r) @
      [(''receipt_digest'', JStr (rc_receipt_digest r))] @
      (if rc_signatures r = [] then [] else [(''signatures'', JArr (map dsse_signature_json (rc_signatures r)))]))"

definition receipt_digest_form :: "operation_receipt \<Rightarrow> operation_receipt" where
  "receipt_digest_form r = r\<lparr>rc_schema_version := OperationReceiptSchemaV1, rc_receipt_digest := [],
     rc_signatures := [], rc_observed_capabilities := sort_strings (rc_observed_capabilities r)\<rparr>"

definition compute_receipt_digest :: "crypto \<Rightarrow> operation_receipt \<Rightarrow> string option" where
  "compute_receipt_digest cr r =
     map_option (sha_digest cr) (canonical_json (receipt_json (receipt_digest_form r)))"

datatype receipt_error = NilReceipt | NilReceiptKey | DeniedClaimsEnforced | ReceiptNotMarshallable

text \<open>\<open>Sign\<close>: the receiver afterwards, and the error.\<close>

definition sign_receipt ::
  "crypto \<Rightarrow> operation_receipt option \<Rightarrow> string option \<Rightarrow> string \<Rightarrow>
   operation_receipt option \<times> receipt_error option" where
  "sign_receipt cr receiver priv key_id =
     (case receiver of
        None \<Rightarrow> (None, Some NilReceipt)
      | Some r0 \<Rightarrow>
          (case priv of
             None \<Rightarrow> (Some r0, Some NilReceiptKey)
           | Some key \<Rightarrow>
               let r = r0\<lparr>rc_schema_version :=
                 (if rc_schema_version r0 = [] then OperationReceiptSchemaV1 else rc_schema_version r0)\<rparr> in
               if rc_execution_outcome r = OutcomeDenied \<and> rc_enforcement_outcome r = EnforcementVerified
               then (Some r, Some DeniedClaimsEnforced)
               else case compute_receipt_digest cr r of
                 None \<Rightarrow> (Some r, Some ReceiptNotMarshallable)
               | Some d \<Rightarrow>
                   (Some (r\<lparr>rc_receipt_digest := d,
                       rc_signatures := [sign_digest cr key key_id PayloadTypeOpReceiptV1 d]\<rparr>), None)))"

section \<open>AuthorizeAndExecute\<close>

record execution_result =
  er_accepted :: bool
  er_enforced :: bool
  er_transport_status :: int64
  er_output_bytes :: string
  er_observed_capabilities :: "string list"

record execution_error =
  ee_deadline :: bool
  ee_text :: string

type_synonym handler = "protected_operation_request \<Rightarrow> execution_result \<times> execution_error option"

datatype execute_error = ValidationError gate_error | SignError receipt_error | HandlerError execution_error

text \<open>The clock readings of one call: at the start, during the validation, at the end.\<close>

record clock_readings =
  t_start :: time
  t_check :: time
  t_end :: time

definition initial_receipt ::
  "crypto \<Rightarrow> gateway \<Rightarrow> time \<Rightarrow> execution_authorization \<Rightarrow> protected_operation_request \<Rightarrow> operation_receipt" where
  "initial_receipt cr g started auth req =
     \<lparr>rc_schema_version = OperationReceiptSchemaV1, rc_receipt_id = ''rcpt:'' @ req_execution_id req,
      rc_authorization_id = authorization_id auth, rc_authorization_digest = authorization_digest auth,
      rc_effective_operation_id =
        canonical_operation_id cr (req_capability req) (req_tool_or_server_id req) (req_target req),
      rc_execution_id = req_execution_id req, rc_runtime_identity = runtime_audience_id g,
      rc_subject_digest = req_subject_digest req, rc_policy_digest = policy_digest auth,
      rc_observed_capabilities = [], rc_started_at = started, rc_completed_at = 0,
      rc_execution_outcome = [], rc_enforcement_outcome = [], rc_output_digest = [],
      rc_evidence_id = ''ev:exec:'' @ req_execution_id req, rc_deny_reason = [],
      rc_residual_risk = (case file_binding auth of None \<Rightarrow> [] | Some b \<Rightarrow> residual_risk b),
      rc_receipt_digest = [], rc_signatures = []\<rparr>"

text \<open>Signing whose error is dropped, and whose error is returned.\<close>

definition sign_if_key :: "crypto \<Rightarrow> string option \<Rightarrow> string \<Rightarrow> operation_receipt \<Rightarrow> operation_receipt \<times> receipt_error option" where
  "sign_if_key cr priv key_id r =
     (case priv of
        None \<Rightarrow> (r, None)
      | Some key \<Rightarrow> (let (r', e) = sign_receipt cr (Some r) (Some key) key_id in (the r', e)))"

text \<open>The switch over what the handler returned.\<close>

definition outcome_receipt ::
  "bool \<Rightarrow> execution_result \<Rightarrow> execution_error option \<Rightarrow> operation_receipt \<Rightarrow> operation_receipt" where
  "outcome_receipt ctx_expired res err r =
     (if (case err of None \<Rightarrow> False | Some e \<Rightarrow> ee_deadline e) \<or> ctx_expired
      then r\<lparr>rc_execution_outcome := OutcomeTimedOut, rc_enforcement_outcome := EnforcementFailed,
             rc_deny_reason := ''operation timed out''\<rparr>
      else case err of
        Some e \<Rightarrow> r\<lparr>rc_execution_outcome := OutcomeFailed, rc_enforcement_outcome := EnforcementFailed,
                    rc_deny_reason := ee_text e\<rparr>
      | None \<Rightarrow>
          if \<not> er_accepted res
          then r\<lparr>rc_execution_outcome := OutcomeAttempted, rc_enforcement_outcome := EnforcementUnknown\<rparr>
          else if er_accepted res \<and> \<not> er_enforced res
          then r\<lparr>rc_execution_outcome := OutcomeAccepted, rc_enforcement_outcome := EnforcementUnknown\<rparr>
          else r\<lparr>rc_execution_outcome := OutcomeExecuted, rc_enforcement_outcome := EnforcementVerified\<rparr>)"

definition executed_receipt ::
  "crypto \<Rightarrow> time \<Rightarrow> execution_result \<Rightarrow> operation_receipt \<Rightarrow> operation_receipt" where
  "executed_receipt cr completed res r = r\<lparr>rc_completed_at := completed,
     rc_observed_capabilities := sort_strings (er_observed_capabilities res),
     rc_output_digest := (if er_output_bytes res \<noteq> [] then sha_digest cr (er_output_bytes res)
                          else rc_output_digest r)\<rparr>"

definition authorize_and_execute ::
  "crypto \<Rightarrow> (gate_error \<Rightarrow> string) \<Rightarrow> fs \<Rightarrow> lock_io \<Rightarrow> clock_readings \<Rightarrow> bool \<Rightarrow> gateway \<Rightarrow> disk \<Rightarrow>
   execution_authorization \<Rightarrow> protected_operation_request \<Rightarrow> string option \<Rightarrow> string \<Rightarrow> handler option \<Rightarrow>
   operation_receipt \<times> execute_error option \<times> gateway \<times> disk" where
  "authorize_and_execute cr show_err f io t ctx_expired g d auth req priv key_id fn =
     (let rec0 = initial_receipt cr g (t_start t) auth req;
          (e, g', d') = validate_authorization cr f io (t_check t) g d auth req in
      case e of
        Some err \<Rightarrow>
          (fst (sign_if_key cr priv key_id (rec0\<lparr>rc_completed_at := t_end t, rc_execution_outcome := OutcomeDenied,
             rc_enforcement_outcome := EnforcementDenied, rc_deny_reason := show_err err\<rparr>)),
           Some (ValidationError err), g', d')
      | None \<Rightarrow>
          (case fn of
             None \<Rightarrow>
               (fst (sign_if_key cr priv key_id (rec0\<lparr>rc_completed_at := t_end t,
                  rc_execution_outcome := OutcomeAuthorized, rc_enforcement_outcome := EnforcementUnknown\<rparr>)),
                None, g', d')
           | Some h \<Rightarrow>
               (let (res, err) = h req;
                    (r, se) = sign_if_key cr priv key_id
                      (outcome_receipt ctx_expired res err (executed_receipt cr (t_end t) res rec0))
                in (r, (case se of Some x \<Rightarrow> Some (SignError x) | None \<Rightarrow> map_option HandlerError err), g', d'))))"

section \<open>Verification of a receipt\<close>

datatype op_receipt_error =
    MissingIdentity
  | WrongAuthorization
  | WrongOperation
  | WrongDigests
  | WrongRuntime
  | BadTimestamps
  | DeniedWithOutput
  | ReceiptUnsigned
  | ReceiptDigestMismatch
  | ReceiptSignatureFailed
  | NotExecuted string string

definition verify_operation_receipt ::
  "crypto \<Rightarrow> operation_receipt \<Rightarrow> execution_authorization \<Rightarrow> (string \<rightharpoonup> string) \<Rightarrow> bool \<Rightarrow> op_receipt_error option" where
  "verify_operation_receipt cr r auth keys require = first_some
     [check (rc_receipt_id r = [] \<or> rc_execution_id r = [] \<or> rc_evidence_id r = []) MissingIdentity,
      check (rc_authorization_id r \<noteq> authorization_id auth \<or> rc_authorization_digest r \<noteq> authorization_digest auth)
        WrongAuthorization,
      check (rc_effective_operation_id r \<noteq> operation_id auth) WrongOperation,
      check (rc_subject_digest r \<noteq> subject_digest auth \<or> rc_policy_digest r \<noteq> policy_digest auth) WrongDigests,
      check (rc_runtime_identity r \<noteq> audience_id auth) WrongRuntime,
      check (rc_completed_at r < rc_started_at r) BadTimestamps,
      check (rc_execution_outcome r = OutcomeDenied \<and> rc_output_digest r \<noteq> []) DeniedWithOutput,
      check (rc_signatures r = []) ReceiptUnsigned,
      check (compute_receipt_digest cr r \<noteq> Some (rc_receipt_digest r)) ReceiptDigestMismatch,
      check (\<not> list_ex (sig_ok cr keys (dsse_pae PayloadTypeOpReceiptV1 (rc_receipt_digest r))) (rc_signatures r))
        ReceiptSignatureFailed,
      check (require \<and> (rc_execution_outcome r \<noteq> OutcomeExecuted \<or> rc_enforcement_outcome r \<noteq> EnforcementVerified))
        (NotExecuted (rc_execution_outcome r) (rc_enforcement_outcome r))]"

lemma verify_operation_receipt_None:
  "verify_operation_receipt cr r auth keys require = None \<longleftrightarrow>
     rc_receipt_id r \<noteq> [] \<and> rc_execution_id r \<noteq> [] \<and> rc_evidence_id r \<noteq> [] \<and>
     rc_authorization_id r = authorization_id auth \<and> rc_authorization_digest r = authorization_digest auth \<and>
     rc_effective_operation_id r = operation_id auth \<and> rc_subject_digest r = subject_digest auth \<and>
     rc_policy_digest r = policy_digest auth \<and> rc_runtime_identity r = audience_id auth \<and>
     rc_started_at r \<le> rc_completed_at r \<and>
     (rc_execution_outcome r = OutcomeDenied \<longrightarrow> rc_output_digest r = []) \<and>
     compute_receipt_digest cr r = Some (rc_receipt_digest r) \<and>
     (\<exists>s \<in> set (rc_signatures r). sig_ok cr keys (dsse_pae PayloadTypeOpReceiptV1 (rc_receipt_digest r)) s) \<and>
     (require \<longrightarrow> rc_execution_outcome r = OutcomeExecuted \<and> rc_enforcement_outcome r = EnforcementVerified)"
  unfolding verify_operation_receipt_def first_some_Cons_None
  by (cases "rc_signatures r") (auto simp: list_ex_iff)

section \<open>Lemmas\<close>

lemma compute_receipt_digest_signed [simp]:
  "compute_receipt_digest cr (r\<lparr>rc_receipt_digest := d, rc_signatures := s\<rparr>) = compute_receipt_digest cr r"
  by (simp add: compute_receipt_digest_def receipt_digest_form_def)

lemma receipt_json_None:
  assumes "rc_signatures r = []"
  shows "json_text (receipt_json r) = None \<longleftrightarrow> \<not> time_year_ok (rc_started_at r) \<or> \<not> time_year_ok (rc_completed_at r)"
proof
  assume "json_text (receipt_json r) = None"
  then show "\<not> time_year_ok (rc_started_at r) \<or> \<not> time_year_ok (rc_completed_at r)"
    using assms unfolding receipt_json_def json_text_Obj_None json_text_time [symmetric]
    by (auto dest: json_ok_parts)
next
  assume "\<not> time_year_ok (rc_started_at r) \<or> \<not> time_year_ok (rc_completed_at r)"
  then have "json_text (time_json (rc_started_at r)) = None \<or> json_text (time_json (rc_completed_at r)) = None"
    by (simp only: json_text_time)
  then show "json_text (receipt_json r) = None"
    unfolding receipt_json_def json_text_Obj_None by auto
qed

lemma compute_receipt_digest_None:
  "compute_receipt_digest cr r = None \<longleftrightarrow> \<not> time_year_ok (rc_started_at r) \<or> \<not> time_year_ok (rc_completed_at r)"
  using receipt_json_None [of "receipt_digest_form r"]
  by (simp add: compute_receipt_digest_def canonical_json_def receipt_digest_form_def)

text \<open>Signing adds a digest and a signature and changes nothing else.\<close>

definition unsigned_part :: "operation_receipt \<Rightarrow> operation_receipt" where
  "unsigned_part r = r\<lparr>rc_schema_version := [], rc_receipt_digest := [], rc_signatures := []\<rparr>"

lemma sign_receipt_claims:
  "sign_receipt cr (Some r) (Some key) key_id = (r', e) \<Longrightarrow> \<exists>r1. r' = Some r1 \<and> unsigned_part r1 = unsigned_part r"
  by (auto simp: sign_receipt_def unsigned_part_def Let_def split: option.splits if_splits)

lemma sign_if_key_claims: "unsigned_part (fst (sign_if_key cr priv key_id r)) = unsigned_part r"
proof (cases priv)
  case None
  then show ?thesis by (simp add: sign_if_key_def)
next
  case (Some key)
  obtain r' e where s: "sign_receipt cr (Some r) (Some key) key_id = (r', e)"
    by (cases "sign_receipt cr (Some r) (Some key) key_id")
  with sign_receipt_claims [OF s] Some show ?thesis by (auto simp: sign_if_key_def)
qed

lemma unsigned_part_fields:
  "rc_execution_outcome (unsigned_part r) = rc_execution_outcome r"
  "rc_enforcement_outcome (unsigned_part r) = rc_enforcement_outcome r"
  "rc_output_digest (unsigned_part r) = rc_output_digest r"
  by (simp_all add: unsigned_part_def)

lemma sign_if_key_fields:
  "rc_execution_outcome (fst (sign_if_key cr priv key_id r)) = rc_execution_outcome r"
  "rc_enforcement_outcome (fst (sign_if_key cr priv key_id r)) = rc_enforcement_outcome r"
  "rc_output_digest (fst (sign_if_key cr priv key_id r)) = rc_output_digest r"
  using sign_if_key_claims [of cr priv key_id r] unsigned_part_fields by metis+

text \<open>The receipt of one call.\<close>

definition run_receipt where
  "run_receipt cr show_err f io t ctx_expired g d auth req priv key_id fn =
     fst (authorize_and_execute cr show_err f io t ctx_expired g d auth req priv key_id fn)"

lemma authorize_and_execute_denied:
  assumes "fst (validate_authorization cr f io (t_check t) g d auth req) = Some e"
  shows "authorize_and_execute cr show_err f io t ctx_expired g d auth req priv key_id fn =
    (let (e', g', d') = validate_authorization cr f io (t_check t) g d auth req in
      (fst (sign_if_key cr priv key_id ((initial_receipt cr g (t_start t) auth req)
         \<lparr>rc_completed_at := t_end t, rc_execution_outcome := OutcomeDenied,
          rc_enforcement_outcome := EnforcementDenied, rc_deny_reason := show_err e\<rparr>)),
       Some (ValidationError e), g', d'))"
  using assms
  by (cases "validate_authorization cr f io (t_check t) g d auth req") (simp add: authorize_and_execute_def Let_def)

lemma run_receipt_executed:
  assumes "fst (validate_authorization cr f io (t_check t) g d auth req) = None" and "h req = (res, err)"
  shows "run_receipt cr show_err f io t ctx_expired g d auth req priv key_id (Some h) =
    fst (sign_if_key cr priv key_id (outcome_receipt ctx_expired res err
      (executed_receipt cr (t_end t) res (initial_receipt cr g (t_start t) auth req))))"
  using assms
  by (cases "validate_authorization cr f io (t_check t) g d auth req")
     (simp add: run_receipt_def authorize_and_execute_def Let_def split: prod.splits)

lemma run_receipt_authorized:
  assumes "fst (validate_authorization cr f io (t_check t) g d auth req) = None"
  shows "run_receipt cr show_err f io t ctx_expired g d auth req priv key_id None =
    fst (sign_if_key cr priv key_id ((initial_receipt cr g (t_start t) auth req)\<lparr>rc_completed_at := t_end t,
      rc_execution_outcome := OutcomeAuthorized, rc_enforcement_outcome := EnforcementUnknown\<rparr>))"
  using assms
  by (cases "validate_authorization cr f io (t_check t) g d auth req")
     (simp add: run_receipt_def authorize_and_execute_def Let_def)

lemma outcome_executed_iff:
  "rc_execution_outcome (outcome_receipt c res err r) = OutcomeExecuted \<longleftrightarrow>
     \<not> c \<and> err = None \<and> er_accepted res \<and> er_enforced res"
  by (auto simp: outcome_receipt_def outcome_defs split: option.splits)

lemma outcome_enforced_iff:
  "rc_enforcement_outcome (outcome_receipt c res err r) = EnforcementVerified \<longleftrightarrow>
     \<not> c \<and> err = None \<and> er_accepted res \<and> er_enforced res"
  by (auto simp: outcome_receipt_def outcome_defs split: option.splits)

section \<open>Properties\<close>

text \<open>
  C18. Receipts tell the truth.  A refused authorization gives a DENIED receipt, its handler is
  never run (the whole result is the same for every handler), and no output is claimed; an
  EXECUTED receipt, and an ENFORCED one, is issued exactly when validation succeeded and the
  handler ran to the end without error, within the deadline, and reported both acceptance and
  enforcement.
\<close>

theorem receipts_are_truthful:
  assumes verdict_def: "verdict = fst (validate_authorization cr f io (t_check t) g d auth req)"
    and r_def: "r = run_receipt cr show_err f io t ctx_expired g d auth req priv key_id fn"
  shows "(verdict \<noteq> None \<longrightarrow>
            rc_execution_outcome r = OutcomeDenied \<and> rc_output_digest r = [] \<and>
            (\<forall>fn'. authorize_and_execute cr show_err f io t ctx_expired g d auth req priv key_id fn' =
                   authorize_and_execute cr show_err f io t ctx_expired g d auth req priv key_id fn)) \<and>
         (rc_execution_outcome r = OutcomeExecuted \<longleftrightarrow>
            verdict = None \<and> (\<exists>h res. fn = Some h \<and> h req = (res, None) \<and> \<not> ctx_expired \<and>
              er_accepted res \<and> er_enforced res)) \<and>
         (rc_enforcement_outcome r = EnforcementVerified \<longleftrightarrow> rc_execution_outcome r = OutcomeExecuted)"
proof (cases verdict)
  case (Some e)
  note ae = authorize_and_execute_denied [OF Some [unfolded verdict_def]]
  have "rc_execution_outcome r = OutcomeDenied \<and> rc_enforcement_outcome r = EnforcementDenied \<and> rc_output_digest r = []"
    unfolding r_def run_receipt_def ae
    by (cases "validate_authorization cr f io (t_check t) g d auth req")
       (simp add: sign_if_key_fields initial_receipt_def)
  with Some ae show ?thesis by (simp add: outcome_defs)
next
  case None
  show ?thesis
  proof (cases fn)
    case None': None
    have "rc_execution_outcome r = OutcomeAuthorized \<and> rc_enforcement_outcome r = EnforcementUnknown"
      unfolding r_def None' run_receipt_authorized [OF None [unfolded verdict_def]]
      by (simp add: sign_if_key_fields)
    with None None' show ?thesis by (simp add: outcome_defs)
  next
    case (Some h)
    obtain res err where h: "h req = (res, err)" by (cases "h req")
    note rr = run_receipt_executed [OF None [unfolded verdict_def], of h res err show_err ctx_expired priv key_id, OF h]
    have "(rc_execution_outcome r = OutcomeExecuted \<longleftrightarrow> \<not> ctx_expired \<and> err = None \<and> er_accepted res \<and> er_enforced res) \<and>
       (rc_enforcement_outcome r = EnforcementVerified \<longleftrightarrow> \<not> ctx_expired \<and> err = None \<and> er_accepted res \<and> er_enforced res)"
      unfolding r_def Some rr
      by (simp add: sign_if_key_fields outcome_executed_iff outcome_enforced_iff)
    with None Some h show ?thesis by auto
  qed
qed

lemma receipts_are_truthful_witness:
  "rc_execution_outcome (run_receipt toy_crypto (\<lambda>e. []) (sample_fs [] 0) sample_io \<lparr>t_start = 1, t_check = 2, t_end = 3\<rparr> False
     sample_gateway Map.empty sample_auth sample_request None [] None) = OutcomeDenied"
proof -
  have "check_authenticity toy_crypto sample_gateway sample_auth \<noteq> None"
    unfolding check_authenticity_None by (simp add: sample_auth_def)
  then have "gate_checks toy_crypto (sample_fs [] 0) 2 sample_gateway sample_auth sample_request \<noteq> None"
    unfolding gate_checks_None by blast
  then have "fst (validate_authorization toy_crypto (sample_fs [] 0) sample_io 2 sample_gateway Map.empty sample_auth sample_request) \<noteq> None"
    by (auto simp: validate_authorization_def)
  with receipts_are_truthful [OF refl refl, of toy_crypto "sample_fs [] 0" sample_io "\<lparr>t_start = 1, t_check = 2, t_end = 3\<rparr>"
      sample_gateway Map.empty sample_auth sample_request "\<lambda>e. []" False None "[]" None]
  show ?thesis by simp
qed

text \<open>
  The receipt of a validated call passes \<open>VerifyOperationReceipt\<close> against its authorization
  under the runtime's public key, and passes it with proof of execution required exactly when its
  outcome is EXECUTED; whoever requires proof of execution accepts no receipt with another outcome.
\<close>

theorem receipt_verifies:
  assumes "fst (validate_authorization cr f io (t_check t) g d auth req) = None" and "h req = (res, err)"
    and "r = run_receipt cr show_err f io t ctx_expired g d auth req (Some key) key_id (Some h)"
    and "signing_key cr key" and "kid = (if key_id = [] then KeyID cr (ed_public cr key) else key_id)"
    and "keys kid = Some (PublicKeyBase64 cr key)"
    and "req_execution_id req \<noteq> []" and "t_start t \<le> t_end t"
    and "time_year_ok (t_start t)" and "time_year_ok (t_end t)"
  shows "verify_operation_receipt cr r auth keys False = None \<and>
         (verify_operation_receipt cr r auth keys True = None \<longleftrightarrow> rc_execution_outcome r = OutcomeExecuted) \<and>
         (verify_operation_receipt cr r' auth' keys' True = None \<longrightarrow>
            rc_execution_outcome r' = OutcomeExecuted \<and> rc_enforcement_outcome r' = EnforcementVerified)"
proof -
  define r0 where "r0 = outcome_receipt ctx_expired res err
      (executed_receipt cr (t_end t) res (initial_receipt cr g (t_start t) auth req))"
  have r: "r = fst (sign_if_key cr (Some key) key_id r0)"
    using run_receipt_executed [where h = h, OF assms(1,2)] assms(3) by (simp add: r0_def)
  have base: "rc_receipt_id r0 = ''rcpt:'' @ req_execution_id req" "rc_execution_id r0 = req_execution_id req"
    "rc_evidence_id r0 = ''ev:exec:'' @ req_execution_id req" "rc_schema_version r0 = OperationReceiptSchemaV1"
    "rc_authorization_id r0 = authorization_id auth" "rc_authorization_digest r0 = authorization_digest auth"
    "rc_effective_operation_id r0 = canonical_operation_id cr (req_capability req) (req_tool_or_server_id req) (req_target req)"
    "rc_runtime_identity r0 = runtime_audience_id g" "rc_subject_digest r0 = req_subject_digest req"
    "rc_policy_digest r0 = policy_digest auth" "rc_started_at r0 = t_start t" "rc_completed_at r0 = t_end t"
    by (simp_all add: r0_def outcome_receipt_def executed_receipt_def initial_receipt_def split: option.split)
  have nd: "rc_execution_outcome r0 \<noteq> OutcomeDenied"
    by (auto simp: r0_def outcome_receipt_def outcome_defs split: option.split)
  obtain dg where dg: "compute_receipt_digest cr r0 = Some dg"
    using compute_receipt_digest_None [of cr r0] assms(9,10) base by auto
  have r1: "r = r0\<lparr>rc_receipt_digest := dg, rc_signatures := [sign_digest cr key key_id PayloadTypeOpReceiptV1 dg]\<rparr>"
  proof -
    have e: "r0\<lparr>rc_schema_version := OperationReceiptSchemaV1\<rparr> = r0" using base(4) by simp
    have v: "(if rc_schema_version r0 = [] then OperationReceiptSchemaV1 else rc_schema_version r0) = OperationReceiptSchemaV1"
      using base(4) by simp
    have "sign_receipt cr (Some r0) (Some key) key_id = (Some (r0\<lparr>rc_receipt_digest := dg,
        rc_signatures := [sign_digest cr key key_id PayloadTypeOpReceiptV1 dg]\<rparr>), None)"
      using nd unfolding sign_receipt_def option.case v Let_def e dg by simp
    then show ?thesis by (simp add: r sign_if_key_def)
  qed
  have ok: "sig_ok cr keys (dsse_pae PayloadTypeOpReceiptV1 dg) (sign_digest cr key key_id PayloadTypeOpReceiptV1 dg)"
    using assms(4-6) by (intro sign_digest_ok) (simp_all add: sign_digest_def)
  have "gate_checks cr f (t_check t) g auth req = None"
    using assms(1) by (auto simp: validate_authorization_def split: option.splits)
  then have bound: "operation_id auth = rc_effective_operation_id r0" "subject_digest auth = rc_subject_digest r0"
    "audience_id auth = rc_runtime_identity r0"
    unfolding gate_checks_None check_identity_None check_operation_None by (simp_all add: base)
  have "(rc_enforcement_outcome r0 = EnforcementVerified) = (rc_execution_outcome r0 = OutcomeExecuted)"
    by (simp only: r0_def outcome_executed_iff outcome_enforced_iff)
  then show ?thesis
    unfolding verify_operation_receipt_None r1 using base bound ok dg nd assms(7,8) by simp
qed

lemma receipt_verifies_witness:
  "verify_operation_receipt toy_crypto
     (run_receipt toy_crypto (\<lambda>e. []) (sample_fs [] 0) sample_io
        \<lparr>t_start = 1000000000, t_check = 2000000000, t_end = 9000000000\<rparr> False sample_gateway Map.empty
        (signed_sample ''n1'') sample_request (Some ''rk'') ''rid''
        (Some (\<lambda>q. (\<lparr>er_accepted = True, er_enforced = True, er_transport_status = 200, er_output_bytes = ''ok'',
                     er_observed_capabilities = []\<rparr>, None))))
     (signed_sample ''n1'') [''rid'' \<mapsto> PublicKeyBase64 toy_crypto ''rk''] False = None"
proof -
  have v: "fst (validate_authorization toy_crypto (sample_fs [] 0) sample_io 2000000000 sample_gateway Map.empty
      (signed_sample ''n1'') sample_request) = None"
    using sample_first_attempt [OF trim_space_n1, of Map.empty]
    by (simp add: sample_attempt_def gateway_step_def split: prod.splits)
  have "time_year_ok 1000000000 \<and> time_year_ok 9000000000" by code_simp
  then show ?thesis
    using v by (intro receipt_verifies [where kid = "''rid''" and key = "''rk''", OF _ _ refl, THEN conjunct1])
      (simp_all add: sample_request_def)
qed

end
