(* ===== verification/Redaction.thy ===== *)
theory Redaction
  imports Authorization
begin

text \<open>
  The redaction of the runtime proxy (internal/runtimeproxy/proxy.go): the two patterns of
  \<open>piiRegexes\<close> as matchers that list what can be left after a match, the match a greedy
  leftmost-first expression takes first, and \<open>ReplaceAllString\<close>.

  A text is cut into its runes, each with the bytes it stands for; a byte that starts no valid
  sequence is a rune of its own.
\<close>

section \<open>The patterns\<close>

definition pii_secret :: matcher where
  "pii_secret = m_seq (m_alt [m_lit ''api_key'', m_lit ''secret'', m_lit ''token'', m_lit ''password''])
     (m_seq (m_star perl_space) (m_seq (m_class (\<lambda>r. r = 61)) (m_seq (m_star perl_space)
       (m_seq m_opt_quote (m_seq (m_min 8 token_rune) m_opt_quote)))))"

definition letter_rune :: "nat \<Rightarrow> bool" where
  "letter_rune r \<longleftrightarrow> (65 \<le> r \<and> r \<le> 90) \<or> (97 \<le> r \<and> r \<le> 122)"

definition domain_rune :: "nat \<Rightarrow> bool" where
  "domain_rune r \<longleftrightarrow> letter_rune r \<or> (48 \<le> r \<and> r \<le> 57) \<or> r = 46 \<or> r = 45"

definition local_rune :: "nat \<Rightarrow> bool" where
  "local_rune r \<longleftrightarrow> letter_rune r \<or> (48 \<le> r \<and> r \<le> 57) \<or> r \<in> {46, 95, 37, 43, 45}"

definition pii_email :: matcher where
  "pii_email = m_seq (m_min 1 local_rune) (m_seq (m_class (\<lambda>r. r = 64))
     (m_seq (m_min 1 domain_rune) (m_seq (m_class (\<lambda>r. r = 46)) (m_min 2 letter_rune))))"

definition pii_regexes :: "matcher list" where
  "pii_regexes = [pii_secret, pii_email]"

section \<open>Replacement\<close>

type_synonym chunk = "nat \<times> string"

function rune_chunks :: "string \<Rightarrow> chunk list" where
  "rune_chunks s = (if s = [] then []
     else (fst (decode_rune s), take (snd (decode_rune s)) s) # rune_chunks (drop (snd (decode_rune s)) s))"
  by pat_completeness auto
termination
proof (relation "measure length")
  fix s :: string
  assume "s \<noteq> []"
  with decode_rune_width [OF this]
  show "(drop (snd (decode_rune s)) s, s) \<in> measure length" by simp
qed simp

declare rune_chunks.simps [simp del]

definition redaction_mark :: "chunk list" where
  "redaction_mark = map (\<lambda>c. (of_char c, [c])) ''[REDACTED]''"

text \<open>A match that consumes nothing is not replaced; the two patterns have none.\<close>

function redact_chunks :: "matcher \<Rightarrow> chunk list \<Rightarrow> chunk list" where
  "redact_chunks m [] = []"
| "redact_chunks m (c # cs) =
     (case m (map fst (c # cs)) of
        [] \<Rightarrow> c # redact_chunks m cs
      | r # _ \<Rightarrow>
          if length r \<le> length cs then redaction_mark @ redact_chunks m (drop (length cs - length r) cs)
          else c # redact_chunks m cs)"
  by pat_completeness auto
termination by (relation "measure (\<lambda>(m, cs). length cs)") auto

definition matches_in :: "matcher \<Rightarrow> nat list \<Rightarrow> bool" where
  "matches_in m = some_suffix (\<lambda>t. m t \<noteq> [])"

text \<open>\<open>MatchString\<close> and \<open>ReplaceAllString\<close> for one pattern, with the flag \<open>wasRedacted\<close>.\<close>

definition redact_one :: "matcher \<Rightarrow> string \<times> bool \<Rightarrow> string \<times> bool" where
  "redact_one m = (\<lambda>(s, was).
     if matches_in m (map fst (rune_chunks s))
     then (concat (map snd (redact_chunks m (rune_chunks s))), True) else (s, was))"

definition redact_value :: "string \<Rightarrow> string \<times> bool" where
  "redact_value s = fold redact_one pii_regexes (s, False)"

section \<open>Patterns without a bracket\<close>

text \<open>
  A matcher is \<open>bounded\<close> when it cannot read past a left bracket: what it does before the bracket
  it can do whatever follows.
\<close>

definition bounded :: "matcher \<Rightarrow> bool" where
  "bounded m \<longleftrightarrow> (\<forall>u v r. r \<in> set (m (u @ 91 # v)) \<longrightarrow>
     (\<exists>u'. r = u' @ 91 # v \<and> (\<forall>w. u' @ w \<in> set (m (u @ w)))))"

lemma boundedD:
  "bounded m \<Longrightarrow> r \<in> set (m (u @ 91 # v)) \<Longrightarrow> \<exists>u'. r = u' @ 91 # v \<and> (\<forall>w. u' @ w \<in> set (m (u @ w)))"
  unfolding bounded_def by blast

lemma bounded_class: "\<not> p 91 \<Longrightarrow> bounded (m_class p)"
  unfolding bounded_def m_class_def
proof (intro allI impI)
  fix u v r
  assume p: "\<not> p 91" and r: "r \<in> set (case u @ 91 # v of [] \<Rightarrow> [] | c # cs \<Rightarrow> if p c then [cs] else [])"
  show "\<exists>u'. r = u' @ 91 # v \<and> (\<forall>w. u' @ w \<in> set (case u @ w of [] \<Rightarrow> [] | c # cs \<Rightarrow> if p c then [cs] else []))"
    using p r by (cases u) (auto split: if_splits)
qed

lemma bounded_empty: "bounded m_empty"
  unfolding bounded_def m_empty_def by auto

lemma bounded_seq: "bounded a \<Longrightarrow> bounded b \<Longrightarrow> bounded (m_seq a b)"
  unfolding bounded_def m_seq_def
proof (intro allI impI)
  fix u v r
  assume a: "\<forall>u v r. r \<in> set (a (u @ 91 # v)) \<longrightarrow> (\<exists>u'. r = u' @ 91 # v \<and> (\<forall>w. u' @ w \<in> set (a (u @ w))))"
    and b: "\<forall>u v r. r \<in> set (b (u @ 91 # v)) \<longrightarrow> (\<exists>u'. r = u' @ 91 # v \<and> (\<forall>w. u' @ w \<in> set (b (u @ w))))"
    and "r \<in> set (concat (map b (a (u @ 91 # v))))"
  then obtain q where q: "q \<in> set (a (u @ 91 # v))" "r \<in> set (b q)" by auto
  from a q(1) obtain u1 where u1: "q = u1 @ 91 # v" "\<forall>w. u1 @ w \<in> set (a (u @ w))" by blast
  from b q(2) obtain u2 where "r = u2 @ 91 # v" "\<forall>w. u2 @ w \<in> set (b (u1 @ w))" unfolding u1 by blast
  with u1(2) show "\<exists>u'. r = u' @ 91 # v \<and> (\<forall>w. u' @ w \<in> set (concat (map b (a (u @ w)))))"
    by (intro exI [of _ u2]) auto
qed

lemma bounded_alt: "\<forall>m \<in> set ms. bounded m \<Longrightarrow> bounded (m_alt ms)"
  unfolding bounded_def m_alt_def by (auto, blast)

lemma bounded_star: "\<not> p 91 \<Longrightarrow> bounded (m_star p)"
proof -
  assume p: "\<not> p 91"
  have self: "s \<in> set (m_star p s)" for s by (cases s) auto
  have "r \<in> set (m_star p (u @ 91 # v)) \<Longrightarrow> \<exists>u'. r = u' @ 91 # v \<and> (\<forall>w. u' @ w \<in> set (m_star p (u @ w)))" for u v r
  proof (induction u)
    case Nil
    with p self show ?case by (intro exI [of _ "[]"]) simp
  next
    case (Cons c cs)
    show ?case
    proof (cases "r = (c # cs) @ 91 # v")
      case True
      with self show ?thesis by blast
    next
      case False
      with Cons.prems have "p c" "r \<in> set (m_star p (cs @ 91 # v))" by (auto split: if_splits)
      with Cons.IH obtain u' where "r = u' @ 91 # v" "\<forall>w. u' @ w \<in> set (m_star p (cs @ w))" by blast
      with \<open>p c\<close> show ?thesis by (intro exI [of _ u']) auto
    qed
  qed
  then show ?thesis unfolding bounded_def by blast
qed

lemma bounded_times: "\<not> p 91 \<Longrightarrow> bounded (m_times n p)"
  by (induction n) (auto intro: bounded_empty bounded_seq bounded_class)

lemma bounded_min: "\<not> p 91 \<Longrightarrow> bounded (m_min n p)"
  unfolding m_min_def by (intro bounded_seq bounded_times bounded_star)

lemma bounded_lit: "list_all (\<lambda>c. \<not> fold_char c 91) cs \<Longrightarrow> bounded (m_lit cs)"
  by (induction cs) (auto intro: bounded_empty bounded_seq bounded_class)

lemma bounded_opt_quote: "bounded m_opt_quote"
  unfolding m_opt_quote_def by (intro bounded_alt) (auto intro: bounded_class bounded_empty)

lemma bounded_secret: "bounded pii_secret"
proof -
  have l: "bounded (m_lit ''api_key'')" "bounded (m_lit ''secret'')" "bounded (m_lit ''token'')"
    "bounded (m_lit ''password'')"
    by (rule bounded_lit, simp add: fold_char_def lower_char_def upper_char_def)+
  have "\<not> perl_space 91" "\<not> token_rune 91" by (simp_all add: perl_space_def token_rune_def fold_alnum_def)
  with l show ?thesis
    unfolding pii_secret_def
    by (intro bounded_seq bounded_alt bounded_star bounded_min bounded_class bounded_opt_quote) auto
qed

lemma bounded_email: "bounded pii_email"
  unfolding pii_email_def
  by (intro bounded_seq bounded_min bounded_class)
     (simp_all add: local_rune_def domain_rune_def letter_rune_def)

section \<open>Nothing is left to redact\<close>

lemma some_suffix_iff: "some_suffix P xs \<longleftrightarrow> (\<exists>a b. xs = a @ b \<and> P b)"
proof (induction xs)
  case (Cons x xs)
  have "(\<exists>a b. x # xs = a @ b \<and> P b) \<longleftrightarrow> P (x # xs) \<or> (\<exists>a b. xs = a @ b \<and> P b)"
    by (auto simp: Cons_eq_append_conv)
  with Cons show ?case by simp
qed simp

lemma matches_in_iff: "matches_in m xs \<longleftrightarrow> (\<exists>a b. xs = a @ b \<and> m b \<noteq> [])"
  by (simp add: matches_in_def some_suffix_iff)

lemma matches_in_Nil: "consumes (Suc 0) m \<Longrightarrow> \<not> matches_in m []"
proof -
  assume c: "consumes (Suc 0) m"
  have "r \<notin> set (m [])" for r using c unfolding consumes_def by fastforce
  then have "m [] = []" by (cases "m []") auto
  then show ?thesis by (simp add: matches_in_def)
qed

lemma matches_in_Cons: "matches_in m (x # xs) \<longleftrightarrow> m (x # xs) \<noteq> [] \<or> matches_in m xs"
  by (simp add: matches_in_def)

text \<open>A matcher that finds nothing at or after any place of the mark.\<close>

definition mark_runes :: "nat list" where
  "mark_runes = [91, 82, 69, 68, 65, 67, 84, 69, 68, 93]"

lemma redaction_mark_runes: "map fst redaction_mark = mark_runes"
  by (simp add: redaction_mark_def mark_runes_def)

definition dead_on_mark :: "matcher \<Rightarrow> bool" where
  "dead_on_mark m \<longleftrightarrow> (\<forall>k < 10. \<forall>v. m (drop k mark_runes @ v) = [])"

lemma matches_in_mark: "dead_on_mark m \<Longrightarrow> matches_in m (mark_runes @ v) \<longleftrightarrow> matches_in m v"
proof -
  assume d: "dead_on_mark m"
  have "matches_in m (drop k mark_runes @ v) \<longleftrightarrow> matches_in m v" if "k \<le> 10" for k
    using that
  proof (induction rule: inc_induct)
    case base
    then show ?case by (simp add: mark_runes_def)
  next
    case (step k)
    then have "drop k mark_runes @ v = mark_runes ! k # drop (Suc k) mark_runes @ v"
      by (simp add: Cons_nth_drop_Suc mark_runes_def del: drop_Suc_Cons)
    moreover have "m (drop k mark_runes @ v) = []"
      using d step by (simp add: dead_on_mark_def)
    ultimately show ?case using step.IH by (metis matches_in_Cons)
  qed
  from this [of 0] show ?thesis by simp
qed

text \<open>What is kept before the next mark stands in the original text, too.\<close>

lemma redact_chunks_kept:
  "\<exists>kept more. cs = kept @ more \<and>
     (redact_chunks m cs = kept \<and> more = [] \<or> (\<exists>v. redact_chunks m cs = kept @ redaction_mark @ v))"
proof (induction m cs rule: redact_chunks.induct)
  case (1 m)
  then show ?case by simp
next
  case (2 m c cs)
  show ?case
  proof (cases "\<exists>r rs. m (map fst (c # cs)) = r # rs \<and> length r \<le> length cs")
    case True
    then have "\<exists>v. redact_chunks m (c # cs) = redaction_mark @ v" by auto
    then show ?thesis by (intro exI [of _ "[]"] exI [of _ "c # cs"]) simp
  next
    case False
    then have r: "redact_chunks m (c # cs) = c # redact_chunks m cs"
      by (auto split: list.split)
    obtain kept more where "cs = kept @ more"
      "redact_chunks m cs = kept \<and> more = [] \<or> (\<exists>v. redact_chunks m cs = kept @ redaction_mark @ v)"
      using 2 False by (cases "m (map fst (c # cs))") auto
    then show ?thesis unfolding r by (intro exI [of _ "c # kept"] exI [of _ more]) auto
  qed
qed

text \<open>
  Redacting with one pattern leaves no match of it, and brings no match of a pattern that had none.
\<close>

lemma redact_chunks_no_match:
  assumes "bounded m'" and "dead_on_mark m'" and "consumes (Suc 0) m" and "consumes (Suc 0) m'"
    and "m' = m \<or> \<not> matches_in m' (map fst cs)"
  shows "\<not> matches_in m' (map fst (redact_chunks m cs))"
  using assms(3,5)
proof (induction m cs rule: redact_chunks.induct)
  case (1 m)
  then show ?case by (simp add: matches_in_Nil assms(4))
next
  case (2 m c cs)
  show ?case
  proof (cases "m (map fst (c # cs))")
    case Nil
    obtain kept more where k: "cs = kept @ more"
      "redact_chunks m cs = kept \<and> more = [] \<or> (\<exists>v. redact_chunks m cs = kept @ redaction_mark @ v)"
      using redact_chunks_kept by blast
    have none: "m' (map fst (c # cs)) = []" using "2.prems"(2) Nil by (auto simp: matches_in_Cons)
    have "m' (map fst (c # redact_chunks m cs)) = []"
    proof (cases "redact_chunks m cs = kept \<and> more = []")
      case True
      with none k(1) show ?thesis by simp
    next
      case False
      with k obtain v where v: "redact_chunks m cs = kept @ redaction_mark @ v" by blast
      let ?u = "map fst (c # kept)"
      have e: "map fst (c # redact_chunks m cs) = ?u @ 91 # tl mark_runes @ map fst v"
        by (simp add: v redaction_mark_runes mark_runes_def)
      show ?thesis
      proof (rule ccontr)
        assume "m' (map fst (c # redact_chunks m cs)) \<noteq> []"
        then obtain r where "r \<in> set (m' (?u @ 91 # tl mark_runes @ map fst v))"
          unfolding e by (cases "m' (?u @ 91 # tl mark_runes @ map fst v)") auto
        from boundedD [OF assms(1) this] obtain u' where "u' @ map fst more \<in> set (m' (?u @ map fst more))" by blast
        with none k(1) show False by simp
      qed
    qed
    moreover have "\<not> matches_in m' (map fst (redact_chunks m cs))"
      using "2.IH"(1) [OF Nil "2.prems"(1)] "2.prems"(2) by (auto simp: matches_in_Cons)
    ultimately show ?thesis using Nil by (simp add: matches_in_Cons)
  next
    case (Cons r rs)
    then have "r \<in> set (m (map fst (c # cs)))" by simp
    with "2.prems"(1) have len: "length r \<le> length cs" unfolding consumes_def by fastforce
    let ?d = "drop (length cs - length r) cs"
    have "m' = m \<or> \<not> matches_in m' (map fst ?d)"
    proof (rule disjCI)
      assume "\<not> \<not> matches_in m' (map fst ?d)"
      then obtain a b where "map fst ?d = a @ b" "m' b \<noteq> []" unfolding matches_in_iff by blast
      then have "map fst (c # cs) = (map fst (c # take (length cs - length r) cs) @ a) @ b" "m' b \<noteq> []"
        by (simp_all flip: map_append add: append_assoc [symmetric] del: append_assoc) 
           (metis append_take_drop_id map_append append_assoc)
      then have "matches_in m' (map fst (c # cs))" unfolding matches_in_iff by blast
      with "2.prems"(2) show "m' = m" by blast
    qed
    with "2.IH"(2) [OF Cons len "2.prems"(1)] have "\<not> matches_in m' (map fst (redact_chunks m ?d))" by blast
    with Cons len show ?thesis by (simp add: redaction_mark_runes matches_in_mark [OF assms(2)])
  qed
qed

section \<open>The text after a replacement has the expected runes\<close>

lemma decode_cut:
  assumes "x \<noteq> []" and "snd (decode_rune (x @ y)) \<le> length x"
  shows "decode_rune (x @ CHR ''['' # t) = decode_rune (x @ y)"
proof -
  have b: "\<not> cont_byte (byte_val (CHR ''[''))" by (simp add: cont_byte_def byte_val_def)
  consider a where "x = [a]" | a b where "x = [a, b]" | a b c where "x = [a, b, c]" | a b c d x' where "x = a # b # c # d # x'"
    using assms(1) by (metis list.exhaust)
  then show ?thesis
  proof cases
    case 1
    with assms b show ?thesis
      by (cases y) (auto simp: decode_rune_def Let_def split: if_splits)
  next
    case 2
    with assms b show ?thesis
      by (cases y) (auto simp: decode_rune_def Let_def nth_Cons' split: if_splits)
  next
    case 3
    with assms b show ?thesis
      by (cases y) (auto simp: decode_rune_def Let_def nth_Cons' split: if_splits)
  next
    case 4
    then show ?thesis by (simp add: decode_rune_def)
  qed
qed

lemma decode_rune_le: "snd (decode_rune s) \<le> length s"
proof -
  consider "s = []" | a where "s = [a]" | a b where "s = [a, b]" | a b c where "s = [a, b, c]"
    | a b c d x where "s = a # b # c # d # x" by (metis list.exhaust)
  then show ?thesis by cases (simp_all add: decode_rune_def Let_def)
qed

definition wf_chunks :: "chunk list \<Rightarrow> bool" where
  "wf_chunks cs \<longleftrightarrow> rune_chunks (concat (map snd cs)) = cs"

lemma rune_chunks_Nil [simp]: "rune_chunks [] = []"
  by (simp add: rune_chunks.simps)

lemma concat_rune_chunks [simp]: "concat (map snd (rune_chunks s)) = s"
proof (induction s rule: rune_chunks.induct)
  case (1 s)
  show ?case
  proof (cases "s = []")
    case False
    have "rune_chunks s = (fst (decode_rune s), take (snd (decode_rune s)) s) # rune_chunks (drop (snd (decode_rune s)) s)"
      using False by (subst rune_chunks.simps) simp
    with 1 [OF False] show ?thesis by simp
  qed simp
qed

lemma wf_chunks_ConsD:
  assumes "wf_chunks (c # cs)"
  shows "wf_chunks cs" and "snd c \<noteq> []"
    and "decode_rune (snd c @ concat (map snd cs)) = (fst c, length (snd c))"
proof -
  let ?s = "concat (map snd (c # cs))"
  have s: "?s \<noteq> []"
  proof
    assume "?s = []"
    then have "rune_chunks ?s = []" by (simp only: rune_chunks_Nil)
    with assms show False by (simp add: wf_chunks_def)
  qed
  have "rune_chunks ?s = (fst (decode_rune ?s), take (snd (decode_rune ?s)) ?s) #
      rune_chunks (drop (snd (decode_rune ?s)) ?s)"
    by (subst rune_chunks.simps) (simp only: s if_False)
  moreover have "rune_chunks ?s = c # cs" using assms unfolding wf_chunks_def .
  ultimately have c: "c = (fst (decode_rune ?s), take (snd (decode_rune ?s)) ?s)"
    and cs: "cs = rune_chunks (drop (snd (decode_rune ?s)) ?s)"
    by (simp_all only: list.inject)
  have l: "length (snd c) = snd (decode_rune ?s)"
    by (subst c) (use decode_rune_le [of ?s] in simp)
  then have "drop (snd (decode_rune ?s)) ?s = concat (map snd cs)" by simp
  with cs show "wf_chunks cs" unfolding wf_chunks_def by simp
  show "snd c \<noteq> []" using l decode_rune_width [OF s] by auto
  have "decode_rune ?s = (fst c, length (snd c))"
    using l c by (metis fst_conv prod.collapse)
  then show "decode_rune (snd c @ concat (map snd cs)) = (fst c, length (snd c))" by simp
qed

lemma wf_chunks_ConsI:
  assumes "wf_chunks cs" and "snd c \<noteq> []"
    and "decode_rune (snd c @ concat (map snd cs)) = (fst c, length (snd c))"
  shows "wf_chunks (c # cs)"
  using assms unfolding wf_chunks_def by (subst rune_chunks.simps) simp

lemma wf_chunks_drop: "wf_chunks cs \<Longrightarrow> wf_chunks (drop n cs)"
proof (induction cs arbitrary: n)
  case (Cons c cs)
  then show ?case using wf_chunks_ConsD(1) by (cases n) auto
qed simp

lemma wf_chunks_rune_chunks [simp]: "wf_chunks (rune_chunks s)"
  by (simp add: wf_chunks_def)

lemma wf_chunks_ascii: "wf_chunks cs \<Longrightarrow> (of_char c :: nat) < 128 \<Longrightarrow> wf_chunks ((of_char c, [c]) # cs)"
  by (rule wf_chunks_ConsI) (simp_all add: decode_rune_def byte_val_def Let_def)

lemma wf_chunks_mark: "wf_chunks cs \<Longrightarrow> wf_chunks (redaction_mark @ cs)"
  unfolding redaction_mark_def list.map append.simps by (intro wf_chunks_ascii) simp_all

lemma wf_redact_chunks: "wf_chunks cs \<Longrightarrow> wf_chunks (redact_chunks m cs)"
proof (induction m cs rule: redact_chunks.induct)
  case (1 m)
  then show ?case by simp
next
  case (2 m c cs)
  have keep: "wf_chunks (c # redact_chunks m cs)" if "wf_chunks (redact_chunks m cs)"
  proof (rule wf_chunks_ConsI [OF that])
    note w = wf_chunks_ConsD [OF "2.prems"]
    show "snd c \<noteq> []" by (rule w)
    obtain kept more where k: "cs = kept @ more"
      "redact_chunks m cs = kept \<and> more = [] \<or> (\<exists>v. redact_chunks m cs = kept @ redaction_mark @ v)"
      using redact_chunks_kept by blast
    from k(2) show "decode_rune (snd c @ concat (map snd (redact_chunks m cs))) = (fst c, length (snd c))"
    proof (elim disjE exE conjE)
      assume "redact_chunks m cs = kept" "more = []"
      with w(3) k(1) show ?thesis by simp
    next
      fix v
      assume v: "redact_chunks m cs = kept @ redaction_mark @ v"
      let ?x = "snd c @ concat (map snd kept)"
      have e: "concat (map snd redaction_mark) = ''['' @ ''REDACTED]''" by (simp add: redaction_mark_def)
      have "decode_rune (?x @ CHR ''['' # ''REDACTED]'' @ concat (map snd v)) = decode_rune (?x @ concat (map snd more))"
        by (rule decode_cut) (use w k(1) in auto)
      moreover have "decode_rune (?x @ concat (map snd more)) = (fst c, length (snd c))"
        using w(3) k(1) by simp
      ultimately show ?thesis unfolding v by (simp add: e)
    qed
  qed
  show ?case
  proof (cases "m (map fst (c # cs))")
    case Nil
    with keep "2.IH"(1) [OF Nil] wf_chunks_ConsD(1) [OF "2.prems"] show ?thesis by simp
  next
    case (Cons r rs)
    show ?thesis
    proof (cases "length r \<le> length cs")
      case True
      have "wf_chunks (drop (length cs - length r) cs)"
        by (rule wf_chunks_drop [OF wf_chunks_ConsD(1) [OF "2.prems"]])
      from "2.IH"(2) [OF Cons True this] show ?thesis using Cons True by (simp add: wf_chunks_mark)
    next
      case False
      with keep "2.IH"(3) [OF Cons False] wf_chunks_ConsD(1) [OF "2.prems"] Cons show ?thesis by simp
    qed
  qed
qed

text \<open>One replacement, on texts.\<close>

lemma redact_one_no_match:
  assumes "bounded m'" and "dead_on_mark m'" and "consumes (Suc 0) m" and "consumes (Suc 0) m'"
    and "m' = m \<or> \<not> matches_in m' (map fst (rune_chunks s))"
  shows "\<not> matches_in m' (map fst (rune_chunks (fst (redact_one m (s, was)))))"
proof (cases "matches_in m (map fst (rune_chunks s))")
  case False
  with assms(5) show ?thesis by (auto simp: redact_one_def)
next
  case True
  have "rune_chunks (concat (map snd (redact_chunks m (rune_chunks s)))) = redact_chunks m (rune_chunks s)"
    using wf_redact_chunks [OF wf_chunks_rune_chunks] unfolding wf_chunks_def .
  with True redact_chunks_no_match [OF assms] show ?thesis by (simp add: redact_one_def)
qed

lemma dead_on_markI:
  assumes "\<And>v. list_all (\<lambda>k. m (drop k mark_runes @ v) = []) [0, 1, 2, 3, 4, 5, 6, 7, 8, 9]"
  shows "dead_on_mark m"
  unfolding dead_on_mark_def
proof (intro allI impI)
  fix k :: nat and v
  assume "k < 10"
  then have "k \<in> set [0, 1, 2, 3, 4, 5, 6, 7, 8, 9]" by auto
  with assms [of v] show "m (drop k mark_runes @ v) = []" unfolding list_all_iff by blast
qed

lemma dead_secret: "dead_on_mark pii_secret"
  by (rule dead_on_markI)
     (simp add: mark_runes_def pii_secret_def m_seq_def m_alt_def m_class_def m_empty_def fold_char_def
        lower_char_def upper_char_def)

lemma dead_email: "dead_on_mark pii_email"
  by (rule dead_on_markI)
     (simp add: mark_runes_def pii_email_def m_seq_def m_class_def m_min_def m_empty_def numeral_nat
        local_rune_def letter_rune_def)

lemma consumes_secret: "consumes (Suc 0) pii_secret"
proof -
  have "consumes 5 (m_alt [m_lit ''api_key'', m_lit ''secret'', m_lit ''token'', m_lit ''password''])"
    by (rule consumes_alt) (simp add: consumes_lit' del: m_lit.simps)
  moreover have q: "consumes 0 m_opt_quote"
    unfolding m_opt_quote_def
    by (rule consumes_alt) (simp add: consumes_empty consumes_mono [OF consumes_class])
  ultimately show ?thesis
    unfolding pii_secret_def
    by (rule consumes_seq_le [OF _ consumes_seq [OF consumes_star consumes_seq [OF consumes_class
              consumes_seq [OF consumes_star consumes_seq [OF _ consumes_seq [OF consumes_min q]]]]]]) simp
qed

lemma consumes_email: "consumes (Suc 0) pii_email"
  unfolding pii_email_def
  by (rule consumes_seq_le [OF consumes_min consumes_seq [OF consumes_class
        consumes_seq [OF consumes_min consumes_seq [OF consumes_class consumes_min]]]]) simp

text \<open>
  Redaction is complete for each text it is given: afterwards no secret assignment and no e-mail
  address is left in it, also none that a replacement could have produced; the flag says exactly
  whether there was one; and a text without any comes back unchanged.
\<close>

theorem redaction_complete:
  "\<not> matches_in pii_secret (map fst (rune_chunks (fst (redact_value s)))) \<and>
   \<not> matches_in pii_email (map fst (rune_chunks (fst (redact_value s)))) \<and>
   (if snd (redact_value s)
    then matches_in pii_secret (map fst (rune_chunks s)) \<or>
         matches_in pii_email (map fst (rune_chunks (fst (redact_one pii_secret (s, False)))))
    else fst (redact_value s) = s)"
proof -
  let ?one = "redact_one pii_secret (s, False)"
  have v: "redact_value s = redact_one pii_email (fst ?one, snd ?one)"
    by (simp add: redact_value_def pii_regexes_def)
  note secret = bounded_secret dead_secret and email = bounded_email dead_email
  have "\<not> matches_in pii_secret (map fst (rune_chunks (fst ?one)))"
    by (rule redact_one_no_match [OF secret consumes_secret consumes_secret]) simp
  then have 1: "\<not> matches_in pii_secret (map fst (rune_chunks (fst (redact_value s))))"
    unfolding v by (intro redact_one_no_match [OF secret consumes_email consumes_secret] disjI2)
  have 2: "\<not> matches_in pii_email (map fst (rune_chunks (fst (redact_value s))))"
    unfolding v by (rule redact_one_no_match [OF email consumes_email consumes_email]) simp
  show ?thesis
  proof (intro conjI 1 2)
    show "if snd (redact_value s)
      then matches_in pii_secret (map fst (rune_chunks s)) \<or> matches_in pii_email (map fst (rune_chunks (fst ?one)))
      else fst (redact_value s) = s"
      unfolding v by (auto simp: redact_one_def)
  qed
qed

end
