(* ===== verification/Assurance.thy ===== *)
theory Assurance
  imports Signing
begin

text \<open>
  The assurance vocabulary of pkg/skil: control proofs, outcome proofs, destination bindings,
  coverage, subject ownership and attribution (assurance.go), and severities (severity.go).

  \<open>net/url\<close> is the argument \<open>parse_url\<close>: it gives the parts of an absolute reference the code looks
  at, or \<open>None\<close> for a text it rejects.  Go maps that may be nil are options.
\<close>

section \<open>Severities\<close>

definition SeverityInfo :: string where "SeverityInfo = ''INFO''"
definition SeverityLow :: string where "SeverityLow = ''LOW''"
definition SeverityMedium :: string where "SeverityMedium = ''MEDIUM''"
definition SeverityHigh :: string where "SeverityHigh = ''HIGH''"
definition SeverityCritical :: string where "SeverityCritical = ''CRITICAL''"
definition SeverityUnknown :: string where "SeverityUnknown = ''UNKNOWN''"

lemmas severity_defs = SeverityInfo_def SeverityLow_def SeverityMedium_def SeverityHigh_def
  SeverityCritical_def SeverityUnknown_def

record severity_normalization =
  sn_canonical :: string
  sn_original :: string
  sn_known :: bool

definition known_severity :: "string \<Rightarrow> bool" where
  "known_severity s \<longleftrightarrow>
     s = SeverityCritical \<or> s = SeverityHigh \<or> s = SeverityMedium \<or> s = SeverityLow \<or> s = SeverityInfo"

definition NormalizeSeverity :: "string \<Rightarrow> severity_normalization" where
  "NormalizeSeverity label =
     (let s = to_upper (trim_space label) in
      if known_severity s then \<lparr>sn_canonical = s, sn_original = label, sn_known = True\<rparr>
      else \<lparr>sn_canonical = SeverityUnknown, sn_original = label, sn_known = False\<rparr>)"

definition SeverityRank :: "string \<Rightarrow> int" where
  "SeverityRank s =
     (if s = SeverityCritical then 4 else if s = SeverityHigh then 3 else if s = SeverityMedium then 2
      else if s = SeverityLow then 1 else if s = SeverityInfo \<or> s = [] then 0 else 3)"

section \<open>Control proofs\<close>

record assurance_evidence =
  ae_stage :: string
  ae_evidence_id :: string
  ae_digest :: string
  ae_timestamp :: time
  ae_detail :: string

record control_proof =
  cp_control_id :: string
  cp_analyzer :: string
  cp_subject_digest :: string
  cp_required_stages :: "string list"
  cp_evidence :: "assurance_evidence list"
  cp_required :: bool
  cp_complete :: bool
  cp_limitation :: string

datatype control_error = ControlIdentity | IncompleteEvidence | LacksProof string string

definition incomplete_evidence :: "assurance_evidence \<Rightarrow> bool" where
  "incomplete_evidence e \<longleftrightarrow> ae_stage e = [] \<or> ae_evidence_id e = [] \<or> ae_digest e = []"

text \<open>The last loop ranges over a map; which of several missing stages it names is not fixed.\<close>

definition validate_control :: "control_proof \<Rightarrow> control_error option" where
  "validate_control p =
     (if cp_control_id p = [] \<or> cp_subject_digest p = [] \<or> \<not> cp_required p then Some ControlIdentity
      else if list_ex incomplete_evidence (cp_evidence p) then Some IncompleteEvidence
      else case filter (\<lambda>s. s \<notin> ae_stage ` set (cp_evidence p)) (cp_required_stages p) of
        [] \<Rightarrow> None
      | s # _ \<Rightarrow> Some (LacksProof (cp_control_id p) s))"

section \<open>Outcome proofs\<close>

definition OutcomeComplete :: string where "OutcomeComplete = ''COMPLETE''"
definition OutcomePartial :: string where "OutcomePartial = ''PARTIAL''"
definition OutcomeFailed :: string where "OutcomeFailed = ''FAILED''"
definition OutcomeNotApplicable :: string where "OutcomeNotApplicable = ''NOT_APPLICABLE''"
definition OutcomeExcludedByPolicy :: string where "OutcomeExcludedByPolicy = ''EXCLUDED_BY_POLICY''"

record outcome_proof =
  op_outcome :: string
  op_evidence :: "string list"
  op_policy_id :: string
  op_applicability :: string
  op_unresolved :: "string list"

datatype outcome_error =
    NoOutcome
  | NoEvidence
  | CompleteWithUnresolved
  | PartialWithoutUnresolved
  | NoApplicability
  | NoPolicyIdentity
  | UnknownOutcome string

definition validate_outcome :: "outcome_proof \<Rightarrow> outcome_error option" where
  "validate_outcome p =
     (if op_outcome p = [] then Some NoOutcome
      else if op_evidence p = [] then Some NoEvidence
      else if op_outcome p = OutcomeComplete then check (op_unresolved p \<noteq> []) CompleteWithUnresolved
      else if op_outcome p = OutcomePartial \<or> op_outcome p = OutcomeFailed
        then check (op_unresolved p = []) PartialWithoutUnresolved
      else if op_outcome p = OutcomeNotApplicable then check (op_applicability p = []) NoApplicability
      else if op_outcome p = OutcomeExcludedByPolicy then check (op_policy_id p = []) NoPolicyIdentity
      else Some (UnknownOutcome (op_outcome p)))"

section \<open>Destinations\<close>

record url =
  u_scheme :: string
  u_host :: string
  u_has_user :: bool
  u_fragment :: string
  u_escaped_path :: string
  u_raw_query :: string

type_synonym url_parser = "string \<Rightarrow> url option"

record destination_binding =
  db_authorized_provider :: string
  db_authorized_endpoint :: string
  db_effective_provider :: string
  db_effective_endpoint :: string
  db_credential_scope :: string
  db_model_identity :: string
  db_request_config_digest :: string
  db_evidence_projection_digest :: string
  db_redirected :: bool

datatype destination_error = IncompleteDestination | InvalidEndpoint | NotAuthorized

definition usable_endpoint :: "url_parser \<Rightarrow> string \<Rightarrow> bool" where
  "usable_endpoint parse_url value =
     (case parse_url value of
        None \<Rightarrow> False
      | Some u \<Rightarrow> u_scheme u \<noteq> [] \<and> u_host u \<noteq> [] \<and> \<not> u_has_user u \<and> u_fragment u = [])"

definition same_endpoint :: "url_parser \<Rightarrow> string \<Rightarrow> string \<Rightarrow> bool" where
  "same_endpoint parse_url a b =
     (case (parse_url a, parse_url b) of
        (Some ua, Some ub) \<Rightarrow>
          equal_fold (u_scheme ua) (u_scheme ub) \<and> equal_fold (u_host ua) (u_host ub) \<and>
          u_escaped_path ua = u_escaped_path ub \<and> u_raw_query ua = u_raw_query ub
      | _ \<Rightarrow> False)"

definition validate_destination :: "url_parser \<Rightarrow> destination_binding \<Rightarrow> destination_error option" where
  "validate_destination parse_url b =
     (if db_authorized_provider b = [] \<or> db_effective_provider b = [] \<or> db_credential_scope b = [] \<or>
         db_model_identity b = [] \<or> db_request_config_digest b = [] \<or> db_evidence_projection_digest b = []
      then Some IncompleteDestination
      else if \<not> usable_endpoint parse_url (db_authorized_endpoint b) \<or>
              \<not> usable_endpoint parse_url (db_effective_endpoint b) then Some InvalidEndpoint
      else if db_redirected b \<or>
              \<not> same_endpoint parse_url (db_authorized_endpoint b) (db_effective_endpoint b) \<or>
              db_authorized_provider b \<noteq> db_effective_provider b then Some NotAuthorized
      else None)"

record invocation_evidence =
  ie_invocation_id :: string
  ie_requested :: string
  ie_resolved :: string
  ie_transmitted :: string
  ie_accepted :: string
  ie_response_semantics :: string
  ie_deviations :: "string list"
  ie_destination :: destination_binding

datatype invocation_error =
    IncompleteInvocation
  | BadDestination destination_error
  | Deviation "string list"

definition validate_invocation :: "url_parser \<Rightarrow> invocation_evidence \<Rightarrow> invocation_error option" where
  "validate_invocation parse_url e =
     (if ie_invocation_id e = [] \<or> ie_requested e = [] \<or> ie_resolved e = [] \<or> ie_transmitted e = [] \<or>
         ie_accepted e = [] \<or> ie_response_semantics e = [] then Some IncompleteInvocation
      else case validate_destination parse_url (ie_destination e) of
        Some d \<Rightarrow> Some (BadDestination d)
      | None \<Rightarrow> check (ie_deviations e \<noteq> []) (Deviation (ie_deviations e)))"

section \<open>Coverage and ownership\<close>

definition CoverageDiscovered :: string where "CoverageDiscovered = ''DISCOVERED''"
definition CoverageExcludedByPolicy :: string where "CoverageExcludedByPolicy = ''EXCLUDED_BY_POLICY''"

record coverage_subject =
  cs_id :: string
  cs_physical_digest :: string
  cs_source :: string
  cs_owner :: string
  cs_disposition :: string
  cs_required :: bool
  cs_evidence :: "string list"

definition coverage_complete :: "coverage_subject list \<Rightarrow> bool" where
  "coverage_complete subjects \<longleftrightarrow>
     \<not> list_ex (\<lambda>s. cs_required s \<and> cs_disposition s \<noteq> CoverageDiscovered \<and>
                  cs_disposition s \<noteq> CoverageExcludedByPolicy) subjects \<and> subjects \<noteq> []"

record ownership_graph =
  owners :: "(string \<rightharpoonup> string) option"
  failed_owners :: "(string \<rightharpoonup> bool) option"

text \<open>Reading a nil map gives the zero value; writing to one panics (\<open>None\<close>).\<close>

definition read_owner :: "ownership_graph \<Rightarrow> string \<Rightarrow> string" where
  "read_owner g d = (case owners g of None \<Rightarrow> [] | Some m \<Rightarrow> (case m d of None \<Rightarrow> [] | Some o' \<Rightarrow> o'))"

definition read_failed :: "ownership_graph \<Rightarrow> string \<Rightarrow> bool" where
  "read_failed g o' = (case failed_owners g of None \<Rightarrow> False | Some m \<Rightarrow> m o' = Some True)"

definition claim :: "string \<Rightarrow> string \<Rightarrow> bool \<Rightarrow> ownership_graph \<Rightarrow> (string \<times> ownership_graph) option" where
  "claim digest owner succeeded g0 =
     (let g = g0\<lparr>owners := Some (case owners g0 of None \<Rightarrow> Map.empty | Some m \<Rightarrow> m)\<rparr>;
          current = read_owner g digest in
      if current \<noteq> [] \<and> \<not> read_failed g current then Some (current, g)
      else if succeeded then Some (owner, g\<lparr>owners := Some ((the (owners g))(digest \<mapsto> owner))\<rparr>)
      else case failed_owners g of
        None \<Rightarrow> None
      | Some m \<Rightarrow> Some ([], g\<lparr>failed_owners := Some (m(owner \<mapsto> True))\<rparr>))"

section \<open>Attribution and identities\<close>

record analyzer_attribution =
  at_corpus_digest :: string
  at_sample_id :: string
  at_analyzer_id :: string
  at_analyzer_version :: string
  at_rule_id :: string
  at_finding_id :: string
  at_occurrence_id :: string
  at_expected_label :: string
  at_actual_decision :: string
  at_decision_effect :: string
  at_maturity :: string

text \<open>\<open>True\<close> when \<open>AnalyzerAttribution.Validate\<close> returns no error.\<close>

definition attribution_valid :: "analyzer_attribution \<Rightarrow> bool" where
  "attribution_valid a \<longleftrightarrow>
     \<not> (at_corpus_digest a = [] \<or> at_sample_id a = [] \<or> at_analyzer_id a = [] \<or> at_rule_id a = [] \<or>
        at_occurrence_id a = [] \<or> at_maturity a = [])"

record dimension_result =
  dr_dimension :: string
  dr_state :: string
  dr_evidence :: "string list"
  dr_limitations :: "string list"

definition sort_dimensions :: "dimension_result list \<Rightarrow> dimension_result list" where
  "sort_dimensions = sort_key dr_dimension"

section \<open>Properties\<close>

lemma validate_control_None:
  "validate_control p = None \<longleftrightarrow>
     cp_control_id p \<noteq> [] \<and> cp_subject_digest p \<noteq> [] \<and> cp_required p \<and>
     (\<forall>e \<in> set (cp_evidence p). ae_stage e \<noteq> [] \<and> ae_evidence_id e \<noteq> [] \<and> ae_digest e \<noteq> []) \<and>
     set (cp_required_stages p) \<subseteq> ae_stage ` set (cp_evidence p)"
proof -
  have f: "filter P xs = [] \<longleftrightarrow> (\<forall>x \<in> set xs. \<not> P x)" for P and xs :: "string list"
    by (simp add: filter_empty_conv)
  show ?thesis
    using f [of "\<lambda>s. s \<notin> ae_stage ` set (cp_evidence p)" "cp_required_stages p"]
    by (auto simp: validate_control_def incomplete_evidence_def list_ex_iff split: list.splits)
qed

text \<open>
  A control proof validates exactly when it names its control and subject, is required, every
  piece of its evidence is complete, and every required stage has evidence; more complete evidence
  never invalidates it.
\<close>

theorem control_proof_stages:
  "(validate_control p = None \<longleftrightarrow>
     cp_control_id p \<noteq> [] \<and> cp_subject_digest p \<noteq> [] \<and> cp_required p \<and>
     (\<forall>e \<in> set (cp_evidence p). ae_stage e \<noteq> [] \<and> ae_evidence_id e \<noteq> [] \<and> ae_digest e \<noteq> []) \<and>
     (\<forall>s \<in> set (cp_required_stages p). \<exists>e \<in> set (cp_evidence p). ae_stage e = s)) \<and>
   (validate_control p = None \<and> \<not> incomplete_evidence e \<longrightarrow>
      validate_control (p\<lparr>cp_evidence := cp_evidence p @ [e]\<rparr>) = None)"
  unfolding validate_control_None incomplete_evidence_def by auto

definition sample_control :: control_proof where
  "sample_control = \<lparr>cp_control_id = ''c1'', cp_analyzer = ''a'', cp_subject_digest = ''sd'',
     cp_required_stages = [''EXPECTED''],
     cp_evidence = [\<lparr>ae_stage = ''EXPECTED'', ae_evidence_id = ''e'', ae_digest = ''d'', ae_timestamp = 1, ae_detail = []\<rparr>],
     cp_required = True, cp_complete = True, cp_limitation = []\<rparr>"

lemma control_proof_stages_witness:
  "validate_control (sample_control\<lparr>cp_evidence := cp_evidence sample_control @ cp_evidence sample_control\<rparr>) = None"
  using control_proof_stages [of sample_control "hd (cp_evidence sample_control)"]
  by (simp add: sample_control_def incomplete_evidence_def)

lemma to_upper_known: "known_severity s \<Longrightarrow> to_upper s = s"
  unfolding known_severity_def severity_defs by (elim disjE) (simp_all add: to_upper_def upper_char_def)

lemma trim_known: "known_severity s \<Longrightarrow> trim_space s = s"
  unfolding known_severity_def severity_defs
  by (elim disjE) (simp_all add: plain_edge_def ascii_space_def)

lemma known_not_unknown: "\<not> known_severity SeverityUnknown"
  by (simp add: known_severity_def severity_defs)

lemma rank_unknown: "SeverityRank SeverityUnknown = 3"
  by (simp add: SeverityRank_def severity_defs)

text \<open>
  Severities fail safe: a label that is not one of the five severities, up to case and
  surrounding white space, becomes UNKNOWN and ranks with HIGH, a known one keeps its rank, and
  normalising twice changes nothing.
\<close>

theorem severity_fails_safe:
  "(if known_severity (to_upper (trim_space label))
    then sn_canonical (NormalizeSeverity label) = to_upper (trim_space label) \<and> sn_known (NormalizeSeverity label)
    else SeverityRank (sn_canonical (NormalizeSeverity label)) = SeverityRank SeverityHigh \<and>
         \<not> sn_known (NormalizeSeverity label)) \<and>
   sn_original (NormalizeSeverity label) = label \<and>
   sn_canonical (NormalizeSeverity (sn_canonical (NormalizeSeverity label))) = sn_canonical (NormalizeSeverity label) \<and>
   0 \<le> SeverityRank s \<and> SeverityRank s \<le> SeverityRank SeverityCritical"
proof -
  have r: "SeverityRank SeverityHigh = 3" "SeverityRank SeverityCritical = 4"
    by (simp_all add: SeverityRank_def severity_defs)
  have u: "sn_canonical (NormalizeSeverity SeverityUnknown) = SeverityUnknown"
    by (simp add: NormalizeSeverity_def Let_def severity_defs to_upper_def upper_char_def plain_edge_def ascii_space_def)
  have b: "0 \<le> SeverityRank s \<and> SeverityRank s \<le> 4" by (simp add: SeverityRank_def)
  show ?thesis
  proof (cases "known_severity (to_upper (trim_space label))")
    case True
    then have n: "NormalizeSeverity label = \<lparr>sn_canonical = to_upper (trim_space label), sn_original = label, sn_known = True\<rparr>"
      by (simp add: NormalizeSeverity_def Let_def)
    have "sn_canonical (NormalizeSeverity (to_upper (trim_space label))) = to_upper (trim_space label)"
      unfolding NormalizeSeverity_def trim_known [OF True] to_upper_known [OF True] Let_def
      using True by simp
    with True r b show ?thesis by (simp add: n)
  next
    case False
    then have n: "NormalizeSeverity label = \<lparr>sn_canonical = SeverityUnknown, sn_original = label, sn_known = False\<rparr>"
      by (simp add: NormalizeSeverity_def Let_def)
    with False r b u rank_unknown show ?thesis by simp
  qed
qed

fun run_claims :: "(string \<times> string \<times> bool) list \<Rightarrow> ownership_graph \<Rightarrow> ownership_graph option" where
  "run_claims [] g = Some g"
| "run_claims ((d, o', s) # cs) g =
     (case claim d o' s g of None \<Rightarrow> None | Some (r, g') \<Rightarrow> run_claims cs g')"

definition owned_by :: "ownership_graph \<Rightarrow> string \<Rightarrow> string \<Rightarrow> bool" where
  "owned_by g d o' \<longleftrightarrow> o' \<noteq> [] \<and> read_owner g d = o' \<and> \<not> read_failed g o'"

lemma claim_owned: "owned_by g d o1 \<Longrightarrow> \<exists>g'. claim d o2 s g = Some (o1, g') \<and> owned_by g' d o1"
  by (auto simp: claim_def owned_by_def Let_def read_owner_def read_failed_def split: option.splits if_splits)

lemma claim_keeps_owner:
  assumes "owned_by g d o1" and "claim d' o2 s g = Some (r, g')" and "o2 = o1 \<Longrightarrow> s"
  shows "owned_by g' d o1"
proof (cases "d' = d")
  case True
  with claim_owned [OF assms(1), of o2 s] assms(2) show ?thesis by auto
next
  case False
  with assms show ?thesis
    by (auto simp: claim_def owned_by_def Let_def read_owner_def read_failed_def split: option.splits if_splits)
qed

lemma run_claims_keeps_owner:
  "owned_by g d o1 \<Longrightarrow> \<forall>(d', o2, s) \<in> set cs. o2 = o1 \<longrightarrow> s \<Longrightarrow> run_claims cs g = Some g' \<Longrightarrow> owned_by g' d o1"
proof (induction cs arbitrary: g)
  case Nil
  then show ?case by simp
next
  case (Cons c cs)
  obtain d' o2 s where c: "c = (d', o2, s)" by (cases c)
  with Cons.prems(3) obtain r g1 where r: "claim d' o2 s g = Some (r, g1)" "run_claims cs g1 = Some g'"
    by (auto split: option.splits)
  have "owned_by g1 d o1" using claim_keeps_owner [OF Cons.prems(1) r(1)] Cons.prems(2) c by auto
  from Cons.IH [OF this _ r(2)] Cons.prems(2) show ?case by simp
qed

text \<open>
  A subject has one owner.  Once a digest is owned by an owner that has not failed, every later
  claim of it, by whoever and with whatever outcome, returns that owner, through any sequence of
  claims none of which reports a failure of the owner itself.
\<close>

theorem one_owner_per_subject:
  assumes "owned_by g d o1" and "\<forall>(d', o2, s) \<in> set cs. o2 = o1 \<longrightarrow> s" and "run_claims cs g = Some g'"
  shows "\<exists>g''. claim d o2 s g' = Some (o1, g'') \<and> owned_by g'' d o1"
  using claim_owned [OF run_claims_keeps_owner [OF assms]] .

lemma one_owner_per_subject_witness:
  "\<exists>g' g''. run_claims [(''d'', ''o1'', True), (''d'', ''o2'', True), (''e'', ''o2'', False)]
      \<lparr>owners = None, failed_owners = Some Map.empty\<rparr> = Some g' \<and> claim ''d'' ''o2'' True g' = Some (''o1'', g'')"
proof -
  let ?g = "\<lparr>owners = Some [''d'' \<mapsto> ''o1''], failed_owners = Some Map.empty\<rparr>"
  let ?cs = "[(''d'', ''o2'', True), (''e'', ''o2'', False)]"
  have f: "claim ''d'' ''o1'' True \<lparr>owners = None, failed_owners = Some Map.empty\<rparr> = Some (''o1'', ?g)"
    by (simp add: claim_def read_owner_def Let_def)
  have r: "run_claims ?cs ?g = Some (?g\<lparr>failed_owners := Some [''o2'' \<mapsto> True]\<rparr>)"
    by (simp add: claim_def read_owner_def read_failed_def Let_def)
  have o': "owned_by ?g ''d'' ''o1''" by (simp add: owned_by_def read_owner_def read_failed_def)
  obtain g'' where "claim ''d'' ''o2'' True (?g\<lparr>failed_owners := Some [''o2'' \<mapsto> True]\<rparr>) = Some (''o1'', g'')"
    using one_owner_per_subject [OF o' _ r, of "''o2''" True] by auto
  with f r show ?thesis by simp
qed

text \<open>
  On a graph whose map of failed owners was never allocated (the zero value, and what decoding
  JSON without the field gives), reporting the failure of an owner for a subject that is not owned
  yet panics; every other claim returns.
\<close>

theorem claim_panics:
  "claim d o' s g = None \<longleftrightarrow>
     failed_owners g = None \<and> \<not> s \<and> (read_owner g d = [] \<or> read_failed g (read_owner g d))"
  by (auto simp: claim_def Let_def read_owner_def read_failed_def split: option.splits)

text \<open>
  A validated invocation went where it was authorized to go: provider and endpoint agree (the
  endpoint up to the case of scheme and host), neither endpoint carries user information or a
  fragment, there was no redirect, every digest is present and no deviation is recorded.
\<close>

theorem invocation_destination_authorized:
  assumes "validate_invocation parse_url e = None"
  shows "\<exists>ua ub. parse_url (db_authorized_endpoint (ie_destination e)) = Some ua \<and>
           parse_url (db_effective_endpoint (ie_destination e)) = Some ub \<and>
           u_host ua \<noteq> [] \<and> \<not> u_has_user ua \<and> \<not> u_has_user ub \<and> u_fragment ua = [] \<and> u_fragment ub = [] \<and>
           to_lower (u_scheme ua) = to_lower (u_scheme ub) \<and> to_lower (u_host ua) = to_lower (u_host ub) \<and>
           u_escaped_path ua = u_escaped_path ub \<and> u_raw_query ua = u_raw_query ub \<and>
           db_authorized_provider (ie_destination e) = db_effective_provider (ie_destination e) \<and>
           \<not> db_redirected (ie_destination e) \<and> ie_deviations e = [] \<and> ie_accepted e \<noteq> []"
  using assms
  by (auto simp: validate_invocation_def validate_destination_def usable_endpoint_def same_endpoint_def
      equal_fold_def split: if_splits option.splits)

definition sample_url :: url_parser where
  "sample_url s = (if s = [] then None
     else Some \<lparr>u_scheme = ''https'', u_host = s, u_has_user = False, u_fragment = [],
                u_escaped_path = [], u_raw_query = []\<rparr>)"

definition sample_invocation :: invocation_evidence where
  "sample_invocation = \<lparr>ie_invocation_id = ''i'', ie_requested = ''a'', ie_resolved = ''a'', ie_transmitted = ''a'',
     ie_accepted = ''a'', ie_response_semantics = ''r'', ie_deviations = [],
     ie_destination = \<lparr>db_authorized_provider = ''p'', db_authorized_endpoint = ''h'', db_effective_provider = ''p'',
       db_effective_endpoint = ''h'', db_credential_scope = ''s'', db_model_identity = ''m'',
       db_request_config_digest = ''d'', db_evidence_projection_digest = ''e'', db_redirected = False\<rparr>\<rparr>"

lemma invocation_destination_authorized_witness:
  "db_authorized_provider (ie_destination sample_invocation) = db_effective_provider (ie_destination sample_invocation) \<and>
   \<not> db_redirected (ie_destination sample_invocation)"
proof -
  have "validate_invocation sample_url sample_invocation = None"
    by (simp add: validate_invocation_def validate_destination_def usable_endpoint_def same_endpoint_def
        sample_url_def sample_invocation_def go_defs)
  from invocation_destination_authorized [OF this] show ?thesis by auto
qed

end
