(* ===== verification/Runtime_Proxy.thy ===== *)
theory Runtime_Proxy
  imports Op_Receipt Redaction Assurance
begin

text \<open>
  The runtime proxy of internal/runtimeproxy/proxy.go: the guardrails \<open>EvaluateToolCall\<close> (forbidden
  commands, egress domains, redaction) and \<open>EnforceAndExecute\<close>, which runs them before the execution
  gateway and hands the sanitized arguments to the tool.

  Arguments are maps from names to decoded values, here association lists with distinct names.
  \<open>parse_url\<close> stands for \<open>net/url\<close>; the reauthorizer is a function from what it is given to the
  authorization it issues, \<open>None\<close> for an error or a nil result.
\<close>

section \<open>Policies, requests, responses\<close>

record proxy_policy =
  pp_allowed_domains :: "string list"
  pp_forbidden_commands :: "string list"
  pp_redact_pii :: bool
  pp_strict_type_checking :: bool
  pp_require_authorization :: bool

type_synonym arguments = "(string \<times> json) list"

record tool_call_request =
  tc_tool_name :: string
  tc_arguments :: arguments
  tc_session_id :: string
  tc_subject_id :: string
  tc_subject_digest :: string
  tc_agent_id :: string
  tc_parent_agent_id :: string
  tc_capability :: string
  tc_target :: string
  tc_negotiated_tool_schema :: "json option"
  tc_negotiated_schema_digest :: string
  tc_authorization :: "execution_authorization option"

datatype guardrail_decision = DecisionAllow | DecisionBlock | DecisionRedact

datatype proxy_reason =
    NoReason
  | ForbiddenCommand string
  | EgressDenied string
  | GatewayMissing
  | AuthorizationMissing
  | NoReauthorizer string string
  | ReauthorizationFailed
  | Refused execute_error

record proxy_response =
  px_decision :: guardrail_decision
  px_sanitized :: arguments
  px_reason :: proxy_reason
  px_timestamp :: time
  px_authorized :: bool
  px_mutated :: bool
  px_original_digest :: string
  px_effective_digest :: string
  px_receipt :: "operation_receipt option"

definition default_proxy_policy :: proxy_policy where
  "default_proxy_policy = \<lparr>
     pp_allowed_domains = [''api.github.com'', ''raw.githubusercontent.com'', ''pypi.org''],
     pp_forbidden_commands = [''rm -rf'', ''sudo'', ''curl -s | sh'', ''wget -O- | sh''],
     pp_redact_pii = True, pp_strict_type_checking = True, pp_require_authorization = False\<rparr>"

text \<open>A policy without any rule is replaced by the default one.\<close>

definition effective_policy :: "proxy_policy \<Rightarrow> proxy_policy" where
  "effective_policy p =
     (if pp_allowed_domains p = [] \<and> pp_forbidden_commands p = []
      then default_proxy_policy\<lparr>pp_require_authorization := pp_require_authorization p\<rparr> else p)"

section \<open>Guardrails\<close>

definition arg_string :: "arguments \<Rightarrow> string \<Rightarrow> string option" where
  "arg_string args k = (case map_of args k of Some (JStr s) \<Rightarrow> Some s | _ \<Rightarrow> None)"

definition command_tool :: "string \<Rightarrow> bool" where
  "command_tool lower \<longleftrightarrow>
     contains_sub lower ''command'' \<or> contains_sub lower ''bash'' \<or> contains_sub lower ''exec''"

definition network_tool :: "string \<Rightarrow> bool" where
  "network_tool lower \<longleftrightarrow>
     contains_sub lower ''http'' \<or> contains_sub lower ''fetch'' \<or> contains_sub lower ''url''"

definition command_check :: "proxy_policy \<Rightarrow> tool_call_request \<Rightarrow> proxy_reason option" where
  "command_check p req =
     (if command_tool (to_lower (tc_tool_name req)) then
        (case arg_string (tc_arguments req) ''command'' of
           None \<Rightarrow> None
         | Some cmd \<Rightarrow> map_option ForbiddenCommand
             (find (\<lambda>f. contains_sub (to_lower cmd) (to_lower f)) (pp_forbidden_commands p)))
      else None)"

definition host_name :: "string \<Rightarrow> string" where
  "host_name h = (let host = to_lower h in
     case index_byte host (CHR '':'') of None \<Rightarrow> host | Some i \<Rightarrow> take i host)"

definition domain_allowed :: "proxy_policy \<Rightarrow> string \<Rightarrow> bool" where
  "domain_allowed p host =
     list_ex (\<lambda>d. host = to_lower d \<or> has_suffix host (CHR ''.'' # to_lower d)) (pp_allowed_domains p)"

definition egress_check :: "url_parser \<Rightarrow> proxy_policy \<Rightarrow> tool_call_request \<Rightarrow> proxy_reason option" where
  "egress_check parse_url p req =
     (if network_tool (to_lower (tc_tool_name req)) then
        (case arg_string (tc_arguments req) ''url'' of
           None \<Rightarrow> None
         | Some u \<Rightarrow>
             (case parse_url u of
                None \<Rightarrow> None
              | Some x \<Rightarrow>
                  if u_host x = [] then None
                  else check (\<not> domain_allowed p (host_name (u_host x))) (EgressDenied (host_name (u_host x)))))
      else None)"

definition sanitize_value :: "json \<Rightarrow> json \<times> bool" where
  "sanitize_value v = (case v of JStr s \<Rightarrow> (JStr (fst (redact_value s)), snd (redact_value s)) | _ \<Rightarrow> (v, False))"

definition sanitize :: "proxy_policy \<Rightarrow> arguments \<Rightarrow> arguments \<times> bool" where
  "sanitize p args =
     (if pp_redact_pii p
      then (map (\<lambda>(k, v). (k, fst (sanitize_value v))) args, list_ex (\<lambda>(k, v). snd (sanitize_value v)) args)
      else (args, False))"

text \<open>The digest with its error dropped.\<close>

definition digest_or_empty :: "crypto \<Rightarrow> arguments \<Rightarrow> string" where
  "digest_or_empty cr args = (case canonical_argument_digest cr args of None \<Rightarrow> [] | Some d \<Rightarrow> d)"

definition blocked_response :: "proxy_reason \<Rightarrow> time \<Rightarrow> proxy_response" where
  "blocked_response reason now =
     \<lparr>px_decision = DecisionBlock, px_sanitized = [], px_reason = reason, px_timestamp = now,
      px_authorized = False, px_mutated = False, px_original_digest = [], px_effective_digest = [],
      px_receipt = None\<rparr>"

definition evaluate_tool_call ::
  "crypto \<Rightarrow> url_parser \<Rightarrow> time \<Rightarrow> tool_call_request \<Rightarrow> proxy_policy \<Rightarrow> proxy_response" where
  "evaluate_tool_call cr parse_url now req p0 =
     (let p = effective_policy p0 in
      case first_some [command_check p req, egress_check parse_url p req] of
        Some reason \<Rightarrow> blocked_response reason now
      | None \<Rightarrow>
          (let (args, was) = sanitize p (tc_arguments req);
               orig = digest_or_empty cr (tc_arguments req); eff = digest_or_empty cr args
           in \<lparr>px_decision = (if was then DecisionRedact else DecisionAllow), px_sanitized = args,
               px_reason = NoReason, px_timestamp = now, px_authorized = False, px_mutated = (orig \<noteq> eff),
               px_original_digest = orig, px_effective_digest = eff, px_receipt = None\<rparr>))"

section \<open>The proxy\<close>

type_synonym reauthorizer =
  "tool_call_request \<Rightarrow> arguments \<Rightarrow> execution_authorization \<Rightarrow> execution_authorization option"

type_synonym tool_fn = "arguments \<Rightarrow> execution_result \<times> execution_error option"

record runtime_proxy =
  rp_policy :: proxy_policy
  rp_gateway :: "gateway option"
  rp_require_authorization :: bool
  rp_reauthorizer :: "reauthorizer option"
  rp_private_key :: "string option"
  rp_key_id :: string
  rp_default_subject_id :: string
  rp_default_subject_digest :: string
  rp_default_agent_id :: string
  rp_default_session_id :: string
  rp_active_policy_id :: string
  rp_active_policy_digest :: string
  rp_seq :: "64 word"

definition first_str :: "string list \<Rightarrow> string" where
  "first_str vals = (case find (\<lambda>v. trim_space v \<noteq> []) vals of None \<Rightarrow> [] | Some v \<Rightarrow> trim_space v)"

definition infer_capability :: "string \<Rightarrow> string \<Rightarrow> string" where
  "infer_capability tool fallback =
     (if trim_space fallback \<noteq> [] then trim_space fallback
      else if command_tool (to_lower tool) then ''commands.execute''
      else if network_tool (to_lower tool) then ''network.outbound''
      else ''tools.call'')"

definition infer_target :: "string \<Rightarrow> arguments \<Rightarrow> string" where
  "infer_target tool args =
     (case find (\<lambda>k. arg_string args k \<noteq> None \<and> arg_string args k \<noteq> Some []) [''command'', ''url'', ''path''] of
        None \<Rightarrow> tool
      | Some k \<Rightarrow> the (arg_string args k))"

definition must_authorize :: "runtime_proxy \<Rightarrow> tool_call_request \<Rightarrow> bool" where
  "must_authorize p req \<longleftrightarrow>
     rp_require_authorization p \<or> pp_require_authorization (rp_policy p) \<or> tc_authorization req \<noteq> None"

text \<open>An authorization whose arguments were sanitized away from it has to be reissued.\<close>

definition effective_authorization ::
  "runtime_proxy \<Rightarrow> tool_call_request \<Rightarrow> proxy_response \<Rightarrow> execution_authorization \<Rightarrow> proxy_reason + execution_authorization" where
  "effective_authorization p req resp auth =
     (if px_mutated resp \<and> argument_digest auth \<noteq> px_effective_digest resp then
        (case rp_reauthorizer p of
           None \<Rightarrow> Inl (NoReauthorizer (px_original_digest resp) (px_effective_digest resp))
         | Some reauth \<Rightarrow>
             (case reauth req (px_sanitized resp) auth of
                None \<Rightarrow> Inl ReauthorizationFailed
              | Some auth' \<Rightarrow> Inr auth'))
      else Inr auth)"

definition proxy_request ::
  "runtime_proxy \<Rightarrow> tool_call_request \<Rightarrow> arguments \<Rightarrow> execution_authorization \<Rightarrow> protected_operation_request" where
  "proxy_request p req args auth =
     \<lparr>req_execution_id = ''proxy-exec-'' @ dec_nat (unat (rp_seq p + 1)),
      req_subject_id = first_str [tc_subject_id req, rp_default_subject_id p, subject_id auth],
      req_subject_digest = first_str [tc_subject_digest req, rp_default_subject_digest p, subject_digest auth],
      req_agent_id = first_str [tc_agent_id req, rp_default_agent_id p, agent_id auth],
      req_session_id = first_str [tc_session_id req, rp_default_session_id p, session_id auth],
      req_parent_agent_id = tc_parent_agent_id req,
      req_tool_or_server_id = tc_tool_name req,
      req_capability = (let c = trim_space (tc_capability req) in
        if c = [] then infer_capability (tc_tool_name req) (requested_capability auth) else c),
      req_target = (let x = trim_space (tc_target req) in
        if x = [] then infer_target (tc_tool_name req) args else x),
      req_command_text = (case arg_string args ''command'' of None \<Rightarrow> [] | Some c \<Rightarrow> c),
      req_arguments = args,
      req_negotiated_tool_schema = tc_negotiated_tool_schema req,
      req_negotiated_schema_digest = tc_negotiated_schema_digest req,
      req_active_policy_id = rp_active_policy_id p,
      req_active_policy_digest = rp_active_policy_digest p\<rparr>"

text \<open>The handler given to the gateway ignores the request and runs the tool on the sanitized arguments.\<close>

definition proxy_handler :: "arguments \<Rightarrow> tool_fn option \<Rightarrow> handler" where
  "proxy_handler args fn = (\<lambda>_. case fn of
      None \<Rightarrow> (\<lparr>er_accepted = True, er_enforced = True, er_transport_status = 200, er_output_bytes = [],
               er_observed_capabilities = []\<rparr>, None)
    | Some h \<Rightarrow> h args)"

datatype proxy_error = BlockedByGuardrail proxy_reason | ProxyRefused proxy_reason | ToolError execution_error

definition refuse :: "proxy_reason \<Rightarrow> proxy_response \<Rightarrow> proxy_response" where
  "refuse reason resp = resp\<lparr>px_decision := DecisionBlock, px_authorized := False, px_reason := reason\<rparr>"

text \<open>The call of the gateway, with what it leaves behind.\<close>

definition gateway_call ::
  "crypto \<Rightarrow> (gate_error \<Rightarrow> string) \<Rightarrow> fs \<Rightarrow> lock_io \<Rightarrow> clock_readings \<Rightarrow> bool \<Rightarrow> runtime_proxy \<Rightarrow> gateway \<Rightarrow>
   disk \<Rightarrow> tool_call_request \<Rightarrow> proxy_response \<Rightarrow> execution_authorization \<Rightarrow> tool_fn option \<Rightarrow>
   proxy_response \<times> proxy_error option \<times> runtime_proxy \<times> disk" where
  "gateway_call cr show_err f io t ctx_expired p g d req resp auth fn =
     (let (r, err, g', d') = authorize_and_execute cr show_err f io t ctx_expired g d auth
            (proxy_request p req (px_sanitized resp) auth) (rp_private_key p) (rp_key_id p)
            (Some (proxy_handler (px_sanitized resp) fn));
          p' = p\<lparr>rp_gateway := Some g', rp_seq := rp_seq p + 1\<rparr>;
          resp' = resp\<lparr>px_receipt := Some r\<rparr>
      in case err of
           Some e \<Rightarrow> (refuse (Refused e) resp', Some (ProxyRefused (Refused e)), p', d')
         | None \<Rightarrow> (resp'\<lparr>px_authorized := True\<rparr>, None, p', d'))"

definition enforce_and_execute ::
  "crypto \<Rightarrow> url_parser \<Rightarrow> (gate_error \<Rightarrow> string) \<Rightarrow> fs \<Rightarrow> lock_io \<Rightarrow> clock_readings \<Rightarrow> bool \<Rightarrow> time \<Rightarrow>
   runtime_proxy \<Rightarrow> disk \<Rightarrow> tool_call_request \<Rightarrow> tool_fn option \<Rightarrow>
   proxy_response \<times> proxy_error option \<times> runtime_proxy \<times> disk" where
  "enforce_and_execute cr parse_url show_err f io t ctx_expired now p d req fn =
     (let resp = evaluate_tool_call cr parse_url now req (rp_policy p) in
      if px_decision resp = DecisionBlock then (resp, Some (BlockedByGuardrail (px_reason resp)), p, d)
      else if \<not> must_authorize p req then
        (resp, (case fn of None \<Rightarrow> None | Some h \<Rightarrow> map_option ToolError (snd (h (px_sanitized resp)))), p, d)
      else case rp_gateway p of
        None \<Rightarrow> (refuse GatewayMissing resp, Some (ProxyRefused GatewayMissing), p, d)
      | Some g \<Rightarrow>
          (case tc_authorization req of
             None \<Rightarrow> (refuse AuthorizationMissing resp, Some (ProxyRefused AuthorizationMissing), p, d)
           | Some auth0 \<Rightarrow>
               (case effective_authorization p req resp auth0 of
                  Inl reason \<Rightarrow> (refuse reason resp, Some (ProxyRefused reason), p, d)
                | Inr auth \<Rightarrow> gateway_call cr show_err f io t ctx_expired p g d req resp auth fn)))"

section \<open>Properties\<close>

lemma evaluate_block_iff:
  "px_decision (evaluate_tool_call cr parse_url now req p) = DecisionBlock \<longleftrightarrow>
     command_check (effective_policy p) req \<noteq> None \<or> egress_check parse_url (effective_policy p) req \<noteq> None"
  by (cases "command_check (effective_policy p) req"; cases "egress_check parse_url (effective_policy p) req")
     (simp_all add: evaluate_tool_call_def Let_def case_prod_beta blocked_response_def)

text \<open>
  The guardrails block a call exactly when a command tool is given a command that contains a
  forbidden one, up to case, or a network tool is given a URL with a host outside the allowed
  domains and their subdomains.  So a URL text that the parser rejects or finds no host in is never
  blocked, whatever the policy.
\<close>

theorem guardrail_block_iff:
  "px_decision (evaluate_tool_call cr parse_url now req p) = DecisionBlock \<longleftrightarrow>
     (command_tool (to_lower (tc_tool_name req)) \<and>
      (\<exists>cmd. arg_string (tc_arguments req) ''command'' = Some cmd \<and>
        (\<exists>f \<in> set (pp_forbidden_commands (effective_policy p)). contains_sub (to_lower cmd) (to_lower f)))) \<or>
     (network_tool (to_lower (tc_tool_name req)) \<and>
      (\<exists>u x. arg_string (tc_arguments req) ''url'' = Some u \<and> parse_url u = Some x \<and> u_host x \<noteq> [] \<and>
        \<not> list_ex (\<lambda>d. equal_fold (host_name (u_host x)) d \<or> has_suffix (host_name (u_host x)) (CHR ''.'' # to_lower d))
            (pp_allowed_domains (effective_policy p))))"
proof -
  have low: "to_lower (host_name h) = host_name h" for h
  proof -
    have "lower_char (lower_char c) = lower_char c" for c
      by (simp add: lower_char_def Let_def)
    then have idem: "to_lower (to_lower h) = to_lower h" by (simp add: to_lower_def)
    have "to_lower (take i s) = take i (to_lower s)" for i s by (simp add: to_lower_def take_map)
    with idem show ?thesis by (simp add: host_name_def Let_def split: option.split)
  qed
  have c: "command_check q req \<noteq> None \<longleftrightarrow> command_tool (to_lower (tc_tool_name req)) \<and>
      (\<exists>cmd. arg_string (tc_arguments req) ''command'' = Some cmd \<and>
        (\<exists>f \<in> set (pp_forbidden_commands q). contains_sub (to_lower cmd) (to_lower f)))" for q
  proof -
    have f: "(\<exists>z. find P xs = Some z) \<longleftrightarrow> (\<exists>x \<in> set xs. P x)" for P and xs :: "string list"
      using find_None_iff [of P xs] by (cases "find P xs") auto
    show ?thesis by (cases "arg_string (tc_arguments req) ''command''") (simp_all add: command_check_def f)
  qed
  have e: "egress_check parse_url q req \<noteq> None \<longleftrightarrow> network_tool (to_lower (tc_tool_name req)) \<and>
      (\<exists>u x. arg_string (tc_arguments req) ''url'' = Some u \<and> parse_url u = Some x \<and> u_host x \<noteq> [] \<and>
        \<not> domain_allowed q (host_name (u_host x)))" for q
    by (auto simp: egress_check_def check_def split: option.splits)
  show ?thesis
    unfolding evaluate_block_iff c e domain_allowed_def equal_fold_def low ..
qed

text \<open>Which authorization is presented with which request.\<close>

lemma handler_only_when_accepted:
  assumes "authorize_and_execute cr show_err f io t x g d auth req key kid (Some h1) \<noteq>
           authorize_and_execute cr show_err f io t x g d auth req key kid (Some h2)"
  shows "fst (validate_authorization cr f io (t_check t) g d auth req) = None \<and> h1 req \<noteq> h2 req"
proof -
  obtain e g' d' where v: "validate_authorization cr f io (t_check t) g d auth req = (e, g', d')"
    by (cases "validate_authorization cr f io (t_check t) g d auth req")
  have "e = None"
    using assms by (cases e) (auto simp: authorize_and_execute_def v Let_def)
  moreover have "h1 req \<noteq> h2 req"
  proof
    assume eq: "h1 req = h2 req"
    with assms \<open>e = None\<close> show False
      unfolding authorize_and_execute_def v Let_def prod.case \<open>e = None\<close> option.case eq by blast
  qed
  ultimately show ?thesis by (simp add: v)
qed

lemma accepted_arguments:
  assumes "fst (validate_authorization cr f io now g d auth req) = None"
  shows "canonical_argument_digest cr (req_arguments req) = Some (argument_digest auth)"
proof -
  obtain g' d' where "validate_authorization cr f io now g d auth req = (None, g', d')"
    using assms by (cases "validate_authorization cr f io now g d auth req") simp
  from validate_accepts(1) [OF this] show ?thesis by (simp add: gate_checks_None check_operation_None)
qed

text \<open>
  C9. The proxy mediates execution.  If the tool's behaviour can influence what a call gives at all, then the
  guardrails let the call pass and the tool is run on the sanitized arguments (and on nothing else).  If moreover
  the proxy or its policy requires authorization, or the call presents one, the gateway accepted an authorization
  for the request built from these very arguments, whose argument digest is the digest of the sanitized
  arguments, not of the original ones.  A call that neither presents nor needs an authorization runs without one.
\<close>

theorem proxy_mediates_execution:
  assumes "enforce_and_execute cr parse_url show_err f io t x now p d req (Some h1) \<noteq>
           enforce_and_execute cr parse_url show_err f io t x now p d req (Some h2)"
    and "resp = evaluate_tool_call cr parse_url now req (rp_policy p)"
  shows "px_decision resp \<noteq> DecisionBlock \<and> h1 (px_sanitized resp) \<noteq> h2 (px_sanitized resp) \<and>
    (must_authorize p req \<longrightarrow>
      (\<exists>g auth0 auth. rp_gateway p = Some g \<and> tc_authorization req = Some auth0 \<and>
         effective_authorization p req resp auth0 = Inr auth \<and>
         fst (validate_authorization cr f io (t_check t) g d auth (proxy_request p req (px_sanitized resp) auth)) = None \<and>
         canonical_argument_digest cr (px_sanitized resp) = Some (argument_digest auth)))"
proof -
  have nb: "px_decision resp \<noteq> DecisionBlock"
    using assms by (auto simp: enforce_and_execute_def Let_def)
  show ?thesis
  proof (cases "must_authorize p req")
    case False
    with assms nb show ?thesis by (auto simp: enforce_and_execute_def Let_def)
  next
    case True
    obtain g where g: "rp_gateway p = Some g"
      using assms nb True by (cases "rp_gateway p") (auto simp: enforce_and_execute_def Let_def)
    obtain auth0 where a0: "tc_authorization req = Some auth0"
      using assms nb True g by (cases "tc_authorization req") (auto simp: enforce_and_execute_def Let_def)
    obtain auth where a: "effective_authorization p req resp auth0 = Inr auth"
      using assms nb True g a0
      by (cases "effective_authorization p req resp auth0") (auto simp: enforce_and_execute_def Let_def)
    let ?q = "proxy_request p req (px_sanitized resp) auth"
    have "gateway_call cr show_err f io t x p g d req resp auth (Some h1) \<noteq>
          gateway_call cr show_err f io t x p g d req resp auth (Some h2)"
      using assms nb True g a0 a by (auto simp: enforce_and_execute_def Let_def)
    then have "authorize_and_execute cr show_err f io t x g d auth ?q (rp_private_key p) (rp_key_id p)
          (Some (proxy_handler (px_sanitized resp) (Some h1))) \<noteq>
        authorize_and_execute cr show_err f io t x g d auth ?q (rp_private_key p) (rp_key_id p)
          (Some (proxy_handler (px_sanitized resp) (Some h2)))"
      by (auto simp: gateway_call_def)
    from handler_only_when_accepted [OF this]
    have v: "fst (validate_authorization cr f io (t_check t) g d auth ?q) = None"
      and h: "h1 (px_sanitized resp) \<noteq> h2 (px_sanitized resp)"
      by (simp_all add: proxy_handler_def)
    have "canonical_argument_digest cr (px_sanitized resp) = Some (argument_digest auth)"
      using accepted_arguments [OF v] by (simp add: proxy_request_def)
    with nb g a0 a v h show ?thesis by blast
  qed
qed

text \<open>A proxy in front of the sample gateway, and a call that presents the sample authorization.\<close>

definition sample_proxy :: runtime_proxy where
  "sample_proxy = \<lparr>
     rp_policy = \<lparr>pp_allowed_domains = [''a''], pp_forbidden_commands = [], pp_redact_pii = True,
       pp_strict_type_checking = True, pp_require_authorization = False\<rparr>,
     rp_gateway = Some sample_gateway, rp_require_authorization = True, rp_reauthorizer = None,
     rp_private_key = None, rp_key_id = [], rp_default_subject_id = ''s'', rp_default_subject_digest = ''sd'',
     rp_default_agent_id = ''ag'', rp_default_session_id = ''se'', rp_active_policy_id = ''p'',
     rp_active_policy_digest = [], rp_seq = 0\<rparr>"

definition sample_call :: tool_call_request where
  "sample_call = \<lparr>tc_tool_name = ''srv'', tc_arguments = [], tc_session_id = [], tc_subject_id = [],
     tc_subject_digest = [], tc_agent_id = [], tc_parent_agent_id = [], tc_capability = ''Read'', tc_target = ''f'',
     tc_negotiated_tool_schema = None, tc_negotiated_schema_digest = [],
     tc_authorization = Some (signed_sample ''n1'')\<rparr>"

definition sample_tool :: "execution_error option \<Rightarrow> tool_fn" where
  "sample_tool e args = (\<lparr>er_accepted = True, er_enforced = True, er_transport_status = 200, er_output_bytes = [],
     er_observed_capabilities = []\<rparr>, e)"

lemma sample_evaluate:
  "evaluate_tool_call cr parse_url now sample_call (rp_policy sample_proxy) =
     \<lparr>px_decision = DecisionAllow, px_sanitized = [], px_reason = NoReason, px_timestamp = now, px_authorized = False,
      px_mutated = False, px_original_digest = digest_or_empty cr [], px_effective_digest = digest_or_empty cr [],
      px_receipt = None\<rparr>"
proof -
  have t: "to_lower ''srv'' = ''srv''" by (simp add: to_lower_def lower_char_def)
  have "\<not> command_tool ''srv''" "\<not> network_tool ''srv''"
    by (simp_all add: command_tool_def network_tool_def has_prefix_def)
  then show ?thesis
    by (simp add: evaluate_tool_call_def effective_policy_def sample_proxy_def sample_call_def command_check_def
        egress_check_def sanitize_def t Let_def)
qed

lemma sample_proxy_request:
  "proxy_request sample_proxy sample_call [] (signed_sample ''n1'') =
     sample_request\<lparr>req_execution_id := ''proxy-exec-'' @ dec_nat 1\<rparr>"
  by (simp add: proxy_request_def sample_proxy_def sample_call_def sample_request_def first_str_def Let_def
      plain_edge_def ascii_space_def arg_string_def)

lemma gate_checks_execution_id:
  "gate_checks cr f now g auth (req\<lparr>req_execution_id := i\<rparr>) = gate_checks cr f now g auth req"
proof -
  let ?q = "req\<lparr>req_execution_id := i\<rparr>"
  have sel: "req_capability ?q = req_capability req" "req_target ?q = req_target req"
    "req_tool_or_server_id ?q = req_tool_or_server_id req" "req_command_text ?q = req_command_text req"
    "req_arguments ?q = req_arguments req" "req_negotiated_tool_schema ?q = req_negotiated_tool_schema req"
    "req_negotiated_schema_digest ?q = req_negotiated_schema_digest req"
    "req_subject_id ?q = req_subject_id req" "req_subject_digest ?q = req_subject_digest req"
    "req_agent_id ?q = req_agent_id req" "req_session_id ?q = req_session_id req"
    "req_parent_agent_id ?q = req_parent_agent_id req" "req_active_policy_id ?q = req_active_policy_id req"
    "req_active_policy_digest ?q = req_active_policy_digest req"
    by simp_all
  show ?thesis
    unfolding gate_checks_def check_identity_def check_operation_def scope_permits_operation_def grants_permit_def
      check_validity_def check_file_def check_mcp_def actual_schema_digest_def sel ..
qed

lemma sample_proxy_accepts:
  "fst (validate_authorization toy_crypto (sample_fs [] 0) sample_io 2000000000 sample_gateway Map.empty (signed_sample ''n1'')
     (proxy_request sample_proxy sample_call [] (signed_sample ''n1''))) = None"
proof -
  have "gate_checks toy_crypto (sample_fs [] 0) 2000000000 sample_gateway (signed_sample ''n1'')
      (proxy_request sample_proxy sample_call [] (signed_sample ''n1'')) = None"
    unfolding sample_proxy_request gate_checks_execution_id by (rule gate_checks_sample [OF trim_space_n1]) simp
  moreover have "trim_space ''az1'' \<noteq> []" by (simp add: plain_edge_def ascii_space_def)
  ultimately show ?thesis
    using signed_sample_fields [OF trim_space_n1] trim_space_n1
    by (simp add: validate_authorization_def consume_nonce_def sample_gateway_def new_execution_gateway_def
        consume_def new_nonce_ledger_def Let_def)
qed

lemma sample_proxy_runs:
  "fst (snd (enforce_and_execute toy_crypto (\<lambda>_. None) (\<lambda>_. []) (sample_fs [] 0) sample_io
     \<lparr>t_start = 0, t_check = 2000000000, t_end = 0\<rparr> False 0 sample_proxy Map.empty sample_call (Some (sample_tool e)))) =
   map_option (\<lambda>x. ProxyRefused (Refused (HandlerError x))) e"
proof -
  let ?t = "\<lparr>t_start = 0, t_check = 2000000000, t_end = 0\<rparr>"
  let ?q = "proxy_request sample_proxy sample_call [] (signed_sample ''n1'')"
  obtain g' d' where v: "validate_authorization toy_crypto (sample_fs [] 0) sample_io 2000000000 sample_gateway Map.empty
      (signed_sample ''n1'') ?q = (None, g', d')"
    using sample_proxy_accepts
    by (cases "validate_authorization toy_crypto (sample_fs [] 0) sample_io 2000000000 sample_gateway Map.empty
      (signed_sample ''n1'') ?q") simp
  have "must_authorize sample_proxy sample_call" "rp_gateway sample_proxy = Some sample_gateway"
    "tc_authorization sample_call = Some (signed_sample ''n1'')" "rp_private_key sample_proxy = None"
    by (simp_all add: must_authorize_def sample_proxy_def sample_call_def)
  then show ?thesis
    by (cases e)
       (simp_all add: enforce_and_execute_def sample_evaluate effective_authorization_def gateway_call_def
         authorize_and_execute_def v proxy_handler_def sample_tool_def sign_if_key_def Let_def)
qed

lemma proxy_mediates_execution_witness:
  "\<exists>g auth. rp_gateway sample_proxy = Some g \<and>
     canonical_argument_digest toy_crypto [] = Some (argument_digest auth) \<and>
     fst (validate_authorization toy_crypto (sample_fs [] 0) sample_io 2000000000 g Map.empty auth
            (proxy_request sample_proxy sample_call [] auth)) = None"
proof -
  let ?run = "\<lambda>e. enforce_and_execute toy_crypto (\<lambda>_. None) (\<lambda>_. []) (sample_fs [] 0) sample_io
     \<lparr>t_start = 0, t_check = 2000000000, t_end = 0\<rparr> False 0 sample_proxy Map.empty sample_call (Some (sample_tool e))"
  have "fst (snd (?run None)) \<noteq> fst (snd (?run (Some \<lparr>ee_deadline = False, ee_text = ''failed''\<rparr>)))"
    unfolding sample_proxy_runs by simp
  then have d: "?run None \<noteq> ?run (Some \<lparr>ee_deadline = False, ee_text = ''failed''\<rparr>)"
    by (rule contrapos_nn) (rule arg_cong [where f = "\<lambda>r. fst (snd r)"])
  have "must_authorize sample_proxy sample_call" by (simp add: must_authorize_def sample_proxy_def)
  with proxy_mediates_execution [OF d refl] show ?thesis unfolding sample_evaluate by auto
qed

end
