(* ===== verification/Interceptor.thy ===== *)
theory Interceptor
  imports Gateway "HOL-Library.AList"
begin

text \<open>
  The MCP interceptor of internal/mcpinterceptor/interceptor.go: \<open>InspectMessage\<close> decides whether a
  JSON-RPC message may pass, \<open>RunStream\<close> applies it to the lines of a stream.

  What the code takes from \<open>encoding/json\<close> is a record of functions: \<open>parse_json\<close> reads one whole
  text (members of objects stay in order, repeated names included), \<open>decode_any\<close> is decoding into
  an \<open>any\<close> (\<open>None\<close> for a number outside the float64 range), \<open>unmarshal_auth\<close> decodes an
  authorization, in place where a repeated member finds one.  Decoding into the structures of this
  file is modelled here: members are matched to fields without regard to case, in order, later ones
  overwriting earlier ones.  Replies are values; \<open>render\<close> makes their text.
\<close>

section \<open>Decoding into structures\<close>

record json_lib =
  parse_json :: "string \<Rightarrow> json option"
  decode_any :: "json \<Rightarrow> json option"
  unmarshal_auth :: "execution_authorization option \<Rightarrow> json \<Rightarrow> execution_authorization option"

definition fold_rune :: "nat \<Rightarrow> nat" where
  "fold_rune r = (if 97 \<le> r \<and> r \<le> 122 then r - 32 else if r = 383 then 83 else if r = 8490 then 75 else r)"

definition is_field :: "string \<Rightarrow> string \<Rightarrow> bool" where
  "is_field name key \<longleftrightarrow> map fold_rune (runes key) = map fold_rune (runes name)"

definition decode_string :: "string \<Rightarrow> json \<Rightarrow> string option" where
  "decode_string old v = (case v of JStr s \<Rightarrow> Some s | JNull \<Rightarrow> Some old | _ \<Rightarrow> None)"

text \<open>Decoding the members one after the other; an error anywhere is an error of the whole.\<close>

fun decode_members :: "('s \<Rightarrow> string \<Rightarrow> json \<Rightarrow> 's option) \<Rightarrow> 's \<Rightarrow> (string \<times> json) list \<Rightarrow> 's option" where
  "decode_members f s [] = Some s"
| "decode_members f s ((k, v) # ms) = (case f s k v of None \<Rightarrow> None | Some s' \<Rightarrow> decode_members f s' ms)"

definition decode_struct :: "('s \<Rightarrow> string \<Rightarrow> json \<Rightarrow> 's option) \<Rightarrow> 's \<Rightarrow> json \<Rightarrow> 's option" where
  "decode_struct f s v = (case v of JObj ms \<Rightarrow> decode_members f s ms | JNull \<Rightarrow> Some s | _ \<Rightarrow> None)"

record rpc_message =
  rm_jsonrpc :: string
  rm_id :: json
  rm_method :: string
  rm_params :: "json option"
  rm_result :: "json option"
  rm_error :: json

definition empty_message :: rpc_message where
  "empty_message = \<lparr>rm_jsonrpc = [], rm_id = JNull, rm_method = [], rm_params = None, rm_result = None, rm_error = JNull\<rparr>"

definition message_field :: "json_lib \<Rightarrow> rpc_message \<Rightarrow> string \<Rightarrow> json \<Rightarrow> rpc_message option" where
  "message_field lib m k v =
     (if is_field ''jsonrpc'' k then map_option (\<lambda>x. m\<lparr>rm_jsonrpc := x\<rparr>) (decode_string (rm_jsonrpc m) v)
      else if is_field ''id'' k then map_option (\<lambda>x. m\<lparr>rm_id := x\<rparr>) (decode_any lib v)
      else if is_field ''method'' k then map_option (\<lambda>x. m\<lparr>rm_method := x\<rparr>) (decode_string (rm_method m) v)
      else if is_field ''params'' k then Some (m\<lparr>rm_params := Some v\<rparr>)
      else if is_field ''result'' k then Some (m\<lparr>rm_result := Some v\<rparr>)
      else if is_field ''error'' k then map_option (\<lambda>x. m\<lparr>rm_error := x\<rparr>) (decode_any lib v)
      else Some m)"

definition decode_message :: "json_lib \<Rightarrow> json \<Rightarrow> rpc_message option" where
  "decode_message lib = decode_struct (message_field lib) empty_message"

record tool_call_meta =
  tm_agent_id :: string
  tm_parent_agent_id :: string
  tm_session_id :: string
  tm_authorization :: "execution_authorization option"

record tool_call_params =
  tp_name :: string
  tp_arguments :: "(string \<times> json) list option"
  tp_authorization :: "execution_authorization option"
  tp_meta :: "tool_call_meta option"

definition empty_meta :: tool_call_meta where
  "empty_meta = \<lparr>tm_agent_id = [], tm_parent_agent_id = [], tm_session_id = [], tm_authorization = None\<rparr>"

text \<open>A pointer to an authorization: null sets it to nil.\<close>

definition decode_auth_pointer ::
  "json_lib \<Rightarrow> execution_authorization option \<Rightarrow> json \<Rightarrow> execution_authorization option option" where
  "decode_auth_pointer lib old v =
     (if v = JNull then Some None else map_option Some (unmarshal_auth lib old v))"

definition meta_field :: "json_lib \<Rightarrow> tool_call_meta \<Rightarrow> string \<Rightarrow> json \<Rightarrow> tool_call_meta option" where
  "meta_field lib m k v =
     (if is_field ''agent_id'' k then map_option (\<lambda>x. m\<lparr>tm_agent_id := x\<rparr>) (decode_string (tm_agent_id m) v)
      else if is_field ''parent_agent_id'' k
        then map_option (\<lambda>x. m\<lparr>tm_parent_agent_id := x\<rparr>) (decode_string (tm_parent_agent_id m) v)
      else if is_field ''session_id'' k then map_option (\<lambda>x. m\<lparr>tm_session_id := x\<rparr>) (decode_string (tm_session_id m) v)
      else if is_field ''skil_authorization'' k
        then map_option (\<lambda>x. m\<lparr>tm_authorization := x\<rparr>) (decode_auth_pointer lib (tm_authorization m) v)
      else Some m)"

text \<open>A map of arguments: null makes it nil, an object adds its members to what is there.\<close>

definition decode_arguments :: "json_lib \<Rightarrow> (string \<times> json) list option \<Rightarrow> json \<Rightarrow> (string \<times> json) list option option" where
  "decode_arguments lib old v =
     (case v of
        JNull \<Rightarrow> Some None
      | JObj ms \<Rightarrow> map_option Some (decode_members
          (\<lambda>a k x. map_option (\<lambda>y. AList.update k y a) (decode_any lib x)) (case old of None \<Rightarrow> [] | Some a \<Rightarrow> a) ms)
      | _ \<Rightarrow> None)"

definition params_field :: "json_lib \<Rightarrow> tool_call_params \<Rightarrow> string \<Rightarrow> json \<Rightarrow> tool_call_params option" where
  "params_field lib p k v =
     (if is_field ''name'' k then map_option (\<lambda>x. p\<lparr>tp_name := x\<rparr>) (decode_string (tp_name p) v)
      else if is_field ''arguments'' k
        then map_option (\<lambda>x. p\<lparr>tp_arguments := x\<rparr>) (decode_arguments lib (tp_arguments p) v)
      else if is_field ''_skil_authorization'' k
        then map_option (\<lambda>x. p\<lparr>tp_authorization := x\<rparr>) (decode_auth_pointer lib (tp_authorization p) v)
      else if is_field ''_meta'' k
        then (if v = JNull then Some (p\<lparr>tp_meta := None\<rparr>)
              else map_option (\<lambda>x. p\<lparr>tp_meta := Some x\<rparr>)
                     (decode_struct (meta_field lib) (case tp_meta p of None \<Rightarrow> empty_meta | Some m \<Rightarrow> m) v))
      else Some p)"

section \<open>The interceptor\<close>

type_synonym surface_lock = "(string \<times> string) list"

record interceptor_options =
  io_surface_lock_path :: string
  io_surface_lock :: "surface_lock option"
  io_strict :: bool
  io_require_surface_lock :: bool
  io_mandatory_auth :: bool
  io_gateway :: "gateway option"
  io_server_id :: string
  io_subject_id :: string
  io_subject_digest :: string
  io_default_agent_id :: string
  io_default_parent_agent :: string
  io_default_session_id :: string
  io_active_policy_id :: string
  io_active_policy_digest :: string
  io_live_tool_schemas :: "(string \<rightharpoonup> json) option"
  io_on_forward :: "(string \<Rightarrow> bool) option"
  io_error_out :: bool

record interceptor =
  ic_options :: interceptor_options
  ic_lock :: "surface_lock option"
  ic_seq :: "64 word"

text \<open>What reading and decoding the lock file gives.\<close>

datatype lock_file = Unreadable | Undecodable | Loaded surface_lock

datatype setup_error = LockUnreadable | LockUndecodable | LockRequired | GatewayRequired

definition must_have_lock :: "interceptor_options \<Rightarrow> bool" where
  "must_have_lock o' \<longleftrightarrow> io_require_surface_lock o' \<or> io_mandatory_auth o' \<or>
     (io_strict o' \<and> trim_space (io_surface_lock_path o') \<noteq> [])"

definition read_lock :: "interceptor_options \<Rightarrow> lock_file \<Rightarrow> setup_error + surface_lock option" where
  "read_lock o' file =
     (if trim_space (io_surface_lock_path o') = [] then Inr (io_surface_lock o')
      else case file of
        Unreadable \<Rightarrow> if must_have_lock o' then Inl LockUnreadable else Inr (io_surface_lock o')
      | Undecodable \<Rightarrow> if must_have_lock o' then Inl LockUndecodable else Inr (io_surface_lock o')
      | Loaded l \<Rightarrow> Inr (Some l))"

definition new_interceptor :: "interceptor_options \<Rightarrow> lock_file \<Rightarrow> setup_error + interceptor" where
  "new_interceptor o' file =
     (case read_lock o' file of
        Inl e \<Rightarrow> Inl e
      | Inr lock \<Rightarrow>
          if must_have_lock o' \<and> (lock = None \<or> lock = Some []) then Inl LockRequired
          else if io_mandatory_auth o' \<and> io_gateway o' = None then Inl GatewayRequired
          else Inr \<lparr>ic_options = o', ic_lock = lock, ic_seq = 0\<rparr>)"

definition enforce_mode :: "interceptor \<Rightarrow> bool" where
  "enforce_mode i = (let o' = ic_options i in
     io_strict o' \<or> io_require_surface_lock o' \<or> io_mandatory_auth o' \<or> io_gateway o' \<noteq> None)"

datatype block_reason =
    EmptyMessage
  | MalformedPayload
  | WrongVersion
  | MissingMethod
  | ParamsRequired
  | MalformedParams
  | ArgumentsNotObject
  | InvalidParamStructure
  | NoToolName
  | LockMissing
  | ToolNotLocked string
  | InvalidLiveSchema string
  | LockDrift string
  | GatewayNotConfigured
  | MissingAuthorization string
  | Rejected string gate_error

definition JSONRPCParseError :: int where "JSONRPCParseError = - 32700"
definition JSONRPCInvalidRequest :: int where "JSONRPCInvalidRequest = - 32600"
definition JSONRPCMethodNotFound :: int where "JSONRPCMethodNotFound = - 32601"
definition JSONRPCInvalidParams :: int where "JSONRPCInvalidParams = - 32602"
definition JSONRPCInternalError :: int where "JSONRPCInternalError = - 32603"
definition JSONRPCUnauthorized :: int where "JSONRPCUnauthorized = - 32001"

type_synonym block = "int \<times> block_reason"

section \<open>The checks of a tools/call\<close>

text \<open>The raw map of parameters keeps the last of equal names, by their exact spelling.\<close>

definition decode_params :: "json_lib \<Rightarrow> json option \<Rightarrow> block + tool_call_params" where
  "decode_params lib params =
     (case params of
        None \<Rightarrow> Inl (JSONRPCInvalidParams, ParamsRequired)
      | Some v \<Rightarrow>
          (case v of
             JNull \<Rightarrow> Inl (JSONRPCInvalidParams, ParamsRequired)
           | JObj ms \<Rightarrow>
               if (case map_of (rev ms) ''arguments'' of
                     None \<Rightarrow> False
                   | Some a \<Rightarrow> a \<noteq> JNull \<and> decode_arguments lib None a = None)
               then Inl (JSONRPCInvalidParams, ArgumentsNotObject)
               else (case decode_struct (params_field lib)
                       \<lparr>tp_name = [], tp_arguments = None, tp_authorization = None, tp_meta = None\<rparr> v of
                       None \<Rightarrow> Inl (JSONRPCInvalidParams, InvalidParamStructure)
                     | Some p \<Rightarrow>
                         if trim_space (tp_name p) = [] then Inl (JSONRPCInvalidParams, NoToolName)
                         else Inr (p\<lparr>tp_name := trim_space (tp_name p)\<rparr>))
           | _ \<Rightarrow> Inl (JSONRPCInvalidParams, MalformedParams)))"

definition call_arguments :: "tool_call_params \<Rightarrow> (string \<times> json) list" where
  "call_arguments p = (case tp_arguments p of None \<Rightarrow> [] | Some a \<Rightarrow> a)"

text \<open>The digest the surface lock has for the tool, empty outside enforcement.\<close>

definition locked_digest :: "interceptor \<Rightarrow> string \<Rightarrow> block + string" where
  "locked_digest i name =
     (if enforce_mode i then
        (if ic_lock i = None \<or> ic_lock i = Some [] then Inl (JSONRPCInternalError, LockMissing)
         else case map_of (the (ic_lock i)) name of
           None \<Rightarrow> Inl (JSONRPCMethodNotFound, ToolNotLocked name)
         | Some d \<Rightarrow> if trim_space d = [] then Inl (JSONRPCMethodNotFound, ToolNotLocked name) else Inr d)
      else Inr [])"

definition live_schema :: "interceptor \<Rightarrow> string \<Rightarrow> json option" where
  "live_schema i name = (case io_live_tool_schemas (ic_options i) of None \<Rightarrow> None | Some m \<Rightarrow> m name)"

definition prefixed :: "string \<Rightarrow> string" where
  "prefixed d = (if has_prefix d ''sha256:'' then d else ''sha256:'' @ d)"

definition check_live_schema :: "crypto \<Rightarrow> interceptor \<Rightarrow> string \<Rightarrow> string \<Rightarrow> block option" where
  "check_live_schema cr i name locked =
     (case live_schema i name of
        None \<Rightarrow> None
      | Some s \<Rightarrow>
          if locked = [] then None
          else case canonical_schema_digest cr (Some s) of
            None \<Rightarrow> Some (JSONRPCUnauthorized, InvalidLiveSchema name)
          | Some d \<Rightarrow> check (d \<noteq> prefixed locked) (JSONRPCUnauthorized, LockDrift name))"

definition first_non_empty :: "string list \<Rightarrow> string" where
  "first_non_empty vals = (case find (\<lambda>v. trim_space v \<noteq> []) vals of None \<Rightarrow> [] | Some v \<Rightarrow> trim_space v)"

definition presented_auth :: "tool_call_params \<Rightarrow> execution_authorization option" where
  "presented_auth p =
     (case tp_authorization p of
        Some a \<Rightarrow> Some a
      | None \<Rightarrow> (case tp_meta p of None \<Rightarrow> None | Some m \<Rightarrow> tm_authorization m))"

text \<open>A value of the metadata, if there is one, goes before the configured one.\<close>

definition meta_or :: "(tool_call_meta \<Rightarrow> string) \<Rightarrow> tool_call_params \<Rightarrow> string \<Rightarrow> string" where
  "meta_or sel p dflt = (case tp_meta p of None \<Rightarrow> dflt | Some m \<Rightarrow> if sel m \<noteq> [] then sel m else dflt)"

definition or_else :: "string \<Rightarrow> string \<Rightarrow> string" where
  "or_else a b = (if a = [] then b else a)"

definition mcp_request ::
  "interceptor \<Rightarrow> tool_call_params \<Rightarrow> string \<Rightarrow> execution_authorization \<Rightarrow> protected_operation_request" where
  "mcp_request i p locked auth =
     (let o' = ic_options i in
      \<lparr>req_execution_id = ''mcp-call-'' @ dec_nat (unat (ic_seq i + 1)),
       req_subject_id = first_non_empty [io_subject_id o', subject_id auth],
       req_subject_digest = first_non_empty [io_subject_digest o', subject_digest auth],
       req_agent_id = or_else (meta_or tm_agent_id p (io_default_agent_id o')) (agent_id auth),
       req_session_id = or_else (meta_or tm_session_id p (io_default_session_id o')) (session_id auth),
       req_parent_agent_id = meta_or tm_parent_agent_id p (io_default_parent_agent o'),
       req_tool_or_server_id = or_else (trim_space (io_server_id o')) (tool_or_server_id auth),
       req_capability = ''mcp.invoke'', req_target = tp_name p, req_command_text = [],
       req_arguments = call_arguments p, req_negotiated_tool_schema = live_schema i (tp_name p),
       req_negotiated_schema_digest = locked, req_active_policy_id = io_active_policy_id o',
       req_active_policy_digest = io_active_policy_digest o'\<rparr>)"

record gate_env =
  ge_fs :: fs
  ge_io :: lock_io
  ge_now :: time

definition authorize_call ::
  "crypto \<Rightarrow> gate_env \<Rightarrow> interceptor \<Rightarrow> disk \<Rightarrow> tool_call_params \<Rightarrow> string \<Rightarrow> block option \<times> interceptor \<times> disk" where
  "authorize_call cr env i d p locked =
     (if io_mandatory_auth (ic_options i) \<or> io_gateway (ic_options i) \<noteq> None then
        (case io_gateway (ic_options i) of
           None \<Rightarrow> (Some (JSONRPCInternalError, GatewayNotConfigured), i, d)
         | Some g \<Rightarrow>
             (case presented_auth p of
                None \<Rightarrow> (Some (JSONRPCUnauthorized, MissingAuthorization (tp_name p)), i, d)
              | Some auth \<Rightarrow>
                  (let (e, g', d') = validate_authorization cr (ge_fs env) (ge_io env) (ge_now env) g d auth
                         (mcp_request i p locked auth)
                   in (map_option (\<lambda>x. (JSONRPCUnauthorized, Rejected (tp_name p) x)) e,
                       i\<lparr>ic_options := (ic_options i)\<lparr>io_gateway := Some g'\<rparr>, ic_seq := ic_seq i + 1\<rparr>, d'))))
      else (None, i, d))"

definition check_call ::
  "crypto \<Rightarrow> json_lib \<Rightarrow> gate_env \<Rightarrow> interceptor \<Rightarrow> disk \<Rightarrow> json option \<Rightarrow> block option \<times> interceptor \<times> disk" where
  "check_call cr lib env i d params =
     (case decode_params lib params of
        Inl b \<Rightarrow> (Some b, i, d)
      | Inr p \<Rightarrow>
          (case locked_digest i (tp_name p) of
             Inl b \<Rightarrow> (Some b, i, d)
           | Inr locked \<Rightarrow>
               (case check_live_schema cr i (tp_name p) locked of
                  Some b \<Rightarrow> (Some b, i, d)
                | None \<Rightarrow> authorize_call cr env i d p locked)))"

section \<open>InspectMessage\<close>

datatype verdict = Forwarded string | Blocked json block | ForwardFailed

definition forward :: "interceptor \<Rightarrow> string \<Rightarrow> bool \<Rightarrow> verdict" where
  "forward i data from_client =
     (case io_on_forward (ic_options i) of
        None \<Rightarrow> Forwarded data
      | Some f \<Rightarrow> if from_client \<and> f data then ForwardFailed else Forwarded data)"

definition inspect_message ::
  "crypto \<Rightarrow> json_lib \<Rightarrow> gate_env \<Rightarrow> interceptor \<Rightarrow> disk \<Rightarrow> string \<Rightarrow> bool \<Rightarrow> verdict \<times> interceptor \<times> disk" where
  "inspect_message cr lib env i d data from_client =
     (let trimmed = trim_space data in
      if trimmed = [] then
        (if enforce_mode i then Blocked JNull (JSONRPCParseError, EmptyMessage) else Forwarded data, i, d)
      else case (case parse_json lib trimmed of None \<Rightarrow> None | Some v \<Rightarrow> decode_message lib v) of
        None \<Rightarrow>
          (if enforce_mode i then Blocked JNull (JSONRPCParseError, MalformedPayload) else Forwarded data, i, d)
      | Some m \<Rightarrow>
          if enforce_mode i \<and> rm_jsonrpc m \<noteq> ''2.0''
          then (Blocked (rm_id m) (JSONRPCInvalidRequest, WrongVersion), i, d)
          else if enforce_mode i \<and> from_client \<and> trim_space (rm_method m) = [] \<and> rm_result m = None \<and> rm_error m = JNull
          then (Blocked (rm_id m) (JSONRPCInvalidRequest, MissingMethod), i, d)
          else if \<not> from_client \<or> rm_method m \<noteq> ''tools/call'' then (forward i data from_client, i, d)
          else
            (let (b, i', d') = check_call cr lib env i d (rm_params m)
             in (case b of Some x \<Rightarrow> Blocked (rm_id m) x | None \<Rightarrow> forward i data True, i', d')))"

section \<open>RunStream\<close>

text \<open>
  The lines of a scanner whose buffer is limited to \<open>2^20\<close> bytes: without line feed, one carriage
  return at the end dropped; a line that does not fit in the buffer together with its line feed
  ends the scan with an error.
\<close>

definition drop_cr :: "string \<Rightarrow> string" where
  "drop_cr l = (if l \<noteq> [] \<and> last l = CHR 0x0D then butlast l else l)"

fun take_lines :: "string list \<Rightarrow> string list \<times> bool" where
  "take_lines [] = ([], True)"
| "take_lines (l # ls) =
     (if 1048576 \<le> length l then ([], False)
      else if l = [] \<and> ls = [] then ([], True)
      else (let (rest, ok) = take_lines ls in (drop_cr l # rest, ok)))"

definition scan_lines :: "string \<Rightarrow> string list \<times> bool" where
  "scan_lines s = take_lines (split_char (CHR 0x0A) s)"

definition reply_text :: "(json \<Rightarrow> block \<Rightarrow> string) \<Rightarrow> verdict \<Rightarrow> string" where
  "reply_text render v = (case v of Forwarded s \<Rightarrow> s | Blocked i b \<Rightarrow> render i b | ForwardFailed \<Rightarrow> [])"

datatype sink = ServerOut string | ErrorOut string

definition blocked :: "verdict \<Rightarrow> bool" where
  "blocked v = (case v of Forwarded _ \<Rightarrow> False | _ \<Rightarrow> True)"

text \<open>
  What is written where, in order, and whether the stream ends without an error; an error of the
  \<open>OnForward\<close> callback ends it.  Writing to a stream is taken to succeed.
\<close>

fun run_lines ::
  "crypto \<Rightarrow> json_lib \<Rightarrow> (json \<Rightarrow> block \<Rightarrow> string) \<Rightarrow> (nat \<Rightarrow> gate_env) \<Rightarrow> bool \<Rightarrow> nat \<Rightarrow> string list \<Rightarrow>
   interceptor \<Rightarrow> disk \<Rightarrow> sink list \<times> bool \<times> interceptor \<times> disk" where
  "run_lines cr lib render env from_client n [] i d = ([], True, i, d)"
| "run_lines cr lib render env from_client n (l # ls) i d =
     (let (v, i1, d1) = inspect_message cr lib (env n) i d l from_client in
      if v = ForwardFailed then ([], False, i1, d1)
      else (let w = (if blocked v \<and> io_error_out (ic_options i) then ErrorOut (reply_text render v @ [CHR 0x0A])
                     else ServerOut (reply_text render v @ [CHR 0x0A]));
                (ws, ok, i2, d2) = run_lines cr lib render env from_client (Suc n) ls i1 d1
            in (w # ws, ok, i2, d2)))"

definition run_stream ::
  "crypto \<Rightarrow> json_lib \<Rightarrow> (json \<Rightarrow> block \<Rightarrow> string) \<Rightarrow> (nat \<Rightarrow> gate_env) \<Rightarrow> string \<Rightarrow> bool \<Rightarrow>
   interceptor \<Rightarrow> disk \<Rightarrow> sink list \<times> bool \<times> interceptor \<times> disk" where
  "run_stream cr lib render env input from_client i d =
     (let (lines, ok) = scan_lines input;
          (ws, done, i', d') = run_lines cr lib render env from_client 0 lines i d
      in (ws, done \<and> ok, i', d'))"

section \<open>Properties\<close>

lemma forward_Forwarded: "forward i data c = Forwarded out \<Longrightarrow> out = data"
  by (auto simp: forward_def split: option.splits if_splits)

lemma check_call_passes:
  assumes "check_call cr lib env i d params = (None, i', d')" and "io_gateway (ic_options i) = Some g"
  shows "\<exists>p locked auth. decode_params lib params = Inr p \<and> map_of (the (ic_lock i)) (tp_name p) = Some locked \<and>
    trim_space locked \<noteq> [] \<and> check_live_schema cr i (tp_name p) locked = None \<and> presented_auth p = Some auth \<and>
    fst (validate_authorization cr (ge_fs env) (ge_io env) (ge_now env) g d auth (mcp_request i p locked auth)) = None"
proof -
  obtain p where p: "decode_params lib params = Inr p"
    using assms(1) by (cases "decode_params lib params") (auto simp: check_call_def)
  obtain locked where l: "locked_digest i (tp_name p) = Inr locked"
    using assms(1) p by (cases "locked_digest i (tp_name p)") (auto simp: check_call_def)
  have s: "check_live_schema cr i (tp_name p) locked = None"
    using assms(1) p l by (cases "check_live_schema cr i (tp_name p) locked") (auto simp: check_call_def)
  have a: "authorize_call cr env i d p locked = (None, i', d')"
    using assms(1) p l s by (simp add: check_call_def)
  obtain auth where auth: "presented_auth p = Some auth"
    using a assms(2) by (cases "presented_auth p") (auto simp: authorize_call_def)
  have "fst (validate_authorization cr (ge_fs env) (ge_io env) (ge_now env) g d auth (mcp_request i p locked auth)) = None"
    using a assms(2) auth
    by (cases "validate_authorization cr (ge_fs env) (ge_io env) (ge_now env) g d auth (mcp_request i p locked auth)")
       (simp add: authorize_call_def)
  moreover have "enforce_mode i" using assms(2) by (simp add: enforce_mode_def)
  with l have "map_of (the (ic_lock i)) (tp_name p) = Some locked" "trim_space locked \<noteq> []"
    by (auto simp: locked_digest_def split: if_splits option.splits)
  ultimately show ?thesis using p s auth by blast
qed

lemma inspect_forwards_call:
  assumes "inspect_message cr lib env i d data True = (Forwarded out, i', d')"
    and "io_gateway (ic_options i) = Some g"
    and "parse_json lib (trim_space data) = Some v" and "decode_message lib v = Some m" and "rm_method m = ''tools/call''"
  shows "out = data \<and> (\<exists>d'. check_call cr lib env i d (rm_params m) = (None, i', d'))"
proof -
  have e: "enforce_mode i" using assms(2) by (simp add: enforce_mode_def)
  have t: "trim_space data \<noteq> []"
  proof
    assume "trim_space data = []"
    with assms(1) e show False by (simp add: inspect_message_def)
  qed
  have j: "rm_jsonrpc m = ''2.0''"
    using assms(1,3,4) e t by (auto simp: inspect_message_def Let_def split: if_splits)
  have n: "trim_space ''tools/call'' \<noteq> []"
    by (simp add: plain_edge_def ascii_space_def)
  obtain b i2 d2 where c: "check_call cr lib env i d (rm_params m) = (b, i2, d2)"
    by (cases "check_call cr lib env i d (rm_params m)")
  have "inspect_message cr lib env i d data True =
      (case b of Some x \<Rightarrow> Blocked (rm_id m) x | None \<Rightarrow> forward i data True, i2, d2)"
    unfolding inspect_message_def Let_def using t j n assms(3-5) by (simp add: c)
  with assms(1) c show ?thesis by (cases b) (auto dest: forward_Forwarded)
qed

text \<open>
  C8. A tools/call that reaches the server is authorized.  If the interceptor has a gateway and
  forwards a client message that it decodes as a tools/call, then the bytes are forwarded unchanged,
  the tool is pinned in the surface lock with a non-empty digest, and an authorization came with the
  call that the gateway accepted for an MCP invocation of this tool: it names the capability, has the
  digest of the decoded arguments, and its schema binding is the digest pinned in the lock.
\<close>

theorem forwarded_call_is_authorized:
  assumes "inspect_message cr lib env i d data True = (Forwarded out, i', d')"
    and "io_gateway (ic_options i) = Some g"
    and "parse_json lib (trim_space data) = Some v" and "decode_message lib v = Some m" and "rm_method m = ''tools/call''"
  shows "out = data \<and> (\<exists>p locked auth b. decode_params lib (rm_params m) = Inr p \<and>
      map_of (the (ic_lock i)) (tp_name p) = Some locked \<and> trim_space locked \<noteq> [] \<and>
      presented_auth p = Some auth \<and>
      fst (validate_authorization cr (ge_fs env) (ge_io env) (ge_now env) g d auth (mcp_request i p locked auth)) = None \<and>
      requested_capability auth = ''mcp.invoke'' \<and>
      canonical_argument_digest cr (call_arguments p) = Some (argument_digest auth) \<and>
      mcp_binding auth = Some b \<and> (mb_tool_name b = [] \<or> mb_tool_name b = tp_name p) \<and>
      normalize_digest_prefix (mb_schema_digest b) =
        (if live_schema i (tp_name p) = None then normalize_digest_prefix locked else prefixed locked))"
proof -
  from inspect_forwards_call [OF assms] obtain d1 where out: "out = data"
    and c: "check_call cr lib env i d (rm_params m) = (None, i', d1)" by blast
  from check_call_passes [OF c assms(2)] obtain p locked auth where p: "decode_params lib (rm_params m) = Inr p"
    and l: "map_of (the (ic_lock i)) (tp_name p) = Some locked" "trim_space locked \<noteq> []"
    and s: "check_live_schema cr i (tp_name p) locked = None" and a: "presented_auth p = Some auth"
    and v: "fst (validate_authorization cr (ge_fs env) (ge_io env) (ge_now env) g d auth (mcp_request i p locked auth)) = None"
    by blast
  let ?q = "mcp_request i p locked auth"
  obtain g1 d2 where "validate_authorization cr (ge_fs env) (ge_io env) (ge_now env) g d auth ?q = (None, g1, d2)"
    using v by (cases "validate_authorization cr (ge_fs env) (ge_io env) (ge_now env) g d auth ?q") simp
  from validate_accepts(1) [OF this] have o': "check_operation cr auth ?q = None" and mcp: "check_mcp cr auth ?q = None"
    by (simp_all add: gate_checks_None)
  have q: "req_capability ?q = ''mcp.invoke''" "req_target ?q = tp_name p" "req_arguments ?q = call_arguments p"
    "req_negotiated_tool_schema ?q = live_schema i (tp_name p)" "req_negotiated_schema_digest ?q = locked"
    by (simp_all add: mcp_request_def Let_def)
  have n: "tp_name p \<noteq> []"
    using p by (auto simp: decode_params_def split: option.splits json.splits if_splits)
  from mcp obtain b where b: "mcp_binding auth = Some b" "mb_tool_name b = [] \<or> mb_tool_name b = tp_name p"
    and sd: "actual_schema_digest cr ?q = Inr (normalize_digest_prefix (mb_schema_digest b))"
    unfolding check_mcp_None q using n by (auto simp: has_prefix_def)
  have "locked \<noteq> []" using l(2) by auto
  then have "normalize_digest_prefix (mb_schema_digest b) =
      (if live_schema i (tp_name p) = None then normalize_digest_prefix locked else prefixed locked)"
    using sd s l(2) unfolding actual_schema_digest_def check_live_schema_def check_def q
    by (auto split: option.splits if_splits)
  with out p l a v b o' show ?thesis unfolding check_operation_None q by blast
qed

text \<open>An MCP authorization, an interceptor and a call for concrete runs.\<close>

definition mcp_auth :: execution_authorization where
  "mcp_auth = sample_auth\<lparr>requested_capability := ''mcp.invoke'', effective_scope := [''mcp.invoke''],
     operation_id := ''op:sha256:mc'', mcp_binding := Some \<lparr>mb_server_id = ''srv'', mb_tool_name = ''f'',
       mb_schema_digest = ''ab'', mb_argument_digest = ''sha256:{}''\<rparr>\<rparr>"

definition signed_mcp :: execution_authorization where
  "signed_mcp = the (fst (sign_authorization toy_crypto (Some mcp_auth) (Some ''key'') ''kid''))"

definition sample_interceptor :: interceptor where
  "sample_interceptor = \<lparr>ic_options = \<lparr>io_surface_lock_path = [], io_surface_lock = Some [(''f'', ''ab'')],
       io_strict = True, io_require_surface_lock = True, io_mandatory_auth = True, io_gateway = Some sample_gateway,
       io_server_id = ''srv'', io_subject_id = ''s'', io_subject_digest = ''sd'', io_default_agent_id = ''ag'',
       io_default_parent_agent = [], io_default_session_id = ''se'', io_active_policy_id = ''p'',
       io_active_policy_digest = [], io_live_tool_schemas = None, io_on_forward = None, io_error_out = True\<rparr>,
     ic_lock = Some [(''f'', ''ab'')], ic_seq = 0\<rparr>"

definition sample_env :: gate_env where
  "sample_env = \<lparr>ge_fs = sample_fs [] 0, ge_io = sample_io, ge_now = 2000000000\<rparr>"

definition call_value :: json where
  "call_value = JObj [(''jsonrpc'', JStr ''2.0''), (''method'', JStr ''tools/call''),
     (''params'', JObj [(''name'', JStr ''f''), (''_skil_authorization'', JObj [])])]"

definition sample_lib :: "json \<Rightarrow> json_lib" where
  "sample_lib v = \<lparr>parse_json = \<lambda>_. Some v, decode_any = Some, unmarshal_auth = \<lambda>_ _. Some signed_mcp\<rparr>"

lemma runes_Cons_ascii: "(of_char c :: nat) < 128 \<Longrightarrow> runes (c # s) = of_char c # runes s"
  by (subst runes.simps) (simp add: decode_rune_def byte_val_def Let_def)

lemma runes_Nil: "runes [] = []"
  by (subst runes.simps) simp

lemmas field_simps' = is_field_def runes_Cons_ascii runes_Nil fold_rune_def

lemma decode_call_value: "decode_message (sample_lib v) call_value =
    Some \<lparr>rm_jsonrpc = ''2.0'', rm_id = JNull, rm_method = ''tools/call'',
      rm_params = Some (JObj [(''name'', JStr ''f''), (''_skil_authorization'', JObj [])]), rm_result = None, rm_error = JNull\<rparr>"
  by (simp add: decode_message_def decode_struct_def call_value_def empty_message_def message_field_def
      decode_string_def field_simps')

lemma decode_call_params: "decode_params (sample_lib v) (Some (JObj [(''name'', JStr ''f''), (''_skil_authorization'', JObj [])])) =
    Inr \<lparr>tp_name = ''f'', tp_arguments = None, tp_authorization = Some signed_mcp, tp_meta = None\<rparr>"
  by (simp add: decode_params_def decode_struct_def params_field_def decode_string_def decode_auth_pointer_def
      field_simps' sample_lib_def plain_edge_def ascii_space_def)

lemma mcp_auth_fields: "set (required_fields mcp_auth) \<subseteq>
    {(''requested_capability'', ''mcp.invoke''), (''operation_id'', ''op:sha256:mc'')} \<union> set (required_fields sample_auth)"
  by (auto simp: required_fields_def mcp_auth_def)

lemma validate_mcp_auth: "validate_structure mcp_auth = None"
proof -
  have "trim_space ''mcp.invoke'' \<noteq> [] \<and> \<not> contains_sensitive_credential_material ''mcp.invoke''"
    "trim_space ''op:sha256:mc'' \<noteq> [] \<and> \<not> contains_sensitive_credential_material ''op:sha256:mc''"
    by (simp_all add: short_no_credential plain_edge_def ascii_space_def)
  moreover have "effective_scope mcp_auth = [''mcp.invoke'']" "allowed_targets mcp_auth = allowed_targets sample_auth"
    "issued_at mcp_auth = issued_at sample_auth" "expires_at mcp_auth = expires_at sample_auth"
    "assurance_state mcp_auth = assurance_state sample_auth"
    by (simp_all add: mcp_auth_def)
  ultimately show ?thesis
    using validate_sample mcp_auth_fields unfolding validate_structure_None by auto
qed

lemma signed_mcp_eq:
  obtains d where "sign_authorization toy_crypto (Some mcp_auth) (Some ''key'') ''kid'' = (Some signed_mcp, None)"
    and "signed_mcp = (normalize_auth mcp_auth)\<lparr>authorization_digest := d,
           auth_signatures := [sign_digest toy_crypto ''key'' ''kid'' PayloadTypeAuthorizationV1 d]\<rparr>"
proof -
  have "compute_auth_digest toy_crypto mcp_auth \<noteq> None"
    using sample_times unfolding compute_auth_digest_None by (simp add: mcp_auth_def)
  then obtain d where d: "compute_auth_digest toy_crypto mcp_auth = Some d" by blast
  let ?a = "(normalize_auth mcp_auth)\<lparr>authorization_digest := d,
           auth_signatures := [sign_digest toy_crypto ''key'' ''kid'' PayloadTypeAuthorizationV1 d]\<rparr>"
  have s: "sign_authorization toy_crypto (Some mcp_auth) (Some ''key'') ''kid'' = (Some ?a, None)"
    unfolding sign_authorization_ok using validate_mcp_auth d by blast
  then have "signed_mcp = ?a" by (simp add: signed_mcp_def)
  with s that show thesis by simp
qed

definition sample_mcp_request :: protected_operation_request where
  "sample_mcp_request = mcp_request sample_interceptor
     \<lparr>tp_name = ''f'', tp_arguments = None, tp_authorization = Some signed_mcp, tp_meta = None\<rparr> ''ab'' signed_mcp"

lemma sample_mcp_request_eq:
  "sample_mcp_request = sample_request\<lparr>req_execution_id := ''mcp-call-'' @ dec_nat 1, req_capability := ''mcp.invoke'',
     req_negotiated_schema_digest := ''ab''\<rparr>"
  by (simp add: sample_mcp_request_def mcp_request_def sample_interceptor_def sample_request_def first_non_empty_def
      or_else_def meta_or_def call_arguments_def live_schema_def plain_edge_def ascii_space_def Let_def)

lemma gate_checks_mcp: "gate_checks toy_crypto f 2000000000 sample_gateway signed_mcp sample_mcp_request = None"
  unfolding gate_checks_None
proof (intro conjI)
  obtain d where s: "sign_authorization toy_crypto (Some mcp_auth) (Some ''key'') ''kid'' = (Some signed_mcp, None)"
    and e: "signed_mcp = (normalize_auth mcp_auth)\<lparr>authorization_digest := d,
           auth_signatures := [sign_digest toy_crypto ''key'' ''kid'' PayloadTypeAuthorizationV1 d]\<rparr>"
    by (rule signed_mcp_eq)
  have fields: "issuer_id signed_mcp = ''iss''" "audience_id signed_mcp = ''aud''" "issued_at signed_mcp = 1000000000"
    "expires_at signed_mcp = 9000000000" "subject_id signed_mcp = ''s''" "subject_digest signed_mcp = ''sd''"
    "agent_id signed_mcp = ''ag''" "session_id signed_mcp = ''se''" "parent_agent_id signed_mcp = []"
    "operation_id signed_mcp = ''op:sha256:mc''" "tool_or_server_id signed_mcp = ''srv''"
    "argument_digest signed_mcp = ''sha256:{}''" "requested_capability signed_mcp = ''mcp.invoke''"
    "effective_scope signed_mcp = [''mcp.invoke'']" "allowed_targets signed_mcp = []" "policy_id signed_mcp = ''p''"
    "mcp_binding signed_mcp = Some \<lparr>mb_server_id = ''srv'', mb_tool_name = ''f'', mb_schema_digest = ''ab'',
       mb_argument_digest = ''sha256:{}''\<rparr>"
    by (simp_all add: e normalize_auth_def mcp_auth_def sample_auth_def sort_strings_def)
  have t: "trusted_public_keys sample_gateway = [''kid'' \<mapsto> PublicKeyBase64 toy_crypto ''key'']"
    by (simp add: sample_gateway_def new_execution_gateway_def)
  have c: "validate_structure signed_mcp = None \<and>
      compute_auth_digest toy_crypto signed_mcp = Some (authorization_digest signed_mcp) \<and> auth_signatures signed_mcp \<noteq> [] \<and>
      verified_key_id toy_crypto (trusted_public_keys sample_gateway)
        (dsse_pae PayloadTypeAuthorizationV1 (authorization_digest signed_mcp)) (auth_signatures signed_mcp) = ''kid''"
    using signed_authorization_valid [OF _ _ _ s, of "''kid''" "trusted_public_keys sample_gateway"] by (simp add: t)
  then have v: "verified_key toy_crypto sample_gateway signed_mcp = ''kid''" by (simp add: verified_key_def)
  show "check_authenticity toy_crypto sample_gateway signed_mcp = None"
    unfolding check_authenticity_None using c v by simp
  show "check_issuer toy_crypto sample_gateway signed_mcp = None"
    unfolding check_issuer_None v by (simp add: fields sample_gateway_def new_execution_gateway_def)
  show "check_identity sample_gateway 2000000000 signed_mcp sample_mcp_request = None"
    unfolding check_identity_None fields
    by (simp add: sample_mcp_request_eq sample_request_def sample_gateway_def new_execution_gateway_def)
  have ad: "canonical_argument_digest toy_crypto [] = Some ''sha256:{}''"
    by (simp add: canonical_argument_digest_def sha_digest_def toy_crypto_def)
  have "canonical_operation_id toy_crypto ''mcp.invoke'' ''srv'' ''f'' = ''op:sha256:mc''"
    by (simp add: canonical_operation_id_def toy_crypto_def plain_edge_def ascii_space_def)
  moreover have "scope_permits_operation [''mcp.invoke''] [] sample_mcp_request"
    by (simp add: scope_permits_operation_def target_permitted_def sample_mcp_request_eq)
  ultimately show "check_operation toy_crypto signed_mcp sample_mcp_request = None"
    unfolding check_operation_None fields using ad by (simp add: sample_mcp_request_eq sample_request_def)
  show "check_validity sample_gateway signed_mcp sample_mcp_request = None"
    unfolding check_validity_None fields
    by (simp add: sample_mcp_request_eq sample_request_def sample_gateway_def new_execution_gateway_def)
  show "check_file toy_crypto f signed_mcp sample_mcp_request = None"
    by (simp add: check_file_None sample_mcp_request_eq has_prefix_def)
  show "check_mcp toy_crypto signed_mcp sample_mcp_request = None"
    unfolding check_mcp_None fields using ad
    by (simp add: sample_mcp_request_eq sample_request_def actual_schema_digest_def plain_edge_def ascii_space_def)
qed

lemma sample_mcp_accepted:
  "fst (validate_authorization toy_crypto (sample_fs [] 0) sample_io 2000000000 sample_gateway Map.empty signed_mcp sample_mcp_request) = None"
proof -
  obtain d where e: "signed_mcp = (normalize_auth mcp_auth)\<lparr>authorization_digest := d,
           auth_signatures := [sign_digest toy_crypto ''key'' ''kid'' PayloadTypeAuthorizationV1 d]\<rparr>"
    by (rule signed_mcp_eq)
  have "authorization_id signed_mcp = ''az1''" "nonce signed_mcp = ''n1''"
    by (simp_all add: e normalize_auth_def mcp_auth_def sample_auth_def)
  moreover have "trim_space ''az1'' \<noteq> []" by (simp add: plain_edge_def ascii_space_def)
  ultimately show ?thesis
    using trim_space_n1 gate_checks_mcp
    by (simp add: validate_authorization_def consume_nonce_def sample_gateway_def new_execution_gateway_def
        consume_def new_nonce_ledger_def Let_def)
qed

lemma sample_call_forwarded:
  "\<exists>i' d'. inspect_message toy_crypto (sample_lib call_value) sample_env sample_interceptor Map.empty ''{}'' True =
     (Forwarded ''{}'', i', d')"
proof -
  let ?p = "\<lparr>tp_name = ''f'', tp_arguments = None, tp_authorization = Some signed_mcp, tp_meta = None\<rparr>"
  obtain g' d' where v: "validate_authorization toy_crypto (sample_fs [] 0) sample_io 2000000000 sample_gateway Map.empty
      signed_mcp sample_mcp_request = (None, g', d')"
    using sample_mcp_accepted
    by (cases "validate_authorization toy_crypto (sample_fs [] 0) sample_io 2000000000 sample_gateway Map.empty
      signed_mcp sample_mcp_request") simp
  have o': "io_gateway (ic_options sample_interceptor) = Some sample_gateway" "enforce_mode sample_interceptor"
    "ic_lock sample_interceptor = Some [(''f'', ''ab'')]" "io_on_forward (ic_options sample_interceptor) = None"
    "live_schema sample_interceptor ''f'' = None"
    by (simp_all add: sample_interceptor_def enforce_mode_def live_schema_def)
  have "locked_digest sample_interceptor ''f'' = Inr ''ab''"
    by (simp add: locked_digest_def o' plain_edge_def ascii_space_def)
  moreover have "authorize_call toy_crypto sample_env sample_interceptor Map.empty ?p ''ab'' =
      (None, sample_interceptor\<lparr>ic_options := (ic_options sample_interceptor)\<lparr>io_gateway := Some g'\<rparr>,
         ic_seq := ic_seq sample_interceptor + 1\<rparr>, d')"
    using v by (simp add: authorize_call_def o' presented_auth_def sample_env_def sample_mcp_request_def)
  ultimately have "\<exists>i'. check_call toy_crypto (sample_lib call_value) sample_env sample_interceptor Map.empty
      (Some (JObj [(''name'', JStr ''f''), (''_skil_authorization'', JObj [])])) = (None, i', d')"
    by (simp add: check_call_def decode_call_params check_live_schema_def o')
  moreover have "parse_json (sample_lib call_value) x = Some call_value" for x by (simp add: sample_lib_def)
  ultimately show ?thesis
    by (auto simp: inspect_message_def decode_call_value o' forward_def plain_edge_def ascii_space_def Let_def)
qed

lemma forwarded_call_is_authorized_witness:
  "\<exists>p auth. decode_params (sample_lib call_value) (Some (JObj [(''name'', JStr ''f''), (''_skil_authorization'', JObj [])])) = Inr p \<and>
     presented_auth p = Some auth \<and> requested_capability auth = ''mcp.invoke''"
proof -
  obtain i' d' where f: "inspect_message toy_crypto (sample_lib call_value) sample_env sample_interceptor Map.empty ''{}'' True =
     (Forwarded ''{}'', i', d')" using sample_call_forwarded by blast
  have g: "io_gateway (ic_options sample_interceptor) = Some sample_gateway" by (simp add: sample_interceptor_def)
  have p: "parse_json (sample_lib call_value) (trim_space ''{}'') = Some call_value" by (simp add: sample_lib_def)
  from forwarded_call_is_authorized [OF f g p decode_call_value] show ?thesis by auto
qed

text \<open>
  A message with two members whose names differ in case only: its text, for the text \<open>t\<close> of the parameters, and
  its members, for the value \<open>p\<close> of that text.
\<close>

definition quoted :: "string \<Rightarrow> string" where
  "quoted s = CHR 0x22 # s @ [CHR 0x22]"

definition smuggled_text :: "string \<Rightarrow> string" where
  "smuggled_text t = ''{'' @ quoted ''jsonrpc'' @ '':'' @ quoted ''2.0'' @ '','' @ quoted ''method'' @ '':'' @ quoted ''tools/call'' @
     '','' @ quoted ''Method'' @ '':'' @ quoted ''ping'' @ '','' @ quoted ''params'' @ '':'' @ t @ ''}''"

definition smuggled_call :: "json \<Rightarrow> (string \<times> json) list" where
  "smuggled_call p = [(''jsonrpc'', JStr ''2.0''), (''method'', JStr ''tools/call''), (''Method'', JStr ''ping''), (''params'', p)]"

text \<open>
  C20. Field names are matched without regard to case, and the last one wins, but the message is
  forwarded as it came.  When encoding/json reads the text of a message with the members method (tools/call) and
  Method (ping) as these members in their order, every interceptor passes it without a check: neither the lock
  nor the gateway is consulted, the state is unchanged, and only an \<open>OnForward\<close> hook, if there is one, can keep
  the text from the server, while a server that reads member names exactly executes the tools/call with these
  parameters.
\<close>

theorem method_smuggling:
  assumes "parse_json lib (smuggled_text t) = Some (JObj (smuggled_call p))"
  shows "map_of (smuggled_call p) ''method'' = Some (JStr ''tools/call'') \<and> map_of (smuggled_call p) ''params'' = Some p \<and>
    inspect_message cr lib env i d (smuggled_text t) True =
      (case io_on_forward (ic_options i) of
         None \<Rightarrow> Forwarded (smuggled_text t)
       | Some hook \<Rightarrow> if hook (smuggled_text t) then ForwardFailed else Forwarded (smuggled_text t), i, d)"
proof (intro conjI)
  have m: "decode_message lib (JObj (smuggled_call p)) =
      Some \<lparr>rm_jsonrpc = ''2.0'', rm_id = JNull, rm_method = ''ping'', rm_params = Some p, rm_result = None, rm_error = JNull\<rparr>"
    by (simp add: decode_message_def decode_struct_def smuggled_call_def empty_message_def message_field_def
        decode_string_def field_simps')
  have t: "trim_space (smuggled_text t) = smuggled_text t" "smuggled_text t \<noteq> []"
    by (simp_all add: smuggled_text_def quoted_def plain_edge_def ascii_space_def)
  show "inspect_message cr lib env i d (smuggled_text t) True =
      (case io_on_forward (ic_options i) of
         None \<Rightarrow> Forwarded (smuggled_text t)
       | Some hook \<Rightarrow> if hook (smuggled_text t) then ForwardFailed else Forwarded (smuggled_text t), i, d)"
    unfolding inspect_message_def t(1) Let_def using t(2)
    by (cases "io_on_forward (ic_options i)") (simp_all add: assms m forward_def plain_edge_def ascii_space_def)
qed (simp_all add: smuggled_call_def)

text \<open>A JSON library that reads this one text.\<close>

definition one_text_lib :: "string \<Rightarrow> json \<Rightarrow> json_lib" where
  "one_text_lib text v = \<lparr>parse_json = \<lambda>x. if x = text then Some v else None, decode_any = Some, unmarshal_auth = \<lambda>_ _. None\<rparr>"

lemma method_smuggling_witness:
  "let t = ''{'' @ quoted ''name'' @ '':'' @ quoted ''f'' @ ''}''; p = JObj [(''name'', JStr ''f'')] in
   inspect_message toy_crypto (one_text_lib (smuggled_text t) (JObj (smuggled_call p))) sample_env sample_interceptor Map.empty
     (smuggled_text t) True = (Forwarded (smuggled_text t), sample_interceptor, Map.empty)"
proof -
  have o': "io_on_forward (ic_options sample_interceptor) = None" by (simp add: sample_interceptor_def)
  have "parse_json (one_text_lib (smuggled_text t) (JObj (smuggled_call p))) (smuggled_text t) = Some (JObj (smuggled_call p))" for t p
    by (simp add: one_text_lib_def)
  from method_smuggling [OF this] show ?thesis by (simp add: o' Let_def)
qed

section \<open>Streams\<close>

text \<open>Inspection keeps the lock and the configuration, up to the state of the gateway.\<close>

definition same_setup :: "interceptor \<Rightarrow> interceptor \<Rightarrow> bool" where
  "same_setup i j \<longleftrightarrow> ic_lock j = ic_lock i \<and> io_error_out (ic_options j) = io_error_out (ic_options i) \<and>
     (io_gateway (ic_options j) = None \<longleftrightarrow> io_gateway (ic_options i) = None)"

lemma same_setup_refl [simp]: "same_setup i i"
  by (simp add: same_setup_def)

lemma same_setup_trans: "same_setup i j \<Longrightarrow> same_setup j k \<Longrightarrow> same_setup i k"
  by (simp add: same_setup_def)

lemma check_call_setup: "same_setup i (fst (snd (check_call cr lib env i d params)))"
  by (auto simp: check_call_def authorize_call_def same_setup_def case_prod_beta Let_def
      split: sum.split option.split)

lemma inspect_setup: "same_setup i (fst (snd (inspect_message cr lib env i d data c)))"
proof -
  have "fst (snd (inspect_message cr lib env i d data c)) = i \<or>
      (\<exists>params. fst (snd (inspect_message cr lib env i d data c)) = fst (snd (check_call cr lib env i d params)))"
    by (auto simp: inspect_message_def Let_def case_prod_beta split: option.split)
  then show ?thesis using check_call_setup by auto
qed

lemma inspect_Forwarded: "fst (inspect_message cr lib env i d data c) = Forwarded out \<Longrightarrow> out = data"
  by (auto simp: inspect_message_def Let_def case_prod_beta dest: forward_Forwarded split: if_splits option.splits)

lemma run_lines_server:
  assumes "ServerOut x \<in> set (fst (run_lines cr lib render env c n ls i d))" and "io_error_out (ic_options i)"
  shows "\<exists>m l i1 d1. x = l @ [CHR 0x0A] \<and> l \<in> set ls \<and> same_setup i i1 \<and>
    fst (inspect_message cr lib (env m) i1 d1 l c) = Forwarded l"
  using assms
proof (induction ls arbitrary: n i d)
  case Nil
  then show ?case by simp
next
  case (Cons l ls)
  obtain v i1 d1 where v: "inspect_message cr lib (env n) i d l c = (v, i1, d1)"
    by (cases "inspect_message cr lib (env n) i d l c")
  have s: "same_setup i i1" using inspect_setup [of i cr lib "env n" d l c] by (simp add: v)
  obtain ws ok i2 d2 where r: "run_lines cr lib render env c (Suc n) ls i1 d1 = (ws, ok, i2, d2)"
    by (cases "run_lines cr lib render env c (Suc n) ls i1 d1")
  consider (head) "\<not> blocked v" "x = reply_text render v @ [CHR 0x0A]" | (tail) "ServerOut x \<in> set ws"
    using Cons.prems by (auto simp: v r Let_def split: if_splits)
  then show ?case
  proof cases
    case head
    then obtain out where "v = Forwarded out" by (cases v) (auto simp: blocked_def)
    moreover from this have "out = l" using inspect_Forwarded [of cr lib "env n" i d l c out] by (simp add: v)
    ultimately show ?thesis using head by (intro exI [of _ n] exI [of _ l] exI [of _ i] exI [of _ d]) (simp add: v reply_text_def)
  next
    case tail
    have "io_error_out (ic_options i1)" using s Cons.prems(2) by (simp add: same_setup_def)
    from Cons.IH [of "Suc n" i1 d1] tail this obtain m l' i3 d3 where
      "x = l' @ [CHR 0x0A]" "l' \<in> set ls" "same_setup i1 i3" "fst (inspect_message cr lib (env m) i3 d3 l' c) = Forwarded l'"
      by (auto simp: r)
    with same_setup_trans [OF s] show ?thesis by (intro exI [of _ m] exI [of _ l'] exI [of _ i3] exI [of _ d3]) simp
  qed
qed

text \<open>
  On a client stream with a separate sink for replies, whatever is written to the server is a
  line of the input that the interceptor, with the same lock and a gateway, has let pass, unchanged;
  replies to blocked messages go to the other sink only.
\<close>

theorem stream_protects_server:
  assumes "run_stream cr lib render env input True i d = (ws, ok, i', d')"
    and "ServerOut x \<in> set ws" and "io_error_out (ic_options i)" and "io_gateway (ic_options i) \<noteq> None"
  shows "\<exists>m l i1 d1 i2 d2. x = l @ [CHR 0x0A] \<and> l \<in> set (fst (scan_lines input)) \<and> length l < 1048576 \<and>
    ic_lock i1 = ic_lock i \<and> io_gateway (ic_options i1) \<noteq> None \<and>
    inspect_message cr lib (env m) i1 d1 l True = (Forwarded l, i2, d2)"
proof -
  obtain ls fin where l: "scan_lines input = (ls, fin)" by (cases "scan_lines input")
  have "ws = fst (run_lines cr lib render env True 0 ls i d)"
    using assms(1) by (auto simp: run_stream_def l case_prod_beta)
  with run_lines_server [of x cr lib render env True 0 ls i d] assms(2,3) obtain m l i1 d1 where
    x: "x = l @ [CHR 0x0A]" "l \<in> set ls" "same_setup i i1" "fst (inspect_message cr lib (env m) i1 d1 l True) = Forwarded l"
    by auto
  have short: "l \<in> set (fst (take_lines xs)) \<Longrightarrow> length l < 1048576" for xs
    by (induction xs) (auto simp: drop_cr_def Let_def case_prod_beta split: if_splits)
  obtain i2 d2 where "inspect_message cr lib (env m) i1 d1 l True = (Forwarded l, i2, d2)"
    using x(4) by (cases "inspect_message cr lib (env m) i1 d1 l True") simp
  moreover have "length l < 1048576" using short [of "split_char (CHR 0x0A) input"] x(2) l by (simp add: scan_lines_def)
  ultimately show ?thesis using x assms(4) unfolding l same_setup_def by fastforce
qed

lemma stream_protects_server_witness:
  "\<exists>i1 d1 i2 d2. inspect_message toy_crypto (sample_lib call_value) sample_env i1 d1 ''{}'' True = (Forwarded ''{}'', i2, d2)"
proof -
  obtain i' d' where f: "inspect_message toy_crypto (sample_lib call_value) sample_env sample_interceptor Map.empty ''{}'' True =
     (Forwarded ''{}'', i', d')" using sample_call_forwarded by blast
  have "scan_lines ''{}'' = ([''{}''], True)" by (simp add: scan_lines_def drop_cr_def)
  then have r: "run_stream toy_crypto (sample_lib call_value) (\<lambda>_ _. []) (\<lambda>_. sample_env) ''{}'' True sample_interceptor Map.empty =
      ([ServerOut (''{}'' @ [CHR 0x0A])], True, i', d')"
    by (simp add: run_stream_def f blocked_def reply_text_def Let_def)
  have "io_error_out (ic_options sample_interceptor)" "io_gateway (ic_options sample_interceptor) \<noteq> None"
    by (simp_all add: sample_interceptor_def)
  from stream_protects_server [OF r _ this, of "''{}'' @ [CHR 0x0A]"] show ?thesis by auto
qed

end
