(* ===== verification/Scan_Model.thy ===== *)
theory Scan_Model
  imports Complex_Main Contract Go_Encoding Assurance
begin

text \<open>
  The result of a scan, pkg/skil/models.go: statuses and verdicts, findings and capability observations,
  the artifact, the assurance closure and the parts of \<open>ScanResult\<close> that verification and policy read.
  Labels are strings, as in the code, because they come from files.

  A \<open>float64\<close> is \<open>NaN\<close> or a rational: every finite value is one, and comparisons of finite values are
  exact.  Where the code computes with one, the rounding is a parameter.
\<close>

section \<open>Labels\<close>

definition StatusPass :: string where "StatusPass = ''PASS''"
definition StatusWarn :: string where "StatusWarn = ''WARN''"
definition StatusFail :: string where "StatusFail = ''FAIL''"
definition StatusError :: string where "StatusError = ''ERROR''"

lemmas status_defs = StatusPass_def StatusWarn_def StatusFail_def StatusError_def

definition VerdictClear :: string where "VerdictClear = ''CLEAR''"
definition VerdictReview :: string where "VerdictReview = ''REVIEW''"
definition VerdictBlock :: string where "VerdictBlock = ''BLOCK''"

definition AssuranceSafe :: string where "AssuranceSafe = ''SAFE''"
definition AssuranceUnsafe :: string where "AssuranceUnsafe = ''UNSAFE''"
definition AssuranceUnknown :: string where "AssuranceUnknown = ''UNKNOWN''"

lemmas assurance_state_defs = AssuranceSafe_def AssuranceUnsafe_def AssuranceUnknown_def

definition AnalysisCompleted :: string where "AnalysisCompleted = ''completed''"
definition AnalysisIncomplete :: string where "AnalysisIncomplete = ''incomplete''"
definition AnalysisFailed :: string where "AnalysisFailed = ''failed''"
definition AnalysisNotRun :: string where "AnalysisNotRun = ''not_run''"

definition VerificationVerified :: string where "VerificationVerified = ''verified''"
definition VerificationFailed :: string where "VerificationFailed = ''failed''"
definition VerificationUnresolved :: string where "VerificationUnresolved = ''unresolved''"
definition VerificationNotNeeded :: string where "VerificationNotNeeded = ''not_required''"

lemmas verification_defs =
  VerificationVerified_def VerificationFailed_def VerificationUnresolved_def VerificationNotNeeded_def

definition CoverageCompleted :: string where "CoverageCompleted = ''completed''"
definition AnalyzabilityOpaque :: string where "AnalyzabilityOpaque = ''opaque''"

section \<open>Numbers\<close>

datatype float64 = NaN | Finite rat

fun f_less :: "float64 \<Rightarrow> float64 \<Rightarrow> bool" where
  "f_less (Finite a) (Finite b) = (a < b)"
| "f_less _ _ = False"

section \<open>Findings and observations\<close>

record location =
  loc_file :: string
  loc_start :: int
  loc_end :: int

definition location_json :: "location \<Rightarrow> json" where
  "location_json l = JObj ([(''file'', JStr (loc_file l))] @ omit_int ''start_line'' (loc_start l) @
     omit_int ''end_line'' (loc_end l))"

definition no_location :: location where
  "no_location = \<lparr>loc_file = [], loc_start = 0, loc_end = 0\<rparr>"

text \<open>A value of type \<open>any\<close> is what it is as JSON.\<close>

type_synonym evidence_map = "string \<rightharpoonup> json"

record finding =
  fi_id :: string
  fi_rule_id :: string
  fi_category :: string
  fi_severity :: string
  fi_confidence :: float64
  fi_title :: string
  fi_message :: string
  fi_description :: string
  fi_location :: location
  fi_evidence :: evidence_map
  fi_remediation :: string
  fi_references :: "string list"
  fi_fingerprint :: string
  fi_suppressed :: bool
  fi_suppression_reason :: string
  fi_context_disposition :: string
  fi_context_reason :: string

record capability_observation =
  co_capability :: string
  co_value :: string
  co_location :: location
  co_analyzer :: string
  co_evidence :: evidence_map

record observed_capabilities =
  oc_filesystem_read :: bool
  oc_filesystem_write :: bool
  oc_filesystem_delete :: bool
  oc_filesystem_paths :: "string list"
  oc_network_outbound :: bool
  oc_network_hosts :: "string list"
  oc_commands_execute :: bool
  oc_commands :: "string list"
  oc_secrets_read :: bool
  oc_secrets :: "string list"
  oc_persistence :: bool
  oc_external_side_effects :: bool
  oc_environment_read :: bool
  oc_environment :: "string list"
  oc_tools :: "string list"
  oc_mcp_servers :: "string list"
  oc_mcp_tools :: "string list"

definition zero_observed :: observed_capabilities where
  "zero_observed = \<lparr>oc_filesystem_read = False, oc_filesystem_write = False, oc_filesystem_delete = False,
     oc_filesystem_paths = [], oc_network_outbound = False, oc_network_hosts = [], oc_commands_execute = False,
     oc_commands = [], oc_secrets_read = False, oc_secrets = [], oc_persistence = False,
     oc_external_side_effects = False, oc_environment_read = False, oc_environment = [], oc_tools = [],
     oc_mcp_servers = [], oc_mcp_tools = []\<rparr>"

definition zero_finding :: finding where
  "zero_finding = \<lparr>fi_id = [], fi_rule_id = [], fi_category = [], fi_severity = [], fi_confidence = Finite 0,
     fi_title = [], fi_message = [], fi_description = [], fi_location = no_location, fi_evidence = Map.empty,
     fi_remediation = [], fi_references = [], fi_fingerprint = [], fi_suppressed = False,
     fi_suppression_reason = [], fi_context_disposition = [], fi_context_reason = []\<rparr>"

section \<open>The artifact\<close>

record artifact =
  ar_name :: string
  ar_version :: string
  ar_source :: string
  ar_digest :: string
  ar_package_digest :: string

text \<open>\<open>Artifact.SubjectDigest\<close>.\<close>

definition artifact_subject_digest :: "artifact \<Rightarrow> string" where
  "artifact_subject_digest a = (if ar_package_digest a \<noteq> [] then ar_package_digest a else ar_digest a)"

section \<open>The assurance closure\<close>

record closure_node =
  cn_id :: string
  cn_kind :: string
  cn_source :: string
  cn_digest :: string
  cn_parent_digest :: string
  cn_depth :: int
  cn_scan_status :: string
  cn_maximum_severity :: string
  cn_verdict :: string
  cn_required :: bool
  cn_resolved :: bool
  cn_analyzed :: bool
  cn_findings :: "string list"
  cn_analysis_status :: string
  cn_verification :: string

record closure_edge =
  ce_from :: string
  ce_to :: string
  ce_relation :: string

record assurance_closure =
  cl_root_digest :: string
  cl_nodes :: "closure_node list"
  cl_edges :: "closure_edge list"
  cl_maximum_severity :: string
  cl_complete :: bool
  cl_limitations :: "string list"
  cl_digest :: string
  cl_state :: string
  cl_verified :: bool
  cl_required_nodes :: int
  cl_unresolved_nodes :: int
  cl_blocking_findings :: int
  cl_max_depth :: int

section \<open>Scan results\<close>

record analyzability_record =
  an_path :: string
  an_binary_kind :: string
  an_executable :: bool
  an_state :: string
  an_reason :: string

record scan_result =
  scan_artifact :: artifact
  scan_status :: string
  scan_verdict :: string
  scan_risk_score :: int
  scan_maximum :: string
  scan_findings :: "finding list"
  scan_observations :: "capability_observation list"
  scan_coverage :: "(string \<times> string) list"
  scan_scanners :: "string list"
  scan_completeness :: float64
  scan_analyzability :: "analyzability_record list"
  scan_analyzable :: float64
  scan_exceeded :: "string list"
  scan_closure :: "assurance_closure option"

end
