(* ===== verification/Continuous.thy ===== *)
theory Continuous
  imports Scan_Model "HOL-Library.AList" "HOL-Library.Product_Lexorder"
begin

text \<open>
  The continuous assurance engine, internal/continuous/engine.go: registration of an assured
  subject, drift events, reconciliation against an observed environment, the validity oracle and
  the plan for selective re-assurance.

  The maps of the engine are association lists: the order of \<open>records\<close> is the order in which a
  range over the map visits it (Go leaves it open).  Records are values; a slice or map a caller
  passes in and changes later is not modelled.  Reasons are values of a datatype instead of
  formatted texts.  The clock reading of a call is the argument \<open>now\<close>.
\<close>

section \<open>Dependencies and the evidence graph\<close>

definition DepSkillContentDigest :: string where "DepSkillContentDigest = ''skill_content_digest''"
definition DepModelIdentity :: string where "DepModelIdentity = ''model_identity''"
definition DepProviderIdentity :: string where "DepProviderIdentity = ''provider_identity''"
definition DepToolSchema :: string where "DepToolSchema = ''tool_schema''"
definition DepPackageDigest :: string where "DepPackageDigest = ''package_digest''"
definition DepRuntimeCapabilities :: string where "DepRuntimeCapabilities = ''runtime_capabilities''"
definition DepPolicyVersion :: string where "DepPolicyVersion = ''policy_version''"
definition DepVerificationEnvironment :: string where "DepVerificationEnvironment = ''verification_environment''"

definition EvidenceVerified :: string where "EvidenceVerified = ''VERIFIED''"

abbreviation EvidenceUnknown :: string where "EvidenceUnknown \<equiv> ''UNKNOWN''"

record assurance_dependency =
  ad_kind :: string
  ad_identity :: string
  ad_digest :: string
  ad_state :: string
  ad_control_ids :: "string list"

definition dep_key :: "assurance_dependency \<Rightarrow> string" where
  "dep_key d = ad_kind d @ '':'' @ ad_identity d"

record graph_node =
  gn_id :: string
  gn_kind :: string
  gn_ref_id :: string
  gn_state :: string
  gn_location :: location
  gn_detail :: string

record graph_edge =
  ge_from :: string
  ge_to :: string
  ge_relation :: string
  ge_state :: string
  ge_rationale :: string

record evidence_graph =
  eg_nodes :: "graph_node list"
  eg_edges :: "graph_edge list"
  eg_digest :: string

definition node_json :: "graph_node \<Rightarrow> json" where
  "node_json n = JObj ([(''id'', JStr (gn_id n)), (''kind'', JStr (gn_kind n)), (''ref_id'', JStr (gn_ref_id n)),
     (''state'', JStr (gn_state n)), (''location'', location_json (gn_location n))] @ omit_str ''detail'' (gn_detail n))"

definition edge_json :: "graph_edge \<Rightarrow> json" where
  "edge_json e = JObj ([(''from'', JStr (ge_from e)), (''to'', JStr (ge_to e)), (''relation'', JStr (ge_relation e)),
     (''state'', JStr (ge_state e))] @ omit_str ''rationale'' (ge_rationale e))"

definition graph_json :: "evidence_graph \<Rightarrow> json" where
  "graph_json g = JObj
     [(''nodes'', if eg_nodes g = [] then JNull else JArr (map node_json (eg_nodes g))),
      (''edges'', if eg_edges g = [] then JNull else JArr (map edge_json (eg_edges g))),
      (''digest'', JStr (eg_digest g))]"

text \<open>The node a dependency becomes, and its edge from the subject.\<close>

definition dep_state :: "assurance_dependency \<Rightarrow> string" where
  "dep_state d = (if ad_state d = [] \<or> ad_digest d = [] then EvidenceUnknown else ad_state d)"

definition dep_node_id :: "crypto \<Rightarrow> assurance_dependency \<Rightarrow> string" where
  "dep_node_id cr d = ''assurance-dep:'' @
     take 16 (sha256_hex cr (ad_kind d @ CHR 0x00 # ad_identity d @ CHR 0x00 # ad_digest d))"

definition dep_node :: "crypto \<Rightarrow> assurance_dependency \<Rightarrow> graph_node" where
  "dep_node cr d = \<lparr>gn_id = dep_node_id cr d, gn_kind = ''assurance-dependency'', gn_ref_id = dep_key d,
     gn_state = dep_state d, gn_location = no_location, gn_detail = ad_digest d\<rparr>"

definition dep_edge :: "crypto \<Rightarrow> string \<Rightarrow> assurance_dependency \<Rightarrow> graph_edge" where
  "dep_edge cr subject d = \<lparr>ge_from = subject, ge_to = dep_node_id cr d, ge_relation = ''depends-on-assurance'',
     ge_state = dep_state d,
     ge_rationale = ''assurance depends on '' @ ad_kind d @ '' ('' @ ad_identity d @ '')''\<rparr>"

text \<open>The index map \<open>seenNodes\<close> holds the last index of an identifier.\<close>

fun put_node :: "graph_node \<Rightarrow> graph_node list \<Rightarrow> graph_node list" where
  "put_node n [] = [n]"
| "put_node n (m # ms) =
     (if gn_id m = gn_id n \<and> gn_id n \<notin> gn_id ` set ms then n # ms else m # put_node n ms)"

definition edge_key :: "graph_edge \<Rightarrow> string" where
  "edge_key e = ge_from e @ CHR 0x00 # ge_to e @ CHR 0x00 # ge_relation e"

definition put_edge :: "graph_edge \<Rightarrow> graph_edge list \<Rightarrow> graph_edge list" where
  "put_edge e es = (if edge_key e \<in> edge_key ` set es then es else es @ [e])"

definition attach_dependencies ::
  "crypto \<Rightarrow> evidence_graph option \<Rightarrow> string \<Rightarrow> string \<Rightarrow> assurance_dependency list \<Rightarrow> evidence_graph" where
  "attach_dependencies cr graph subject_node subject_digest deps =
     (let g = (case graph of None \<Rightarrow> \<lparr>eg_nodes = [], eg_edges = [], eg_digest = []\<rparr> | Some g \<Rightarrow> g);
          subject = (if subject_node = [] then ''subject:'' @ subject_digest else subject_node);
          nodes0 = (if subject \<in> gn_id ` set (eg_nodes g) then eg_nodes g
                    else eg_nodes g @ [\<lparr>gn_id = subject, gn_kind = ''subject'', gn_ref_id = subject_digest,
                           gn_state = EvidenceVerified, gn_location = no_location,
                           gn_detail = ''assured subject root''\<rparr>]);
          nodes = sort_key gn_id (fold (\<lambda>d. put_node (dep_node cr d)) deps nodes0);
          edges = sort_key (\<lambda>e. (ge_from e, ge_to e, ge_relation e))
                    (fold (\<lambda>d. put_edge (dep_edge cr subject d)) deps (eg_edges g));
          g' = \<lparr>eg_nodes = nodes, eg_edges = edges, eg_digest = []\<rparr>
      in case canonical_json (graph_json g') of
           Some raw \<Rightarrow> g'\<lparr>eg_digest := sha256_hex cr raw\<rparr>
         | None \<Rightarrow> g'\<lparr>eg_digest := eg_digest g\<rparr>)"

section \<open>Validity conditions\<close>

datatype validity_state = ProofValid | ProofStale | ProofInvalidated | ProofUnknown

record validity_conditions =
  vc_subject_id :: string
  vc_subject_source :: string
  vc_subject_digest :: string
  vc_policy_id :: string
  vc_policy_digest :: string
  vc_provider_identity :: string
  vc_provider_config_digest :: string
  vc_model_identity :: string
  vc_verification_env_digest :: string
  vc_tool_schema_digests :: "(string \<times> string) list"
  vc_runtime_capabilities :: "string list"
  vc_dependencies :: "assurance_dependency list"
  vc_required_evidence_ids :: "string list"
  vc_unobserved_assumptions :: "string list"
  vc_issued_at :: time
  vc_expires_at :: time
  vc_max_reconciliation_interval :: duration

datatype validity_error =
    NoSubject
  | NoPolicy
  | NoEnvironment
  | NoRequiredEvidence
  | Unobserved "string list"
  | UnknownDependency string string

definition unknown_dependency :: "assurance_dependency \<Rightarrow> bool" where
  "unknown_dependency d \<longleftrightarrow> ad_digest d = [] \<or> ad_state d = [] \<or> ad_state d = EvidenceUnknown"

definition validate_conditions :: "validity_conditions \<Rightarrow> validity_error option" where
  "validate_conditions c = first_some
     ([check (trim_space (vc_subject_id c) = [] \<or> trim_space (vc_subject_source c) = [] \<or>
              trim_space (vc_subject_digest c) = []) NoSubject,
       check (trim_space (vc_policy_id c) = [] \<or> trim_space (vc_policy_digest c) = []) NoPolicy,
       check (trim_space (vc_verification_env_digest c) = []) NoEnvironment,
       check (vc_required_evidence_ids c = []) NoRequiredEvidence,
       check (vc_unobserved_assumptions c \<noteq> []) (Unobserved (vc_unobserved_assumptions c))] @
      map (\<lambda>d. check (unknown_dependency d) (UnknownDependency (ad_kind d) (ad_identity d))) (vc_dependencies c))"

section \<open>The engine\<close>

datatype drift_reason =
    InvalidConditions validity_error
  | InvalidControl control_error
  | DigestDrift string string string
  | ProviderDrift string string
  | CapabilityDrift string
  | Reconciled "drift_reason list"
  | ValidityExpired
  | HeartbeatExceeded

record subject_record =
  sr_subject_id :: string
  sr_subject_digest :: string
  sr_evidence_digest :: string
  sr_state :: validity_state
  sr_reasons :: "drift_reason list"
  sr_validity :: validity_conditions
  sr_controls :: "control_proof list"
  sr_decisions :: "(string \<times> bool) list"
  sr_graph :: evidence_graph
  sr_last_reconciled :: time
  sr_reverify :: bool

record drift_event =
  ev_id :: string
  ev_subject_id :: string
  ev_kind :: string
  ev_identity :: string
  ev_new_digest :: string
  ev_occurred_at :: time

record environment_snapshot =
  es_subject_digests :: "string \<rightharpoonup> string"
  es_policy_id :: string
  es_policy_digest :: string
  es_provider_identity :: string
  es_provider_config_digest :: string
  es_model_identity :: string
  es_verification_env_digest :: string
  es_tool_schema_digests :: "string \<rightharpoonup> string"
  es_runtime_capabilities :: "string list"
  es_observed_dependencies :: "string \<rightharpoonup> (string \<rightharpoonup> string)"

datatype registration_or_drift = Registered | Drifted drift_reason

record transition =
  tr_timestamp :: time
  tr_subject_id :: string
  tr_subject_digest :: string
  tr_previous :: validity_state
  tr_new :: validity_state
  tr_trigger :: string
  tr_drift_kind :: string
  tr_drift_identity :: string
  tr_reason :: registration_or_drift
  tr_invalidated_decisions :: "string list"
  tr_reverify :: bool
  tr_retroactive_claimed :: bool

record cached_control =
  cc_key :: string
  cc_subject_id :: string
  cc_subject_source :: string
  cc_subject_digest :: string
  cc_provider_identity :: string
  cc_provider_config_digest :: string
  cc_tool_schema_digest :: string
  cc_policy_digest :: string
  cc_verification_env_digest :: string
  cc_dependency_digests :: "(string \<times> string) list"
  cc_proof :: control_proof

record engine =
  en_records :: "(string \<times> subject_record) list"
  en_by_subject_id :: "(string \<times> string) list"
  en_cache :: "(string \<times> cached_control) list"
  en_transitions :: "transition list"

definition new_engine :: engine where
  "new_engine = \<lparr>en_records = [], en_by_subject_id = [], en_cache = [], en_transitions = []\<rparr>"

definition control_cache_key :: "crypto \<Rightarrow> string \<Rightarrow> string \<Rightarrow> string \<Rightarrow> string" where
  "control_cache_key cr subject_id subject_digest control_id = ''ctrl-cache:'' @
     sha256_hex cr (subject_id @ CHR 0x00 # subject_digest @ CHR 0x00 # control_id)"

definition digest_tool_schemas :: "crypto \<Rightarrow> (string \<times> string) list \<Rightarrow> string" where
  "digest_tool_schemas cr m =
     (if m = [] then []
      else sha_digest cr (case canonical_json (JObj (map (\<lambda>(k, v). (k, JStr v)) m)) of None \<Rightarrow> [] | Some raw \<Rightarrow> raw))"

section \<open>Registration\<close>

text \<open>The defaults of 15 minutes and 24 hours.\<close>

definition default_conditions :: "time \<Rightarrow> validity_conditions \<Rightarrow> validity_conditions" where
  "default_conditions now v =
     (let issued = (if time_is_zero (vc_issued_at v) then now else vc_issued_at v) in
      v\<lparr>vc_issued_at := issued,
        vc_max_reconciliation_interval :=
          (if vc_max_reconciliation_interval v \<le> 0 then 900000000000 else vc_max_reconciliation_interval v),
        vc_expires_at := (if time_is_zero (vc_expires_at v) then issued + 86400000000000 else vc_expires_at v)\<rparr>)"

definition registration_reasons :: "validity_conditions \<Rightarrow> control_proof list \<Rightarrow> drift_reason list" where
  "registration_reasons v controls =
     (case validate_conditions v of None \<Rightarrow> [] | Some e \<Rightarrow> [InvalidConditions e]) @
     List.map_filter (\<lambda>c. map_option InvalidControl (validate_control c)) (filter cp_required controls)"

definition cache_entry :: "crypto \<Rightarrow> validity_conditions \<Rightarrow> control_proof \<Rightarrow> cached_control" where
  "cache_entry cr v c =
     \<lparr>cc_key = control_cache_key cr (vc_subject_id v) (vc_subject_digest v) (cp_control_id c),
      cc_subject_id = vc_subject_id v, cc_subject_source = vc_subject_source v,
      cc_subject_digest = vc_subject_digest v, cc_provider_identity = vc_provider_identity v,
      cc_provider_config_digest = vc_provider_config_digest v,
      cc_tool_schema_digest = digest_tool_schemas cr (vc_tool_schema_digests v),
      cc_policy_digest = vc_policy_digest v, cc_verification_env_digest = vc_verification_env_digest v,
      cc_dependency_digests = fold (\<lambda>d. AList.update (dep_key d) (ad_digest d))
        (filter (\<lambda>d. ad_control_ids d = [] \<or> cp_control_id c \<in> set (ad_control_ids d)) (vc_dependencies v)) [],
      cc_proof = c\<rparr>"

definition register_assurance ::
  "crypto \<Rightarrow> time \<Rightarrow> validity_conditions \<Rightarrow> string \<Rightarrow> control_proof list \<Rightarrow> string list \<Rightarrow>
   evidence_graph option \<Rightarrow> engine \<Rightarrow> subject_record \<times> engine" where
  "register_assurance cr now v0 evidence_digest controls decision_ids graph e =
     (let v = default_conditions now v0;
          reasons = registration_reasons v controls;
          state = (if reasons = [] then ProofValid else ProofUnknown);
          r = \<lparr>sr_subject_id = vc_subject_id v, sr_subject_digest = vc_subject_digest v,
               sr_evidence_digest = evidence_digest, sr_state = state, sr_reasons = reasons,
               sr_validity = v, sr_controls = controls,
               sr_decisions = fold (\<lambda>i. AList.update i (state = ProofValid))
                 (filter (\<lambda>i. trim_space i \<noteq> []) decision_ids) [],
               sr_graph = attach_dependencies cr graph (''subject:'' @ vc_subject_digest v)
                 (vc_subject_digest v) (vc_dependencies v),
               sr_last_reconciled = now, sr_reverify = (state \<noteq> ProofValid)\<rparr>;
          t = \<lparr>tr_timestamp = now, tr_subject_id = vc_subject_id v, tr_subject_digest = vc_subject_digest v,
               tr_previous = ProofUnknown, tr_new = state, tr_trigger = ''register_assurance'',
               tr_drift_kind = [], tr_drift_identity = [], tr_reason = Registered,
               tr_invalidated_decisions = [], tr_reverify = (state \<noteq> ProofValid),
               tr_retroactive_claimed = False\<rparr>;
          cache = (if state = ProofValid
                   then fold (\<lambda>c. AList.update (cc_key (cache_entry cr v c)) (cache_entry cr v c))
                          (filter cp_complete controls) (en_cache e)
                   else en_cache e)
      in (r, e\<lparr>en_records := AList.update (vc_subject_digest v) r (en_records e),
                en_by_subject_id := AList.update (vc_subject_id v) (vc_subject_digest v) (en_by_subject_id e),
                en_cache := cache, en_transitions := en_transitions e @ [t]\<rparr>))"

section \<open>Invalidation\<close>

definition invalidate_record ::
  "validity_state \<Rightarrow> string \<Rightarrow> string \<Rightarrow> string \<Rightarrow> drift_reason \<Rightarrow> time \<Rightarrow> subject_record \<Rightarrow>
   subject_record \<times> transition" where
  "invalidate_record new trigger kind identity reason now r =
     (r\<lparr>sr_state := new, sr_reasons := sr_reasons r @ [reason], sr_reverify := True,
        sr_decisions := map (\<lambda>(i, _). (i, False)) (sr_decisions r)\<rparr>,
      \<lparr>tr_timestamp = now, tr_subject_id = sr_subject_id r, tr_subject_digest = sr_subject_digest r,
       tr_previous = sr_state r, tr_new = new, tr_trigger = trigger, tr_drift_kind = kind,
       tr_drift_identity = identity, tr_reason = Drifted reason,
       tr_invalidated_decisions = sort_strings (map fst (sr_decisions r)), tr_reverify = True,
       tr_retroactive_claimed = False\<rparr>)"

text \<open>A range over the records whose body may replace the record and emit a transition.\<close>

fun range_records ::
  "(subject_record \<Rightarrow> subject_record \<times> transition option) \<Rightarrow> (string \<times> subject_record) list \<Rightarrow>
   (string \<times> subject_record) list \<times> transition list" where
  "range_records f [] = ([], [])"
| "range_records f ((k, r) # rs) =
     (let (r', t) = f r; (rs', ts) = range_records f rs
      in ((k, r') # rs', (case t of None \<Rightarrow> ts | Some x \<Rightarrow> x # ts)))"

section \<open>Drift events\<close>

definition kind_drift :: "subject_record \<Rightarrow> drift_event \<Rightarrow> drift_reason option" where
  "kind_drift r ev =
     (let v = sr_validity r; new = ev_new_digest ev; k = ev_kind ev in
      if k = DepSkillContentDigest \<or> k = DepPackageDigest then
        check (new \<noteq> sr_subject_digest r) (DigestDrift k (sr_subject_digest r) new)
      else if k = DepPolicyVersion then
        check (new \<noteq> vc_policy_digest v) (DigestDrift k (vc_policy_digest v) new)
      else if k = DepProviderIdentity then
        check (ev_identity ev \<noteq> vc_provider_identity v \<or> (new \<noteq> [] \<and> new \<noteq> vc_provider_config_digest v))
          (ProviderDrift (ev_identity ev) new)
      else if k = DepModelIdentity then
        check (ev_identity ev \<noteq> vc_model_identity v \<and> new \<noteq> vc_model_identity v)
          (DigestDrift k (vc_model_identity v) (ev_identity ev))
      else if k = DepVerificationEnvironment then
        check (new \<noteq> vc_verification_env_digest v) (DigestDrift k (vc_verification_env_digest v) new)
      else if k = DepToolSchema then
        check (map_of (vc_tool_schema_digests v) (ev_identity ev) \<noteq> Some new)
          (DigestDrift k (ev_identity ev) new)
      else if k = DepRuntimeCapabilities then
        check (ev_identity ev \<notin> set (vc_runtime_capabilities v) \<or> new = ''ESCALATED'')
          (CapabilityDrift (ev_identity ev))
      else None)"

definition evaluate_event :: "subject_record \<Rightarrow> drift_event \<Rightarrow> drift_reason option" where
  "evaluate_event r ev = first_some
     (kind_drift r ev #
      map (\<lambda>d. check (ad_kind d = ev_kind ev \<and> ad_identity d = ev_identity ev \<and> ad_digest d \<noteq> ev_new_digest ev)
                 (DigestDrift (ad_kind d) (ad_digest d) (ev_new_digest ev))) (vc_dependencies (sr_validity r)))"

definition event_step :: "time \<Rightarrow> drift_event \<Rightarrow> subject_record \<Rightarrow> subject_record \<times> transition option" where
  "event_step now ev r =
     (if ev_subject_id ev \<noteq> [] \<and> sr_subject_id r \<noteq> ev_subject_id ev then (r, None)
      else case evaluate_event r ev of
        None \<Rightarrow> (r, None)
      | Some reason \<Rightarrow>
          (let (r', t) = invalidate_record ProofInvalidated (''drift_event:'' @ ev_id ev) (ev_kind ev)
                 (ev_identity ev) reason now r
           in (r', Some t)))"

definition ingest_drift_event :: "time \<Rightarrow> drift_event \<Rightarrow> engine \<Rightarrow> transition list \<times> engine" where
  "ingest_drift_event now ev e =
     (let (rs, ts) = range_records (event_step now ev) (en_records e)
      in (ts, e\<lparr>en_records := rs, en_transitions := en_transitions e @ ts\<rparr>))"

section \<open>Reconciliation\<close>

type_synonym mark = "string \<times> string \<times> drift_reason"

definition mark_if :: "bool \<Rightarrow> string \<Rightarrow> string \<Rightarrow> drift_reason \<Rightarrow> mark list" where
  "mark_if c k i r = (if c then [(k, i, r)] else [])"

definition reconcile_marks :: "environment_snapshot \<Rightarrow> subject_record \<Rightarrow> mark list" where
  "reconcile_marks s r =
     (let v = sr_validity r in
      (case es_subject_digests s (sr_subject_id r) of
         None \<Rightarrow> []
       | Some actual \<Rightarrow> mark_if (actual \<noteq> sr_subject_digest r) DepSkillContentDigest (sr_subject_id r)
           (DigestDrift DepSkillContentDigest (sr_subject_digest r) actual)) @
      mark_if (es_policy_digest s \<noteq> [] \<and> es_policy_digest s \<noteq> vc_policy_digest v) DepPolicyVersion
        (vc_policy_id v) (DigestDrift DepPolicyVersion (vc_policy_digest v) (es_policy_digest s)) @
      mark_if (es_provider_identity s \<noteq> [] \<and> es_provider_identity s \<noteq> vc_provider_identity v) DepProviderIdentity
        (es_provider_identity s) (ProviderDrift (vc_provider_identity v) (es_provider_identity s)) @
      mark_if (es_provider_config_digest s \<noteq> [] \<and> vc_provider_config_digest v \<noteq> [] \<and>
               es_provider_config_digest s \<noteq> vc_provider_config_digest v) DepProviderIdentity
        (vc_provider_identity v) (ProviderDrift (vc_provider_identity v) (es_provider_config_digest s)) @
      mark_if (es_model_identity s \<noteq> [] \<and> vc_model_identity v \<noteq> [] \<and> es_model_identity s \<noteq> vc_model_identity v)
        DepModelIdentity (es_model_identity s) (DigestDrift DepModelIdentity (vc_model_identity v) (es_model_identity s)) @
      mark_if (es_verification_env_digest s \<noteq> [] \<and> es_verification_env_digest s \<noteq> vc_verification_env_digest v)
        DepVerificationEnvironment ''env''
        (DigestDrift DepVerificationEnvironment (vc_verification_env_digest v) (es_verification_env_digest s)) @
      concat (map (\<lambda>(tool, expected). mark_if (es_tool_schema_digests s tool \<noteq> Some expected) DepToolSchema tool
        (DigestDrift DepToolSchema tool expected)) (vc_tool_schema_digests v)) @
      concat (map (\<lambda>c. mark_if (c \<notin> set (vc_runtime_capabilities v)) DepRuntimeCapabilities c (CapabilityDrift c))
        (es_runtime_capabilities s)) @
      (case es_observed_dependencies s (sr_subject_id r) of
         None \<Rightarrow> []
       | Some deps \<Rightarrow> concat (map (\<lambda>d. mark_if (deps (dep_key d) \<noteq> Some (ad_digest d)) (ad_kind d) (ad_identity d)
           (DigestDrift (ad_kind d) (ad_digest d) (case deps (dep_key d) of None \<Rightarrow> [] | Some x \<Rightarrow> x)))
           (vc_dependencies v))))"

text \<open>\<open>firstKind\<close> and \<open>firstID\<close> after all marks: they are set while the kind is empty.\<close>

definition first_mark :: "mark list \<Rightarrow> string \<times> string" where
  "first_mark ms = fold (\<lambda>(k, i, _) (fk, fi). if fk = [] then (k, i) else (fk, fi)) ms ([], [])"

definition reconcile_step :: "time \<Rightarrow> environment_snapshot \<Rightarrow> subject_record \<Rightarrow> subject_record \<times> transition option" where
  "reconcile_step now s r =
     (let ms = reconcile_marks s r in
      if ms \<noteq> [] then
        (let (k, i) = first_mark ms;
             (r', t) = invalidate_record ProofInvalidated ''reconciliation'' k i
               (Reconciled (map (\<lambda>(_, _, x). x) ms)) now r
         in (r', Some t))
      else (r\<lparr>sr_last_reconciled := now\<rparr>, None))"

definition reconcile :: "time \<Rightarrow> environment_snapshot \<Rightarrow> engine \<Rightarrow> transition list \<times> engine" where
  "reconcile now s e =
     (let (rs, ts) = range_records (reconcile_step now s) (en_records e)
      in (ts, e\<lparr>en_records := rs, en_transitions := en_transitions e @ ts\<rparr>))"

section \<open>The validity oracle\<close>

datatype oracle_reason =
    Valid
  | NoRecord
  | EvidenceMismatch
  | PolicyMismatch
  | PeriodExpired
  | HeartbeatStale
  | StateIs validity_state "drift_reason list"
  | DecisionInvalid string

text \<open>A record that has run out becomes stale if it was valid.\<close>

definition go_stale :: "string \<Rightarrow> string \<Rightarrow> string \<Rightarrow> drift_reason \<Rightarrow> time \<Rightarrow> string \<Rightarrow> subject_record \<Rightarrow> engine \<Rightarrow> engine" where
  "go_stale trigger kind identity reason now digest r e =
     (if sr_state r = ProofValid then
        (let (r', t) = invalidate_record ProofStale trigger kind identity reason now r
         in e\<lparr>en_records := AList.update digest r' (en_records e), en_transitions := en_transitions e @ [t]\<rparr>)
      else e)"

definition is_assurance_valid ::
  "time \<Rightarrow> engine \<Rightarrow> string \<Rightarrow> string \<Rightarrow> string \<Rightarrow> string \<Rightarrow> (bool \<times> oracle_reason) \<times> engine" where
  "is_assurance_valid now e subject evidence policy decision =
     (case map_of (en_records e) subject of
        None \<Rightarrow> ((False, NoRecord), e)
      | Some r \<Rightarrow>
          let v = sr_validity r in
          if sr_evidence_digest r \<noteq> evidence then ((False, EvidenceMismatch), e)
          else if vc_policy_digest v \<noteq> policy then ((False, PolicyMismatch), e)
          else if \<not> now < vc_expires_at v then
            ((False, PeriodExpired), go_stale ''expiration'' DepPolicyVersion (vc_policy_id v) ValidityExpired now subject r e)
          else if 0 < vc_max_reconciliation_interval v \<and>
               vc_max_reconciliation_interval v < time_sub now (sr_last_reconciled r) then
            ((False, HeartbeatStale),
             go_stale ''reconciliation_timeout'' DepVerificationEnvironment (sr_subject_id r) HeartbeatExceeded now subject r e)
          else if sr_state r \<noteq> ProofValid then ((False, StateIs (sr_state r) (sr_reasons r)), e)
          else if decision \<noteq> [] \<and> map_of (sr_decisions r) decision \<noteq> Some True
          then ((False, DecisionInvalid decision), e)
          else ((True, Valid), e))"

section \<open>Selective re-assurance\<close>

record reassurance_plan =
  pl_subject_id :: string
  pl_subject_digest :: string
  pl_full_rescan :: bool
  pl_drifted_keys :: "string list"
  pl_rerun :: "string list"
  pl_reusable :: "string list"
  pl_reason :: string

definition incompatible :: "crypto \<Rightarrow> subject_record \<Rightarrow> validity_conditions \<Rightarrow> string option" where
  "incompatible cr r c = (let v = sr_validity r in first_some
     [check (vc_subject_id v \<noteq> vc_subject_id c) ''incompatible subject_id'',
      check (vc_subject_source v \<noteq> vc_subject_source c) ''incompatible subject_source'',
      check (sr_subject_digest r \<noteq> vc_subject_digest c) ''incompatible artifact subject_digest'',
      check (vc_provider_identity v \<noteq> vc_provider_identity c \<or> vc_provider_config_digest v \<noteq> vc_provider_config_digest c)
        ''incompatible provider configuration'',
      check (digest_tool_schemas cr (vc_tool_schema_digests v) \<noteq> digest_tool_schemas cr (vc_tool_schema_digests c))
        ''incompatible tool schema set'',
      check (vc_policy_digest v \<noteq> vc_policy_digest c) ''incompatible policy version'',
      check (vc_verification_env_digest v \<noteq> vc_verification_env_digest c) ''incompatible verification environment''])"

definition drifted_dependencies :: "subject_record \<Rightarrow> (string \<rightharpoonup> string) \<Rightarrow> assurance_dependency list" where
  "drifted_dependencies r observed =
     filter (\<lambda>d. observed (dep_key d) \<noteq> Some (ad_digest d)) (vc_dependencies (sr_validity r))"

definition drifted_control :: "subject_record \<Rightarrow> (string \<rightharpoonup> string) \<Rightarrow> string \<Rightarrow> bool" where
  "drifted_control r observed c \<longleftrightarrow>
     list_ex (\<lambda>d. if ad_control_ids d = [] then c \<in> cp_control_id ` set (sr_controls r) else c \<in> set (ad_control_ids d))
       (drifted_dependencies r observed)"

definition compatible_cache :: "crypto \<Rightarrow> validity_conditions \<Rightarrow> cached_control option \<Rightarrow> bool" where
  "compatible_cache cr c cached =
     (case cached of
        None \<Rightarrow> False
      | Some x \<Rightarrow>
          cc_subject_id x = vc_subject_id c \<and> cc_subject_source x = vc_subject_source c \<and>
          cc_subject_digest x = vc_subject_digest c \<and> cc_provider_identity x = vc_provider_identity c \<and>
          cc_provider_config_digest x = vc_provider_config_digest c \<and>
          cc_tool_schema_digest x = digest_tool_schemas cr (vc_tool_schema_digests c) \<and>
          cc_policy_digest x = vc_policy_digest c \<and> cc_verification_env_digest x = vc_verification_env_digest c)"

definition reusable_control :: "crypto \<Rightarrow> engine \<Rightarrow> subject_record \<Rightarrow> validity_conditions \<Rightarrow> (string \<rightharpoonup> string) \<Rightarrow> control_proof \<Rightarrow> bool" where
  "reusable_control cr e r c observed p \<longleftrightarrow>
     \<not> drifted_control r observed (cp_control_id p) \<and>
     compatible_cache cr c (map_of (en_cache e)
       (control_cache_key cr (vc_subject_id c) (vc_subject_digest c) (cp_control_id p)))"

definition plan_selective_reassurance ::
  "crypto \<Rightarrow> engine \<Rightarrow> string \<Rightarrow> validity_conditions \<Rightarrow> (string \<rightharpoonup> string) \<Rightarrow> reassurance_plan" where
  "plan_selective_reassurance cr e current c observed =
     (let plan = \<lparr>pl_subject_id = vc_subject_id c, pl_subject_digest = vc_subject_digest c, pl_full_rescan = False,
                  pl_drifted_keys = [], pl_rerun = [], pl_reusable = [], pl_reason = []\<rparr> in
      case map_of (en_records e) current of
        None \<Rightarrow> plan\<lparr>pl_full_rescan := True, pl_reason := ''no baseline assurance record exists''\<rparr>
      | Some r \<Rightarrow>
          (case incompatible cr r c of
             Some why \<Rightarrow> plan\<lparr>pl_full_rescan := True, pl_reason := why,
                             pl_rerun := sort_strings (map cp_control_id (sr_controls r))\<rparr>
           | None \<Rightarrow> plan\<lparr>
               pl_drifted_keys := sort_strings (map dep_key (drifted_dependencies r observed)),
               pl_rerun := sort_strings (map cp_control_id
                 (filter (\<lambda>p. \<not> reusable_control cr e r c observed p) (sr_controls r))),
               pl_reusable := sort_strings (map cp_control_id
                 (filter (reusable_control cr e r c observed) (sr_controls r)))\<rparr>))"

definition audit_log :: "engine \<Rightarrow> transition list" where
  "audit_log e = en_transitions e"

section \<open>Lemmas on records\<close>

lemma range_records_keys [simp]: "map fst (fst (range_records f rs)) = map fst rs"
  by (induction f rs rule: range_records.induct) (auto split: prod.splits)

lemma range_records_map_of: "map_of (fst (range_records f rs)) k = map_option (\<lambda>r. fst (f r)) (map_of rs k)"
  by (induction f rs rule: range_records.induct) (auto split: prod.splits)

lemma range_records_transitions:
  "t \<in> set (snd (range_records f rs)) \<longleftrightarrow> (\<exists>k r. (k, r) \<in> set rs \<and> snd (f r) = Some t)"
proof (induction rs)
  case Nil
  then show ?case by simp
next
  case (Cons p rs)
  obtain k r where p: "p = (k, r)" by (cases p)
  have "snd (range_records f (p # rs)) =
      (case snd (f r) of None \<Rightarrow> snd (range_records f rs) | Some x \<Rightarrow> x # snd (range_records f rs))"
    by (cases "f r"; cases "range_records f rs") (simp add: p split: option.split)
  with Cons.IH show ?case by (cases "snd (f r)") (auto simp: p)
qed

lemma range_records_set:
  "(k, r') \<in> set (fst (range_records f rs)) \<longleftrightarrow> (\<exists>r. (k, r) \<in> set rs \<and> r' = fst (f r))"
proof (induction rs)
  case Nil
  then show ?case by simp
next
  case (Cons p rs)
  obtain k1 r where p: "p = (k1, r)" by (cases p)
  have "fst (range_records f (p # rs)) = (k1, fst (f r)) # fst (range_records f rs)"
    by (simp add: p split: prod.splits)
  with Cons.IH show ?case by (auto simp: p)
qed

lemma invalidate_record_simps:
  "sr_state (fst (invalidate_record new tg k i x now r)) = new"
  "sr_reverify (fst (invalidate_record new tg k i x now r)) = True"
  "sr_validity (fst (invalidate_record new tg k i x now r)) = sr_validity r"
  "sr_subject_id (fst (invalidate_record new tg k i x now r)) = sr_subject_id r"
  "sr_subject_digest (fst (invalidate_record new tg k i x now r)) = sr_subject_digest r"
  "sr_decisions (fst (invalidate_record new tg k i x now r)) = map (\<lambda>(i, _). (i, False)) (sr_decisions r)"
  "sr_last_reconciled (fst (invalidate_record new tg k i x now r)) = sr_last_reconciled r"
  by (simp_all add: invalidate_record_def)

lemma invalidate_record_transition:
  "tr_new (snd (invalidate_record new tg k i x now r)) = new"
  "tr_previous (snd (invalidate_record new tg k i x now r)) = sr_state r"
  "tr_retroactive_claimed (snd (invalidate_record new tg k i x now r)) = False"
  "tr_subject_digest (snd (invalidate_record new tg k i x now r)) = sr_subject_digest r"
  "tr_reverify (snd (invalidate_record new tg k i x now r)) = True"
  by (simp_all add: invalidate_record_def)

lemma map_of_all_False: "map_of (map (\<lambda>(i, _). (i, False)) xs) d \<noteq> Some True"
  by (induction xs) auto

text \<open>Events and reconciliation either keep the state of a record or invalidate the record.\<close>

lemma event_step_shape:
  "(event_step now ev r = (r, None) \<and>
      (ev_subject_id ev \<noteq> [] \<and> sr_subject_id r \<noteq> ev_subject_id ev \<or> evaluate_event r ev = None)) \<or>
   (\<exists>x tg k i. evaluate_event r ev = Some x \<and> (ev_subject_id ev = [] \<or> sr_subject_id r = ev_subject_id ev) \<and>
      event_step now ev r = (fst (invalidate_record ProofInvalidated tg k i x now r),
                             Some (snd (invalidate_record ProofInvalidated tg k i x now r))))"
proof (cases "(ev_subject_id ev = [] \<or> sr_subject_id r = ev_subject_id ev) \<and> evaluate_event r ev \<noteq> None")
  case True
  then obtain x where x: "evaluate_event r ev = Some x" by auto
  let ?i = "invalidate_record ProofInvalidated (''drift_event:'' @ ev_id ev) (ev_kind ev) (ev_identity ev) x now r"
  have "event_step now ev r = (fst ?i, Some (snd ?i))"
    unfolding event_step_def x using True by (simp add: case_prod_beta)
  with True x show ?thesis by blast
next
  case False
  then show ?thesis by (auto simp: event_step_def split: option.splits)
qed

lemma reconcile_step_shape:
  "(reconcile_step now s r = (r\<lparr>sr_last_reconciled := now\<rparr>, None) \<and> reconcile_marks s r = []) \<or>
   (\<exists>x tg k i. reconcile_marks s r \<noteq> [] \<and>
      reconcile_step now s r = (fst (invalidate_record ProofInvalidated tg k i x now r),
                                Some (snd (invalidate_record ProofInvalidated tg k i x now r))))"
proof (cases "reconcile_marks s r = []")
  case True
  then show ?thesis by (simp add: reconcile_step_def)
next
  case False
  obtain k i where f: "first_mark (reconcile_marks s r) = (k, i)" by (cases "first_mark (reconcile_marks s r)")
  let ?x = "Reconciled (map (\<lambda>(_, _, x). x) (reconcile_marks s r))"
  let ?i = "invalidate_record ProofInvalidated ''reconciliation'' k i ?x now r"
  have "reconcile_step now s r = (fst ?i, Some (snd ?i))"
    unfolding reconcile_step_def Let_def f using False by (simp add: case_prod_beta)
  with False show ?thesis by blast
qed

end
