(* ===== verification/Continuous_Props.thy ===== *)
theory Continuous_Props
  imports Continuous "HOL-Library.Multiset"
begin

text \<open>
  Properties of the continuous assurance engine: histories of operations, the invariant of the
  reachable states, the contract of the validity oracle as a locale with its interpretation on
  the engine, and the theorems on drift, reconciliation and selective re-assurance.
\<close>

section \<open>Histories\<close>

datatype engine_op =
    Register time validity_conditions string "control_proof list" "string list" "evidence_graph option"
  | Ingest time drift_event
  | Reconcile time environment_snapshot
  | Query time string string string string

definition engine_step :: "crypto \<Rightarrow> engine_op \<Rightarrow> engine \<Rightarrow> engine" where
  "engine_step cr op e =
     (case op of
        Register now v ev cs ds g \<Rightarrow> snd (register_assurance cr now v ev cs ds g e)
      | Ingest now ev \<Rightarrow> snd (ingest_drift_event now ev e)
      | Reconcile now s \<Rightarrow> snd (reconcile now s e)
      | Query now a b c d \<Rightarrow> snd (is_assurance_valid now e a b c d))"

text \<open>The engines a program can hold.\<close>

inductive reachable_engine :: "crypto \<Rightarrow> engine \<Rightarrow> bool" for cr where
  fresh: "reachable_engine cr new_engine"
| step: "reachable_engine cr e \<Longrightarrow> reachable_engine cr (engine_step cr op e)"

section \<open>The invariant\<close>

text \<open>
  A record stands under its own subject digest; a VALID one has complete conditions, validated
  required controls and needs no re-verification; any other one has every dependent decision
  withdrawn and asks for re-verification.
\<close>

definition record_ok :: "subject_record \<Rightarrow> bool" where
  "record_ok r \<longleftrightarrow>
     (sr_state r = ProofValid \<longrightarrow>
        validate_conditions (sr_validity r) = None \<and>
        (\<forall>c \<in> set (sr_controls r). cp_required c \<longrightarrow> validate_control c = None) \<and> \<not> sr_reverify r) \<and>
     (sr_state r \<noteq> ProofValid \<longrightarrow> (\<forall>d. map_of (sr_decisions r) d \<noteq> Some True) \<and> sr_reverify r) \<and>
     vc_subject_digest (sr_validity r) = sr_subject_digest r \<and>
     0 < vc_max_reconciliation_interval (sr_validity r)"

definition engine_ok :: "engine \<Rightarrow> bool" where
  "engine_ok e \<longleftrightarrow>
     distinct (map fst (en_records e)) \<and>
     (\<forall>(k, r) \<in> set (en_records e). record_ok r \<and> sr_subject_digest r = k) \<and>
     (\<forall>t \<in> set (en_transitions e). \<not> tr_retroactive_claimed t \<and> (tr_new t \<noteq> ProofValid \<longrightarrow> tr_reverify t))"

lemma record_ok_invalidate: "record_ok r \<Longrightarrow> new \<noteq> ProofValid \<Longrightarrow> record_ok (fst (invalidate_record new tg k i x now r))"
  unfolding record_ok_def invalidate_record_simps by (simp add: map_of_all_False)

lemma record_ok_event: "record_ok r \<Longrightarrow> record_ok (fst (event_step now ev r))"
  using event_step_shape [of now ev r] record_ok_invalidate [of r ProofInvalidated] by force

lemma record_ok_reconcile: "record_ok r \<Longrightarrow> record_ok (fst (reconcile_step now s r))"
proof -
  assume r: "record_ok r"
  then have "record_ok (r\<lparr>sr_last_reconciled := now\<rparr>)" by (simp add: record_ok_def)
  with r show ?thesis
    using reconcile_step_shape [of now s r] record_ok_invalidate [of r ProofInvalidated] by force
qed

definition transition_ok :: "transition \<Rightarrow> bool" where
  "transition_ok t \<longleftrightarrow> \<not> tr_retroactive_claimed t \<and> (tr_new t \<noteq> ProofValid \<longrightarrow> tr_reverify t)"

lemma transition_ok_invalidate: "transition_ok (snd (invalidate_record new tg k i x now r))"
  by (simp add: transition_ok_def invalidate_record_transition)

lemma engine_ok_alt:
  "engine_ok e \<longleftrightarrow> distinct (map fst (en_records e)) \<and>
     (\<forall>(k, r) \<in> set (en_records e). record_ok r \<and> sr_subject_digest r = k) \<and>
     (\<forall>t \<in> set (en_transitions e). transition_ok t)"
  by (simp add: engine_ok_def transition_ok_def)

text \<open>Ranging over the records keeps the invariant if the body does.\<close>

lemma engine_ok_range:
  assumes "engine_ok e" and "range_records f (en_records e) = (rs, ts)"
    and "\<And>r. record_ok r \<Longrightarrow> record_ok (fst (f r)) \<and> sr_subject_digest (fst (f r)) = sr_subject_digest r"
    and "\<And>r t. snd (f r) = Some t \<Longrightarrow> transition_ok t"
  shows "engine_ok (e\<lparr>en_records := rs, en_transitions := en_transitions e @ ts\<rparr>)"
proof -
  have rs: "rs = fst (range_records f (en_records e))" and ts: "ts = snd (range_records f (en_records e))"
    using assms(2) by simp_all
  have "record_ok r' \<and> sr_subject_digest r' = k" if "(k, r') \<in> set rs" for k r'
  proof -
    from that obtain r where "(k, r) \<in> set (en_records e)" "r' = fst (f r)"
      unfolding rs range_records_set by blast
    with assms(1,3) show ?thesis unfolding engine_ok_alt by fastforce
  qed
  moreover have "transition_ok t" if "t \<in> set ts" for t
    using that assms(4) unfolding ts range_records_transitions by blast
  ultimately show ?thesis
    using assms(1) unfolding engine_ok_alt by (auto simp: rs)
qed

lemma event_step_digest: "sr_subject_digest (fst (event_step now ev r)) = sr_subject_digest r"
  using event_step_shape [of now ev r] by (auto simp: invalidate_record_simps)

lemma reconcile_step_digest: "sr_subject_digest (fst (reconcile_step now s r)) = sr_subject_digest r"
  using reconcile_step_shape [of now s r] by (auto simp: invalidate_record_simps)

lemma engine_ok_ingest: "engine_ok e \<Longrightarrow> engine_ok (snd (ingest_drift_event now ev e))"
proof -
  assume e: "engine_ok e"
  have "snd (event_step now ev r) = Some t \<Longrightarrow> transition_ok t" for r t
    using event_step_shape [of now ev r] transition_ok_invalidate by auto
  with engine_ok_range [OF e, of "event_step now ev"] show ?thesis
    by (simp add: ingest_drift_event_def record_ok_event event_step_digest split: prod.splits)
qed

lemma engine_ok_reconcile: "engine_ok e \<Longrightarrow> engine_ok (snd (reconcile now s e))"
proof -
  assume e: "engine_ok e"
  have "snd (reconcile_step now s r) = Some t \<Longrightarrow> transition_ok t" for r t
    using reconcile_step_shape [of now s r] transition_ok_invalidate by auto
  with engine_ok_range [OF e, of "reconcile_step now s"] show ?thesis
    by (simp add: reconcile_def record_ok_reconcile reconcile_step_digest split: prod.splits)
qed

text \<open>Replacing one record and appending one transition.\<close>

lemma engine_ok_update:
  assumes "engine_ok e" and "record_ok r" and "sr_subject_digest r = k" and "transition_ok t"
  shows "engine_ok (e\<lparr>en_records := AList.update k r (en_records e), en_transitions := en_transitions e @ [t]\<rparr>)"
proof -
  have d: "distinct (map fst (AList.update k r (en_records e)))"
    using assms(1) by (simp add: engine_ok_alt AList.distinct_update)
  have "record_ok r' \<and> sr_subject_digest r' = k'" if m: "(k', r') \<in> set (AList.update k r (en_records e))" for k' r'
  proof -
    have "map_of (AList.update k r (en_records e)) k' = Some r'" using m d by simp
    then have "(k' = k \<and> r' = r) \<or> map_of (en_records e) k' = Some r'"
      by (auto simp: AList.update_conv' split: if_splits)
    then show ?thesis
    proof
      assume "map_of (en_records e) k' = Some r'"
      then have "(k', r') \<in> set (en_records e)" by (rule map_of_SomeD)
      with assms(1) show ?thesis unfolding engine_ok_alt by fastforce
    qed (use assms in simp)
  qed
  with assms d show ?thesis unfolding engine_ok_alt by auto
qed

lemma go_stale_ok:
  assumes "engine_ok e" and "map_of (en_records e) k = Some r"
  shows "engine_ok (go_stale tg dk i x now k r e)"
proof -
  from assms(2) have "(k, r) \<in> set (en_records e)" by (rule map_of_SomeD)
  with assms(1) have r: "record_ok r" "sr_subject_digest r = k" unfolding engine_ok_alt by fastforce+
  let ?i = "invalidate_record ProofStale tg dk i x now r"
  have "go_stale tg dk i x now k r e = (if sr_state r = ProofValid then
      e\<lparr>en_records := AList.update k (fst ?i) (en_records e), en_transitions := en_transitions e @ [snd ?i]\<rparr> else e)"
    by (simp add: go_stale_def case_prod_beta)
  with engine_ok_update [OF assms(1), of "fst ?i" k "snd ?i"] r assms(1)
    record_ok_invalidate [OF r(1), of ProofStale] transition_ok_invalidate
  show ?thesis by (simp add: invalidate_record_simps)
qed

lemma is_assurance_valid_engine:
  assumes "map_of (en_records e) a = Some r"
  shows "snd (is_assurance_valid now e a b c d) = e \<or>
    (\<exists>tg k i x. snd (is_assurance_valid now e a b c d) = go_stale tg k i x now a r e)"
  using assms by (auto simp: is_assurance_valid_def Let_def)

lemma engine_ok_query: "engine_ok e \<Longrightarrow> engine_ok (snd (is_assurance_valid now e a b c d))"
proof (cases "map_of (en_records e) a")
  case None
  then show "engine_ok e \<Longrightarrow> ?thesis" by (simp add: is_assurance_valid_def)
next
  case (Some r)
  then show "engine_ok e \<Longrightarrow> ?thesis"
    using is_assurance_valid_engine [OF Some, of now b c d] go_stale_ok by metis
qed

lemma registration_reasons_Nil:
  "registration_reasons v cs = [] \<longleftrightarrow>
     validate_conditions v = None \<and> (\<forall>c \<in> set cs. cp_required c \<longrightarrow> validate_control c = None)"
proof -
  have "List.map_filter (\<lambda>c. map_option InvalidControl (validate_control c)) xs = [] \<longleftrightarrow>
      (\<forall>c \<in> set xs. validate_control c = None)" for xs
    by (auto simp: List.map_filter_def filter_empty_conv)
  then show ?thesis by (auto simp: registration_reasons_def split: option.splits)
qed

lemma decisions_of:
  "map_of (fold (\<lambda>i. AList.update i b) is xs) d = Some x \<Longrightarrow> x = b \<or> map_of xs d = Some x"
proof (induction "is" arbitrary: xs)
  case (Cons i "is")
  from Cons.IH [of "AList.update i b xs"] Cons.prems show ?case
    by (auto simp: AList.update_conv' split: if_splits)
qed simp

lemma default_conditions_interval: "0 < vc_max_reconciliation_interval (default_conditions now v)"
  by (simp add: default_conditions_def Let_def)

lemma default_conditions_digest [simp]: "vc_subject_digest (default_conditions now v) = vc_subject_digest v"
  by (simp add: default_conditions_def Let_def)

text \<open>What a registration stores.\<close>

lemma register_assurance_record:
  assumes "register_assurance cr now v ev cs ds g e = (r, e')"
  shows "record_ok r" and "sr_last_reconciled r = now" and "sr_evidence_digest r = ev"
    and "sr_validity r = default_conditions now v" and "sr_controls r = cs"
    and "sr_state r = ProofValid \<longleftrightarrow> validate_conditions (default_conditions now v) = None \<and>
           (\<forall>c \<in> set cs. cp_required c \<longrightarrow> validate_control c = None)"
    and "\<exists>t. transition_ok t \<and> en_transitions e' = en_transitions e @ [t]"
    and "en_records e' = AList.update (sr_subject_digest r) r (en_records e)"
    and "sr_subject_id r = vc_subject_id v" and "sr_subject_digest r = vc_subject_digest v"
    and "sr_decisions r = fold (\<lambda>i. AList.update i (sr_state r = ProofValid)) (filter (\<lambda>i. trim_space i \<noteq> []) ds) []"
proof -
  let ?v = "default_conditions now v" and ?s = "registration_reasons (default_conditions now v) cs = []"
  have r: "sr_state r = (if ?s then ProofValid else ProofUnknown)" "sr_validity r = ?v" "sr_controls r = cs"
    "sr_reverify r = (\<not> ?s)" "sr_subject_digest r = vc_subject_digest ?v"
    "sr_decisions r = fold (\<lambda>i. AList.update i ?s) (filter (\<lambda>i. trim_space i \<noteq> []) ds) []"
    "sr_last_reconciled r = now" "sr_evidence_digest r = ev"
    using assms by (auto simp: register_assurance_def Let_def)
  show "sr_last_reconciled r = now" "sr_evidence_digest r = ev" "sr_validity r = ?v" "sr_controls r = cs"
    by (fact r)+
  show "sr_subject_digest r = vc_subject_digest v"
    "sr_decisions r = fold (\<lambda>i. AList.update i (sr_state r = ProofValid)) (filter (\<lambda>i. trim_space i \<noteq> []) ds) []"
    by (simp_all add: r)
  show "sr_subject_id r = vc_subject_id v"
    using assms by (auto simp: register_assurance_def default_conditions_def Let_def)
  show "sr_state r = ProofValid \<longleftrightarrow> validate_conditions ?v = None \<and>
           (\<forall>c \<in> set cs. cp_required c \<longrightarrow> validate_control c = None)"
    using registration_reasons_Nil [of ?v cs] by (simp add: r)
  have "map_of (sr_decisions r) d \<noteq> Some True" if "\<not> ?s" for d
    using that decisions_of [where b = False and xs = "[]" and d = d and x = True] by (auto simp: r)
  then show "record_ok r"
    using registration_reasons_Nil [of ?v cs] default_conditions_interval
    by (simp add: record_ok_def r)
  show "\<exists>t. transition_ok t \<and> en_transitions e' = en_transitions e @ [t]"
    using assms by (auto simp: register_assurance_def Let_def transition_ok_def)
  show "en_records e' = AList.update (sr_subject_digest r) r (en_records e)"
    using assms by (auto simp: register_assurance_def Let_def)
qed

lemma engine_ok_register: "engine_ok e \<Longrightarrow> engine_ok (snd (register_assurance cr now v ev cs ds g e))"
proof -
  assume e: "engine_ok e"
  obtain r e' where s: "register_assurance cr now v ev cs ds g e = (r, e')"
    by (cases "register_assurance cr now v ev cs ds g e")
  note r = register_assurance_record [OF s]
  from r(7) obtain t where t: "transition_ok t" "en_transitions e' = en_transitions e @ [t]" by blast
  from engine_ok_update [OF e r(1) refl t(1)] show ?thesis
    by (simp add: s engine_ok_alt t(2) r(8))
qed

lemma engine_ok_step: "engine_ok e \<Longrightarrow> engine_ok (engine_step cr op e)"
  by (cases op) (simp_all add: engine_step_def engine_ok_register engine_ok_ingest engine_ok_reconcile engine_ok_query)

section \<open>The contract of an oracle\<close>

text \<open>
  What the gateway relies on.  An oracle answers from a state that operations change; a positive
  answer means that the state vouches for the subject; and an operation that does not establish
  the subject anew never makes the state vouch for it again.
\<close>

locale assurance_oracle_contract =
  fixes answer :: "time \<Rightarrow> 's \<Rightarrow> string \<Rightarrow> string \<Rightarrow> string \<Rightarrow> string \<Rightarrow> bool"
    and vouches :: "'s \<Rightarrow> string \<Rightarrow> bool"
    and step :: "'op \<Rightarrow> 's \<Rightarrow> 's"
    and establishes :: "'op \<Rightarrow> string \<Rightarrow> bool"
  assumes answer_vouched: "answer now s subject evidence policy decision \<Longrightarrow> vouches s subject"
    and step_never_revives: "\<not> establishes op subject \<Longrightarrow> vouches (step op s) subject \<Longrightarrow> vouches s subject"
begin

lemma withdrawn_stays:
  "\<not> vouches s subject \<Longrightarrow> \<forall>op \<in> set ops. \<not> establishes op subject \<Longrightarrow> \<not> vouches (fold step ops s) subject"
proof (induction ops arbitrary: s)
  case (Cons op ops)
  then have "\<not> vouches (step op s) subject" using step_never_revives by auto
  with Cons show ?case by simp
qed simp

lemma withdrawn_refused:
  "\<not> vouches s subject \<Longrightarrow> \<forall>op \<in> set ops. \<not> establishes op subject \<Longrightarrow>
   \<not> answer now (fold step ops s) subject evidence policy decision"
  using withdrawn_stays answer_vouched by blast

end

section \<open>The engine keeps the contract\<close>

definition engine_answer :: "time \<Rightarrow> engine \<Rightarrow> string \<Rightarrow> string \<Rightarrow> string \<Rightarrow> string \<Rightarrow> bool" where
  "engine_answer now e a b c d = fst (fst (is_assurance_valid now e a b c d))"

definition engine_vouches :: "engine \<Rightarrow> string \<Rightarrow> bool" where
  "engine_vouches e a \<longleftrightarrow> (\<exists>r. map_of (en_records e) a = Some r \<and> sr_state r = ProofValid)"

definition establishes_subject :: "engine_op \<Rightarrow> string \<Rightarrow> bool" where
  "establishes_subject op a \<longleftrightarrow> (\<exists>now v ev cs ds g. op = Register now v ev cs ds g \<and> vc_subject_digest v = a)"

lemma engine_answer_iff:
  "engine_answer now e a b c d \<longleftrightarrow>
     (\<exists>r. map_of (en_records e) a = Some r \<and> sr_state r = ProofValid \<and> sr_evidence_digest r = b \<and>
        vc_policy_digest (sr_validity r) = c \<and> now < vc_expires_at (sr_validity r) \<and>
        (0 < vc_max_reconciliation_interval (sr_validity r) \<longrightarrow>
           time_sub now (sr_last_reconciled r) \<le> vc_max_reconciliation_interval (sr_validity r)) \<and>
        (d = [] \<or> map_of (sr_decisions r) d = Some True))"
  by (auto simp: engine_answer_def is_assurance_valid_def Let_def split: option.splits)

lemma vouches_register:
  assumes "vc_subject_digest v \<noteq> a"
  shows "engine_vouches (snd (register_assurance cr now v ev cs ds g e)) a \<longleftrightarrow> engine_vouches e a"
proof -
  obtain r e' where s: "register_assurance cr now v ev cs ds g e = (r, e')"
    by (cases "register_assurance cr now v ev cs ds g e")
  from register_assurance_record(1,4,8) [OF s]
  have "en_records e' = AList.update (vc_subject_digest v) r (en_records e)"
    by (simp add: record_ok_def)
  with assms show ?thesis by (simp add: s engine_vouches_def AList.update_conv')
qed

lemma vouches_range:
  assumes "\<And>r. sr_state (fst (f r)) = ProofValid \<Longrightarrow> sr_state r = ProofValid"
    and "map_of (fst (range_records f rs)) a = Some r" and "sr_state r = ProofValid"
  shows "\<exists>r. map_of rs a = Some r \<and> sr_state r = ProofValid"
  using assms unfolding range_records_map_of by auto

lemma event_step_state: "sr_state (fst (event_step now ev r)) = ProofValid \<Longrightarrow> sr_state r = ProofValid"
  using event_step_shape [of now ev r] by (auto simp: invalidate_record_simps)

lemma reconcile_step_state: "sr_state (fst (reconcile_step now s r)) = ProofValid \<Longrightarrow> sr_state r = ProofValid"
  using reconcile_step_shape [of now s r] by (auto simp: invalidate_record_simps)

lemma go_stale_records:
  "en_records (go_stale tg dk i x now k r e) =
     (if sr_state r = ProofValid
      then AList.update k (fst (invalidate_record ProofStale tg dk i x now r)) (en_records e) else en_records e)"
  by (simp add: go_stale_def case_prod_beta)

lemma vouches_query: "engine_vouches (snd (is_assurance_valid now e a' b c d)) a \<Longrightarrow> engine_vouches e a"
proof (cases "map_of (en_records e) a'")
  case None
  then show "engine_vouches (snd (is_assurance_valid now e a' b c d)) a \<Longrightarrow> ?thesis"
    by (simp add: is_assurance_valid_def)
next
  case (Some r)
  assume v: "engine_vouches (snd (is_assurance_valid now e a' b c d)) a"
  from is_assurance_valid_engine [OF Some, of now b c d] show ?thesis
  proof (elim disjE exE)
    fix tg k i x
    assume s: "snd (is_assurance_valid now e a' b c d) = go_stale tg k i x now a' r e"
    show ?thesis
      using v unfolding s engine_vouches_def go_stale_records
      by (auto simp: AList.update_conv' invalidate_record_simps split: if_splits)
  qed (use v in simp)
qed

interpretation engine: assurance_oracle_contract engine_answer engine_vouches "engine_step cr" establishes_subject for cr
proof
  fix now e a b c d
  show "engine_answer now e a b c d \<Longrightarrow> engine_vouches e a"
    by (auto simp: engine_answer_iff engine_vouches_def)
next
  fix op a e
  assume n: "\<not> establishes_subject op a" and v: "engine_vouches (engine_step cr op e) a"
  show "engine_vouches e a"
  proof (cases op)
    case (Register now v ev cs ds g)
    with n v vouches_register [of v a] show ?thesis by (simp add: establishes_subject_def engine_step_def)
  next
    case (Ingest now ev)
    have "en_records (snd (ingest_drift_event now ev e)) = fst (range_records (event_step now ev) (en_records e))"
      by (simp add: ingest_drift_event_def case_prod_beta)
    with Ingest v vouches_range [where f = "event_step now ev", OF event_step_state] show ?thesis
      unfolding engine_step_def engine_vouches_def by fastforce
  next
    case (Reconcile now s)
    have "en_records (snd (reconcile now s e)) = fst (range_records (reconcile_step now s) (en_records e))"
      by (simp add: reconcile_def case_prod_beta)
    with Reconcile v vouches_range [where f = "reconcile_step now s", OF reconcile_step_state] show ?thesis
      unfolding engine_step_def engine_vouches_def by fastforce
  next
    case (Query now a' b c d)
    with v vouches_query show ?thesis by (simp add: engine_step_def)
  qed
qed

section \<open>Properties\<close>

text \<open>
  C29. Every engine a program can reach keeps the record invariant: a record that counts as VALID
  has complete, fully observed conditions and validated required controls, every other record has
  all its dependent policy decisions withdrawn and asks for re-verification, records stand under
  their own subject digest, and no transition claims to have prevented completed operations.
\<close>

theorem reachable_engine_invariant:
  assumes "reachable_engine cr e" and "map_of (en_records e) k = Some r"
  shows "sr_subject_digest r = k \<and>
         (sr_state r = ProofValid \<longrightarrow> validate_conditions (sr_validity r) = None \<and>
            (\<forall>c \<in> set (sr_controls r). cp_required c \<longrightarrow> validate_control c = None)) \<and>
         (sr_state r \<noteq> ProofValid \<longrightarrow> (\<forall>d. map_of (sr_decisions r) d \<noteq> Some True) \<and> sr_reverify r) \<and>
         (\<forall>t \<in> set (audit_log e). \<not> tr_retroactive_claimed t)"
proof -
  from assms(1) have "engine_ok e"
  proof (induction rule: reachable_engine.induct)
    case fresh
    then show ?case by (simp add: engine_ok_def new_engine_def)
  next
    case (step e op)
    then show ?case by (simp add: engine_ok_step)
  qed
  moreover have "(k, r) \<in> set (en_records e)" using assms(2) by (rule map_of_SomeD)
  ultimately show ?thesis unfolding engine_ok_def record_ok_def audit_log_def by fastforce
qed

text \<open>A registration for concrete runs.\<close>

definition sample_conditions :: validity_conditions where
  "sample_conditions = \<lparr>vc_subject_id = ''s'', vc_subject_source = ''src'', vc_subject_digest = ''sd'',
     vc_policy_id = ''p'', vc_policy_digest = ''pd'', vc_provider_identity = [], vc_provider_config_digest = [],
     vc_model_identity = [], vc_verification_env_digest = ''env'', vc_tool_schema_digests = [],
     vc_runtime_capabilities = [],
     vc_dependencies = [\<lparr>ad_kind = ''memory_state'', ad_identity = ''m'', ad_digest = ''1'', ad_state = ''VERIFIED'', ad_control_ids = []\<rparr>],
     vc_required_evidence_ids = [''e1''], vc_unobserved_assumptions = [], vc_issued_at = 1, vc_expires_at = 1000,
     vc_max_reconciliation_interval = 100\<rparr>"

definition sample_engine :: engine where
  "sample_engine = engine_step toy_crypto (Register 10 sample_conditions ''ed'' [sample_control] [''d''] None) new_engine"

lemma sample_conditions_valid: "validate_conditions sample_conditions = None"
  by (simp add: validate_conditions_def sample_conditions_def unknown_dependency_def plain_edge_def ascii_space_def)

lemma sample_default: "default_conditions now sample_conditions = sample_conditions"
  by (simp add: default_conditions_def sample_conditions_def time_is_zero_def Let_def)

lemma sample_control_valid: "validate_control sample_control = None"
  by (simp add: validate_control_None sample_control_def)

lemma sample_engine_record:
  "\<exists>r. map_of (en_records sample_engine) ''sd'' = Some r \<and> sr_state r = ProofValid \<and> sr_evidence_digest r = ''ed'' \<and>
     sr_validity r = sample_conditions \<and> sr_last_reconciled r = 10 \<and> sr_subject_id r = ''s'' \<and>
     sr_decisions r = [(''d'', True)]"
proof -
  obtain r e' where s: "register_assurance toy_crypto 10 sample_conditions ''ed'' [sample_control] [''d''] None new_engine = (r, e')"
    by (cases "register_assurance toy_crypto 10 sample_conditions ''ed'' [sample_control] [''d''] None new_engine")
  note r = register_assurance_record [OF s, unfolded sample_default]
  have v: "sr_state r = ProofValid"
    unfolding r(6) using sample_conditions_valid sample_control_valid by simp
  have "trim_space ''d'' \<noteq> []" by (simp add: plain_edge_def ascii_space_def)
  then have d: "sr_decisions r = [(''d'', True)]" unfolding r(11) using v by simp
  have "sr_subject_digest r = ''sd''" "sr_subject_id r = ''s''"
    by (simp_all add: r(9,10) sample_conditions_def)
  moreover have "sample_engine = e'" by (simp add: sample_engine_def engine_step_def s)
  moreover have "en_records new_engine = []" by (simp add: new_engine_def)
  ultimately show ?thesis using r(2-4,8) v d by simp
qed

lemma reachable_sample: "reachable_engine toy_crypto sample_engine"
  unfolding sample_engine_def by (intro reachable_engine.intros)

lemma reachable_engine_invariant_witness:
  "\<exists>r. map_of (en_records sample_engine) ''sd'' = Some r \<and> sr_subject_digest r = ''sd''"
  using sample_engine_record reachable_engine_invariant [OF reachable_sample] by blast

text \<open>
  The oracle says yes exactly for a VALID record of the subject with the same evidence and policy
  digests, before its expiry, within the reconciliation window of its last reconciliation, and (if a
  decision is named) for a decision that is still valid.
\<close>

theorem oracle_decision:
  "engine_answer now e a b c d \<longleftrightarrow>
     (\<exists>r. map_of (en_records e) a = Some r \<and> sr_state r = ProofValid \<and> sr_evidence_digest r = b \<and>
        vc_policy_digest (sr_validity r) = c \<and> now < vc_expires_at (sr_validity r) \<and>
        (vc_max_reconciliation_interval (sr_validity r) \<le> 0 \<or>
           time_sub now (sr_last_reconciled r) \<le> vc_max_reconciliation_interval (sr_validity r)) \<and>
        (d = [] \<or> map_of (sr_decisions r) d = Some True))"
proof -
  have "(0 < x \<longrightarrow> P) \<longleftrightarrow> (x \<le> 0 \<or> P)" for x :: int and P by auto
  then show ?thesis unfolding engine_answer_iff by (simp only:)
qed

lemma ingest_withdraws:
  assumes "map_of (en_records e) a = Some r" and "ev_subject_id ev = [] \<or> ev_subject_id ev = sr_subject_id r"
    and "evaluate_event r ev \<noteq> None"
  shows "\<not> engine_vouches (engine_step cr (Ingest t ev) e) a"
proof -
  have "map_of (en_records (engine_step cr (Ingest t ev) e)) a = Some (fst (event_step t ev r))"
    using assms(1) by (simp add: engine_step_def ingest_drift_event_def range_records_map_of case_prod_beta)
  moreover have "sr_state (fst (event_step t ev r)) = ProofInvalidated"
    using event_step_shape [of t ev r] assms(2,3) by (auto simp: invalidate_record_simps)
  ultimately show ?thesis by (simp add: engine_vouches_def)
qed

text \<open>
  A drift event withdraws the assurance of every subject it concerns: if the event is for the
  subject (or for all) and the record deviates from it, the oracle refuses the subject after the
  event, whatever events, reconciliations, queries and registrations of other subjects follow, at
  any time and for any evidence, policy or decision.
\<close>

theorem drift_withdraws_assurance:
  assumes "map_of (en_records e) a = Some r" and "ev_subject_id ev = [] \<or> ev_subject_id ev = sr_subject_id r"
    and "evaluate_event r ev \<noteq> None" and "\<forall>op \<in> set ops. \<not> establishes_subject op a"
  shows "\<not> engine_answer now (fold (engine_step cr) ops (engine_step cr (Ingest t0 ev) e)) a b c d"
  by (rule engine.withdrawn_refused [OF ingest_withdraws [OF assms(1-3)] assms(4)])

definition sample_drift :: drift_event where
  "sample_drift = \<lparr>ev_id = ''x'', ev_subject_id = [], ev_kind = ''memory_state'', ev_identity = ''m'',
     ev_new_digest = ''2'', ev_occurred_at = 20\<rparr>"

lemma sample_drift_deviates:
  assumes v: "sr_validity r = sample_conditions"
  shows "evaluate_event r sample_drift \<noteq> None"
  by (simp add: evaluate_event_def kind_drift_def v sample_drift_def sample_conditions_def Let_def
        DepSkillContentDigest_def DepPackageDigest_def DepPolicyVersion_def DepProviderIdentity_def
        DepModelIdentity_def DepVerificationEnvironment_def DepToolSchema_def DepRuntimeCapabilities_def)

lemma drift_withdraws_assurance_witness:
  "engine_answer 15 sample_engine ''sd'' ''ed'' ''pd'' ''d'' \<and>
   \<not> engine_answer 25 (engine_step toy_crypto (Ingest 20 sample_drift) sample_engine) ''sd'' ''ed'' ''pd'' ''d''"
proof -
  obtain r where r: "map_of (en_records sample_engine) ''sd'' = Some r" "sr_state r = ProofValid"
    "sr_evidence_digest r = ''ed''" "sr_validity r = sample_conditions" "sr_last_reconciled r = 10"
    "sr_decisions r = [(''d'', True)]" using sample_engine_record by blast
  have "evaluate_event r sample_drift \<noteq> None" by (rule sample_drift_deviates [OF r(4)])
  then have "\<not> engine_answer 25 (engine_step toy_crypto (Ingest 20 sample_drift) sample_engine) ''sd'' ''ed'' ''pd'' ''d''"
    using drift_withdraws_assurance [OF r(1), of sample_drift "[]" 25 toy_crypto 20] by (simp add: sample_drift_def)
  moreover have "engine_answer 15 sample_engine ''sd'' ''ed'' ''pd'' ''d''"
    using r by (simp add: engine_answer_iff sample_conditions_def time_sub_def)
  ultimately show ?thesis by simp
qed

lemma mark_if_Nil: "mark_if c k i r = [] \<longleftrightarrow> \<not> c"
  by (simp add: mark_if_def)

lemma reconcile_marks_Nil:
  "reconcile_marks s r = [] \<longleftrightarrow>
       (\<forall>x. es_subject_digests s (sr_subject_id r) = Some x \<longrightarrow> x = sr_subject_digest r) \<and>
       (es_policy_digest s \<noteq> [] \<longrightarrow> es_policy_digest s = vc_policy_digest (sr_validity r)) \<and>
       (es_provider_identity s \<noteq> [] \<longrightarrow> es_provider_identity s = vc_provider_identity (sr_validity r)) \<and>
       (es_provider_config_digest s \<noteq> [] \<and> vc_provider_config_digest (sr_validity r) \<noteq> [] \<longrightarrow>
          es_provider_config_digest s = vc_provider_config_digest (sr_validity r)) \<and>
       (es_model_identity s \<noteq> [] \<and> vc_model_identity (sr_validity r) \<noteq> [] \<longrightarrow>
          es_model_identity s = vc_model_identity (sr_validity r)) \<and>
       (es_verification_env_digest s \<noteq> [] \<longrightarrow> es_verification_env_digest s = vc_verification_env_digest (sr_validity r)) \<and>
       (\<forall>(tool, x) \<in> set (vc_tool_schema_digests (sr_validity r)). es_tool_schema_digests s tool = Some x) \<and>
       set (es_runtime_capabilities s) \<subseteq> set (vc_runtime_capabilities (sr_validity r)) \<and>
       (\<forall>deps. es_observed_dependencies s (sr_subject_id r) = Some deps \<longrightarrow>
          (\<forall>d \<in> set (vc_dependencies (sr_validity r)). deps (dep_key d) = Some (ad_digest d)))"
  unfolding reconcile_marks_def Let_def append_is_Nil_conv mark_if_Nil concat_eq_Nil_conv
  by (intro conj_cong; auto simp: mark_if_Nil split: option.splits)


text \<open>A snapshot that reports nothing, and one that reports another policy.\<close>

definition empty_snapshot :: environment_snapshot where
  "empty_snapshot = \<lparr>es_subject_digests = Map.empty, es_policy_id = [], es_policy_digest = [],
     es_provider_identity = [], es_provider_config_digest = [], es_model_identity = [],
     es_verification_env_digest = [], es_tool_schema_digests = Map.empty, es_runtime_capabilities = [],
     es_observed_dependencies = Map.empty\<rparr>"


lemma incompatible_None:
  "incompatible cr r c = None \<longleftrightarrow>
     vc_subject_id (sr_validity r) = vc_subject_id c \<and> vc_subject_source (sr_validity r) = vc_subject_source c \<and>
     sr_subject_digest r = vc_subject_digest c \<and> vc_provider_identity (sr_validity r) = vc_provider_identity c \<and>
     vc_provider_config_digest (sr_validity r) = vc_provider_config_digest c \<and>
     digest_tool_schemas cr (vc_tool_schema_digests (sr_validity r)) = digest_tool_schemas cr (vc_tool_schema_digests c) \<and>
     vc_policy_digest (sr_validity r) = vc_policy_digest c \<and>
     vc_verification_env_digest (sr_validity r) = vc_verification_env_digest c"
  by (auto simp: incompatible_def first_some_None Let_def)

lemma reusable_control_iff:
  assumes "p \<in> set (sr_controls r)"
  shows "reusable_control cr e r c obs p \<longleftrightarrow>
    (\<forall>d \<in> set (vc_dependencies (sr_validity r)).
       ad_control_ids d = [] \<or> cp_control_id p \<in> set (ad_control_ids d) \<longrightarrow> obs (dep_key d) = Some (ad_digest d)) \<and>
    compatible_cache cr c (map_of (en_cache e)
       (control_cache_key cr (vc_subject_id c) (vc_subject_digest c) (cp_control_id p)))"
proof -
  have "cp_control_id p \<in> cp_control_id ` set (sr_controls r)" using assms by (rule imageI)
  then have "drifted_control r obs (cp_control_id p) \<longleftrightarrow> (\<exists>d \<in> set (vc_dependencies (sr_validity r)).
      (ad_control_ids d = [] \<or> cp_control_id p \<in> set (ad_control_ids d)) \<and> obs (dep_key d) \<noteq> Some (ad_digest d))"
    unfolding drifted_control_def drifted_dependencies_def list_ex_iff by auto
  then show ?thesis unfolding reusable_control_def by blast
qed

lemma mset_sort_strings: "mset (sort_strings xs) = mset xs"
  by (simp add: sort_strings_def)

text \<open>
  Selective re-assurance reuses a control only when nothing it depends on moved: there is a
  record whose subject, source, artifact, provider, policy and environment are those of the
  candidate, a cached proof of the control for exactly that context, and every dependency scoped
  to the control (or to none) is observed with its recorded digest.  A plan covers every control of
  the record, each in one of the two lists, and a plan that demands a full rescan reuses nothing.
\<close>

theorem reuse_only_unmoved_controls:
  assumes "pl = plan_selective_reassurance cr e current c obs"
  shows "(i \<in> set (pl_reusable pl) \<longrightarrow>
            (\<exists>r p. map_of (en_records e) current = Some r \<and> p \<in> set (sr_controls r) \<and> cp_control_id p = i \<and>
               incompatible cr r c = None \<and>
               compatible_cache cr c (map_of (en_cache e) (control_cache_key cr (vc_subject_id c) (vc_subject_digest c) i)) \<and>
               (\<forall>d \<in> set (vc_dependencies (sr_validity r)).
                  ad_control_ids d = [] \<or> i \<in> set (ad_control_ids d) \<longrightarrow> obs (dep_key d) = Some (ad_digest d)))) \<and>
         (\<forall>r. map_of (en_records e) current = Some r \<longrightarrow>
            mset (pl_rerun pl) + mset (pl_reusable pl) = mset (map cp_control_id (sr_controls r))) \<and>
         (pl_full_rescan pl \<longrightarrow> pl_reusable pl = [])"
proof (cases "map_of (en_records e) current")
  case None
  then show ?thesis by (simp add: assms plan_selective_reassurance_def)
next
  case (Some r)
  show ?thesis
  proof (cases "incompatible cr r c")
    case None
    let ?R = "reusable_control cr e r c obs"
    have pl: "pl_rerun pl = sort_strings (map cp_control_id (filter (\<lambda>p. \<not> ?R p) (sr_controls r)))"
      "pl_reusable pl = sort_strings (map cp_control_id (filter ?R (sr_controls r)))" "\<not> pl_full_rescan pl"
      by (simp_all add: assms plan_selective_reassurance_def Some None)
    have "mset (filter (\<lambda>p. \<not> ?R p) (sr_controls r)) + mset (filter ?R (sr_controls r)) = mset (sr_controls r)"
      by (simp add: add.commute)
    then have "mset (pl_rerun pl) + mset (pl_reusable pl) = mset (map cp_control_id (sr_controls r))"
      unfolding pl mset_sort_strings mset_map by (simp flip: image_mset_union)
    moreover have "\<exists>p. p \<in> set (sr_controls r) \<and> cp_control_id p = i \<and> ?R p" if "i \<in> set (pl_reusable pl)"
      using that unfolding pl by auto
    ultimately show ?thesis
      using Some None pl(3) reusable_control_iff [of _ r cr e c obs] by fastforce
  next
    case why: (Some w)
    have "pl_reusable pl = []" "pl_rerun pl = sort_strings (map cp_control_id (sr_controls r))"
      by (simp_all add: assms plan_selective_reassurance_def Some why)
    with Some show ?thesis by (simp add: mset_sort_strings)
  qed
qed

lemma sample_engine_other: "map_of (en_records sample_engine) ''other'' = None"
proof -
  obtain r e' where s: "register_assurance toy_crypto 10 sample_conditions ''ed'' [sample_control] [''d''] None new_engine = (r, e')"
    by (cases "register_assurance toy_crypto 10 sample_conditions ''ed'' [sample_control] [''d''] None new_engine")
  have "sample_engine = e'" by (simp add: sample_engine_def engine_step_def s)
  moreover have "sr_subject_digest r = ''sd''"
    unfolding register_assurance_record(10) [OF s] by (simp add: sample_conditions_def)
  moreover have "en_records new_engine = []" by (simp add: new_engine_def)
  moreover note register_assurance_record(8) [OF s]
  ultimately show ?thesis by (simp only: AList.update.simps map_of.simps) simp
qed

lemma reuse_only_unmoved_controls_witness:
  "pl_reusable (plan_selective_reassurance toy_crypto sample_engine ''other'' sample_conditions Map.empty) = []"
proof -
  have "pl_full_rescan (plan_selective_reassurance toy_crypto sample_engine ''other'' sample_conditions Map.empty)"
    by (simp add: plan_selective_reassurance_def sample_engine_other)
  with reuse_only_unmoved_controls [where cr = toy_crypto and e = sample_engine and current = "''other''"
      and c = sample_conditions and obs = Map.empty, OF refl]
  show ?thesis by blast
qed

text \<open>
  The audit log only grows: an operation appends its transitions and changes none that is there.
\<close>

theorem audit_log_append_only:
  "\<exists>ts. audit_log (engine_step cr op e) = audit_log e @ ts"
proof (cases op)
  case (Register now v ev cs ds g)
  then show ?thesis by (simp add: engine_step_def audit_log_def register_assurance_def Let_def)
next
  case (Ingest now ev)
  then show ?thesis by (simp add: engine_step_def audit_log_def ingest_drift_event_def case_prod_beta)
next
  case (Reconcile now s)
  then show ?thesis by (simp add: engine_step_def audit_log_def reconcile_def case_prod_beta)
next
  case (Query now a b c d)
  show ?thesis
  proof (cases "map_of (en_records e) a")
    case None
    with Query show ?thesis by (simp add: engine_step_def audit_log_def is_assurance_valid_def)
  next
    case (Some r)
    have g: "\<exists>ts. en_transitions (go_stale tg k i x now a r e) = en_transitions e @ ts" for tg k i x
      by (simp add: go_stale_def case_prod_beta)
    from is_assurance_valid_engine [OF Some, of now b c d] show ?thesis
    proof (elim disjE exE)
      assume "snd (is_assurance_valid now e a b c d) = e"
      with Query show ?thesis by (simp add: engine_step_def audit_log_def)
    next
      fix tg k i x
      assume "snd (is_assurance_valid now e a b c d) = go_stale tg k i x now a r e"
      with Query g [of tg k i x] show ?thesis by (simp add: engine_step_def audit_log_def)
    qed
  qed
qed

end
