(* ===== verification/Assured_Gateway.thy ===== *)
theory Assured_Gateway
  imports Gateway Continuous_Props
begin

text \<open>
  The execution gateway with the continuous assurance engine as its \<open>AssuranceOracle\<close>, the way the
  runtime proxy and the MCP interceptor set them up.  The two components share the engine: drift
  events, reconciliations and registrations reach it from outside while the gateway asks it during
  \<open>ValidateAuthorization\<close>, and a question may itself make a record stale.
\<close>

section \<open>The composed system\<close>

definition engine_oracle :: "time \<Rightarrow> engine \<Rightarrow> (oracle_reason \<Rightarrow> string) \<Rightarrow> validity_oracle" where
  "engine_oracle now e show_reason s a p d = (engine_answer now e s a p d, show_reason (snd (fst (is_assurance_valid now e s a p d))))"

text \<open>The call of the oracle comes last in the validity step; every check before it must pass.\<close>

definition asks_oracle :: "crypto \<Rightarrow> gateway \<Rightarrow> time \<Rightarrow> execution_authorization \<Rightarrow> protected_operation_request \<Rightarrow> bool" where
  "asks_oracle cr g now auth req \<longleftrightarrow> first_some
     [check_authenticity cr g auth, check_issuer cr g auth, check_identity g now auth req,
      check_operation cr auth req, check_validity (g\<lparr>assurance_oracle := None\<rparr>) auth req] = None"

record assured_system =
  as_gateway :: gateway
  as_engine :: engine
  as_disk :: disk

datatype assured_event =
    EngineOp engine_op
  | GatewayRevokeDecision string string
  | GatewayRevokeDigest string string
  | Present fs lock_io time time execution_authorization protected_operation_request

text \<open>
  One step, with what the gateway answers to a presented authorization.  The gateway reads its clock
  first, the engine its own later.
\<close>

definition present ::
  "crypto \<Rightarrow> (oracle_reason \<Rightarrow> string) \<Rightarrow> fs \<Rightarrow> lock_io \<Rightarrow> time \<Rightarrow> time \<Rightarrow> execution_authorization \<Rightarrow>
   protected_operation_request \<Rightarrow> assured_system \<Rightarrow> gate_error option \<times> assured_system" where
  "present cr sr f io now now' auth req s =
     (let (err, g, d) = validate_authorization cr f io now
            ((as_gateway s)\<lparr>assurance_oracle := Some (engine_oracle now' (as_engine s) sr)\<rparr>) (as_disk s) auth req;
          e = (if asks_oracle cr (as_gateway s) now auth req
               then engine_step cr (Query now' (subject_digest auth) (assurance_evidence_digest auth)
                                     (policy_digest auth) (decision_id auth)) (as_engine s)
               else as_engine s)
      in (err, \<lparr>as_gateway = g, as_engine = e, as_disk = d\<rparr>))"

definition assured_step ::
  "crypto \<Rightarrow> (oracle_reason \<Rightarrow> string) \<Rightarrow> assured_event \<Rightarrow> assured_system \<Rightarrow> assured_system" where
  "assured_step cr sr ev s =
     (case ev of
        EngineOp op \<Rightarrow> s\<lparr>as_engine := engine_step cr op (as_engine s)\<rparr>
      | GatewayRevokeDecision i r \<Rightarrow> s\<lparr>as_gateway := revoke_decision i r (as_gateway s)\<rparr>
      | GatewayRevokeDigest i r \<Rightarrow> s\<lparr>as_gateway := revoke_digest i r (as_gateway s)\<rparr>
      | Present f io now now' auth req \<Rightarrow> snd (present cr sr f io now now' auth req s))"

definition event_establishes :: "assured_event \<Rightarrow> string \<Rightarrow> bool" where
  "event_establishes ev a \<longleftrightarrow> (\<exists>op. ev = EngineOp op \<and> establishes_subject op a)"

section \<open>The composition keeps the contract of the oracle\<close>

text \<open>What the system does to its engine is a sequence of at most one engine operation.\<close>

lemma assured_step_engine:
  "as_engine (assured_step cr sr ev s) = as_engine s \<or>
   (\<exists>op. as_engine (assured_step cr sr ev s) = engine_step cr op (as_engine s) \<and>
      (\<forall>a. establishes_subject op a \<longrightarrow> event_establishes ev a))"
proof (cases ev)
  case (EngineOp op)
  then have "as_engine (assured_step cr sr ev s) = engine_step cr op (as_engine s)"
    by (simp add: assured_step_def)
  with EngineOp show ?thesis unfolding event_establishes_def by blast
next
  case (Present f io now now' auth req)
  let ?q = "Query now' (subject_digest auth) (assurance_evidence_digest auth) (policy_digest auth) (decision_id auth)"
  have "as_engine (assured_step cr sr ev s) =
      (if asks_oracle cr (as_gateway s) now auth req then engine_step cr ?q (as_engine s) else as_engine s)"
    by (simp add: Present assured_step_def present_def case_prod_beta Let_def)
  moreover have "\<not> establishes_subject ?q a" for a by (simp add: establishes_subject_def)
  ultimately show ?thesis by metis
qed (simp_all add: assured_step_def)

text \<open>
  The composed system answers for its engine and keeps the same contract, so the lemmas of the
  locale hold for histories that interleave engine operations and gateway calls.
\<close>

interpretation assured: assurance_oracle_contract
  "\<lambda>now s. engine_answer now (as_engine s)" "\<lambda>s. engine_vouches (as_engine s)"
  "assured_step cr sr" event_establishes for cr sr
proof
  fix now s a b c d
  show "engine_answer now (as_engine s) a b c d \<Longrightarrow> engine_vouches (as_engine s) a"
    by (rule engine.answer_vouched)
next
  fix ev a s
  assume n: "\<not> event_establishes ev a" and v: "engine_vouches (as_engine (assured_step cr sr ev s)) a"
  from assured_step_engine [of cr sr ev s] show "engine_vouches (as_engine s) a"
  proof (elim disjE exE conjE)
    fix op
    assume "as_engine (assured_step cr sr ev s) = engine_step cr op (as_engine s)"
      and "\<forall>a. establishes_subject op a \<longrightarrow> event_establishes ev a"
    with n v show ?thesis using engine.step_never_revives [of op a cr "as_engine s"] by auto
  qed (use v in simp)
qed

text \<open>An accepted authorization has the word of the engine.\<close>

lemma accepted_has_assurance:
  assumes "fst (present cr sr f io now now' auth req s) = None"
  shows "engine_answer now' (as_engine s) (subject_digest auth) (assurance_evidence_digest auth)
           (policy_digest auth) (decision_id auth)"
proof -
  let ?g = "(as_gateway s)\<lparr>assurance_oracle := Some (engine_oracle now' (as_engine s) sr)\<rparr>"
  obtain g d where "validate_authorization cr f io now ?g (as_disk s) auth req = (None, g, d)"
    using assms by (cases "validate_authorization cr f io now ?g (as_disk s) auth req") (simp add: present_def Let_def)
  from validate_accepts(1) [OF this] have "check_validity ?g auth req = None"
    by (simp add: gate_checks_None)
  then show ?thesis by (simp add: check_validity_None engine_oracle_def)
qed

text \<open>
  C7. Drift stops execution.  Once the engine has processed a drift event from which the record of a
  subject deviates, the gateway refuses every authorization for that subject, whatever its evidence,
  policy, decision, request, time or file system, through any interleaving of further engine
  operations, revocations and presented authorizations, until the subject is registered anew.
\<close>

theorem drift_stops_execution:
  assumes "map_of (en_records (as_engine s)) (subject_digest auth) = Some r"
    and "ev_subject_id ev = [] \<or> ev_subject_id ev = sr_subject_id r" and "evaluate_event r ev \<noteq> None"
    and "\<forall>x \<in> set evs. \<not> event_establishes x (subject_digest auth)"
  shows "fst (present cr sr f io now now' auth req
           (fold (assured_step cr sr) evs (assured_step cr sr (EngineOp (Ingest t ev)) s))) \<noteq> None"
proof
  let ?s = "assured_step cr sr (EngineOp (Ingest t ev)) s"
  have e: "as_engine ?s = engine_step cr (Ingest t ev) (as_engine s)" by (simp add: assured_step_def)
  have "\<not> engine_vouches (as_engine ?s) (subject_digest auth)"
    unfolding e by (rule ingest_withdraws [OF assms(1-3)])
  from assured.withdrawn_refused [OF this assms(4)]
  have "\<not> engine_answer now' (as_engine (fold (assured_step cr sr) evs ?s)) (subject_digest auth)
      (assurance_evidence_digest auth) (policy_digest auth) (decision_id auth)" .
  moreover assume "fst (present cr sr f io now now' auth req (fold (assured_step cr sr) evs ?s)) = None"
  ultimately show False using accepted_has_assurance by blast
qed

definition sample_system :: assured_system where
  "sample_system = \<lparr>as_gateway = sample_gateway, as_engine = sample_engine, as_disk = Map.empty\<rparr>"

lemma drift_stops_execution_witness:
  "fst (present toy_crypto (\<lambda>_. ''no'') (sample_fs [] 0) sample_io 2000000000 30 (sample_auth\<lparr>subject_digest := ''sd''\<rparr>)
     sample_request (assured_step toy_crypto (\<lambda>_. ''no'') (EngineOp (Ingest 20 sample_drift)) sample_system)) \<noteq> None"
proof -
  obtain r where r: "map_of (en_records sample_engine) ''sd'' = Some r" "sr_validity r = sample_conditions"
    using sample_engine_record by blast
  have "map_of (en_records (as_engine sample_system)) (subject_digest (sample_auth\<lparr>subject_digest := ''sd''\<rparr>)) = Some r"
    by (simp add: sample_system_def r)
  from drift_stops_execution [OF this, of sample_drift "[]"] sample_drift_deviates [OF r(2)]
  show ?thesis by (simp add: sample_drift_def)
qed

end
