(* ===== verification/Gateway_Monitor.thy ===== *)
theory Gateway_Monitor
  imports Gateway
begin

text \<open>
  What the gateway promises, abstractly: a monitor that knows the revoked decisions, the revoked
  digests and the used nonces.  The gateway of the code refines it: its verdict is the conjunction
  of the checks that do not depend on its history and of the monitor's, and its state maps to the
  monitor's next state.
\<close>

section \<open>The monitor\<close>

record monitor =
  mo_decisions :: "string set"
  mo_digests :: "string set"
  mo_used :: "string set"

definition auth_key :: "execution_authorization \<Rightarrow> string" where
  "auth_key auth = nonce_key (authorization_id auth) (nonce auth)"

definition monitor_allows :: "execution_authorization \<Rightarrow> monitor \<Rightarrow> bool" where
  "monitor_allows auth m \<longleftrightarrow>
     decision_id auth \<notin> mo_decisions m \<and> subject_digest auth \<notin> mo_digests m \<and>
     assurance_evidence_digest auth \<notin> mo_digests m \<and> (single_use auth \<longrightarrow> auth_key auth \<notin> mo_used m)"

datatype monitor_op = Use execution_authorization bool | WithdrawDecision string | WithdrawDigest string

definition monitor_step :: "monitor_op \<Rightarrow> monitor \<Rightarrow> monitor" where
  "monitor_step op m =
     (case op of
        Use auth ok \<Rightarrow> if ok \<and> single_use auth then m\<lparr>mo_used := insert (auth_key auth) (mo_used m)\<rparr> else m
      | WithdrawDecision i \<Rightarrow> m\<lparr>mo_decisions := insert i (mo_decisions m)\<rparr>
      | WithdrawDigest i \<Rightarrow> m\<lparr>mo_digests := insert i (mo_digests m)\<rparr>)"

definition abs_gateway :: "gateway \<Rightarrow> monitor" where
  "abs_gateway g = \<lparr>mo_decisions = dom (revoked_decisions g), mo_digests = dom (revoked_digests g),
     mo_used = (case nonces g of None \<Rightarrow> {} | Some l \<Rightarrow> dom (seen l))\<rparr>"

section \<open>Refinement\<close>

definition without_history :: "gateway \<Rightarrow> gateway" where
  "without_history g = g\<lparr>revoked_decisions := Map.empty, revoked_digests := Map.empty\<rparr>"

lemma gate_checks_split:
  "gate_checks cr f now g auth req = None \<longleftrightarrow>
     gate_checks cr f now (without_history g) auth req = None \<and>
     revoked_decisions g (decision_id auth) = None \<and> revoked_digests g (subject_digest auth) = None \<and>
     revoked_digests g (assurance_evidence_digest auth) = None"
proof -
  let ?h = "without_history g"
  have v: "verified_key cr ?h auth = verified_key cr g auth"
    by (cases "compute_auth_digest cr auth") (simp_all add: verified_key_def without_history_def)
  have "check_authenticity cr ?h auth = check_authenticity cr g auth"
    unfolding check_authenticity_def v ..
  moreover have "check_issuer cr ?h auth = check_issuer cr g auth"
    unfolding check_issuer_def v by (simp add: without_history_def)
  moreover have "check_identity ?h now auth req = check_identity g now auth req"
    unfolding check_identity_def by (simp add: without_history_def)
  moreover have "check_validity g auth req = None \<longleftrightarrow> check_validity ?h auth req = None \<and>
      revoked_decisions g (decision_id auth) = None \<and> revoked_digests g (subject_digest auth) = None \<and>
      revoked_digests g (assurance_evidence_digest auth) = None"
    unfolding check_validity_None by (auto simp: without_history_def)
  ultimately show ?thesis unfolding gate_checks_None by auto
qed

lemma checked_nonce:
  assumes "gate_checks cr f now g auth req = None"
  shows "trim_space (authorization_id auth) \<noteq> [] \<and> trim_space (nonce auth) \<noteq> []"
proof -
  have "validate_structure auth = None"
    using assms by (simp add: gate_checks_None check_authenticity_None)
  moreover have "(''authorization_id'', authorization_id auth) \<in> set (required_fields auth)"
    "(''nonce'', nonce auth) \<in> set (required_fields auth)"
    by (simp_all add: required_fields_def)
  ultimately show ?thesis unfolding validate_structure_None by fastforce
qed

lemma consume_local:
  assumes "durable_dir l = []" and "trim_space a \<noteq> []" and "trim_space n \<noteq> []"
  shows "consume cr io l d a n t =
    (case seen l (nonce_key a n) of
       Some p \<Rightarrow> (Some (ReplayDetected a n p), l, d)
     | None \<Rightarrow> (None, l\<lparr>seen := (seen l)(nonce_key a n \<mapsto> t)\<rparr>, d))"
  using assms by (simp add: consume_def Let_def split: option.split)

text \<open>
  C3. The gateway refines the monitor.  With a process-local nonce ledger an authorization is accepted
  exactly when the checks that ignore the history of the gateway pass and the monitor allows it, in
  particular a fresh, unrevoked one that passes the checks is never refused; the state the call
  leaves maps to the monitor's state after it, and so do the states after revocations.
\<close>

theorem gateway_refines_monitor:
  assumes "nonces g = Some l" and "durable_dir l = []"
    and "validate_authorization cr f io now g d auth req = (e, g', d')"
  shows "(e = None \<longleftrightarrow> gate_checks cr f now (without_history g) auth req = None \<and> monitor_allows auth (abs_gateway g)) \<and>
         abs_gateway g' = monitor_step (Use auth (e = None)) (abs_gateway g) \<and>
         (\<exists>l'. nonces g' = Some l' \<and> durable_dir l' = []) \<and>
         abs_gateway (revoke_decision i r g) = monitor_step (WithdrawDecision i) (abs_gateway g) \<and>
         abs_gateway (revoke_digest i r g) = monitor_step (WithdrawDigest i) (abs_gateway g)"
proof -
  have rev: "abs_gateway (revoke_decision i r g) = monitor_step (WithdrawDecision i) (abs_gateway g)"
    "abs_gateway (revoke_digest i r g) = monitor_step (WithdrawDigest i) (abs_gateway g)"
    by (simp_all add: abs_gateway_def monitor_step_def revoke_decision_def revoke_digest_def)
  have allows: "monitor_allows auth (abs_gateway g) \<longleftrightarrow>
      revoked_decisions g (decision_id auth) = None \<and> revoked_digests g (subject_digest auth) = None \<and>
      revoked_digests g (assurance_evidence_digest auth) = None \<and>
      (single_use auth \<longrightarrow> seen l (auth_key auth) = None)"
    by (auto simp: monitor_allows_def abs_gateway_def assms(1))
  show ?thesis
  proof (cases "gate_checks cr f now g auth req")
    case (Some x)
    then have "\<not> (gate_checks cr f now (without_history g) auth req = None \<and> monitor_allows auth (abs_gateway g))"
      using gate_checks_split [of cr f now g auth req] allows by auto
    moreover have "e = Some x" "g' = g" using Some assms(3) by (simp_all add: validate_authorization_def)
    ultimately show ?thesis using rev assms(1,2) by (simp add: monitor_step_def)
  next
    case None
    then have checks: "gate_checks cr f now (without_history g) auth req = None \<and> monitor_allows auth (abs_gateway g) \<longleftrightarrow>
        (single_use auth \<longrightarrow> seen l (auth_key auth) = None)"
      using gate_checks_split [of cr f now g auth req] allows by auto
    show ?thesis
    proof (cases "single_use auth")
      case False
      with None assms(3) have "e = None" "g' = g" by (simp_all add: validate_authorization_def)
      with False checks rev assms(1,2) show ?thesis by (simp add: monitor_step_def)
    next
      case True
      from checked_nonce [OF None] have c: "consume cr io l d (authorization_id auth) (nonce auth) now =
        (case seen l (auth_key auth) of
           Some p \<Rightarrow> (Some (ReplayDetected (authorization_id auth) (nonce auth) p), l, d)
         | None \<Rightarrow> (None, l\<lparr>seen := (seen l)(auth_key auth \<mapsto> now)\<rparr>, d))"
        using consume_local [OF assms(2)] unfolding auth_key_def by blast
      show ?thesis
      proof (cases "seen l (auth_key auth)")
        case None': None
        with True None assms have "e = None" "g' = g\<lparr>nonces := Some (l\<lparr>seen := (seen l)(auth_key auth \<mapsto> now)\<rparr>)\<rparr>"
          by (simp_all add: validate_authorization_def consume_nonce_def c)
        moreover have "abs_gateway (g\<lparr>nonces := Some (l\<lparr>seen := (seen l)(auth_key auth \<mapsto> now)\<rparr>)\<rparr>) =
            (abs_gateway g)\<lparr>mo_used := insert (auth_key auth) (mo_used (abs_gateway g))\<rparr>"
          using assms(1) by (simp add: abs_gateway_def)
        ultimately show ?thesis using True None' checks rev assms(2) by (simp add: monitor_step_def)
      next
        case (Some p)
        then have "e = Some (NonceRefused (ReplayDetected (authorization_id auth) (nonce auth) p))"
          "g' = g\<lparr>nonces := Some l\<rparr>"
          using True None assms by (simp_all add: validate_authorization_def consume_nonce_def c)
        moreover have "abs_gateway (g\<lparr>nonces := Some l\<rparr>) = abs_gateway g"
          using assms(1) by (simp add: abs_gateway_def)
        ultimately show ?thesis using True Some checks rev assms(2) by (simp add: monitor_step_def)
      qed
    qed
  qed
qed

lemma gateway_refines_monitor_witness:
  "\<exists>g' d'. validate_authorization toy_crypto (sample_fs [] 0) sample_io 2000000000 sample_gateway Map.empty
      (signed_sample ''n1'') sample_request = (None, g', d') \<and>
    abs_gateway g' = monitor_step (Use (signed_sample ''n1'') True) (abs_gateway sample_gateway)"
proof -
  let ?a = "signed_sample ''n1''"
  obtain e g' d' where v: "validate_authorization toy_crypto (sample_fs [] 0) sample_io 2000000000 sample_gateway Map.empty
      ?a sample_request = (e, g', d')"
    by (cases "validate_authorization toy_crypto (sample_fs [] 0) sample_io 2000000000 sample_gateway Map.empty ?a sample_request")
  have l: "nonces sample_gateway = Some new_nonce_ledger" "durable_dir new_nonce_ledger = []"
    by (simp_all add: sample_gateway_def new_execution_gateway_def new_nonce_ledger_def)
  note r = gateway_refines_monitor [OF l v]
  have "without_history sample_gateway = sample_gateway"
    by (simp add: without_history_def sample_gateway_def new_execution_gateway_def)
  moreover have "gate_checks toy_crypto (sample_fs [] 0) 2000000000 sample_gateway ?a sample_request = None"
    by (rule gate_checks_sample [OF trim_space_n1]) simp
  moreover have "monitor_allows ?a (abs_gateway sample_gateway)"
    by (simp add: monitor_allows_def abs_gateway_def sample_gateway_def new_execution_gateway_def new_nonce_ledger_def)
  ultimately have "e = None" using r by simp
  with r v show ?thesis by simp
qed

end
