(* ===== verification/Pickle.thy ===== *)
theory Pickle
  imports Go_Strings
begin

text \<open>
  The pickle scanner of internal/analyzer/pickle.go: a linear walk over the opcodes of a stream that
  collects the (module, name) pairs referenced by GLOBAL, INST and STACK_GLOBAL.

  Lengths read from the stream are Go's 64-bit \<open>int\<close>, and \<open>readN\<close> adds them to the position with
  wrap-around; slicing outside the data is a panic.  The stack is a list whose head is the top.
\<close>

section \<open>State\<close>

record pickle_global =
  pg_module :: string
  pg_name :: string
  pg_reduced :: bool

record peeker =
  pk_value :: string
  pk_global :: bool
  pk_gi :: int

record scanner =
  sc_globals :: "pickle_global list"
  sc_stack :: "peeker list"
  sc_pos :: nat

datatype step = Continue scanner | Halt scanner | Panic

definition mark_value :: string where "mark_value = CHR 0x00 # ''mark''"
definition global_value :: string where "global_value = CHR 0x00 # ''global''"
definition inst_value :: string where "inst_value = CHR 0x00 # ''inst''"

definition is_mark_or_empty :: "string \<Rightarrow> bool" where
  "is_mark_or_empty s \<longleftrightarrow> s = [] \<or> s = mark_value \<or> s = global_value \<or> s = inst_value"

definition unquote_pickle_string :: "string \<Rightarrow> string" where
  "unquote_pickle_string s =
     (if 2 \<le> length s \<and> (hd s = CHR 0x27 \<or> hd s = CHR 0x22) \<and> last s = hd s then butlast (tl s) else s)"

definition push :: "string \<Rightarrow> scanner \<Rightarrow> scanner" where
  "push v s = s\<lparr>sc_stack := \<lparr>pk_value = v, pk_global = False, pk_gi = - 1\<rparr> # sc_stack s\<rparr>"

definition push_global :: "string \<Rightarrow> int \<Rightarrow> scanner \<Rightarrow> scanner" where
  "push_global v gi s = s\<lparr>sc_stack := \<lparr>pk_value = v, pk_global = True, pk_gi = gi\<rparr> # sc_stack s\<rparr>"

definition add_global :: "string \<Rightarrow> string \<Rightarrow> bool \<Rightarrow> scanner \<Rightarrow> scanner" where
  "add_global m n r s = s\<lparr>sc_globals := sc_globals s @ [\<lparr>pg_module = m, pg_name = n, pg_reduced = r\<rparr>]\<rparr>"

section \<open>Readers\<close>

datatype 'a reading = Got 'a scanner | Short scanner | ReadPanic

text \<open>Up to the next line feed; without one, the position ends at the end of the data.\<close>

definition read_line :: "string \<Rightarrow> scanner \<Rightarrow> string reading" where
  "read_line d s =
     (case index_byte (drop (sc_pos s) d) (CHR 0x0A) of
        None \<Rightarrow> Short (s\<lparr>sc_pos := max (sc_pos s) (length d)\<rparr>)
      | Some k \<Rightarrow> Got (take k (drop (sc_pos s) d)) (s\<lparr>sc_pos := sc_pos s + k + 1\<rparr>))"

definition read_n :: "string \<Rightarrow> int64 \<Rightarrow> scanner \<Rightarrow> string reading" where
  "read_n d count s =
     (let upto = word_of_nat (sc_pos s) + count in
      if count <s 0 \<or> word_of_nat (length d) <s upto then Short s
      else if upto <s word_of_nat (sc_pos s) then ReadPanic
      else Got (take (unat count) (drop (sc_pos s) d)) (s\<lparr>sc_pos := sc_pos s + unat count\<rparr>))"

fun little_endian :: "string \<Rightarrow> nat" where
  "little_endian [] = 0"
| "little_endian (c # cs) = of_char c + 256 * little_endian cs"

definition read_uint :: "string \<Rightarrow> nat \<Rightarrow> scanner \<Rightarrow> int64 reading" where
  "read_uint d width s =
     (case read_n d (word_of_nat width) s of
        Got b s' \<Rightarrow> Got (word_of_nat (little_endian b)) s'
      | Short s' \<Rightarrow> Short s'
      | ReadPanic \<Rightarrow> ReadPanic)"

text \<open>How a step goes on after a read: a short read ends the scan.\<close>

definition after :: "'a reading \<Rightarrow> ('a \<Rightarrow> scanner \<Rightarrow> step) \<Rightarrow> step" where
  "after r k = (case r of Got x s \<Rightarrow> k x s | Short s \<Rightarrow> Halt s | ReadPanic \<Rightarrow> Panic)"

definition skip_len_prefixed :: "string \<Rightarrow> nat \<Rightarrow> bool \<Rightarrow> scanner \<Rightarrow> step" where
  "skip_len_prefixed d width is_string s =
     after (read_uint d width s) (\<lambda>len s1.
       after (read_n d len s1) (\<lambda>payload s2. Continue (push (if is_string then payload else []) s2)))"

section \<open>Opcodes\<close>

definition pop_to_mark :: "peeker list \<Rightarrow> peeker list" where
  "pop_to_mark st = tl (dropWhile (\<lambda>p. pk_value p \<noteq> mark_value) st)"

definition stack_global :: "scanner \<Rightarrow> scanner" where
  "stack_global s =
     (case sc_stack s of
        b # a # rest \<Rightarrow>
          (let s1 = s\<lparr>sc_stack := rest\<rparr> in
           if \<not> is_mark_or_empty (pk_value a) \<and> \<not> is_mark_or_empty (pk_value b)
           then push_global global_value (int (length (sc_globals s)))
                  (add_global (pk_value a) (pk_value b) False s1)
           else push global_value s1)
      | _ \<Rightarrow> push global_value s)"

definition mark_reduced :: "int \<Rightarrow> pickle_global list \<Rightarrow> pickle_global list" where
  "mark_reduced gi gs = (let k = nat gi in gs[k := (gs ! k)\<lparr>pg_reduced := True\<rparr>])"

definition reduce :: "scanner \<Rightarrow> scanner" where
  "reduce s =
     (case sc_stack s of
        b # a # rest \<Rightarrow>
          push [] (s\<lparr>sc_stack := rest,
             sc_globals := (if pk_global a \<and> 0 \<le> pk_gi a \<and> pk_gi a < int (length (sc_globals s))
                            then mark_reduced (pk_gi a) (sc_globals s) else sc_globals s)\<rparr>)
      | _ \<Rightarrow> push [] s)"

text \<open>The opcodes that take no argument and push a placeholder.\<close>

definition placeholder_ops :: "nat list" where
  "placeholder_ops = [78, 100, 101, 108, 111, 116, 125, 93, 41, 129, 133, 134, 135, 136, 137, 143, 144, 145, 146, 151, 152, 81]"

text \<open>
  Opcodes with arguments that are skipped: their widths, and whether a placeholder is pushed; and the
  opcodes with a length prefix: its width, and whether the payload is a string.
\<close>

definition fixed_ops :: "(nat \<times> nat \<times> bool) list" where
  "fixed_ops = [(74, 4, True), (75, 1, True), (77, 2, True), (71, 8, True), (104, 1, True), (106, 4, True),
     (113, 1, False), (114, 4, False), (128, 1, False), (130, 1, True), (131, 2, True), (132, 4, True), (149, 8, False)]"

definition line_ops :: "(nat \<times> bool) list" where
  "line_ops = [(70, True), (73, True), (76, True), (80, True), (103, True), (112, False)]"

definition prefixed_ops :: "(nat \<times> nat \<times> bool) list" where
  "prefixed_ops = [(84, 4, True), (85, 1, True), (88, 4, True), (140, 1, True), (141, 8, True), (66, 4, False),
     (67, 1, False), (142, 8, False), (150, 8, False), (138, 1, False), (139, 4, False)]"

definition push_if :: "bool \<Rightarrow> scanner \<Rightarrow> scanner" where
  "push_if b s = (if b then push [] s else s)"

text \<open>Module and name; both lines are read even when the first is missing.\<close>

definition read_reference :: "string \<Rightarrow> scanner \<Rightarrow> (string \<times> string) reading" where
  "read_reference d s =
     (case read_line d s of
        Got m s1 \<Rightarrow> (case read_line d s1 of Got n s2 \<Rightarrow> Got (m, n) s2 | Short s2 \<Rightarrow> Short s2 | ReadPanic \<Rightarrow> ReadPanic)
      | Short s1 \<Rightarrow> (case read_line d s1 of Got n s2 \<Rightarrow> Short s2 | Short s2 \<Rightarrow> Short s2 | ReadPanic \<Rightarrow> ReadPanic)
      | ReadPanic \<Rightarrow> ReadPanic)"

definition opcode :: "string \<Rightarrow> nat \<Rightarrow> scanner \<Rightarrow> step" where
  "opcode d op s =
     (if op = 46 then Halt s
      else if op = 40 then Continue (push mark_value s)
      else if op = 148 then Continue s
      else if op = 147 then Continue (stack_global s)
      else if op = 49 then Continue (s\<lparr>sc_stack := pop_to_mark (sc_stack s)\<rparr>)
      else if op \<in> {97, 98, 115, 117, 50} then Continue s
      else if op = 48 then Continue (s\<lparr>sc_stack := tl (sc_stack s)\<rparr>)
      else if op \<in> set placeholder_ops then Continue (push [] s)
      else case map_of fixed_ops op of
        Some (w, p) \<Rightarrow> after (read_n d (word_of_nat w) s) (\<lambda>_ s1. Continue (push_if p s1))
      | None \<Rightarrow>
      (case map_of line_ops op of
        Some p \<Rightarrow> after (read_line d s) (\<lambda>_ s1. Continue (push_if p s1))
      | None \<Rightarrow>
      (case map_of prefixed_ops op of
        Some (w, str) \<Rightarrow> skip_len_prefixed d w str s
      | None \<Rightarrow>
        if op = 83 then after (read_line d s) (\<lambda>line s1. Continue (push (unquote_pickle_string line) s1))
        else if op = 86 then after (read_line d s) (\<lambda>line s1. Continue (push line s1))
        else if op = 99 then after (read_reference d s) (\<lambda>(m, n) s1.
          Continue (push_global global_value (int (length (sc_globals s1))) (add_global m n False s1)))
        else if op = 105 then after (read_reference d s) (\<lambda>(m, n) s1. Continue (push inst_value (add_global m n True s1)))
        else if op = 82 then Continue (reduce s)
        else Halt s)))"

section \<open>Streams\<close>

definition pickle_step :: "string \<Rightarrow> scanner \<Rightarrow> step" where
  "pickle_step d s = opcode d (of_char (d ! sc_pos s)) (s\<lparr>sc_pos := sc_pos s + 1\<rparr>)"

text \<open>\<open>None\<close> is a panic.\<close>

fun run_ops :: "nat \<Rightarrow> string \<Rightarrow> scanner \<Rightarrow> scanner option" where
  "run_ops 0 d s = Some s"
| "run_ops (Suc k) d s =
     (if sc_pos s < length d then
        (case pickle_step d s of Continue s' \<Rightarrow> run_ops k d s' | Halt s' \<Rightarrow> Some s' | Panic \<Rightarrow> None)
      else Some s)"

definition max_opcodes :: nat where "max_opcodes = 200000"

definition start_scan :: scanner where
  "start_scan = \<lparr>sc_globals = [], sc_stack = [], sc_pos = 0\<rparr>"

definition scan_pickle_opcodes_once :: "string \<Rightarrow> (pickle_global list \<times> nat) option" where
  "scan_pickle_opcodes_once d = map_option (\<lambda>s. (sc_globals s, sc_pos s)) (run_ops max_opcodes d start_scan)"

fun scan_streams :: "nat \<Rightarrow> string \<Rightarrow> pickle_global list option" where
  "scan_streams 0 d = Some []"
| "scan_streams (Suc k) d =
     (if d = [] then Some []
      else case scan_pickle_opcodes_once d of
        None \<Rightarrow> None
      | Some (gs, consumed) \<Rightarrow>
          if consumed = 0 then Some gs else map_option (append gs) (scan_streams k (drop consumed d)))"

definition scan_pickle_opcodes :: "string \<Rightarrow> pickle_global list option" where
  "scan_pickle_opcodes d = scan_streams 64 d"

end
