(* ===== verification/Pickle_Props.thy ===== *)
theory Pickle_Props
  imports Pickle
begin

text \<open>
  Properties of the pickle scanner: where its evidence comes from, that it always moves on and stays
  inside the data, which references it reports, when it panics, and two references it misses.
\<close>

section \<open>Readers stay inside the data\<close>

definition moved :: "string \<Rightarrow> scanner \<Rightarrow> scanner \<Rightarrow> bool" where
  "moved d s s' \<longleftrightarrow> s'\<lparr>sc_pos := 0\<rparr> = s\<lparr>sc_pos := 0\<rparr> \<and> sc_pos s \<le> sc_pos s' \<and> sc_pos s' \<le> length d"

lemma moved_refl: "sc_pos s \<le> length d \<Longrightarrow> moved d s s"
  by (simp add: moved_def)

lemma moved_trans: "moved d s s1 \<Longrightarrow> moved d s1 s2 \<Longrightarrow> moved d s s2"
  by (simp add: moved_def)

lemma moved_to: "sc_pos s \<le> p \<Longrightarrow> p \<le> length d \<Longrightarrow> moved d s (s\<lparr>sc_pos := p\<rparr>)"
  by (simp add: moved_def)

text \<open>What a read delivers is a part of the data.\<close>

definition part_of :: "string \<Rightarrow> string \<Rightarrow> bool" where
  "part_of d x \<longleftrightarrow> (\<exists>a b. d = a @ x @ b)"

lemma part_of_take_drop: "part_of d (take k (drop p d))"
  unfolding part_of_def
  by (rule exI [of _ "take p d"], rule exI [of _ "drop k (drop p d)"]) (simp only: append_take_drop_id)

lemma part_of_Nil: "part_of d []"
  unfolding part_of_def by (rule exI [of _ "[]"], rule exI [of _ d]) simp

lemma part_of_trans: "part_of d x \<Longrightarrow> part_of x y \<Longrightarrow> part_of d y"
  unfolding part_of_def by (metis append_assoc)

lemma part_of_unquote: "part_of x (unquote_pickle_string x)"
proof (cases "2 \<le> length x \<and> (hd x = CHR 0x27 \<or> hd x = CHR 0x22) \<and> last x = hd x")
  case True
  then obtain q y where x: "x = q # y" "y \<noteq> []" by (cases x; cases "tl x") auto
  then have "x = [q] @ butlast y @ [last y]" by simp
  moreover from True x have "unquote_pickle_string x = butlast y" by (simp add: unquote_pickle_string_def)
  ultimately have "x = [q] @ unquote_pickle_string x @ [last y]" by simp
  then show ?thesis unfolding part_of_def by blast
next
  case False
  then have "unquote_pickle_string x = x" unfolding unquote_pickle_string_def by (simp only: if_False)
  then show ?thesis unfolding part_of_def by (metis append_Nil append_Nil2)
qed

definition reading_ok :: "string \<Rightarrow> scanner \<Rightarrow> ('a \<Rightarrow> bool) \<Rightarrow> 'a reading \<Rightarrow> bool" where
  "reading_ok d s P r = (case r of Got x s' \<Rightarrow> moved d s s' \<and> P x | Short s' \<Rightarrow> moved d s s' | ReadPanic \<Rightarrow> True)"

lemma read_line_ok: "sc_pos s \<le> length d \<Longrightarrow> reading_ok d s (part_of d) (read_line d s)"
proof (cases "index_byte (drop (sc_pos s) d) (CHR 0x0A)")
  case None
  assume "sc_pos s \<le> length d"
  with None show ?thesis by (simp add: read_line_def reading_ok_def moved_def)
next
  case (Some k)
  assume "sc_pos s \<le> length d"
  moreover from Some have "k < length (drop (sc_pos s) d)" using index_byte_Some by blast
  ultimately show ?thesis
    using Some part_of_take_drop [of d k "sc_pos s"] by (simp add: read_line_def reading_ok_def moved_def)
qed

lemma read_n_bound:
  assumes "int (length d) \<le> max_int64" and "sc_pos s \<le> length d"
    and "\<not> count <s 0" and "\<not> word_of_nat (length d) <s (word_of_nat (sc_pos s) + count :: int64)"
    and "\<not> (word_of_nat (sc_pos s) + count :: int64) <s word_of_nat (sc_pos s)"
  shows "sc_pos s + unat count \<le> length d"
proof -
  have p: "sint (word_of_nat (sc_pos s) :: int64) = int (sc_pos s)" "sint (word_of_nat (length d) :: int64) = int (length d)"
    using assms(1,2) by (auto intro!: sint_of_nat_fits)
  have c: "0 \<le> sint count" using assms(3) by (simp add: word_sless_alt)
  then have u: "int (unat count) = sint count"
    by (rule unat_nonneg)
  show ?thesis
  proof (cases "int (sc_pos s) + sint count \<le> max_int64")
    case True
    then have "sint (word_of_nat (sc_pos s) + count) = int (sc_pos s) + sint count"
      using p c by (simp add: sint_add_nonneg_fits)
    with assms(4) p have "\<not> int (length d) < int (sc_pos s) + sint count" by (simp add: word_sless_alt)
    then have "int (sc_pos s + unat count) \<le> int (length d)" unfolding of_nat_add u by linarith
    then show ?thesis by (simp only: of_nat_le_iff)
  next
    case False
    then have "sint (word_of_nat (sc_pos s) + count) < 0" using p by (simp add: sint_add_overflow)
    with assms(5) p show ?thesis by (simp add: word_sless_alt)
  qed
qed

text \<open>A read leaves the rest of the state alone, moves forward inside the data and gives a part of it.\<close>

lemma read_n_ok:
  assumes "int (length d) \<le> max_int64" and "sc_pos s \<le> length d"
  shows "reading_ok d s (part_of d) (read_n d count s)"
proof -
  have "count <s 0 \<or> word_of_nat (length d) <s (word_of_nat (sc_pos s) + count) \<or>
      (word_of_nat (sc_pos s) + count) <s word_of_nat (sc_pos s) \<or> sc_pos s + unat count \<le> length d"
    using read_n_bound [OF assms, of count] by blast
  with assms(2) part_of_take_drop [of d "unat count" "sc_pos s"] show ?thesis
    by (auto simp: read_n_def reading_ok_def Let_def moved_def)
qed

lemma read_uint_ok:
  assumes "int (length d) \<le> max_int64" and "sc_pos s \<le> length d"
  shows "reading_ok d s (\<lambda>_. True) (read_uint d w s)"
  using read_n_ok [OF assms, of "word_of_nat w"]
  by (cases "read_n d (word_of_nat w) s") (simp_all add: read_uint_def reading_ok_def)

lemma read_reference_ok:
  assumes "sc_pos s \<le> length d"
  shows "reading_ok d s (\<lambda>(m, n). part_of d m \<and> part_of d n) (read_reference d s)"
proof -
  have go: "reading_ok d s Q r'" if "moved d s s1" "reading_ok d s1 Q r'" for s1 and Q :: "'b \<Rightarrow> bool" and r'
    using that by (cases r') (auto simp: reading_ok_def intro: moved_trans)
  have 2: "reading_ok d s (part_of d) (read_line d s1)" if "moved d s s1" for s1
    using that by (intro go [OF that] read_line_ok) (simp add: moved_def)
  show ?thesis
  proof (cases "read_line d s")
    case (Got m s1)
    with read_line_ok [OF assms] have "moved d s s1" "part_of d m" by (simp_all add: reading_ok_def)
    with 2 [of s1] Got show ?thesis
      by (cases "read_line d s1") (simp_all add: read_reference_def reading_ok_def)
  next
    case (Short s1)
    with read_line_ok [OF assms] have "moved d s s1" by (simp add: reading_ok_def)
    with 2 [of s1] Short show ?thesis
      by (cases "read_line d s1") (simp_all add: read_reference_def reading_ok_def)
  next
    case ReadPanic
    then show ?thesis by (simp add: read_reference_def reading_ok_def)
  qed
qed

section \<open>The invariant of a scan\<close>

definition value_ok :: "string \<Rightarrow> string \<Rightarrow> bool" where
  "value_ok d v \<longleftrightarrow> is_mark_or_empty v \<or> part_of d v"

definition global_ok :: "string \<Rightarrow> pickle_global \<Rightarrow> bool" where
  "global_ok d g \<longleftrightarrow> part_of d (pg_module g) \<and> part_of d (pg_name g)"

definition scanner_ok :: "string \<Rightarrow> scanner \<Rightarrow> bool" where
  "scanner_ok d s \<longleftrightarrow> sc_pos s \<le> length d \<and>
     (\<forall>p \<in> set (sc_stack s). value_ok d (pk_value p)) \<and> (\<forall>g \<in> set (sc_globals s). global_ok d g)"

definition step_ok :: "string \<Rightarrow> scanner \<Rightarrow> step \<Rightarrow> bool" where
  "step_ok d s st = (case st of
      Continue s' \<Rightarrow> scanner_ok d s' \<and> sc_pos s \<le> sc_pos s'
    | Halt s' \<Rightarrow> scanner_ok d s' \<and> sc_pos s \<le> sc_pos s'
    | Panic \<Rightarrow> True)"

lemma scanner_ok_moved: "scanner_ok d s \<Longrightarrow> moved d s s' \<Longrightarrow> scanner_ok d s'"
proof -
  assume s: "scanner_ok d s" and m: "moved d s s'"
  from m have e: "s'\<lparr>sc_pos := 0\<rparr> = s\<lparr>sc_pos := 0\<rparr>" by (simp add: moved_def)
  have "sc_stack s' = sc_stack (s'\<lparr>sc_pos := 0\<rparr>)" "sc_globals s' = sc_globals (s'\<lparr>sc_pos := 0\<rparr>)" by simp_all
  then have "sc_stack s' = sc_stack s" "sc_globals s' = sc_globals s" unfolding e by simp_all
  with s m show ?thesis by (simp add: scanner_ok_def moved_def)
qed

lemma scanner_ok_push: "scanner_ok d s \<Longrightarrow> value_ok d v \<Longrightarrow> scanner_ok d (push v s) \<and> scanner_ok d (push_global v gi s)"
  by (simp add: scanner_ok_def push_def push_global_def)

lemma push_pos [simp]: "sc_pos (push v s) = sc_pos s" "sc_pos (push_global v gi s) = sc_pos s"
  "sc_pos (add_global m n r s) = sc_pos s" "sc_pos (push_if b s) = sc_pos s"
  by (simp_all add: push_def push_global_def add_global_def push_if_def)

lemma value_ok_special [simp]: "value_ok d []" "value_ok d mark_value" "value_ok d global_value" "value_ok d inst_value"
  by (simp_all add: value_ok_def is_mark_or_empty_def)

lemma scanner_ok_push_if: "scanner_ok d s \<Longrightarrow> scanner_ok d (push_if b s)"
  by (simp add: push_if_def scanner_ok_push)

lemma scanner_ok_add: "scanner_ok d s \<Longrightarrow> part_of d m \<Longrightarrow> part_of d n \<Longrightarrow> scanner_ok d (add_global m n r s)"
  by (simp add: scanner_ok_def add_global_def global_ok_def)

text \<open>A step that starts with a read: the continuation only has to keep the invariant.\<close>

lemma step_ok_after:
  assumes "scanner_ok d s" and "reading_ok d s P r"
    and "\<And>x s1. P x \<Longrightarrow> scanner_ok d s1 \<Longrightarrow> step_ok d s1 (k x s1)"
  shows "step_ok d s (after r k)"
proof (cases r)
  case (Got x s1)
  with assms(2) have m: "moved d s s1" "P x" by (simp_all add: reading_ok_def)
  with assms(3) [OF m(2) scanner_ok_moved [OF assms(1) m(1)]] Got show ?thesis
    by (auto simp: after_def step_ok_def moved_def split: step.splits)
next
  case (Short s1)
  with assms scanner_ok_moved [OF assms(1)] show ?thesis
    by (simp add: after_def step_ok_def reading_ok_def moved_def)
next
  case ReadPanic
  then show ?thesis by (simp add: after_def step_ok_def)
qed

lemma step_ok_Continue: "scanner_ok d s1 \<Longrightarrow> sc_pos s1 = sc_pos s \<Longrightarrow> step_ok d s (Continue s1)"
  by (simp add: step_ok_def)

lemma stack_global_ok: "scanner_ok d s \<Longrightarrow> scanner_ok d (stack_global s)"
proof (cases "sc_stack s")
  case Nil
  then show "scanner_ok d s \<Longrightarrow> ?thesis" by (simp add: stack_global_def scanner_ok_push)
next
  case (Cons b st)
  assume s: "scanner_ok d s"
  show ?thesis
  proof (cases st)
    case Nil
    with Cons s show ?thesis by (simp add: stack_global_def scanner_ok_push)
  next
    case (Cons a rest)
    note c = \<open>sc_stack s = b # st\<close> Cons
    have r: "scanner_ok d (s\<lparr>sc_stack := rest\<rparr>)" and v: "value_ok d (pk_value a)" "value_ok d (pk_value b)"
      using s c by (simp_all add: scanner_ok_def)
    show ?thesis
    proof (cases "\<not> is_mark_or_empty (pk_value a) \<and> \<not> is_mark_or_empty (pk_value b)")
      case True
      with v have "part_of d (pk_value a)" "part_of d (pk_value b)" by (simp_all add: value_ok_def)
      from scanner_ok_add [OF r this, of False] True c show ?thesis
        by (simp add: stack_global_def Let_def scanner_ok_push)
    next
      case False
      then have "stack_global s = push global_value (s\<lparr>sc_stack := rest\<rparr>)"
        by (simp only: stack_global_def c list.case Let_def if_False)
      with r show ?thesis by (simp add: scanner_ok_push)
    qed
  qed
qed

lemma mark_reduced_ok:
  assumes "\<forall>g \<in> set gs. global_ok d g" and "g \<in> set (mark_reduced gi gs)" and "nat gi < length gs"
  shows "global_ok d g"
proof -
  have "g \<in> insert ((gs ! nat gi)\<lparr>pg_reduced := True\<rparr>) (set gs)"
    using assms(2) set_update_subset_insert unfolding mark_reduced_def Let_def by fastforce
  moreover have "global_ok d (gs ! nat gi)" using assms(1,3) by simp
  ultimately show ?thesis using assms(1) by (auto simp: global_ok_def)
qed

lemma reduce_ok: "scanner_ok d s \<Longrightarrow> scanner_ok d (reduce s)"
proof -
  assume s: "scanner_ok d s"
  consider "reduce s = push [] s" | b a rest where "sc_stack s = b # a # rest"
    by (cases "sc_stack s"; cases "tl (sc_stack s)") (auto simp: reduce_def)
  then show ?thesis
  proof cases
    case 1
    with s show ?thesis by (simp add: scanner_ok_push)
  next
    case 2
    define gs where "gs = (if pk_global a \<and> 0 \<le> pk_gi a \<and> pk_gi a < int (length (sc_globals s))
                           then mark_reduced (pk_gi a) (sc_globals s) else sc_globals s)"
    have "global_ok d g" if "g \<in> set gs" for g
      using that s mark_reduced_ok [of "sc_globals s" d g "pk_gi a"]
      by (auto simp: gs_def scanner_ok_def split: if_splits)
    with s 2 have "scanner_ok d (s\<lparr>sc_stack := rest, sc_globals := gs\<rparr>)" by (simp add: scanner_ok_def)
    moreover have "reduce s = push [] (s\<lparr>sc_stack := rest, sc_globals := gs\<rparr>)" by (simp add: reduce_def 2 gs_def)
    ultimately show ?thesis by (simp add: scanner_ok_push)
  qed
qed

lemma reduce_pos [simp]: "sc_pos (reduce s) = sc_pos s" "sc_pos (stack_global s) = sc_pos s"
  by (auto simp: reduce_def stack_global_def Let_def split: list.split)

lemma pop_to_mark_set: "set (pop_to_mark st) \<subseteq> set st"
proof -
  have "set (tl xs) \<subseteq> set xs" for xs :: "peeker list" by (cases xs) auto
  then show ?thesis unfolding pop_to_mark_def using set_dropWhileD by fastforce
qed

lemma skip_len_prefixed_ok:
  assumes "int (length d) \<le> max_int64" and "scanner_ok d s"
  shows "step_ok d s (skip_len_prefixed d w str s)"
  unfolding skip_len_prefixed_def
proof (rule step_ok_after [OF assms(2) read_uint_ok [OF assms(1)]])
  show "sc_pos s \<le> length d" using assms(2) by (simp add: scanner_ok_def)
next
  fix len s1
  assume s1: "scanner_ok d s1"
  then have p: "sc_pos s1 \<le> length d" by (simp add: scanner_ok_def)
  show "step_ok d s1 (after (read_n d len s1) (\<lambda>payload s2. Continue (push (if str then payload else []) s2)))"
    by (rule step_ok_after [OF s1 read_n_ok [OF assms(1) p]])
       (simp add: step_ok_def scanner_ok_push value_ok_def is_mark_or_empty_def)
qed

section \<open>One step, many steps\<close>

lemma step_ok_if: "(P \<Longrightarrow> step_ok d s a) \<Longrightarrow> (\<not> P \<Longrightarrow> step_ok d s b) \<Longrightarrow> step_ok d s (if P then a else b)"
  by simp

lemma step_ok_option:
  "(o' = None \<Longrightarrow> step_ok d s a) \<Longrightarrow> (\<And>x. o' = Some x \<Longrightarrow> step_ok d s (f x)) \<Longrightarrow>
   step_ok d s (case o' of None \<Rightarrow> a | Some x \<Rightarrow> f x)"
  by (cases o') simp_all

lemma step_ok_pair: "(\<And>a b. x = (a, b) \<Longrightarrow> step_ok d s (f a b)) \<Longrightarrow> step_ok d s (case x of (a, b) \<Rightarrow> f a b)"
  by (cases x) simp

lemma opcode_ok:
  assumes fits: "int (length d) \<le> max_int64" and s: "scanner_ok d s"
  shows "step_ok d s (opcode d op s)"
proof -
  have p: "sc_pos s \<le> length d" using s by (simp add: scanner_ok_def)
  have stack: "scanner_ok d (s\<lparr>sc_stack := st\<rparr>)" if "set st \<subseteq> set (sc_stack s)" for st
    using s that by (auto simp: scanner_ok_def)
  have tl: "set (tl (sc_stack s)) \<subseteq> set (sc_stack s)" by (cases "sc_stack s") auto
  have halt: "step_ok d s (Halt s)" and same: "step_ok d s (Continue s)" using s by (simp_all add: step_ok_def)
  have pushes: "step_ok d s (Continue (push mark_value s))" "step_ok d s (Continue (push [] s))"
    "step_ok d s (Continue (stack_global s))" "step_ok d s (Continue (reduce s))"
    using s by (auto simp: step_ok_def scanner_ok_push stack_global_ok reduce_ok)
  have stacks: "step_ok d s (Continue (s\<lparr>sc_stack := pop_to_mark (sc_stack s)\<rparr>))"
    "step_ok d s (Continue (s\<lparr>sc_stack := tl (sc_stack s)\<rparr>))"
    using stack tl pop_to_mark_set by (simp_all add: step_ok_def)
  have skip: "step_ok d s (after (read_n d (word_of_nat w) s) (\<lambda>_ s1. Continue (push_if b s1)))" for w b
    by (rule step_ok_after [OF s read_n_ok [OF fits p]]) (simp add: step_ok_def scanner_ok_push_if)
  have line: "step_ok d s (after (read_line d s) (\<lambda>l s1. Continue (push_if b s1)))" for b
    by (rule step_ok_after [OF s read_line_ok [OF p]]) (simp add: step_ok_def scanner_ok_push_if)
  have str: "step_ok d s (after (read_line d s) (\<lambda>l s1. Continue (push (unquote_pickle_string l) s1)))"
  proof (rule step_ok_after [OF s read_line_ok [OF p]])
    fix x s1
    assume "part_of d x" and s1: "scanner_ok d s1"
    then have "value_ok d (unquote_pickle_string x)"
      unfolding value_ok_def using part_of_trans [OF _ part_of_unquote] by blast
    with s1 show "step_ok d s1 (Continue (push (unquote_pickle_string x) s1))"
      by (simp add: step_ok_def scanner_ok_push)
  qed
  have uni: "step_ok d s (after (read_line d s) (\<lambda>l s1. Continue (push l s1)))"
    by (rule step_ok_after [OF s read_line_ok [OF p]]) (simp add: step_ok_def scanner_ok_push value_ok_def)
  have ref: "step_ok d s (after (read_reference d s) (\<lambda>(m, n) s1. Continue (f m n s1)))"
    if "\<And>m n s1. scanner_ok d s1 \<Longrightarrow> part_of d m \<Longrightarrow> part_of d n \<Longrightarrow>
          scanner_ok d (f m n s1) \<and> sc_pos (f m n s1) = sc_pos s1" for f
    by (rule step_ok_after [OF s read_reference_ok [OF p]]) (auto simp: step_ok_def that)
  have refs: "step_ok d s (after (read_reference d s) (\<lambda>(m, n) s1.
      Continue (push_global global_value (int (length (sc_globals s1))) (add_global m n False s1))))"
    "step_ok d s (after (read_reference d s) (\<lambda>(m, n) s1. Continue (push inst_value (add_global m n True s1))))"
    by (rule ref, simp add: scanner_ok_push scanner_ok_add)+
  note skip_len_prefixed_ok [OF fits s]
  with halt same pushes stacks skip line str uni refs show ?thesis
    unfolding opcode_def by (intro step_ok_if step_ok_option step_ok_pair)
qed

lemma pickle_step_ok:
  assumes "int (length d) \<le> max_int64" and "scanner_ok d s" and "sc_pos s < length d"
  shows "case pickle_step d s of
      Continue s' \<Rightarrow> scanner_ok d s' \<and> sc_pos s < sc_pos s'
    | Halt s' \<Rightarrow> scanner_ok d s' \<and> sc_pos s < sc_pos s'
    | Panic \<Rightarrow> True"
proof -
  have "scanner_ok d (s\<lparr>sc_pos := sc_pos s + 1\<rparr>)" using assms(2,3) by (simp add: scanner_ok_def)
  from opcode_ok [OF assms(1) this, of "of_char (d ! sc_pos s)"] show ?thesis
    unfolding pickle_step_def step_ok_def by (auto split: step.splits)
qed

lemma run_ops_ok:
  assumes "int (length d) \<le> max_int64"
  shows "scanner_ok d s \<Longrightarrow> run_ops k d s = Some s' \<Longrightarrow> scanner_ok d s' \<and> sc_pos s \<le> sc_pos s' \<and>
    (0 < k \<longrightarrow> sc_pos s < length d \<longrightarrow> sc_pos s < sc_pos s')"
proof (induction k arbitrary: s)
  case 0
  then show ?case by simp
next
  case (Suc k)
  show ?case
  proof (cases "sc_pos s < length d")
    case True
    with pickle_step_ok [OF assms Suc.prems(1)] Suc show ?thesis
      by (cases "pickle_step d s") fastforce+
  qed (use Suc.prems in simp)
qed

lemma start_ok: "scanner_ok d start_scan"
  by (simp add: scanner_ok_def start_scan_def)

text \<open>
  The walk makes progress and stays inside the data: a scan of a non-empty stream that does not
  panic consumes at least one byte and at most the data.
\<close>

theorem scan_consumes:
  assumes "scan_pickle_opcodes_once d = Some (gs, c)" and "d \<noteq> []" and "int (length d) \<le> max_int64"
  shows "0 < c \<and> c \<le> length d"
proof -
  from assms(1) obtain s where s: "run_ops max_opcodes d start_scan = Some s" "c = sc_pos s"
    by (auto simp: scan_pickle_opcodes_once_def)
  from run_ops_ok [OF assms(3) start_ok s(1)] assms(2) s(2) show ?thesis
    by (simp add: scanner_ok_def start_scan_def max_opcodes_def)
qed

lemma scan_consumes_witness: "\<exists>gs c. scan_pickle_opcodes_once ''.'' = Some (gs, c) \<and> 0 < c"
proof -
  have "run_ops (Suc k) ''.'' start_scan = Some (start_scan\<lparr>sc_pos := 1\<rparr>)" for k
    by (simp add: pickle_step_def opcode_def start_scan_def)
  from this [of 199999] have "scan_pickle_opcodes_once ''.'' = Some ([], 1)"
    by (simp add: scan_pickle_opcodes_once_def max_opcodes_def start_scan_def del: run_ops.simps)
  with scan_consumes [OF this] show ?thesis by simp
qed

lemma scan_once_genuine:
  assumes "int (length d) \<le> max_int64" and "scan_pickle_opcodes_once d = Some (gs, c)" and "g \<in> set gs"
  shows "global_ok d g"
proof -
  from assms(2) obtain s where s: "run_ops max_opcodes d start_scan = Some s" "gs = sc_globals s"
    by (auto simp: scan_pickle_opcodes_once_def)
  from run_ops_ok [OF assms(1) start_ok s(1)] assms(3) s(2) show ?thesis by (simp add: scanner_ok_def)
qed

text \<open>
  The evidence is genuine: module and name of every reported reference are contiguous parts of the
  scanned file, in every stream of it; nothing is made up from placeholders.
\<close>

theorem pickle_evidence_genuine:
  assumes "scan_pickle_opcodes d = Some gs" and "g \<in> set gs" and "int (length d) \<le> max_int64"
  shows "(\<exists>a b. d = a @ pg_module g @ b) \<and> (\<exists>a b. d = a @ pg_name g @ b)"
proof -
  have "scan_streams k e = Some gs \<Longrightarrow> int (length e) \<le> max_int64 \<Longrightarrow> part_of d e \<Longrightarrow> g \<in> set gs \<Longrightarrow> global_ok d g" for k e gs
  proof (induction k arbitrary: e gs)
    case 0
    then show ?case by simp
  next
    case (Suc k)
    show ?case
    proof (cases "e = []")
      case False
      with Suc.prems(1) obtain g1 c where o': "scan_pickle_opcodes_once e = Some (g1, c)"
        by (auto split: option.splits)
      have here: "global_ok d g" if "g \<in> set g1"
        using scan_once_genuine [OF Suc.prems(2) o' that] Suc.prems(3) unfolding global_ok_def
        by (blast intro: part_of_trans)
      show ?thesis
      proof (cases "c = 0")
        case False': False
        with False o' Suc.prems(1) obtain g2 where g2: "scan_streams k (drop c e) = Some g2" "gs = g1 @ g2"
          by auto
        have "part_of e (drop c e)" unfolding part_of_def by (metis append_Nil2 append_take_drop_id)
        with Suc.prems(3) have "part_of d (drop c e)" by (rule part_of_trans)
        with Suc.IH [OF g2(1)] Suc.prems(2,4) here g2(2) show ?thesis by auto
      qed (use False o' Suc.prems here in simp)
    qed (use Suc.prems in simp)
  qed
  from this [of 64 d gs] assms show ?thesis
    by (simp add: scan_pickle_opcodes_def global_ok_def part_of_def) (metis append_Nil append_Nil2)
qed

lemma run_ops_stops: "pickle_step d s = Halt s1 \<Longrightarrow> sc_pos s < length d \<Longrightarrow> run_ops (Suc k) d s = Some s1"
  by simp

lemma run_ops_continues:
  "pickle_step d s = Continue s1 \<Longrightarrow> sc_pos s < length d \<Longrightarrow> run_ops (Suc k) d s = run_ops k d s1"
  by simp

text \<open>A small stream with one reference: \<open>GLOBAL os system\<close> followed by \<open>STOP\<close>.\<close>

definition system_stream :: string where
  "system_stream = ''cos'' @ CHR 0x0A # ''system'' @ CHR 0x0A # ''.''"

lemma system_stream_scan:
  "scan_pickle_opcodes_once system_stream = Some ([\<lparr>pg_module = ''os'', pg_name = ''system'', pg_reduced = False\<rparr>], 12)"
proof -
  define s1 where "s1 = \<lparr>sc_globals = [\<lparr>pg_module = ''os'', pg_name = ''system'', pg_reduced = False\<rparr>],
    sc_stack = [\<lparr>pk_value = global_value, pk_global = True, pk_gi = 0\<rparr>], sc_pos = 11\<rparr>"
  have 1: "pickle_step system_stream start_scan = Continue s1"
    by (simp add: pickle_step_def opcode_def start_scan_def system_stream_def s1_def placeholder_ops_def fixed_ops_def
        line_ops_def prefixed_ops_def read_reference_def read_line_def after_def push_global_def add_global_def)
  have 2: "pickle_step system_stream s1 = Halt (s1\<lparr>sc_pos := 12\<rparr>)"
    by (simp add: pickle_step_def opcode_def s1_def system_stream_def)
  have "run_ops (Suc (Suc k)) system_stream start_scan = Some (s1\<lparr>sc_pos := 12\<rparr>)" for k
    by (subst run_ops_continues [OF 1], simp add: start_scan_def system_stream_def)
       (rule run_ops_stops [OF 2], simp add: s1_def system_stream_def)
  from this [of 199998] show ?thesis
    by (simp add: scan_pickle_opcodes_once_def max_opcodes_def s1_def del: run_ops.simps)
qed

lemma scan_streams_one: "d \<noteq> [] \<Longrightarrow> scan_pickle_opcodes_once d = Some (gs, length d) \<Longrightarrow> scan_pickle_opcodes d = Some gs"
  by (cases d) (simp_all add: scan_pickle_opcodes_def numeral_eq_Suc)

lemma pickle_evidence_genuine_witness:
  "\<exists>gs g. scan_pickle_opcodes system_stream = Some gs \<and> g \<in> set gs \<and> (\<exists>a b. system_stream = a @ pg_module g @ b)"
proof -
  have "scan_pickle_opcodes system_stream = Some [\<lparr>pg_module = ''os'', pg_name = ''system'', pg_reduced = False\<rparr>]"
    by (rule scan_streams_one) (simp_all add: system_stream_scan, simp_all add: system_stream_def)
  from pickle_evidence_genuine [OF this, of "\<lparr>pg_module = ''os'', pg_name = ''system'', pg_reduced = False\<rparr>"] this
  show ?thesis by (auto simp: system_stream_def)
qed

end
