(* ===== verification/Pickle_Detection.thy ===== *)
theory Pickle_Detection
  imports Pickle_Props
begin

text \<open>
  What the pickle scanner reports: every reference the walk reaches, and two kinds of streams where it
  reports nothing, a panic and references that go through the memo.
\<close>

section \<open>References are never dropped\<close>

definition refs :: "pickle_global list \<Rightarrow> (string \<times> string) set" where
  "refs gs = (\<lambda>g. (pg_module g, pg_name g)) ` set gs"

definition keeps :: "scanner \<Rightarrow> step \<Rightarrow> bool" where
  "keeps s st = (case st of Continue s' \<Rightarrow> refs (sc_globals s) \<subseteq> refs (sc_globals s')
     | Halt s' \<Rightarrow> refs (sc_globals s) \<subseteq> refs (sc_globals s') | Panic \<Rightarrow> True)"

definition quiet :: "scanner \<Rightarrow> 'a reading \<Rightarrow> bool" where
  "quiet s r = (case r of Got x s' \<Rightarrow> sc_globals s' = sc_globals s | Short s' \<Rightarrow> sc_globals s' = sc_globals s | ReadPanic \<Rightarrow> True)"

lemma quiet_reads: "quiet s (read_line d s)" "quiet s (read_n d n s)" "quiet s (read_uint d w s)"
  by (auto simp: quiet_def read_line_def read_n_def read_uint_def Let_def split: option.split)

lemma quiet_reference: "quiet s (read_reference d s)"
  by (auto simp: quiet_def read_reference_def read_line_def split: option.split)

lemma keeps_after:
  assumes "quiet s r" and "\<And>x s1. sc_globals s1 = sc_globals s \<Longrightarrow> keeps s (k x s1)"
  shows "keeps s (after r k)"
  using assms by (cases r) (auto simp: after_def quiet_def keeps_def)

lemma refs_update: "i < length gs \<Longrightarrow> refs (gs[i := (gs ! i)\<lparr>pg_reduced := b\<rparr>]) = refs gs"
proof -
  assume i: "i < length gs"
  let ?f = "\<lambda>g. (pg_module g, pg_name g)"
  have "?f ((gs ! i)\<lparr>pg_reduced := b\<rparr>) = map ?f gs ! i" using i by simp
  then have "map ?f (gs[i := (gs ! i)\<lparr>pg_reduced := b\<rparr>]) = map ?f gs"
    by (simp only: map_update list_update_id)
  from arg_cong [OF this, of set] show ?thesis by (simp only: refs_def image_set)
qed

lemma globals_push [simp]: "sc_globals (push v s) = sc_globals s" "sc_globals (push_global v i s) = sc_globals s"
  "sc_globals (push_if b s) = sc_globals s"
  by (simp_all add: push_def push_global_def push_if_def)

lemma refs_add [simp]: "refs (sc_globals (add_global m n b s)) = insert (m, n) (refs (sc_globals s))"
  by (simp add: add_global_def refs_def)

lemma reduce_refs: "refs (sc_globals (reduce s)) = refs (sc_globals s)"
proof -
  have "0 \<le> i \<Longrightarrow> i < int (length gs) \<Longrightarrow> refs (mark_reduced i gs) = refs gs" for i and gs :: "pickle_global list"
    unfolding mark_reduced_def Let_def by (rule refs_update) simp
  then show ?thesis by (simp add: reduce_def split: list.split)
qed

lemma stack_global_refs: "refs (sc_globals s) \<subseteq> refs (sc_globals (stack_global s))"
proof -
  have e: "refs (sc_globals (add_global m n b (s\<lparr>sc_stack := st\<rparr>))) = insert (m, n) (refs (sc_globals s))" for m n b st
    by simp
  show ?thesis unfolding stack_global_def by (auto simp: Let_def e simp del: refs_add split: list.split)
qed

lemma keeps_if: "keeps s a \<Longrightarrow> keeps s b \<Longrightarrow> keeps s (if P then a else b)"
  by simp

lemma keeps_option: "keeps s a \<Longrightarrow> (\<And>x. keeps s (f x)) \<Longrightarrow> keeps s (case o' of None \<Rightarrow> a | Some x \<Rightarrow> f x)"
  by (cases o') simp_all

lemma keeps_pair: "(\<And>a b. keeps s (f a b)) \<Longrightarrow> keeps s (case x of (a, b) \<Rightarrow> f a b)"
  by (cases x) simp

lemma skip_keeps: "keeps s (skip_len_prefixed d w b s)"
  unfolding skip_len_prefixed_def
proof (rule keeps_after [OF quiet_reads(3)])
  fix len and s1 :: scanner
  assume e: "sc_globals s1 = sc_globals s"
  have "keeps s1 (after (read_n d len s1) (\<lambda>payload s2. Continue (push (if b then payload else []) s2)))"
    by (rule keeps_after [OF quiet_reads(2)]) (simp add: keeps_def)
  then show "keeps s (after (read_n d len s1) (\<lambda>payload s2. Continue (push (if b then payload else []) s2)))"
    unfolding keeps_def e .
qed

lemma opcode_keeps: "keeps s (opcode d op s)"
proof -
  have now: "keeps s (Halt s)" "keeps s (Continue s)" "keeps s (Continue (push v s))"
    "keeps s (Continue (stack_global s))" "keeps s (Continue (reduce s))" "keeps s (Continue (s\<lparr>sc_stack := st\<rparr>))" for v st
    by (simp_all add: keeps_def stack_global_refs reduce_refs)
  have line: "keeps s (after (read_line d s) (\<lambda>l s1. Continue (f l s1)))"
    if "\<And>l s1. sc_globals (f l s1) = sc_globals s1" for f
    by (rule keeps_after [OF quiet_reads(1)]) (simp add: keeps_def that)
  have num: "keeps s (after (read_n d n s) (\<lambda>l s1. Continue (push_if b s1)))" for n b
    by (rule keeps_after [OF quiet_reads(2)]) (simp add: keeps_def)
  have ref: "keeps s (after (read_reference d s) (\<lambda>(m, n) s1. Continue (f m n s1)))"
    if "\<And>m n s1. refs (sc_globals s1) \<subseteq> refs (sc_globals (f m n s1))" for f
    by (rule keeps_after [OF quiet_reference]) (use that in \<open>fastforce simp: keeps_def\<close>)
  have lines: "keeps s (after (read_line d s) (\<lambda>_ s1. Continue (push_if b s1)))"
    "keeps s (after (read_line d s) (\<lambda>l s1. Continue (push (unquote_pickle_string l) s1)))"
    "keeps s (after (read_line d s) (\<lambda>l s1. Continue (push l s1)))" for b
    by (rule line, simp)+
  have refs: "keeps s (after (read_reference d s) (\<lambda>(m, n) s1.
      Continue (push_global global_value (int (length (sc_globals s1))) (add_global m n False s1))))"
    "keeps s (after (read_reference d s) (\<lambda>(m, n) s1. Continue (push inst_value (add_global m n True s1))))"
    by (rule ref, auto)+
  show ?thesis
    unfolding opcode_def by (intro keeps_if keeps_option keeps_pair now num lines refs skip_keeps)
qed

lemma step_keeps: "keeps s (pickle_step d s)"
proof -
  have e: "sc_globals (s\<lparr>sc_pos := p\<rparr>) = sc_globals s" for p by simp
  show ?thesis
    using opcode_keeps [of "s\<lparr>sc_pos := sc_pos s + 1\<rparr>" d "of_char (d ! sc_pos s)"]
    unfolding pickle_step_def keeps_def e .
qed

lemma run_ops_keeps: "run_ops k d s = Some s' \<Longrightarrow> refs (sc_globals s) \<subseteq> refs (sc_globals s')"
proof (induction k arbitrary: s)
  case 0
  then show ?case by simp
next
  case (Suc k)
  show ?case
  proof (cases "sc_pos s < length d")
    case True
    with Suc step_keeps [of s d] show ?thesis
      by (cases "pickle_step d s") (fastforce simp: keeps_def)+
  qed (use Suc.prems in simp)
qed

section \<open>Every reference the walk reaches\<close>

text \<open>\<open>k\<close> opcodes that do not end the walk.\<close>

fun walk :: "nat \<Rightarrow> string \<Rightarrow> scanner \<Rightarrow> scanner option" where
  "walk 0 d s = Some s"
| "walk (Suc k) d s =
     (if sc_pos s < length d then (case pickle_step d s of Continue s' \<Rightarrow> walk k d s' | _ \<Rightarrow> None) else None)"

lemma run_ops_walk: "walk k d s = Some s1 \<Longrightarrow> k \<le> n \<Longrightarrow> run_ops n d s = run_ops (n - k) d s1"
proof (induction k arbitrary: s n)
  case (Suc k)
  then show ?case by (cases n; cases "pickle_step d s") (auto split: if_splits)
qed simp

text \<open>
  The reference at the position of a scan: \<open>GLOBAL\<close> and \<open>INST\<close> carry module and name as lines,
  \<open>STACK_GLOBAL\<close> takes the two strings on top of the stack.
\<close>

definition refers :: "string \<Rightarrow> scanner \<Rightarrow> string \<Rightarrow> string \<Rightarrow> bool" where
  "refers d s m n \<longleftrightarrow>
     (\<exists>op rest. drop (sc_pos s) d = op # m @ CHR 0x0A # n @ CHR 0x0A # rest \<and> (op = CHR ''c'' \<or> op = CHR ''i'') \<and>
        CHR 0x0A \<notin> set m \<and> CHR 0x0A \<notin> set n)
   \<or> (\<exists>rest a b st. drop (sc_pos s) d = CHR 0x93 # rest \<and> sc_stack s = b # a # st \<and>
        pk_value a = m \<and> pk_value b = n \<and> \<not> is_mark_or_empty m \<and> \<not> is_mark_or_empty n)"

lemma read_line_append:
  "drop (sc_pos s) d = l @ CHR 0x0A # rest \<Longrightarrow> CHR 0x0A \<notin> set l \<Longrightarrow>
   read_line d s = Got l (s\<lparr>sc_pos := sc_pos s + length l + 1\<rparr>)"
  by (simp add: read_line_def index_byte_append)

lemma read_reference_lines:
  assumes "drop (sc_pos s) d = m @ CHR 0x0A # n @ CHR 0x0A # rest" and "CHR 0x0A \<notin> set m" and "CHR 0x0A \<notin> set n"
  shows "\<exists>s'. read_reference d s = Got (m, n) s'"
proof -
  let ?s = "s\<lparr>sc_pos := sc_pos s + length m + 1\<rparr>"
  have "drop (sc_pos ?s) d = drop (length m + 1) (drop (sc_pos s) d)" by (simp add: add.commute)
  then have "drop (sc_pos ?s) d = n @ CHR 0x0A # rest" using assms(1) by simp
  from read_line_append [OF this assms(3)] read_line_append [OF assms(1,2)] show ?thesis
    by (simp add: read_reference_def)
qed

lemma opcode_reference: "opcode d 99 s = after (read_reference d s) (\<lambda>(m, n) s1.
      Continue (push_global global_value (int (length (sc_globals s1))) (add_global m n False s1)))"
  "opcode d 105 s = after (read_reference d s) (\<lambda>(m, n) s1. Continue (push inst_value (add_global m n True s1)))"
  "opcode d 147 s = Continue (stack_global s)"
  by (simp_all add: opcode_def placeholder_ops_def fixed_ops_def line_ops_def prefixed_ops_def)

lemma refers_step:
  assumes "refers d s m n"
  shows "\<exists>s'. pickle_step d s = Continue s' \<and> (m, n) \<in> refs (sc_globals s') \<and> sc_pos s < length d"
proof -
  let ?s = "s\<lparr>sc_pos := sc_pos s + 1\<rparr>"
  have at: "d ! sc_pos s = op \<and> sc_pos s < length d \<and> drop (sc_pos ?s) d = rest" if "drop (sc_pos s) d = op # rest" for op rest
  proof -
    have p: "sc_pos s < length d" using that by (metis drop_all list.distinct(1) not_le)
    with that show ?thesis by (simp add: Cons_nth_drop_Suc [symmetric])
  qed
  from assms consider
    (line) op rest where "drop (sc_pos s) d = op # m @ CHR 0x0A # n @ CHR 0x0A # rest"
      "op = CHR ''c'' \<or> op = CHR ''i''" "CHR 0x0A \<notin> set m" "CHR 0x0A \<notin> set n"
    | (stack) rest a b st where "drop (sc_pos s) d = CHR 0x93 # rest" "sc_stack s = b # a # st"
      "pk_value a = m" "pk_value b = n" "\<not> is_mark_or_empty m" "\<not> is_mark_or_empty n"
    unfolding refers_def by blast
  then show ?thesis
  proof cases
    case line
    note a = at [OF line(1)]
    obtain s' where s': "read_reference d ?s = Got (m, n) s'"
      using read_reference_lines [OF _ line(3,4), of ?s d] a by blast
    have c: "opcode d 99 ?s = Continue (push_global global_value (int (length (sc_globals s'))) (add_global m n False s'))"
      "opcode d 105 ?s = Continue (push inst_value (add_global m n True s'))"
      unfolding opcode_reference s' after_def by simp_all
    from line(2) have "pickle_step d s = opcode d 99 ?s \<or> pickle_step d s = opcode d 105 ?s"
      using a by (auto simp: pickle_step_def)
    then show ?thesis unfolding c using a by (elim disjE) simp_all
  next
    case stack
    note a = at [OF stack(1)]
    have "pickle_step d s = Continue (stack_global ?s)" using a by (simp add: pickle_step_def opcode_reference)
    moreover have "(m, n) \<in> refs (sc_globals (stack_global ?s))"
      using stack by (simp add: stack_global_def Let_def)
    ultimately show ?thesis using a by blast
  qed
qed

text \<open>The data at the start of stream \<open>j\<close> of a file, when the streams before it end without a panic.\<close>

fun stream_start :: "nat \<Rightarrow> string \<Rightarrow> string option" where
  "stream_start 0 d = Some d"
| "stream_start (Suc j) d =
     (case scan_pickle_opcodes_once d of
        None \<Rightarrow> None
      | Some (gs, consumed) \<Rightarrow> if consumed = 0 then None else stream_start j (drop consumed d))"

lemma once_Nil: "scan_pickle_opcodes_once [] = Some ([], 0)"
proof -
  have "run_ops (Suc k) [] start_scan = Some start_scan" for k by (simp add: start_scan_def)
  from this [of 199999] show ?thesis by (simp add: scan_pickle_opcodes_once_def max_opcodes_def start_scan_def del: run_ops.simps)
qed

lemma stream_start_nonempty: "stream_start (Suc j) d = Some d' \<Longrightarrow> d \<noteq> []"
  by (cases d) (auto simp: once_Nil split: option.splits if_splits)

lemma scan_streams_reports:
  assumes "stream_start j d = Some d'" and "j < n" and "d' \<noteq> []" and "scan_streams n d = Some all"
  shows "\<exists>gs c. scan_pickle_opcodes_once d' = Some (gs, c) \<and> set gs \<subseteq> set all"
  using assms
proof (induction j arbitrary: d n all)
  case 0
  then obtain k where "n = Suc k" by (cases n) simp_all
  with 0 show ?case by (auto split: option.splits prod.splits if_splits)
next
  case (Suc j)
  then obtain k where k: "n = Suc k" by (cases n) simp_all
  from Suc.prems(1) obtain gs c where o: "scan_pickle_opcodes_once d = Some (gs, c)" "c \<noteq> 0" "stream_start j (drop c d) = Some d'"
    by (auto split: option.splits if_splits)
  with Suc.prems stream_start_nonempty obtain rest where r: "scan_streams k (drop c d) = Some rest" "all = gs @ rest"
    unfolding k by (cases "scan_streams k (drop c d)") auto
  from Suc.IH [OF o(3) _ Suc.prems(3) r(1)] Suc.prems(2) k r(2) show ?case by auto
qed

text \<open>
  C14. Detection: when the scan of a file ends without a panic, it reports every \<open>GLOBAL\<close> or \<open>INST\<close> reference, and
  every \<open>STACK_GLOBAL\<close> whose two strings are on top of the tracked stack and are neither empty nor markers, that
  the walk reaches in one of the first 64 streams, within the 200000 opcodes of that stream; nothing that
  follows takes it back.
\<close>

theorem reached_references_reported:
  assumes "scan_pickle_opcodes d = Some all" and "stream_start j d = Some d'" and "j < 64"
    and "walk k d' start_scan = Some s" and "k < max_opcodes" and "refers d' s m n"
  shows "(m, n) \<in> refs all"
proof -
  obtain s' where s': "pickle_step d' s = Continue s'" "(m, n) \<in> refs (sc_globals s')" "sc_pos s < length d'"
    using refers_step [OF assms(6)] by blast
  then have "d' \<noteq> []" by auto
  with scan_streams_reports [OF assms(2,3)] assms(1) obtain gs c where
    g: "scan_pickle_opcodes_once d' = Some (gs, c)" "set gs \<subseteq> set all" by (auto simp: scan_pickle_opcodes_def)
  then obtain e where e: "run_ops max_opcodes d' start_scan = Some e" "gs = sc_globals e"
    by (auto simp: scan_pickle_opcodes_once_def)
  obtain i where i: "max_opcodes - k = Suc i" using assms(5) by (metis Suc_diff_Suc)
  have "run_ops (Suc i) d' s = Some e" using run_ops_walk [OF assms(4), of max_opcodes] assms(5) e(1) i by simp
  with s' have "run_ops i d' s' = Some e" by simp
  from run_ops_keeps [OF this] s'(2) e(2) g(2) show ?thesis by (auto simp: refs_def)
qed

lemma reached_references_reported_witness:
  "\<exists>gs. scan_pickle_opcodes system_stream = Some gs \<and> (''os'', ''system'') \<in> refs gs"
proof -
  have "refers system_stream start_scan ''os'' ''system''"
    unfolding refers_def by (rule disjI1) (simp add: start_scan_def system_stream_def)
  moreover have "stream_start 0 system_stream = Some system_stream" by simp
  moreover have "scan_pickle_opcodes system_stream = Some [\<lparr>pg_module = ''os'', pg_name = ''system'', pg_reduced = False\<rparr>]"
    by (rule scan_streams_one) (simp_all add: system_stream_scan, simp_all add: system_stream_def)
  ultimately show ?thesis
    using reached_references_reported [of system_stream _ 0 system_stream 0 start_scan "''os''" "''system''"] by (auto simp: max_opcodes_def)
qed

section \<open>A panic\<close>

lemma opcode_binunicode8: "opcode d 141 s = skip_len_prefixed d 8 True s"
  by (simp add: opcode_def placeholder_ops_def fixed_ops_def line_ops_def prefixed_ops_def)

text \<open>\<open>BINUNICODE8\<close> with the length \<open>2^63 - 1\<close>.\<close>

definition huge_length_stream :: string where
  "huge_length_stream = [CHR 0x8D, CHR 0xFF, CHR 0xFF, CHR 0xFF, CHR 0xFF, CHR 0xFF, CHR 0xFF, CHR 0xFF, CHR 0x7F]"

text \<open>
  C37. The bound check of \<open>readN\<close> overflows: nine bytes, an eight-byte length of \<open>2^63 - 1\<close> after its
  opcode, make the scanner slice with a negative bound and panic.
\<close>

theorem length_overflow_panics: "scan_pickle_opcodes huge_length_stream = None"
proof -
  have r: "read_uint huge_length_stream 8 (start_scan\<lparr>sc_pos := 1\<rparr>) = Got 0x7FFFFFFFFFFFFFFF (start_scan\<lparr>sc_pos := 9\<rparr>)"
    by (simp add: read_uint_def read_n_def huge_length_stream_def Let_def start_scan_def word_sless_alt)
  have "read_n huge_length_stream 0x7FFFFFFFFFFFFFFF (start_scan\<lparr>sc_pos := 9\<rparr>) = ReadPanic"
    by (simp add: read_n_def huge_length_stream_def start_scan_def Let_def word_sless_alt)
  then have "skip_len_prefixed huge_length_stream 8 True (start_scan\<lparr>sc_pos := 1\<rparr>) = Panic"
    unfolding skip_len_prefixed_def r after_def by simp
  moreover have "pickle_step huge_length_stream start_scan = skip_len_prefixed huge_length_stream 8 True (start_scan\<lparr>sc_pos := 1\<rparr>)"
    using opcode_binunicode8 by (simp add: pickle_step_def start_scan_def huge_length_stream_def)
  ultimately have "pickle_step huge_length_stream start_scan = Panic" by simp
  then have "run_ops (Suc k) huge_length_stream start_scan = None" for k
    by (simp add: start_scan_def huge_length_stream_def)
  from this [of 199999] have "scan_pickle_opcodes_once huge_length_stream = None"
    by (simp add: scan_pickle_opcodes_once_def max_opcodes_def del: run_ops.simps)
  then show ?thesis by (simp add: scan_pickle_opcodes_def numeral_eq_Suc huge_length_stream_def)
qed

section \<open>References through the memo\<close>

text \<open>
  Two programs that call the same function with one string: the first pushes module and name and joins them with
  \<open>STACK_GLOBAL\<close>; the second stores them in the memo (\<open>BINPUT\<close>) and fetches them again (\<open>BINGET\<close>) first.
\<close>

definition short_string :: "string \<Rightarrow> string" where
  "short_string v = CHR ''U'' # char_of (length v) # v"

definition call_tail :: "string \<Rightarrow> string" where
  "call_tail arg = [CHR 0x93] @ short_string arg @ [CHR 0x85] @ ''R'' @ ''.''"

definition direct_call :: "string \<Rightarrow> string \<Rightarrow> string \<Rightarrow> string" where
  "direct_call m n arg = short_string m @ short_string n @ call_tail arg"

definition memo_call :: "string \<Rightarrow> string \<Rightarrow> string \<Rightarrow> string" where
  "memo_call m n arg = short_string m @ [CHR ''q'', CHR 0x00] @ short_string n @ [CHR ''q'', CHR 0x01] @
     [CHR ''h'', CHR 0x00] @ [CHR ''h'', CHR 0x01] @ call_tail arg"

text \<open>Where a scan stands: the code still to be read, the stack and the references found.\<close>

definition at_code :: "string \<Rightarrow> scanner \<Rightarrow> string \<Rightarrow> peeker list \<Rightarrow> pickle_global list \<Rightarrow> bool" where
  "at_code d s code st gs \<longleftrightarrow> drop (sc_pos s) d = code \<and> sc_stack s = st \<and> sc_globals s = gs"

text \<open>From there, \<open>k\<close> opcodes reach the end of the data with the references \<open>r\<close>.\<close>

definition outcome :: "nat \<Rightarrow> string \<Rightarrow> string \<Rightarrow> peeker list \<Rightarrow> pickle_global list \<Rightarrow> pickle_global list \<Rightarrow> bool" where
  "outcome k d code st gs r \<longleftrightarrow>
     (\<forall>s. at_code d s code st gs \<longrightarrow> (\<exists>s'. run_ops k d s = Some s' \<and> sc_globals s' = r \<and> drop (sc_pos s') d = []))"

definition small :: "string \<Rightarrow> bool" where
  "small d \<longleftrightarrow> int (length d) \<le> max_int64"

lemma char_codes: "of_char (CHR ''U'') = (85::nat)" "of_char (CHR ''q'') = (113::nat)" "of_char (CHR ''h'') = (104::nat)"
  "of_char (CHR 0x93) = (147::nat)" "of_char (CHR 0x85) = (133::nat)" "of_char (CHR ''R'') = (82::nat)"
  "of_char (CHR ''.'') = (46::nat)"
  by simp_all

lemma opcodes: "opcode d 85 s = skip_len_prefixed d 1 True s"
  "opcode d 113 s = after (read_n d (word_of_nat 1) s) (\<lambda>_ s1. Continue (push_if False s1))"
  "opcode d 104 s = after (read_n d (word_of_nat 1) s) (\<lambda>_ s1. Continue (push_if True s1))"
  "opcode d 133 s = Continue (push [] s)" "opcode d 82 s = Continue (reduce s)" "opcode d 46 s = Halt s"
  by (simp_all add: opcode_def placeholder_ops_def fixed_ops_def line_ops_def prefixed_ops_def)

lemma step_at:
  assumes "at_code d s (c # rest) st gs" and "of_char c = k"
  shows "sc_pos s < length d" "pickle_step d s = opcode d k (s\<lparr>sc_pos := sc_pos s + 1\<rparr>)"
    "at_code d (s\<lparr>sc_pos := sc_pos s + 1\<rparr>) rest st gs"
proof -
  have d: "drop (sc_pos s) d = c # rest" using assms(1) by (simp add: at_code_def)
  show p: "sc_pos s < length d" using d by (metis drop_all list.distinct(1) not_le)
  with d have "d ! sc_pos s = c" "drop (Suc (sc_pos s)) d = rest" by (simp_all add: Cons_nth_drop_Suc [symmetric])
  then show "pickle_step d s = opcode d k (s\<lparr>sc_pos := sc_pos s + 1\<rparr>)"
    "at_code d (s\<lparr>sc_pos := sc_pos s + 1\<rparr>) rest st gs"
    using assms by (simp_all only: pickle_step_def) (simp_all add: at_code_def)
qed

lemma read_n_at:
  assumes "at_code d s (v @ rest) st gs" and "sc_pos s \<le> length d" and "small d"
  shows "\<exists>s'. read_n d (word_of_nat (length v)) s = Got v s' \<and> at_code d s' rest st gs \<and> sc_pos s' \<le> length d"
proof -
  let ?s = "s\<lparr>sc_pos := sc_pos s + length v\<rparr>"
  have d: "drop (sc_pos s) d = v @ rest" using assms(1) by (simp add: at_code_def)
  have l: "sc_pos s + length v \<le> length d" using arg_cong [OF d, of length] assms(2) by simp
  have f: "sint (word_of_nat n :: int64) = int n" if "n \<le> length d" for n
    using that assms(3) unfolding small_def by (intro sint_of_nat_fits) simp
  have k: "sint (word_of_nat (length v) :: int64) = int (length v)" using l by (intro f) simp
  then have "int (unat (word_of_nat (length v) :: int64)) = int (length v)"
    using unat_nonneg [of "word_of_nat (length v)"] by (simp del: unat_of_nat uint_nat)
  then have u: "unat (word_of_nat (length v) :: int64) = length v" by (simp only: of_nat_eq_iff)
  have "read_n d (word_of_nat (length v)) s = Got v ?s"
    using l k d f [of "sc_pos s"] f [of "sc_pos s + length v"] f [of "length d"]
    unfolding read_n_def Let_def u by (simp add: word_sless_alt)
  moreover have "drop (sc_pos ?s) d = drop (length v) (drop (sc_pos s) d)" by (simp add: add.commute)
  then have "at_code d ?s rest st gs" using d assms(1) by (simp add: at_code_def)
  ultimately show ?thesis using l by auto
qed

lemma read_byte_at:
  assumes "at_code d s (x # rest) st gs" and "sc_pos s \<le> length d" and "small d"
  shows "\<exists>s'. read_n d (word_of_nat 1) s = Got [x] s' \<and> at_code d s' rest st gs \<and> sc_pos s' \<le> length d"
proof -
  have "at_code d s ([x] @ rest) st gs" using assms(1) by simp
  from read_n_at [OF this assms(2,3)] show ?thesis by (simp only: length_Cons list.size(3) One_nat_def)
qed

lemma outcome_step:
  assumes "\<And>s. at_code d s (c # code) st gs \<Longrightarrow> \<exists>s'. pickle_step d s = Continue s' \<and> at_code d s' rest st' gs'"
    and "outcome k d rest st' gs' r"
  shows "outcome (Suc k) d (c # code) st gs r"
  unfolding outcome_def
proof (intro allI impI)
  fix s assume a: "at_code d s (c # code) st gs"
  with assms(1) obtain s' where "pickle_step d s = Continue s'" "at_code d s' rest st' gs'" by blast
  with step_at(1) [OF a refl] assms(2) show "\<exists>s'. run_ops (Suc k) d s = Some s' \<and> sc_globals s' = r \<and> drop (sc_pos s') d = []"
    unfolding outcome_def by simp
qed

definition item :: "string \<Rightarrow> peeker" where
  "item v = \<lparr>pk_value = v, pk_global = False, pk_gi = - 1\<rparr>"

lemma at_code_push [simp]: "at_code d (push v s) code (item v # st) gs = at_code d s code st gs"
  by (auto simp: at_code_def push_def item_def)

lemma outcome_string:
  assumes "small d" and "length v < 256" and "outcome k d rest (item v # st) gs r"
  shows "outcome (Suc k) d (short_string v @ rest) st gs r"
  unfolding short_string_def append_Cons
proof (rule outcome_step [OF _ assms(3)])
  fix s assume a: "at_code d s (CHR ''U'' # char_of (length v) # v @ rest) st gs"
  note at = step_at [OF a char_codes(1)]
  let ?s = "s\<lparr>sc_pos := sc_pos s + 1\<rparr>"
  have p: "sc_pos ?s \<le> length d" using at(1) by simp
  from read_byte_at [OF at(3) p assms(1)] obtain s1 where
    s1: "read_n d (word_of_nat 1) ?s = Got [char_of (length v)] s1" "at_code d s1 (v @ rest) st gs" "sc_pos s1 \<le> length d"
    by blast
  have u: "read_uint d 1 ?s = Got (word_of_nat (length v)) s1"
    using s1(1) assms(2) by (simp add: read_uint_def)
  from read_n_at [OF s1(2,3) assms(1)] obtain s2 where
    s2: "read_n d (word_of_nat (length v)) s1 = Got v s2" "at_code d s2 rest st gs" by blast
  have "skip_len_prefixed d 1 True ?s = Continue (push v s2)"
    unfolding skip_len_prefixed_def u after_def by (simp add: s2)
  then have "pickle_step d s = Continue (push v s2)" unfolding at(2) opcodes .
  then show "\<exists>s'. pickle_step d s = Continue s' \<and> at_code d s' rest (item v # st) gs" using s2(2) by auto
qed

lemma skip_byte:
  assumes "at_code d s (c # x # rest) st gs" and "small d" and "of_char c = k"
    and "\<And>s. opcode d k s = after (read_n d (word_of_nat 1) s) (\<lambda>_ s1. Continue (push_if b s1))"
  shows "\<exists>s'. pickle_step d s = Continue (push_if b s') \<and> at_code d s' rest st gs"
proof -
  note at = step_at [OF assms(1,3)]
  let ?s = "s\<lparr>sc_pos := sc_pos s + 1\<rparr>"
  have p: "sc_pos ?s \<le> length d" using at(1) by simp
  from read_byte_at [OF at(3) p assms(2)] obtain s1 where
    s1: "read_n d (word_of_nat 1) ?s = Got [x] s1" "at_code d s1 rest st gs" by blast
  then have "pickle_step d s = Continue (push_if b s1)" unfolding at(2) assms(4) after_def by simp
  with s1(2) show ?thesis by blast
qed

lemma outcome_put: "small d \<Longrightarrow> outcome k d rest st gs r \<Longrightarrow> outcome (Suc k) d (CHR ''q'' # x # rest) st gs r"
  using skip_byte [OF _ _ char_codes(2) opcodes(2)] by (intro outcome_step) (auto simp: push_if_def)

lemma outcome_get:
  assumes "small d" and "outcome k d rest (item [] # st) gs r"
  shows "outcome (Suc k) d (CHR ''h'' # x # rest) st gs r"
proof (rule outcome_step [OF _ assms(2)])
  fix s assume "at_code d s (CHR ''h'' # x # rest) st gs"
  from skip_byte [OF this assms(1) char_codes(3) opcodes(3)] obtain s' where
    "pickle_step d s = Continue (push [] s')" "at_code d s' rest st gs" by (auto simp: push_if_def)
  then show "\<exists>s'. pickle_step d s = Continue s' \<and> at_code d s' rest (item [] # st) gs" by auto
qed

lemma outcome_simple:
  assumes "of_char c = n" and "\<And>s. opcode d n s = Continue (f s)"
    and "\<And>s. at_code d s rest st gs \<Longrightarrow> at_code d (f s) rest st' gs'" and "outcome k d rest st' gs' r"
  shows "outcome (Suc k) d (c # rest) st gs r"
proof (rule outcome_step [OF _ assms(4)])
  fix s assume "at_code d s (c # rest) st gs"
  from step_at(2,3) [OF this assms(1)] assms(2,3) show "\<exists>s'. pickle_step d s = Continue s' \<and> at_code d s' rest st' gs'"
    by auto
qed

lemma outcome_stop: "outcome (Suc k) d ''.'' st gs gs"
  unfolding outcome_def
proof (intro allI impI)
  fix s assume a: "at_code d s ''.'' st gs"
  from step_at [OF a char_codes(7)] show "\<exists>s'. run_ops (Suc k) d s = Some s' \<and> sc_globals s' = gs \<and> drop (sc_pos s') d = []"
    by (simp add: opcodes at_code_def)
qed

text \<open>The end of both programs, from the stack they reach.\<close>

lemma tail_outcome:
  assumes "small d" and "length arg < 256"
    and "\<And>s. at_code d s (short_string arg @ [CHR 0x85] @ ''R.'') (b # a # st) gs \<Longrightarrow>
      at_code d (stack_global s) (short_string arg @ [CHR 0x85] @ ''R.'') st' r"
  shows "outcome (Suc (Suc (Suc (Suc (Suc k))))) d (call_tail arg) (b # a # st) gs r"
proof -
  have red: "at_code d (reduce s) rest (item [] # st') r" if "at_code d s rest (item [] # item arg # st') r" for s rest
    using that by (simp add: reduce_def at_code_def push_def item_def)
  have p: "at_code d (push [] s) rest (item [] # item arg # st') r" if "at_code d s rest (item arg # st') r" for s rest
    using that by simp
  have e: "outcome (Suc (Suc k)) d ''R.'' (item [] # item arg # st') r r"
    by (rule outcome_simple [OF char_codes(6) opcodes(5) red outcome_stop])
  have "outcome (Suc (Suc (Suc k))) d ([CHR 0x85] @ ''R.'') (item arg # st') r r"
    unfolding append_Cons append_Nil by (rule outcome_simple [where f = "push []", OF char_codes(5) opcodes(4) p e])
  then have "outcome (Suc (Suc (Suc (Suc k)))) d (short_string arg @ [CHR 0x85] @ ''R.'') st' r r"
    by (rule outcome_string [OF assms(1,2)])
  then show ?thesis unfolding call_tail_def append_Cons append_Nil
    by (intro outcome_simple [OF char_codes(4) opcode_reference(3)]) (use assms(3) in simp_all)
qed

lemma stack_global_direct:
  assumes "\<not> is_mark_or_empty m" and "\<not> is_mark_or_empty n" and "at_code d s code (item n # item m # []) []"
  shows "at_code d (stack_global s) code [\<lparr>pk_value = global_value, pk_global = True, pk_gi = 0\<rparr>]
    [\<lparr>pg_module = m, pg_name = n, pg_reduced = False\<rparr>]"
  using assms by (simp add: stack_global_def at_code_def item_def push_global_def add_global_def)

lemma stack_global_memo:
  assumes "at_code d s code (item [] # item [] # st) []"
  shows "at_code d (stack_global s) code (\<lparr>pk_value = global_value, pk_global = False, pk_gi = - 1\<rparr> # st) []"
  using assms by (simp add: stack_global_def at_code_def item_def push_def is_mark_or_empty_def)

lemma program_outcome:
  assumes "small d" and "length m < 256" and "length n < 256" and "length arg < 256"
    and "\<not> is_mark_or_empty m" and "\<not> is_mark_or_empty n"
  shows "outcome (Suc (Suc (Suc (Suc (Suc (Suc (Suc (Suc (Suc (Suc (Suc k))))))))))) d (direct_call m n arg) [] []
      [\<lparr>pg_module = m, pg_name = n, pg_reduced = False\<rparr>]"
    and "outcome (Suc (Suc (Suc (Suc (Suc (Suc (Suc (Suc (Suc (Suc (Suc k))))))))))) d (memo_call m n arg) [] [] []"
proof -
  note str = outcome_string [OF assms(1)]
  show "outcome (Suc (Suc (Suc (Suc (Suc (Suc (Suc (Suc (Suc (Suc (Suc k))))))))))) d (direct_call m n arg) [] []
      [\<lparr>pg_module = m, pg_name = n, pg_reduced = False\<rparr>]"
    unfolding direct_call_def
    by (intro str [OF assms(2)] str [OF assms(3)] tail_outcome [OF assms(1,4) stack_global_direct [OF assms(5,6)]])
  have "outcome (Suc (Suc (Suc (Suc (Suc k))))) d (call_tail arg) (item [] # item [] # item n # item m # []) [] []"
    by (rule tail_outcome [OF assms(1,4) stack_global_memo])
  then show "outcome (Suc (Suc (Suc (Suc (Suc (Suc (Suc (Suc (Suc (Suc (Suc k))))))))))) d (memo_call m n arg) [] [] []"
    unfolding memo_call_def append_Cons append_Nil
    by (intro str [OF assms(2)] str [OF assms(3)] outcome_put [OF assms(1)] outcome_get [OF assms(1)])
qed

lemma outcome_reported:
  assumes "\<And>k. outcome (Suc (Suc (Suc (Suc (Suc (Suc (Suc (Suc (Suc (Suc (Suc k))))))))))) d d [] [] r" and "d \<noteq> []"
  shows "scan_pickle_opcodes d = Some r"
proof -
  have "at_code d start_scan d [] []" by (simp add: at_code_def start_scan_def)
  with assms(1) [of 199989] obtain s' where
    s': "run_ops max_opcodes d start_scan = Some s'" "sc_globals s' = r" "drop (sc_pos s') d = []"
    unfolding outcome_def by (auto simp: max_opcodes_def simp del: run_ops.simps)
  then have "scan_pickle_opcodes_once d = Some (r, sc_pos s')" by (simp add: scan_pickle_opcodes_once_def)
  moreover have "sc_pos s' \<noteq> 0" using s'(3) assms(2) by (metis drop0)
  ultimately show ?thesis using assms(2) s'(3) by (simp add: scan_pickle_opcodes_def numeral_eq_Suc)
qed

lemma small_programs:
  assumes "length m < 256" and "length n < 256" and "length arg < 256"
  shows "small (direct_call m n arg)" "small (memo_call m n arg)"
  using assms by (simp_all add: small_def direct_call_def memo_call_def call_tail_def short_string_def)

text \<open>
  C38. References that go through the memo are missed: for every module and name a reference can have (at most 255
  bytes, neither empty nor the value of a marker), the call that joins the two strings directly is reported, as that
  reference alone, and the same call with the two strings fetched from the memo is not reported at all.
\<close>

theorem memo_reference_missed:
  assumes "length m < 256" and "length n < 256" and "length arg < 256"
    and "\<not> is_mark_or_empty m" and "\<not> is_mark_or_empty n"
  shows "scan_pickle_opcodes (direct_call m n arg) = Some [\<lparr>pg_module = m, pg_name = n, pg_reduced = False\<rparr>] \<and>
    scan_pickle_opcodes (memo_call m n arg) = Some []"
  using assms by (intro conjI outcome_reported program_outcome small_programs)
    (simp_all add: direct_call_def memo_call_def short_string_def)

lemma memo_reference_missed_witness:
  "scan_pickle_opcodes (direct_call ''os'' ''system'' ''id'') =
     Some [\<lparr>pg_module = ''os'', pg_name = ''system'', pg_reduced = False\<rparr>] \<and>
   scan_pickle_opcodes (memo_call ''os'' ''system'' ''id'') = Some []"
  by (rule memo_reference_missed) (simp_all add: is_mark_or_empty_def mark_value_def global_value_def inst_value_def)

end
