(* ===== verification/Capability_Verification.thy ===== *)
theory Capability_Verification
  imports Scan_Model Go_Path Signing
begin

text \<open>
  Contract conformance, internal/verification/verify.go: what a scan observed is inferred from its
  observations and findings, and compared with what the contract of the skill declares.
\<close>

section \<open>Inference\<close>

definition capability_mismatch_rule :: string where
  "capability_mismatch_rule = ''SKIL-CAP-001''"

definition append_evidence_value :: "string \<Rightarrow> string list \<Rightarrow> string list" where
  "append_evidence_value v target =
     (if trim_space v = [] \<or> v \<in> set target then target else target @ [v])"

definition append_evidence_string :: "evidence_map \<Rightarrow> string \<Rightarrow> string list \<Rightarrow> string list" where
  "append_evidence_string evidence key target =
     (case evidence key of Some (JStr v) \<Rightarrow> append_evidence_value v target | _ \<Rightarrow> target)"

text \<open>\<open>Hostname\<close> of a parsed URL is a parameter, like the parser: \<open>None\<close> is a parse error.\<close>

type_synonym hostname_parser = "string \<Rightarrow> string option"

definition observation_host :: "hostname_parser \<Rightarrow> string \<Rightarrow> string" where
  "observation_host parse v = (case parse v of None \<Rightarrow> v | Some h \<Rightarrow> h)"

text \<open>The two switches over the capability of an observation.\<close>

definition observe_flag :: "string \<Rightarrow> observed_capabilities \<Rightarrow> observed_capabilities" where
  "observe_flag c s =
     (if c \<in> {''network.outbound'', ''permission.network'', ''hook.call.http''} then s\<lparr>oc_network_outbound := True\<rparr>
      else if c \<in> {''commands.execute'', ''permission.shell'', ''hook.execute.command''} then s\<lparr>oc_commands_execute := True\<rparr>
      else if c \<in> {''filesystem.write'', ''permission.filesystem.write''} then s\<lparr>oc_filesystem_write := True\<rparr>
      else if c = ''filesystem.delete'' then s\<lparr>oc_filesystem_delete := True\<rparr>
      else if c = ''secrets.read'' then s\<lparr>oc_secrets_read := True\<rparr>
      else if c = ''persistence'' then s\<lparr>oc_persistence := True\<rparr>
      else if c = ''external.side_effect'' then s\<lparr>oc_external_side_effects := True\<rparr>
      else if c \<in> {''filesystem.read'', ''permission.filesystem.read''} then s\<lparr>oc_filesystem_read := True\<rparr>
      else if c = ''environment.read'' then s\<lparr>oc_environment_read := True\<rparr>
      else s)"

definition observe_value :: "hostname_parser \<Rightarrow> string \<Rightarrow> string \<Rightarrow> observed_capabilities \<Rightarrow> observed_capabilities" where
  "observe_value parse c v s =
     (if c = ''network.outbound'' then s\<lparr>oc_network_hosts := append_evidence_value v (oc_network_hosts s)\<rparr>
      else if c = ''permission.network''
        then s\<lparr>oc_network_hosts := append_evidence_value (trim_prefix v ''domain:'') (oc_network_hosts s)\<rparr>
      else if c = ''hook.call.http''
        then s\<lparr>oc_network_hosts := append_evidence_value (observation_host parse v) (oc_network_hosts s)\<rparr>
      else if c \<in> {''commands.execute'', ''permission.shell'', ''hook.execute.command''}
        then s\<lparr>oc_commands := append_evidence_value v (oc_commands s)\<rparr>
      else if c \<in> {''filesystem.write'', ''filesystem.read'', ''permission.filesystem.write'', ''permission.filesystem.read''}
        then s\<lparr>oc_filesystem_paths := append_evidence_value v (oc_filesystem_paths s)\<rparr>
      else if c = ''secrets.read'' then s\<lparr>oc_secrets := append_evidence_value v (oc_secrets s)\<rparr>
      else if c = ''environment.read'' then s\<lparr>oc_environment := append_evidence_value v (oc_environment s)\<rparr>
      else if c = ''permission.tools'' then s\<lparr>oc_tools := append_evidence_value v (oc_tools s)\<rparr>
      else if c = ''hook.call.mcp'' then s\<lparr>oc_mcp_tools := append_evidence_value v (oc_mcp_tools s)\<rparr>
      else s)"

definition observe :: "hostname_parser \<Rightarrow> capability_observation \<Rightarrow> observed_capabilities \<Rightarrow> observed_capabilities" where
  "observe parse ob s = observe_value parse (co_capability ob) (co_value ob) (observe_flag (co_capability ob) s)"

text \<open>The capability a finding names itself.\<close>

definition finding_capability :: "string \<Rightarrow> observed_capabilities \<Rightarrow> observed_capabilities" where
  "finding_capability c s =
     (if c = ''network.outbound'' then s\<lparr>oc_network_outbound := True\<rparr>
      else if c = ''commands.execute'' then s\<lparr>oc_commands_execute := True\<rparr>
      else if c = ''filesystem.write'' then s\<lparr>oc_filesystem_write := True\<rparr>
      else if c = ''filesystem.delete'' then s\<lparr>oc_filesystem_delete := True\<rparr>
      else if c = ''secrets.read'' then s\<lparr>oc_secrets_read := True\<rparr>
      else if c = ''persistence'' then s\<lparr>oc_persistence := True\<rparr>
      else if c = ''external.side_effect'' then s\<lparr>oc_external_side_effects := True\<rparr>
      else s)"

text \<open>The capability its rule stands for.\<close>

definition finding_rule :: "string \<Rightarrow> observed_capabilities \<Rightarrow> observed_capabilities" where
  "finding_rule r s =
     (if r = ''SKIL-NET-001'' \<or> r = ''SKIL-SH-001'' \<or> contains_sub r ''TAINT-NETWORK'' then s\<lparr>oc_network_outbound := True\<rparr>
      else if r = ''SKIL-FS-001'' \<or> contains_sub r ''TAINT-FILESYSTEM'' then s\<lparr>oc_filesystem_write := True\<rparr>
      else if r = ''SKIL-SH-003'' then s\<lparr>oc_filesystem_delete := True\<rparr>
      else if r = ''SKIL-PY-001'' \<or> r = ''SKIL-PY-002'' \<or> has_prefix r ''SKIL-SH-'' \<or> r = ''SKIL-JS-001'' \<or>
        contains_sub r ''TAINT-EXECUTION'' then s\<lparr>oc_commands_execute := True\<rparr>
      else if r = ''SKIL-SEC-001'' then s\<lparr>oc_secrets_read := True\<rparr>
      else if r = ''SKIL-PERSISTENCE-STARTUP'' then s\<lparr>oc_persistence := True\<rparr>
      else s)"

definition finding_side_effect :: "string \<Rightarrow> observed_capabilities \<Rightarrow> observed_capabilities" where
  "finding_side_effect r s =
     (if has_prefix r ''SKIL-EX-'' \<or> contains_sub r ''TAINT-NETWORK'' then s\<lparr>oc_external_side_effects := True\<rparr> else s)"

definition finding_values :: "evidence_map \<Rightarrow> observed_capabilities \<Rightarrow> observed_capabilities" where
  "finding_values ev s = s\<lparr>
     oc_network_hosts := append_evidence_string ev ''network_host'' (oc_network_hosts s),
     oc_commands := append_evidence_string ev ''command'' (oc_commands s),
     oc_filesystem_paths := append_evidence_string ev ''filesystem_path'' (oc_filesystem_paths s),
     oc_secrets := append_evidence_string ev ''secret'' (oc_secrets s),
     oc_environment := append_evidence_string ev ''environment'' (oc_environment s),
     oc_tools := append_evidence_string ev ''tool'' (oc_tools s),
     oc_mcp_servers := append_evidence_string ev ''mcp_server'' (oc_mcp_servers s),
     oc_mcp_tools := append_evidence_string ev ''mcp_tool'' (oc_mcp_tools s)\<rparr>"

definition evidence_capability :: "finding \<Rightarrow> string" where
  "evidence_capability f = (case fi_evidence f ''capability'' of Some (JStr c) \<Rightarrow> c | _ \<Rightarrow> [])"

definition infer_finding :: "finding \<Rightarrow> observed_capabilities \<Rightarrow> observed_capabilities" where
  "infer_finding f s =
     (if fi_rule_id f = capability_mismatch_rule then s
      else finding_values (fi_evidence f)
        (finding_side_effect (fi_rule_id f) (finding_rule (fi_rule_id f) (finding_capability (evidence_capability f) s))))"

definition sort_observed :: "observed_capabilities \<Rightarrow> observed_capabilities" where
  "sort_observed s = s\<lparr>oc_network_hosts := sort_strings (oc_network_hosts s), oc_commands := sort_strings (oc_commands s),
     oc_filesystem_paths := sort_strings (oc_filesystem_paths s), oc_secrets := sort_strings (oc_secrets s)\<rparr>"

definition infer :: "hostname_parser \<Rightarrow> finding list \<Rightarrow> capability_observation list \<Rightarrow> observed_capabilities" where
  "infer parse findings observations =
     sort_observed (fold infer_finding findings (fold (observe parse) observations zero_observed))"

section \<open>Matching\<close>

definition match_exact :: "string \<Rightarrow> string list \<Rightarrow> bool" where
  "match_exact v allowed = list_ex (\<lambda>item. v = item) allowed"

definition match_host :: "string \<Rightarrow> string list \<Rightarrow> bool" where
  "match_host v allowed =
     (let value = to_lower (trim_suffix v ''.'') in
      list_ex (\<lambda>item0. let item = to_lower (trim_suffix item0 ''.'') in
        value = item \<or> (has_prefix item ''*.'' \<and> has_suffix value (drop 1 item) \<and> value \<noteq> drop 2 item)) allowed)"

definition match_command :: "string \<Rightarrow> string list \<Rightarrow> bool" where
  "match_command v allowed =
     (case str_fields v of
        [] \<Rightarrow> False
      | f # _ \<Rightarrow> list_ex (\<lambda>item.
          (case str_fields item of
             [] \<Rightarrow> False
           | g # gs \<Rightarrow> f = g \<and> (gs = [] \<or> has_prefix v item))) allowed)"

definition match_path :: "string \<Rightarrow> string list \<Rightarrow> bool" where
  "match_path v allowed =
     (let value = path_clean v in
      list_ex (\<lambda>pattern. path_match pattern value \<or>
        (let pre = trim_suffix pattern ''/**'' in
           pre \<noteq> pattern \<and> (value = pre \<or> has_prefix value (pre @ ''/'')))) allowed)"

section \<open>Verification\<close>

datatype declared = DeclaredBool bool | DeclaredList "string list"

definition underdeclared :: string where "underdeclared = ''underdeclared''"
definition overdeclared :: string where "overdeclared = ''overdeclared''"
definition outside_allowlist :: string where "outside_allowlist = ''outside-allowlist''"

lemmas kind_defs = underdeclared_def overdeclared_def outside_allowlist_def

record mismatch =
  mm_capability :: string
  mm_kind :: string
  mm_declared :: declared
  mm_observed :: bool
  mm_severity :: string
  mm_evidence :: "string list"

record verification_result =
  vr_status :: string
  vr_declared :: capabilities
  vr_observed :: observed_capabilities
  vr_mismatches :: "mismatch list"

definition matching :: "finding list \<Rightarrow> string list \<Rightarrow> string list" where
  "matching findings prefixes =
     sort_strings (map fi_id (filter (\<lambda>f. list_ex (has_prefix (fi_rule_id f)) prefixes) findings))"

definition check_declared :: "finding list \<Rightarrow> string \<Rightarrow> bool \<Rightarrow> bool \<Rightarrow> string \<Rightarrow> string list \<Rightarrow> mismatch list" where
  "check_declared findings name decl actual severity rules =
     (if actual \<and> \<not> decl then
        [\<lparr>mm_capability = name, mm_kind = underdeclared, mm_declared = DeclaredBool False, mm_observed = True,
          mm_severity = severity, mm_evidence = matching findings rules\<rparr>]
      else [])"

definition check_values :: "string \<Rightarrow> string list \<Rightarrow> string list \<Rightarrow> (string \<Rightarrow> string list \<Rightarrow> bool) \<Rightarrow> mismatch list" where
  "check_values name observed_values allowed matcher =
     map (\<lambda>v. \<lparr>mm_capability = name @ '':'' @ v, mm_kind = outside_allowlist, mm_declared = DeclaredList allowed,
         mm_observed = True, mm_severity = SeverityCritical, mm_evidence = [v]\<rparr>)
       (filter (\<lambda>v. \<not> matcher v allowed) observed_values)"

definition check_overdeclared :: "string \<Rightarrow> bool \<Rightarrow> bool \<Rightarrow> mismatch list" where
  "check_overdeclared name decl actual =
     (if decl \<and> \<not> actual then
        [\<lparr>mm_capability = name, mm_kind = overdeclared, mm_declared = DeclaredBool True, mm_observed = False,
          mm_severity = SeverityLow, mm_evidence = [''no static evidence observed'']\<rparr>]
      else [])"

definition underdeclared_mismatches :: "finding list \<Rightarrow> capabilities \<Rightarrow> observed_capabilities \<Rightarrow> mismatch list" where
  "underdeclared_mismatches fs c s =
     check_declared fs ''network.outbound'' (net_outbound (cap_network c)) (oc_network_outbound s) SeverityCritical
       [''SKIL-NET-001'', ''SKIL-SH-001'', ''SKIL-TAINT-NETWORK''] @
     check_declared fs ''commands.execute'' (cmd_execute (cap_commands c)) (oc_commands_execute s) SeverityCritical
       [''SKIL-PY-001'', ''SKIL-PY-002'', ''SKIL-SH-'', ''SKIL-JS-001'', ''SKIL-TAINT-EXECUTION''] @
     check_declared fs ''filesystem.write'' (fs_write (cap_filesystem c) \<noteq> []) (oc_filesystem_write s) SeverityHigh
       [''SKIL-FS-001'', ''SKIL-TAINT-FILESYSTEM''] @
     check_declared fs ''filesystem.delete'' (fs_delete (cap_filesystem c) \<noteq> []) (oc_filesystem_delete s) SeverityCritical
       [''SKIL-SH-003''] @
     check_declared fs ''secrets.read'' (sec_read (cap_secrets c) \<noteq> []) (oc_secrets_read s) SeverityCritical
       [''SKIL-SEC-001''] @
     check_declared fs ''persistence'' (cap_persistence c) (oc_persistence s) SeverityHigh [''SKIL-PERSISTENCE-STARTUP''] @
     check_declared fs ''external_side_effects'' (ag_external_side_effects (cap_agent c)) (oc_external_side_effects s)
       SeverityHigh [''SKIL-EX-'', ''SKIL-TAINT-NETWORK'']"

definition allowlist_mismatches :: "capabilities \<Rightarrow> observed_capabilities \<Rightarrow> mismatch list" where
  "allowlist_mismatches c s =
     check_values ''network.hosts'' (oc_network_hosts s) (net_hosts (cap_network c)) match_host @
     check_values ''commands.allow'' (oc_commands s) (cmd_allow (cap_commands c)) match_command @
     check_values ''filesystem.write'' (oc_filesystem_paths s) (fs_write (cap_filesystem c)) match_path @
     check_values ''secrets.read'' (oc_secrets s) (sec_read (cap_secrets c)) match_exact @
     check_values ''tools.allow'' (oc_tools s) (tool_allow (cap_tools c)) match_exact @
     check_values ''mcp.tools'' (oc_mcp_tools s) (mcp_tools (cap_mcp c)) match_exact"

definition overdeclared_mismatches :: "capabilities \<Rightarrow> observed_capabilities \<Rightarrow> mismatch list" where
  "overdeclared_mismatches c s =
     check_overdeclared ''network.outbound'' (net_outbound (cap_network c)) (oc_network_outbound s) @
     check_overdeclared ''commands.execute'' (cmd_execute (cap_commands c)) (oc_commands_execute s) @
     check_overdeclared ''filesystem.write'' (fs_write (cap_filesystem c) \<noteq> []) (oc_filesystem_write s) @
     check_overdeclared ''filesystem.delete'' (fs_delete (cap_filesystem c) \<noteq> []) (oc_filesystem_delete s) @
     check_overdeclared ''secrets.read'' (sec_read (cap_secrets c) \<noteq> []) (oc_secrets_read s) @
     check_overdeclared ''persistence'' (cap_persistence c) (oc_persistence s) @
     check_overdeclared ''external_side_effects'' (ag_external_side_effects (cap_agent c)) (oc_external_side_effects s) @
     check_overdeclared ''filesystem.read'' (fs_read (cap_filesystem c) \<noteq> []) (oc_filesystem_read s) @
     check_overdeclared ''environment.read'' (cap_environment_read c \<noteq> []) (oc_environment_read s)"

text \<open>The loop that derives the status: the first failing mismatch ends it.\<close>

fun mismatch_status :: "mismatch list \<Rightarrow> string \<Rightarrow> string" where
  "mismatch_status [] st = st"
| "mismatch_status (m # ms) st =
     (if mm_kind m = underdeclared \<or> mm_kind m = outside_allowlist then StatusFail
      else mismatch_status ms (if st = StatusPass then StatusWarn else st))"

definition verify_contract ::
  "hostname_parser \<Rightarrow> skill_contract \<Rightarrow> finding list \<Rightarrow> capability_observation list \<Rightarrow> verification_result" where
  "verify_contract parse contract findings observations =
     (let s = infer parse findings observations; c = sc_capabilities contract;
          ms = underdeclared_mismatches findings c s @ allowlist_mismatches c s @ overdeclared_mismatches c s
      in \<lparr>vr_status = mismatch_status ms StatusPass, vr_declared = c, vr_observed = s, vr_mismatches = ms\<rparr>)"

section \<open>Findings of a verification\<close>

text \<open>\<open>stable\<close> of hash.go: the hash of the parts, joined by a zero byte.\<close>

definition stable :: "crypto \<Rightarrow> string list \<Rightarrow> string" where
  "stable cr parts = sha256_hex cr (join parts [CHR 0x00])"

definition mismatch_finding :: "crypto \<Rightarrow> artifact \<Rightarrow> mismatch \<Rightarrow> finding" where
  "mismatch_finding cr a m =
     (let fp = stable cr [mm_capability m, ar_digest a] in
      zero_finding\<lparr>fi_id := ''F-'' @ to_upper (take 12 fp), fi_rule_id := capability_mismatch_rule,
        fi_category := ''contract-conformance'', fi_severity := mm_severity m, fi_confidence := Finite 1,
        fi_title := ''Capability contract mismatch'',
        fi_message := ''Capability '' @ mm_capability m @ '' has a '' @ mm_kind m @ '' contract mismatch.'',
        fi_evidence := [''capability'' \<mapsto> JStr (mm_capability m), ''source_findings'' \<mapsto> strs_json (mm_evidence m)],
        fi_remediation := ''Remove the behavior or explicitly declare and constrain the capability.'',
        fi_fingerprint := fp\<rparr>)"

definition findings_of :: "crypto \<Rightarrow> verification_result \<Rightarrow> artifact \<Rightarrow> finding list" where
  "findings_of cr r a = map (mismatch_finding cr a) (vr_mismatches r)"

end
