(* ===== verification/Closure.thy ===== *)
theory Closure
  imports Scan_Model
begin

text \<open>
  The assurance closure, internal/assurance/closure.go: canonical order, the state a closure is in, its
  digest, and the comparison of a reviewed closure with the current one.

  \<open>sort.Slice\<close> is not stable; \<open>sort_key\<close> is.  The two agree where the keys are distinct, and, up to
  eleven elements, also where they are not, because Go sorts such slices by insertion.
\<close>

section \<open>Canonical forms\<close>

definition nul :: string where "nul = [CHR 0x00]"

text \<open>\<open>%09d\<close>: the sign counts towards the width.\<close>

definition depth_text :: "int \<Rightarrow> string" where
  "depth_text n = (if n < 0 then CHR ''-'' # pad 8 (- n) else pad 9 n)"

definition node_key :: "closure_node \<Rightarrow> string" where
  "node_key n = cn_id n @ nul @ cn_kind n @ nul @ cn_digest n @ nul @ depth_text (cn_depth n)"

definition edge_text :: "closure_edge \<Rightarrow> string" where
  "edge_text e = ce_from e @ '' --'' @ ce_relation e @ ''--> '' @ ce_to e"

definition sorted_unique :: "string list \<Rightarrow> string list" where
  "sorted_unique xs = remdups_adj (sort_strings xs)"

definition canonical_node :: "closure_node \<Rightarrow> closure_node" where
  "canonical_node n = n\<lparr>cn_findings := sorted_unique (cn_findings n)\<rparr>"

definition canonical_nodes :: "closure_node list \<Rightarrow> closure_node list" where
  "canonical_nodes ns = sort_key node_key (map canonical_node ns)"

text \<open>An edge is kept when its text differs from that of the edge kept before it.\<close>

fun dedup_edges :: "closure_edge list \<Rightarrow> closure_edge list" where
  "dedup_edges (e # f # es) = (if edge_text f = edge_text e then dedup_edges (e # es) else e # dedup_edges (f # es))"
| "dedup_edges es = es"

definition canonical_edges :: "closure_edge list \<Rightarrow> closure_edge list" where
  "canonical_edges es = dedup_edges (sort_key edge_text es)"

section \<open>The digest\<close>

text \<open>\<open>json.Marshal\<close> of a struct keeps the order of the fields.\<close>

fun marshal :: "json \<Rightarrow> string"
and marshal_members :: "(string \<times> json) list \<Rightarrow> string list" where
  "marshal (JObj ms) = ''{'' @ join (marshal_members ms) '','' @ ''}''"
| "marshal (JArr xs) = ''['' @ join (map marshal xs) '','' @ '']''"
| "marshal (JStr s) = json_string s"
| "marshal (JNum n) = n"
| "marshal (JBool b) = (if b then ''true'' else ''false'')"
| "marshal JNull = ''null''"
| "marshal JUnsupported = []"
| "marshal_members [] = []"
| "marshal_members ((k, v) # ms) = (json_string k @ '':'' @ marshal v) # marshal_members ms"

definition node_json :: "closure_node \<Rightarrow> json" where
  "node_json n = JObj ([(''id'', JStr (cn_id n))] @ omit_str ''kind'' (cn_kind n) @
     [(''source'', JStr (cn_source n)), (''digest'', JStr (cn_digest n))] @
     omit_str ''parent_digest'' (cn_parent_digest n) @
     [(''depth'', JNum (dec_int (cn_depth n))), (''scan_status'', JStr (cn_scan_status n)),
      (''maximum_severity'', JStr (cn_maximum_severity n)), (''verdict'', JStr (cn_verdict n)),
      (''required'', JBool (cn_required n)), (''resolved'', JBool (cn_resolved n)), (''analyzed'', JBool (cn_analyzed n))] @
     omit_strs ''findings'' (cn_findings n) @ omit_str ''analysis_status'' (cn_analysis_status n) @
     omit_str ''verification'' (cn_verification n))"

definition edge_json :: "closure_edge \<Rightarrow> json" where
  "edge_json e = JObj [(''from_id'', JStr (ce_from e)), (''to_id'', JStr (ce_to e)), (''relation'', JStr (ce_relation e))]"

definition slice_json :: "('a \<Rightarrow> json) \<Rightarrow> 'a list \<Rightarrow> json" where
  "slice_json f xs = (if xs = [] then JNull else JArr (map f xs))"

definition compute_digest :: "crypto \<Rightarrow> assurance_closure \<Rightarrow> string" where
  "compute_digest cr c = sha_digest cr (marshal (JObj
     [(''root'', JStr (cl_root_digest c)), (''nodes'', slice_json node_json (canonical_nodes (cl_nodes c))),
      (''edges'', slice_json edge_json (canonical_edges (cl_edges c))),
      (''limitations'', strs_json (sorted_unique (cl_limitations c)))]))"

definition same_node :: "closure_node \<Rightarrow> closure_node \<Rightarrow> bool" where
  "same_node a b \<longleftrightarrow> marshal (node_json (canonical_node a)) = marshal (node_json (canonical_node b))"

section \<open>Finalization\<close>

definition unresolved_node :: "closure_node \<Rightarrow> bool" where
  "unresolved_node n \<longleftrightarrow> cn_digest n = [] \<or> \<not> cn_resolved n \<or> \<not> cn_analyzed n \<or>
     cn_analysis_status n = AnalysisIncomplete \<or> cn_analysis_status n = AnalysisFailed \<or>
     cn_analysis_status n = AnalysisNotRun \<or> cn_verification n = VerificationUnresolved"

definition failing_node :: "closure_node \<Rightarrow> bool" where
  "failing_node n \<longleftrightarrow> cn_verification n = VerificationFailed \<or> equal_fold (cn_verdict n) VerdictBlock \<or>
     equal_fold (cn_scan_status n) StatusFail \<or> SeverityRank (cn_maximum_severity n) \<ge> SeverityRank SeverityHigh"

definition verified_node :: "closure_node \<Rightarrow> bool" where
  "verified_node n \<longleftrightarrow> cn_verification n = VerificationVerified \<or> cn_verification n = VerificationNotNeeded"

text \<open>The variables of the loop over the nodes.\<close>

record fin_state =
  fz_complete :: bool
  fz_state :: string
  fz_verified :: bool
  fz_severity :: string
  fz_required :: int
  fz_unresolved :: int
  fz_blocking :: int
  fz_depth :: int
  fz_limitations :: "string list"
  fz_seen :: "string \<rightharpoonup> closure_node"

definition conflict_text :: "string \<Rightarrow> string" where
  "conflict_text i = ''conflicting duplicate closure identity: '' @ i"

definition conflicts :: "fin_state \<Rightarrow> closure_node \<Rightarrow> bool" where
  "conflicts z n \<longleftrightarrow> (case fz_seen z (cn_id n) of None \<Rightarrow> False | Some prior \<Rightarrow> \<not> same_node prior n)"

definition note_node :: "closure_node \<Rightarrow> fin_state \<Rightarrow> fin_state" where
  "note_node n z =
     (let z1 = z\<lparr>fz_depth := max (fz_depth z) (cn_depth n),
                 fz_severity := (if SeverityRank (cn_maximum_severity n) > SeverityRank (fz_severity z)
                                 then cn_maximum_severity n else fz_severity z)\<rparr>;
          z2 = (if conflicts z n
                then z1\<lparr>fz_complete := False, fz_state := AssuranceUnknown,
                        fz_limitations := fz_limitations z @ [conflict_text (cn_id n)]\<rparr>
                else z1)
      in z2\<lparr>fz_seen := (fz_seen z)(cn_id n \<mapsto> n)\<rparr>)"

definition unless_unsafe :: "string \<Rightarrow> string" where
  "unless_unsafe st = (if st \<noteq> AssuranceUnsafe then AssuranceUnknown else st)"

definition require_node :: "closure_node \<Rightarrow> fin_state \<Rightarrow> fin_state" where
  "require_node n z =
     (let z1 = z\<lparr>fz_required := fz_required z + 1\<rparr>;
          z2 = (if unresolved_node n
                then z1\<lparr>fz_unresolved := fz_unresolved z + 1, fz_complete := False, fz_state := unless_unsafe (fz_state z)\<rparr>
                else z1);
          z3 = (if verified_node n then z2 else z2\<lparr>fz_verified := False\<rparr>)
      in if failing_node n
         then z3\<lparr>fz_state := AssuranceUnsafe, fz_blocking := fz_blocking z + max 1 (int (length (cn_findings n)))\<rparr>
         else z3)"

definition finalize_node :: "closure_node \<Rightarrow> fin_state \<Rightarrow> fin_state" where
  "finalize_node n z = (if cn_required n then require_node n (note_node n z) else note_node n z)"

definition start_state :: "assurance_closure \<Rightarrow> fin_state" where
  "start_state c =
     (let empty = cl_nodes c = [] \<or> cl_root_digest c = [] in
      \<lparr>fz_complete = cl_complete c \<and> \<not> empty, fz_state = (if empty then AssuranceUnknown else AssuranceSafe),
       fz_verified = True, fz_severity = SeverityInfo, fz_required = 0, fz_unresolved = 0, fz_blocking = 0,
       fz_depth = 0, fz_limitations = sorted_unique (cl_limitations c), fz_seen = Map.empty\<rparr>)"

definition end_state :: "fin_state \<Rightarrow> fin_state" where
  "end_state z =
     (if fz_limitations z \<noteq> [] then z\<lparr>fz_complete := False, fz_state := unless_unsafe (fz_state z)\<rparr> else z)"

definition closing_state :: "assurance_closure \<Rightarrow> fin_state" where
  "closing_state c = end_state (fold finalize_node (canonical_nodes (cl_nodes c)) (start_state c))"

text \<open>The closure with its derived fields and its digest.\<close>

definition seal :: "crypto \<Rightarrow> assurance_closure \<Rightarrow> fin_state \<Rightarrow> assurance_closure" where
  "seal cr c z =
     (let c1 = c\<lparr>cl_nodes := canonical_nodes (cl_nodes c), cl_edges := canonical_edges (cl_edges c),
                 cl_required_nodes := fz_required z, cl_unresolved_nodes := fz_unresolved z,
                 cl_blocking_findings := fz_blocking z, cl_max_depth := fz_depth z, cl_maximum_severity := fz_severity z,
                 cl_complete := fz_complete z, cl_state := fz_state z,
                 cl_verified := fz_verified z \<and> fz_complete z \<and> fz_state z = AssuranceSafe,
                 cl_limitations := sorted_unique (fz_limitations z)\<rparr>
      in c1\<lparr>cl_digest := compute_digest cr c1\<rparr>)"

definition finalize :: "crypto \<Rightarrow> assurance_closure \<Rightarrow> assurance_closure" where
  "finalize cr c = seal cr c (closing_state c)"

section \<open>Verification\<close>

record closure_violation =
  cv_node :: string
  cv_edge :: string
  cv_reason :: string
  cv_expected :: string
  cv_actual :: string

record closure_verification =
  cr_status :: string
  cr_expected_digest :: string
  cr_actual_digest :: string
  cr_violations :: "closure_violation list"

definition node_violation :: "string \<Rightarrow> string \<Rightarrow> string \<Rightarrow> string \<Rightarrow> closure_violation" where
  "node_violation i reason expected actual =
     \<lparr>cv_node = i, cv_edge = [], cv_reason = reason, cv_expected = expected, cv_actual = actual\<rparr>"

definition edge_violation :: "string \<Rightarrow> string \<Rightarrow> closure_violation" where
  "edge_violation e reason = \<lparr>cv_node = [], cv_edge = e, cv_reason = reason, cv_expected = [], cv_actual = []\<rparr>"

text \<open>The last node with an identity is the one in the map.\<close>

definition node_map :: "closure_node list \<Rightarrow> string \<rightharpoonup> closure_node" where
  "node_map ns = map_of (rev (map (\<lambda>n. (cn_id n, n)) ns))"

definition node_ids :: "closure_node list \<Rightarrow> string list" where
  "node_ids ns = remdups (map cn_id ns)"

definition edge_set :: "closure_edge list \<Rightarrow> string list" where
  "edge_set es = remdups (map edge_text es)"

definition bool_text :: "bool \<Rightarrow> string" where
  "bool_text b = (if b then ''true'' else ''false'')"

definition lost_or_changed :: "(string \<rightharpoonup> closure_node) \<Rightarrow> closure_node \<Rightarrow> string \<Rightarrow> closure_violation list" where
  "lost_or_changed actual want i =
     (case actual i of
        None \<Rightarrow> (if cn_required want then [node_violation i ''required_node_missing'' (cn_digest want) []] else [])
      | Some got \<Rightarrow>
          (if cn_digest want \<noteq> cn_digest got
           then [node_violation i ''digest_mismatch'' (cn_digest want) (cn_digest got)] else []) @
          (if cn_required want \<noteq> cn_required got
           then [node_violation i ''required_state_changed'' (bool_text (cn_required want)) (bool_text (cn_required got))] else []) @
          (if cn_required got \<and> (\<not> cn_resolved got \<or> \<not> cn_analyzed got \<or> cn_digest got = [])
           then [node_violation i ''required_node_unresolved'' [] (cn_analysis_status got)] else []))"

definition unexpected_node :: "(string \<rightharpoonup> closure_node) \<Rightarrow> closure_node \<Rightarrow> string \<Rightarrow> closure_violation list" where
  "unexpected_node expected got i =
     (if expected i = None \<and> cn_required got then [node_violation i ''unexpected_required_node'' [] (cn_digest got)] else [])"

definition over_map :: "(string \<rightharpoonup> closure_node) \<Rightarrow> (closure_node \<Rightarrow> string \<Rightarrow> closure_violation list) \<Rightarrow> string list \<Rightarrow> closure_violation list" where
  "over_map m f ids = concat (map (\<lambda>i. case m i of None \<Rightarrow> [] | Some n \<Rightarrow> f n i) ids)"

text \<open>
  The order in which Go ranges over the two maps does not matter: the violations are sorted at the end.
\<close>

definition drift :: "assurance_closure \<Rightarrow> assurance_closure \<Rightarrow> closure_violation list" where
  "drift expected actual =
     (let en = node_map (cl_nodes expected); an = node_map (cl_nodes actual);
          ee = edge_set (cl_edges expected); ae = edge_set (cl_edges actual) in
      (if cl_root_digest expected \<noteq> cl_root_digest actual
       then [node_violation ''root'' ''root_digest_mismatch'' (cl_root_digest expected) (cl_root_digest actual)] else []) @
      over_map en (lost_or_changed an) (node_ids (cl_nodes expected)) @
      over_map an (unexpected_node en) (node_ids (cl_nodes actual)) @
      map (\<lambda>e. edge_violation e ''required_edge_missing'') (filter (\<lambda>e. e \<notin> set ae) ee) @
      map (\<lambda>e. edge_violation e ''unexpected_edge'') (filter (\<lambda>e. e \<notin> set ee) ae))"

definition violation_key :: "closure_violation \<Rightarrow> string" where
  "violation_key v = cv_node v @ nul @ cv_edge v @ nul @ cv_reason v"

definition verify_closure :: "crypto \<Rightarrow> assurance_closure \<Rightarrow> assurance_closure \<Rightarrow> closure_verification" where
  "verify_closure cr expected0 actual0 =
     (let expected = finalize cr expected0; actual = finalize cr actual0;
          vs0 = drift expected actual;
          vs1 = (if cl_digest expected \<noteq> cl_digest actual \<and> vs0 = []
                 then [node_violation [] ''closure_digest_mismatch'' (cl_digest expected) (cl_digest actual)] else vs0);
          open_end = vs1 = [] \<and> \<not> cl_complete actual;
          vs2 = (if open_end then [node_violation [] ''closure_incomplete'' [] (cl_state actual)] else vs1)
      in \<lparr>cr_status = (if vs1 \<noteq> [] then VerificationFailed else if open_end then VerificationUnresolved else VerificationVerified),
          cr_expected_digest = cl_digest expected, cr_actual_digest = cl_digest actual,
          cr_violations = sort_key violation_key vs2\<rparr>)"

end
