(* ===== verification/Policy.thy ===== *)
theory Policy
  imports Capability_Verification Closure
begin

text \<open>
  The admission policy, internal/policy/policy.go: \<open>Check\<close> turns a scan and the evidence that comes with
  it into a list of violations, and allows exactly when there is none.

  The environment of a check is a record: the clock, the cryptographic primitives, \<open>time.ParseDuration\<close>,
  subtraction of \<open>float64\<close>, the JSON decoder for in-toto statements and the JSON form of signed records,
  the SARIF importer, the digests of the evidence package and the URL parsers.  Maps that Go ranges over
  are association lists, whose order is the order of the range.
\<close>

section \<open>The policy\<close>

record agent_execution_policy =
  ap_allow_hooks :: "bool option"
  ap_allow_shell_hooks :: "bool option"
  ap_allow_remote_hooks :: "bool option"
  ap_allow_permission_bypass :: "bool option"
  ap_allowed_hook_events :: "string list"
  ap_allowed_remote_domains :: "string list"

record policy =
  po_version :: int
  po_maximum_severity :: string
  po_required_analysis :: "string list"
  po_minimum_completeness :: float64
  po_minimum_analyzability :: float64
  po_deny_opaque :: bool
  po_deny_budget_exhausted :: bool
  po_forbidden_capabilities :: "string list"
  po_allowed_capabilities :: "string list"
  po_forbidden_rules :: "string list"
  po_minimum_scans :: int
  po_required_scanners :: "string list"
  po_trusted_scanners :: "string list"
  po_trusted_scanner_keys :: "string \<rightharpoonup> string list"
  po_trusted_signers :: "string \<rightharpoonup> string"
  po_trusted_builders :: "string list"
  po_trusted_builder_keys :: "string \<rightharpoonup> string list"
  po_allowed_repositories :: "string list"
  po_allowed_registries :: "string list"
  po_max_attestation_age :: string
  po_require_digest :: bool
  po_require_signature :: bool
  po_require_provenance :: bool
  po_require_provenance_signature :: bool
  po_max_evidence_age :: string
  po_require_behavioral :: bool
  po_require_containment :: bool
  po_require_runtime_enforcement :: bool
  po_require_native_isolation :: bool
  po_maximum_violation_rate :: "float64 option"
  po_require_zero_side_effects :: bool
  po_required_domains :: "string list"
  po_allowed_domains :: "string list"
  po_forbidden_domains :: "string list"
  po_require_complete_closure :: bool
  po_deny_unresolved_references :: bool
  po_agent_execution :: "agent_execution_policy option"
  po_dependency_sources :: "string \<rightharpoonup> string list"
  po_revoked_signers :: "string list"
  po_revoked_artifacts :: "string list"
  po_revoked_skills :: "string list"

section \<open>What is checked\<close>

record evidence_result =
  er_status :: string
  er_verdict :: string
  er_maximum_severity :: string
  er_risk_score :: int
  er_findings :: int

record evidence_item =
  ei_type :: string
  ei_producer :: string
  ei_producer_ver :: string
  ei_subject_digest :: string
  ei_timestamp :: time
  ei_payload_digest :: string
  ei_result :: evidence_result
  ei_inspection_digest :: string
  ei_observation_digest :: string
  ei_dependency_digest :: string

record evidence_bundle =
  eb_version :: int
  eb_evidence :: evidence_item
  eb_payload :: string
  eb_signature :: "signature option"

record attestation =
  at_subject :: string
  at_result :: evidence_result
  at_timestamp :: time
  at_evidence :: "evidence_item list"
  at_closure_digest :: "string option"
  at_closure :: "assurance_closure option"
  at_signature :: "signature option"

record intoto_statement =
  is_type :: string
  is_subjects :: "(string \<rightharpoonup> string) list"
  is_predicate_type :: string
  is_parameters :: "string \<rightharpoonup> string"
  is_builder :: string
  is_finished_on :: time

record eval_result =
  el_artifact_digest :: string
  el_behavioral :: string
  el_containment :: string
  el_enforcement :: string
  el_native_isolation :: string
  el_compliance_rate :: "float64 option"
  el_side_effects :: "bool list list"

record policy_input =
  pi_scan :: scan_result
  pi_contract :: "skill_contract option"
  pi_attestation :: "attestation option"
  pi_provenance :: "provenance option"
  pi_package :: "package_statement option"
  pi_external :: "evidence_bundle list"
  pi_eval :: "eval_result option"

record registry_url =
  ru_scheme :: string
  ru_hostname :: string
  ru_port :: string
  ru_has_user :: bool
  ru_raw_query :: string
  ru_fragment :: string
  ru_escaped_path :: string

record policy_env =
  pe_now :: time
  pe_crypto :: crypto
  pe_parse_duration :: "string \<Rightarrow> int option"
  pe_sub :: "float64 \<Rightarrow> float64 \<Rightarrow> float64"
  pe_parse_statement :: "string \<Rightarrow> intoto_statement option"
  pe_attestation_json :: "attestation \<Rightarrow> json"
  pe_bundle_json :: "evidence_bundle \<Rightarrow> json"
  pe_import_sarif :: "string \<Rightarrow> artifact \<Rightarrow> evidence_item list option"
  pe_findings_digest :: "finding list \<Rightarrow> string"
  pe_inspection_digest :: "scan_result \<Rightarrow> string"
  pe_observations_digest :: "capability_observation list \<Rightarrow> string"
  pe_dependencies_digest :: "scan_result \<Rightarrow> string"
  pe_eval_digest :: "eval_result \<Rightarrow> string"
  pe_parse_url :: "string \<Rightarrow> registry_url option"

definition pe_hostname :: "policy_env \<Rightarrow> string \<Rightarrow> string option" where
  "pe_hostname env v = map_option ru_hostname (pe_parse_url env v)"

section \<open>Violations\<close>

datatype detail =
    DBool bool | DInt int | DFloat float64 | DStr string | DStrs "string list" | DOther

record violation =
  vi_rule :: string
  vi_expected :: detail
  vi_observed :: detail
  vi_message :: string

definition violate :: "bool \<Rightarrow> string \<Rightarrow> detail \<Rightarrow> detail \<Rightarrow> string \<Rightarrow> violation list" where
  "violate bad rule expected observed message =
     (if bad then [\<lparr>vi_rule = rule, vi_expected = expected, vi_observed = observed, vi_message = message\<rparr>] else [])"

record policy_result =
  pr_decision :: string
  pr_violations :: "violation list"

definition map_str :: "('k \<rightharpoonup> string) \<Rightarrow> 'k \<Rightarrow> string" where
  "map_str m k = (case m k of None \<Rightarrow> [] | Some v \<Rightarrow> v)"

definition map_strs :: "('k \<rightharpoonup> string list) \<Rightarrow> 'k \<Rightarrow> string list" where
  "map_strs m k = (case m k of None \<Rightarrow> [] | Some v \<Rightarrow> v)"

definition coverage :: "scan_result \<Rightarrow> string \<Rightarrow> string" where
  "coverage s k = map_str (map_of (scan_coverage s)) k"

definition scan_subject :: "policy_input \<Rightarrow> string" where
  "scan_subject i = artifact_subject_digest (scan_artifact (pi_scan i))"

section \<open>Revocation\<close>

definition revocation_violations :: "policy \<Rightarrow> policy_input \<Rightarrow> violation list" where
  "revocation_violations p i =
     violate (scan_subject i \<noteq> [] \<and> scan_subject i \<in> set (po_revoked_artifacts p))
       ''revoked-artifact'' (DStr ''not revoked'') (DStr (scan_subject i)) ''this exact artifact digest has been revoked'' @
     (case pi_contract i of
        None \<Rightarrow> []
      | Some k \<Rightarrow>
          (let name = si_name (sc_skill k); versioned = name @ ''@'' @ si_version (sc_skill k) in
           violate (name \<in> set (po_revoked_skills p) \<or> versioned \<in> set (po_revoked_skills p))
             ''revoked-skill'' (DStr ''not revoked'') (DStr versioned) ''this skill has been revoked'')) @
     (case pi_package i of
        None \<Rightarrow> []
      | Some st \<Rightarrow>
          (case pk_signature st of
             None \<Rightarrow> []
           | Some sg \<Rightarrow> violate (s_key_id sg \<in> set (po_revoked_signers p))
               ''revoked-signer'' (DStr ''not revoked'') (DStr (s_key_id sg)) ''the package signer's key has been revoked'')) @
     (case pi_attestation i of
        None \<Rightarrow> []
      | Some a \<Rightarrow>
          (case at_signature a of
             None \<Rightarrow> []
           | Some sg \<Rightarrow> violate (s_key_id sg \<in> set (po_revoked_signers p))
               ''revoked-signer'' (DStr ''not revoked'') (DStr (s_key_id sg)) ''the attestation signer's key has been revoked''))"

section \<open>Evaluation\<close>

definition evaluation_required :: "policy \<Rightarrow> bool" where
  "evaluation_required p \<longleftrightarrow> po_require_behavioral p \<or> po_require_containment p \<or> po_require_runtime_enforcement p \<or>
     po_require_native_isolation p \<or> po_maximum_violation_rate p \<noteq> None \<or> po_require_zero_side_effects p"

definition violation_rate :: "policy_env \<Rightarrow> eval_result \<Rightarrow> float64" where
  "violation_rate env e = (case el_compliance_rate e of None \<Rightarrow> Finite 1 | Some r \<Rightarrow> pe_sub env (Finite 1) r)"

definition side_effect_count :: "eval_result \<Rightarrow> nat" where
  "side_effect_count e = length (filter id (concat (el_side_effects e)))"

definition evaluation_violations :: "policy_env \<Rightarrow> policy \<Rightarrow> policy_input \<Rightarrow> violation list" where
  "evaluation_violations env p i =
     (case pi_eval i of
        None \<Rightarrow> violate (evaluation_required p) ''evaluation-evidence'' (DBool True) (DBool False)
          ''required behavioral evaluation result is missing''
      | Some e \<Rightarrow>
          violate (el_artifact_digest e \<noteq> scan_subject i) ''evaluation-subject'' (DStr (scan_subject i))
            (DStr (el_artifact_digest e)) ''evaluation result is not bound to the scanned artifact'' @
          violate (po_require_behavioral p \<and> el_behavioral e \<noteq> CoverageCompleted) ''behavioral-evaluation''
            (DStr CoverageCompleted) (DStr (el_behavioral e)) ''behavioral evaluation was not completed'' @
          violate (po_require_containment p \<and> el_containment e \<noteq> CoverageCompleted) ''containment-evaluation''
            (DStr CoverageCompleted) (DStr (el_containment e)) ''containment evaluation was not completed'' @
          violate (po_require_runtime_enforcement p \<and> el_enforcement e \<noteq> CoverageCompleted) ''runtime-enforcement''
            (DStr CoverageCompleted) (DStr (el_enforcement e)) ''runtime enforcement was not completed'' @
          violate (po_require_native_isolation p \<and> el_native_isolation e \<noteq> CoverageCompleted) ''native-isolation''
            (DStr CoverageCompleted) (DStr (el_native_isolation e)) ''native isolation was not completed'' @
          (case po_maximum_violation_rate p of
             None \<Rightarrow> []
           | Some mx \<Rightarrow> violate (f_less mx (violation_rate env e)) ''containment-violation-rate''
               (DFloat mx) (DFloat (violation_rate env e)) ''containment violation rate exceeds policy'') @
          violate (po_require_zero_side_effects p \<and> 0 < side_effect_count e) ''forbidden-side-effects''
            (DInt 0) (DInt (int (side_effect_count e))) ''evaluation recorded external or mutating side effects'')"

section \<open>Ages and signatures\<close>

text \<open>A day is a multiple of 24 hours, computed on 64 bits.\<close>

definition parse_age :: "policy_env \<Rightarrow> string \<Rightarrow> int option" where
  "parse_age env v =
     (case pe_parse_duration env v of
        Some d \<Rightarrow> Some d
      | None \<Rightarrow>
          if has_suffix v ''d'' then
            map_option (\<lambda>d. sint (word_of_int (d * 24) :: int64)) (pe_parse_duration env (trim_suffix v ''d'' @ ''h''))
          else None)"

text \<open>\<open>True\<close> when the signature over the canonical JSON of a record verifies.\<close>

definition verify_signed :: "crypto \<Rightarrow> json \<Rightarrow> signature option \<Rightarrow> (string \<rightharpoonup> string) \<Rightarrow> bool" where
  "verify_signed cr j sg keys =
     (case sg of
        None \<Rightarrow> False
      | Some s \<Rightarrow> (case canonical_json j of None \<Rightarrow> False | Some payload \<Rightarrow> verify cr payload s keys = None))"

definition verify_attestation_signature :: "policy_env \<Rightarrow> attestation \<Rightarrow> (string \<rightharpoonup> string) \<Rightarrow> bool" where
  "verify_attestation_signature env a keys =
     verify_signed (pe_crypto env) (pe_attestation_json env (a\<lparr>at_signature := None\<rparr>)) (at_signature a) keys"

definition verify_evidence_bundle :: "policy_env \<Rightarrow> evidence_bundle \<Rightarrow> (string \<rightharpoonup> string) \<Rightarrow> bool" where
  "verify_evidence_bundle env b keys =
     verify_signed (pe_crypto env) (pe_bundle_json env (b\<lparr>eb_signature := None\<rparr>)) (eb_signature b) keys"

definition fresh :: "policy_env \<Rightarrow> string \<Rightarrow> time \<Rightarrow> bool" where
  "fresh env max_age t \<longleftrightarrow> max_age = [] \<or>
     (case parse_age env max_age of None \<Rightarrow> False | Some d \<Rightarrow> time_sub (pe_now env) t \<le> d)"

text \<open>\<open>True\<close> when \<open>VerifyAttestation\<close> of the policy returns no error.\<close>

definition verify_attestation :: "policy_env \<Rightarrow> attestation \<Rightarrow> artifact \<Rightarrow> string \<Rightarrow> bool" where
  "verify_attestation env a art max_age \<longleftrightarrow> at_subject a = artifact_subject_digest art \<and>
     fresh env max_age (at_timestamp a) \<and>
     list_all (\<lambda>e. ei_subject_digest e = artifact_subject_digest art) (at_evidence a)"

section \<open>External evidence\<close>

definition policy_severity :: "policy \<Rightarrow> int" where
  "policy_severity p = SeverityRank (to_upper (po_maximum_severity p))"

definition verify_external_evidence :: "policy_env \<Rightarrow> policy \<Rightarrow> artifact \<Rightarrow> evidence_bundle \<Rightarrow> bool" where
  "verify_external_evidence env p art b =
     (let e = eb_evidence b in
      eb_version b = 1 \<and> ei_type e = ''external-security-scan'' \<and>
      ei_subject_digest e = artifact_subject_digest art \<and>
      ei_producer e \<noteq> [] \<and> length (ei_payload_digest e) = 64 \<and> eb_payload b \<noteq> [] \<and>
      sha256_hex (pe_crypto env) (eb_payload b) = ei_payload_digest e \<and>
      (case pe_import_sarif env (eb_payload b) art of
         Some [n] \<Rightarrow> ei_producer n = ei_producer e \<and> ei_producer_ver n = ei_producer_ver e \<and> ei_result n = ei_result e
       | _ \<Rightarrow> False) \<and>
      0 \<le> er_findings (ei_result e) \<and> er_status (ei_result e) \<noteq> [] \<and>
      er_status (ei_result e) \<noteq> StatusFail \<and> SeverityRank (er_maximum_severity (ei_result e)) \<le> policy_severity p \<and>
      (po_trusted_scanners p = [] \<or> ei_producer e \<in> set (po_trusted_scanners p)) \<and>
      fresh env (po_max_evidence_age p) (ei_timestamp e) \<and>
      verify_evidence_bundle env b (po_trusted_signers p) \<and>
      (case eb_signature b of None \<Rightarrow> False
       | Some sg \<Rightarrow> s_key_id sg \<in> set (map_strs (po_trusted_scanner_keys p) (ei_producer e))))"

text \<open>The scanners after the loop over the bundles, and the violations of the loop.\<close>

fun external_evidence :: "policy_env \<Rightarrow> policy \<Rightarrow> artifact \<Rightarrow> evidence_bundle list \<Rightarrow> string list \<Rightarrow> violation list \<times> string list" where
  "external_evidence env p art [] scanners = ([], scanners)"
| "external_evidence env p art (b # bs) scanners =
     (if \<not> verify_external_evidence env p art b then
        (let (vs, s) = external_evidence env p art bs scanners in
         (violate True ''external-evidence'' (DStr ''valid signed evidence bound to the artifact'') DOther
            ''external scanner evidence verification failed'' @ vs, s))
      else external_evidence env p art bs
        (if ei_producer (eb_evidence b) \<in> set scanners then scanners else scanners @ [ei_producer (eb_evidence b)]))"

section \<open>Provenance\<close>

definition five_minutes :: duration where "five_minutes = 300000000000"

text \<open>\<open>signing.ParseProvenance\<close>.\<close>

definition parse_provenance :: "policy_env \<Rightarrow> provenance \<Rightarrow> intoto_statement option" where
  "parse_provenance env pv =
     (if pv_payload_type pv \<noteq> ''application/vnd.in-toto+json'' then None
      else case b64_decode (pv_payload pv) of None \<Rightarrow> None | Some payload \<Rightarrow> pe_parse_statement env payload)"

definition statement_bound :: "intoto_statement \<Rightarrow> string \<Rightarrow> bool" where
  "statement_bound st digest =
     (case is_subjects st of [m] \<Rightarrow> map_str m ''sha256'' = digest | _ \<Rightarrow> False)"

definition builder_bound :: "policy \<Rightarrow> provenance \<Rightarrow> string \<Rightarrow> bool" where
  "builder_bound p pv builder =
     list_ex (\<lambda>s. sig_keyid s \<in> set (map_strs (po_trusted_builder_keys p) builder)) (pv_signatures pv)"

definition provenance_checks :: "policy_env \<Rightarrow> policy \<Rightarrow> provenance \<Rightarrow> intoto_statement \<Rightarrow> string \<Rightarrow> violation list" where
  "provenance_checks env p pv st digest =
     (let builder = is_builder st;
          repository = map_str (is_parameters st) ''source_repository'';
          commit = map_str (is_parameters st) ''source_commit'' in
      violate (is_type st \<noteq> ''https://in-toto.io/Statement/v1'') ''provenance-statement''
        (DStr ''https://in-toto.io/Statement/v1'') (DStr (is_type st)) ''provenance is not an in-toto Statement v1'' @
      violate (is_predicate_type st \<noteq> ''https://slsa.dev/provenance/v1'') ''provenance-predicate''
        (DStr ''https://slsa.dev/provenance/v1'') (DStr (is_predicate_type st)) ''provenance predicate type is not supported'' @
      violate (\<not> statement_bound st digest) ''provenance-digest'' (DStr digest) DOther
        ''provenance subject does not match artifact'' @
      violate (trim_space repository = [] \<or> trim_space commit = [] \<or> trim_space builder = [] \<or> time_is_zero (is_finished_on st))
        ''provenance-completeness'' (DStr ''source repository, commit, builder, and timestamp'') DOther
        ''provenance metadata is incomplete'' @
      violate (po_trusted_builders p \<noteq> [] \<and> builder \<notin> set (po_trusted_builders p)) ''trusted-builder''
        (DStrs (po_trusted_builders p)) (DStr builder) ''provenance builder is not trusted'' @
      violate (po_allowed_repositories p \<noteq> [] \<and> repository \<notin> set (po_allowed_repositories p)) ''allowed-repository''
        (DStrs (po_allowed_repositories p)) (DStr repository) ''source repository is not allowed'' @
      violate (pe_now env + five_minutes < is_finished_on st) ''provenance-timestamp'' (DStr ''not in the future'') DOther
        ''provenance build timestamp is in the future'' @
      (if \<not> verify_provenance (pe_crypto env) pv (po_trusted_signers p)
       then violate True ''provenance-signature'' (DStr ''cryptographically valid DSSE signature'') DOther
         ''provenance signature verification failed''
       else violate (\<not> builder_bound p pv builder) ''builder-key-binding''
         (DStrs (map_strs (po_trusted_builder_keys p) builder)) DOther
         ''DSSE signing key is not bound to the asserted builder''))"

definition provenance_violations :: "policy_env \<Rightarrow> policy \<Rightarrow> policy_input \<Rightarrow> violation list" where
  "provenance_violations env p i =
     violate (po_require_provenance p \<and> pi_provenance i = None) ''provenance'' (DBool True) (DBool False)
       ''provenance is required'' @
     (case pi_provenance i of
        None \<Rightarrow> []
      | Some pv \<Rightarrow>
          (case parse_provenance env pv of
             None \<Rightarrow> violate True ''provenance-format'' (DStr ''DSSE in-toto Statement v1'') DOther ''provenance format is invalid''
           | Some st \<Rightarrow> provenance_checks env p pv st (scan_subject i)) @
          violate (po_require_provenance_signature p \<and> pv_signatures pv = []) ''provenance-signature'' (DBool True) (DBool False)
            ''signed provenance is required'')"

end
