(* ===== verification/Policy_Check.thy ===== *)
theory Policy_Check
  imports Policy
begin

text \<open>
  The checks of the admission policy on the scan itself and the composition of all checks, in the order
  of \<open>Check\<close> in internal/policy/policy.go.
\<close>

section \<open>Completeness of the scan\<close>

definition severity_violations :: "policy \<Rightarrow> scan_result \<Rightarrow> violation list" where
  "severity_violations p s = violate (policy_severity p < SeverityRank (scan_maximum s)) ''maximum-severity''
     (DStr (to_upper (po_maximum_severity p))) (DStr (scan_maximum s)) ''maximum finding severity exceeds policy''"

definition analysis_violations :: "policy \<Rightarrow> scan_result \<Rightarrow> violation list" where
  "analysis_violations p s = concat (map (\<lambda>required.
     violate (coverage s required \<noteq> CoverageCompleted) ''required-analysis'' (DStr required) (DStr (coverage s required))
       ''required analysis was not completed'') (po_required_analysis p))"

definition completeness_violations :: "policy \<Rightarrow> scan_result \<Rightarrow> violation list" where
  "completeness_violations p s =
     violate (f_less (Finite 0) (po_minimum_completeness p) \<and> f_less (scan_completeness s) (po_minimum_completeness p))
       ''inspection-completeness'' (DFloat (po_minimum_completeness p)) (DFloat (scan_completeness s))
       ''applicable inspection work did not meet the required completion ratio'' @
     violate (f_less (Finite 0) (po_minimum_analyzability p) \<and> f_less (scan_analyzable s) (po_minimum_analyzability p))
       ''minimum-analyzability'' (DFloat (po_minimum_analyzability p)) (DFloat (scan_analyzable s))
       ''too much of the artifact's content was opaque to analysis''"

definition opaque_executable :: "analyzability_record \<Rightarrow> bool" where
  "opaque_executable r \<longleftrightarrow> an_state r = AnalyzabilityOpaque \<and> (an_binary_kind r \<noteq> [] \<or> an_executable r)"

definition opaque_violations :: "policy \<Rightarrow> scan_result \<Rightarrow> violation list" where
  "opaque_violations p s =
     (if po_deny_opaque p then concat (map (\<lambda>r. violate (opaque_executable r) ''deny-opaque-executable-content''
        (DBool False) (DStr (an_path r))
        (''artifact contains executable or archive content skil could not inspect: '' @ an_reason r)) (scan_analyzability s))
      else [])"

definition budget_violations :: "scan_result \<Rightarrow> violation list" where
  "budget_violations s = violate (scan_exceeded s \<noteq> []) ''deny-budget-exhausted'' (DBool False)
     (DStr (join (scan_exceeded s) '', '')) ''scan exceeded its analysis budget before completing; incomplete analysis cannot be trusted''"

section \<open>Agent execution, dependencies, rules\<close>

definition agent_finding_violations :: "agent_execution_policy \<Rightarrow> finding \<Rightarrow> violation list" where
  "agent_finding_violations ap f =
     (if fi_suppressed f then []
      else
        violate (ap_allow_hooks ap = Some False \<and> has_prefix (fi_rule_id f) ''SKIL-AGENT-HOOK-'')
          ''agent-execution-hooks-prohibited'' (DBool False) (DStr (fi_rule_id f)) ''agent lifecycle hooks are prohibited by policy'' @
        violate (ap_allow_shell_hooks ap = Some False \<and> fi_rule_id f = ''SKIL-AGENT-HOOK-001'')
          ''agent-execution-shell-hooks-prohibited'' (DBool False) (DStr (fi_rule_id f)) ''agent shell command hooks are prohibited by policy'' @
        violate (ap_allow_remote_hooks ap = Some False \<and> fi_rule_id f = ''SKIL-AGENT-HOOK-002'')
          ''agent-execution-remote-hooks-prohibited'' (DBool False) (DStr (fi_rule_id f)) ''agent remote exfiltration hooks are prohibited by policy'' @
        violate (ap_allow_permission_bypass ap = Some False \<and> fi_rule_id f = ''SKIL-AGENT-PERM-001'')
          ''agent-execution-permission-bypass-prohibited'' (DBool False) (DStr (fi_rule_id f)) ''agent permission bypass mode is prohibited by policy'')"

definition agent_violations :: "policy \<Rightarrow> scan_result \<Rightarrow> violation list" where
  "agent_violations p s =
     (case po_agent_execution p of None \<Rightarrow> [] | Some ap \<Rightarrow> concat (map (agent_finding_violations ap) (scan_findings s)))"

text \<open>\<open>NormalizeRegistryURL\<close> and \<open>IsOfficialRegistry\<close> of the dependency analyzer.\<close>

definition join_host_port :: "string \<Rightarrow> string \<Rightarrow> string" where
  "join_host_port host port =
     (if index_byte host (CHR '':'') \<noteq> None then ''['' @ host @ '']:'' @ port else host @ '':'' @ port)"

definition normalize_registry_url :: "policy_env \<Rightarrow> string \<Rightarrow> string option" where
  "normalize_registry_url env raw =
     (case pe_parse_url env (trim_space raw) of
        None \<Rightarrow> None
      | Some u \<Rightarrow>
          if ru_hostname u = [] \<or> ru_scheme u \<noteq> ''https'' \<or> ru_has_user u \<or> ru_raw_query u \<noteq> [] \<or> ru_fragment u \<noteq> [] then None
          else let host = to_lower (trim_suffix (ru_hostname u) ''.'');
                   port = (if ru_port u = ''443'' then [] else ru_port u);
                   host2 = (if port \<noteq> [] then join_host_port host port else host);
                   clean = path_clean (''/'' @ trim_prefix (ru_escaped_path u) ''/'')
               in Some (''https://'' @ host2 @ trim_suffix clean ''/'' @ ''/''))"

definition official_registries :: "string \<Rightarrow> string list" where
  "official_registries ecosystem =
     (if ecosystem = ''npm'' then [''https://registry.npmjs.org/'']
      else if ecosystem = ''pypi'' then [''https://pypi.org/simple/'']
      else if ecosystem = ''cargo'' then [''https://github.com/rust-lang/crates.io-index/'', ''https://index.crates.io/'']
      else if ecosystem = ''maven'' then [''https://repo.maven.apache.org/maven2/''] else [])"

definition evidence_string :: "evidence_map \<Rightarrow> string \<Rightarrow> string" where
  "evidence_string ev k = (case ev k of Some (JStr v) \<Rightarrow> v | _ \<Rightarrow> [])"

definition dependency_violations_of :: "policy_env \<Rightarrow> policy \<Rightarrow> capability_observation \<Rightarrow> violation list" where
  "dependency_violations_of env p ob =
     (if co_capability ob \<noteq> ''dependency.source'' then []
      else let ecosystem = evidence_string (co_evidence ob) ''ecosystem'' in
        case normalize_registry_url env (co_value ob) of
          None \<Rightarrow> violate True ''dependency-source-invalid'' (DStr ''canonical HTTPS registry'') (DStr (co_value ob)) []
        | Some canonical \<Rightarrow>
            if canonical \<in> set (official_registries ecosystem) then []
            else case po_dependency_sources p ecosystem of
              None \<Rightarrow> violate True ''dependency-source-unknown'' (DStr ''explicit trusted registry policy'') (DStr canonical)
                ''unknown dependency registry is not trusted''
            | Some allowed \<Rightarrow> violate (canonical \<notin> set allowed) ''dependency-source-untrusted'' (DStrs allowed) (DStr canonical)
                ''dependency registry is not in the ecosystem allowlist'')"

definition dependency_violations :: "policy_env \<Rightarrow> policy \<Rightarrow> scan_result \<Rightarrow> violation list" where
  "dependency_violations env p s = concat (map (dependency_violations_of env p) (scan_observations s))"

definition rule_violations :: "policy \<Rightarrow> scan_result \<Rightarrow> violation list" where
  "rule_violations p s = concat (map (\<lambda>rule. concat (map (\<lambda>f.
     violate (fi_rule_id f = rule \<and> \<not> fi_suppressed f) ''forbidden-rule'' (DStr rule) (DStr (fi_rule_id f))
       ''forbidden rule produced a finding'') (scan_findings s))) (po_forbidden_rules p))"

section \<open>Scanners\<close>

definition scanner_violations :: "policy \<Rightarrow> string list \<Rightarrow> violation list" where
  "scanner_violations p scanners =
     violate (int (length scanners) < po_minimum_scans p) ''minimum-scans'' (DInt (po_minimum_scans p))
       (DInt (int (length scanners))) ''insufficient independent scanner evidence'' @
     concat (map (\<lambda>required. violate (required \<notin> set scanners) ''required-scanner'' (DStr required) (DStrs scanners)
       ''required scanner evidence is missing'') (po_required_scanners p)) @
     concat (map (\<lambda>scanner. violate (po_trusted_scanners p \<noteq> [] \<and> scanner \<notin> set (po_trusted_scanners p)) ''trusted-scanner''
       (DStrs (po_trusted_scanners p)) (DStr scanner) ''evidence came from an untrusted scanner'') scanners)"

section \<open>Package, attestation\<close>

definition package_checks :: "policy_env \<Rightarrow> policy \<Rightarrow> policy_input \<Rightarrow> package_statement \<Rightarrow> violation list" where
  "package_checks env p i st =
     (let art = scan_artifact (pi_scan i) in
      (if pk_package_sha st \<noteq> ar_package_digest art \<or> pk_manifest_sha st \<noteq> ar_digest art
       then violate True ''package-signature-subject'' (DStrs [ar_package_digest art, ar_digest art])
         (DStrs [pk_package_sha st, pk_manifest_sha st])
         ''package signature subject does not match both package and content digests''
       else violate (\<not> verify_package_statement (pe_crypto env) st (po_trusted_signers p)) ''package-signature''
         (DStr ''cryptographically valid signature from a trusted key'') DOther ''package signature verification failed'') @
      (case pi_contract i of
         None \<Rightarrow> []
       | Some k \<Rightarrow> violate (pk_name st \<noteq> si_name (sc_skill k) \<or> pk_version_name st \<noteq> si_version (sc_skill k)) ''package-identity''
           (DStrs [si_name (sc_skill k), si_version (sc_skill k)]) (DStrs [pk_name st, pk_version_name st])
           ''signed package identity does not match the contract''))"

definition unsigned_package :: "policy_input \<Rightarrow> bool" where
  "unsigned_package i \<longleftrightarrow> (case pi_package i of None \<Rightarrow> True | Some st \<Rightarrow> pk_signature st = None)"

definition package_violations :: "policy_env \<Rightarrow> policy \<Rightarrow> policy_input \<Rightarrow> violation list" where
  "package_violations env p i =
     (if po_require_signature p \<and> unsigned_package i
      then violate True ''package-signature'' (DBool True) (DBool False) ''a detached signature over the package blob is required''
      else case pi_package i of None \<Rightarrow> [] | Some st \<Rightarrow> package_checks env p i st)"

definition attestation_signature_violations :: "policy_env \<Rightarrow> policy \<Rightarrow> policy_input \<Rightarrow> violation list" where
  "attestation_signature_violations env p i =
     (case pi_attestation i of
        None \<Rightarrow> []
      | Some a \<Rightarrow> violate (at_signature a \<noteq> None \<and> \<not> verify_attestation_signature env a (po_trusted_signers p))
          ''attestation-signature'' (DStr ''cryptographically valid signature from a trusted key'') DOther
          ''attestation signature verification failed'')"

definition native_scan :: "evidence_item \<Rightarrow> bool" where
  "native_scan e \<longleftrightarrow> ei_type e = ''security-scan'' \<and> ei_producer e = ''skil''"

definition native_eval :: "evidence_item \<Rightarrow> bool" where
  "native_eval e \<longleftrightarrow> (ei_type e = ''behavioral-eval'' \<or> ei_type e = ''containment-eval'') \<and> ei_producer e = ''skil''"

definition evidence_violations :: "policy_env \<Rightarrow> policy_input \<Rightarrow> evidence_item \<Rightarrow> violation list" where
  "evidence_violations env i e =
     (let s = pi_scan i;
          fd = pe_findings_digest env (scan_findings s); nd = pe_inspection_digest env s;
          od = pe_observations_digest env (scan_observations s); dd = pe_dependencies_digest env s in
      violate (native_scan e \<and> ei_payload_digest e \<noteq> fd) ''evidence-payload'' (DStr fd) (DStr (ei_payload_digest e))
        ''native scan evidence payload does not match the current findings'' @
      violate (native_scan e \<and> ei_inspection_digest e \<noteq> [] \<and> ei_inspection_digest e \<noteq> nd) ''inspection-evidence''
        (DStr nd) (DStr (ei_inspection_digest e)) ''attested inspection ledger does not match the current scan'' @
      violate (native_scan e \<and> ei_observation_digest e \<noteq> [] \<and> ei_observation_digest e \<noteq> od) ''capability-observation-evidence''
        (DStr od) (DStr (ei_observation_digest e)) ''attested capability observations do not match the current scan'' @
      violate (native_scan e \<and> ei_dependency_digest e \<noteq> [] \<and> ei_dependency_digest e \<noteq> dd) ''dependency-evidence''
        (DStr dd) (DStr (ei_dependency_digest e)) ''attested dependency identities do not match the current scan'' @
      (if native_eval e then
         (case pi_eval i of
            None \<Rightarrow> violate True ''evaluation-evidence-payload'' (DStr ''matching evaluation result'') (DStr ''missing'')
              ''attested evaluation evidence cannot be verified without --eval-result''
          | Some ev \<Rightarrow> violate (ei_payload_digest e \<noteq> pe_eval_digest env ev) ''evaluation-evidence-payload''
              (DStr (pe_eval_digest env ev)) (DStr (ei_payload_digest e))
              ''attested evaluation payload does not match the supplied evaluation result'')
       else []))"

definition closure_evidence_violations :: "policy_env \<Rightarrow> policy_input \<Rightarrow> attestation \<Rightarrow> violation list" where
  "closure_evidence_violations env i a =
     (case at_closure_digest a of
        None \<Rightarrow> []
      | Some d \<Rightarrow>
          (case scan_closure (pi_scan i) of
             None \<Rightarrow> violate True ''attestation-closure'' (DStr ''scan with reference closure'') (DStr ''missing closure'')
               ''attested reference closure cannot be verified because current scan has no reference closure''
           | Some c \<Rightarrow> violate (d \<noteq> cl_digest c) ''attestation-closure-digest'' (DStr (cl_digest c)) (DStr d)
               ''attested reference closure digest does not match current scan closure digest'')) @
     (case (at_closure a, scan_closure (pi_scan i)) of
        (Some reviewed, Some current) \<Rightarrow>
          map (\<lambda>v. \<lparr>vi_rule = ''attestation-closure-'' @ cv_reason v, vi_expected = DStr (cv_expected v),
                    vi_observed = DStr (cv_actual v),
                    vi_message = ''attested assurance closure drift at '' @ cv_node v @ cv_edge v\<rparr>)
            (cr_violations (verify_closure (pe_crypto env) reviewed current))
      | _ \<Rightarrow> [])"

definition attestation_violations :: "policy_env \<Rightarrow> policy \<Rightarrow> policy_input \<Rightarrow> violation list" where
  "attestation_violations env p i =
     (case pi_attestation i of
        None \<Rightarrow> []
      | Some a \<Rightarrow>
          (let s = pi_scan i; r = at_result a in
           violate (\<not> verify_attestation env a (scan_artifact s) (po_max_attestation_age p)) ''attestation''
             (DStr ''valid and current'') DOther ''attestation verification failed'' @
           concat (map (evidence_violations env i) (at_evidence a)) @
           violate (er_status r \<noteq> scan_status s \<or> er_verdict r \<noteq> scan_verdict s \<or>
               er_maximum_severity r \<noteq> scan_maximum s \<or> er_risk_score r \<noteq> scan_risk_score s)
             ''attestation-result'' DOther DOther ''attested verdict does not match the current scan'' @
           closure_evidence_violations env i a))"

section \<open>Closure, sources, capabilities, domains\<close>

definition closure_violations :: "policy \<Rightarrow> scan_result \<Rightarrow> violation list" where
  "closure_violations p s =
     (case scan_closure s of
        None \<Rightarrow> []
      | Some c \<Rightarrow>
          violate (\<not> cl_complete c \<or> cl_state c = AssuranceUnknown) ''transitive-closure-incomplete'' (DBool True)
            (DBool (cl_complete c)) ''transitive reference closure is incomplete or contains unresolved references'' @
          violate (cl_state c = AssuranceUnsafe) ''transitive-closure-unsafe'' (DStr AssuranceSafe) (DStr (cl_state c))
            ''a required assurance closure member is unsafe'' @
          violate (policy_severity p < SeverityRank (cl_maximum_severity c)) ''transitive-closure-maximum-severity''
            (DStr (to_upper (po_maximum_severity p))) (DStr (cl_maximum_severity c))
            ''maximum finding severity in transitive reference closure exceeds policy'' @
          concat (map (\<lambda>n. violate (cn_verdict n = ''BLOCK'') ''transitive-closure-denied-reference'' (DStr ''permitted reference'')
            (DStr (cn_source n)) (''transitive reference was denied or blocked: '' @ cn_source n)) (cl_nodes c)))"

definition trim_right_slashes :: "string \<Rightarrow> string" where
  "trim_right_slashes s = rev (dropWhile (\<lambda>c. c = CHR ''/'') (rev s))"

definition has_allowed_prefix :: "string \<Rightarrow> string list \<Rightarrow> bool" where
  "has_allowed_prefix v prefixes = list_ex (\<lambda>pre. v = pre \<or> has_prefix v (trim_right_slashes pre @ ''/'')) prefixes"

definition registry_violations :: "policy \<Rightarrow> scan_result \<Rightarrow> violation list" where
  "registry_violations p s =
     (let source = ar_source (scan_artifact s) in
      violate (po_allowed_registries p \<noteq> [] \<and> \<not> has_allowed_prefix source (po_allowed_registries p)) ''allowed-registry''
        (DStrs (po_allowed_registries p)) (DStr source) ''artifact source is not from an allowed registry'')"

definition capability_observed :: "string \<Rightarrow> observed_capabilities \<Rightarrow> bool" where
  "capability_observed name s =
     (if name = ''network.outbound'' then oc_network_outbound s
      else if name = ''commands.execute'' then oc_commands_execute s
      else if name = ''filesystem.write'' then oc_filesystem_write s
      else if name = ''filesystem.delete'' then oc_filesystem_delete s
      else if name = ''secrets.read'' then oc_secrets_read s
      else if name = ''persistence'' then oc_persistence s
      else if name = ''external_side_effects'' then oc_external_side_effects s
      else False)"

definition observed_names :: "observed_capabilities \<Rightarrow> string list" where
  "observed_names s = filter (\<lambda>name. capability_observed name s)
     [''network.outbound'', ''commands.execute'', ''filesystem.write'', ''filesystem.delete'', ''secrets.read'',
      ''persistence'', ''external_side_effects'']"

definition capability_violations :: "policy \<Rightarrow> observed_capabilities \<Rightarrow> violation list" where
  "capability_violations p s =
     concat (map (\<lambda>denied. violate (capability_observed denied s) ''forbidden-capability'' (DStr denied) (DBool True)
       ''forbidden capability was observed'') (po_forbidden_capabilities p)) @
     (if po_allowed_capabilities p \<noteq> [] then
        concat (map (\<lambda>c. violate (c \<notin> set (po_allowed_capabilities p)) ''allowed-capability'' (DStrs (po_allowed_capabilities p))
          (DStr c) ''observed capability is outside the allowlist'') (observed_names s))
      else [])"

definition completed_domains :: "scan_result \<Rightarrow> string list" where
  "completed_domains s = map (\<lambda>(d, _). trim_prefix d ''domain:'')
     (filter (\<lambda>(d, state). has_prefix d ''domain:'' \<and> state = CoverageCompleted) (scan_coverage s))"

definition domain_violations :: "policy \<Rightarrow> scan_result \<Rightarrow> violation list" where
  "domain_violations p s =
     concat (map (\<lambda>required. violate (coverage s (''domain:'' @ required) \<noteq> CoverageCompleted) ''required-domain''
       (DStr required) (DStr (coverage s (''domain:'' @ required))) ''required domain analysis was not completed'')
       (po_required_domains p)) @
     (if po_allowed_domains p \<noteq> [] then
        concat (map (\<lambda>d. violate (d \<notin> set (po_allowed_domains p)) ''allowed-domain'' (DStrs (po_allowed_domains p)) (DStr d)
          ''domain analysis was completed but domain is outside the allowlist'') (completed_domains s))
      else []) @
     (if po_forbidden_domains p \<noteq> [] then
        concat (map (\<lambda>d. violate (d \<in> set (po_forbidden_domains p)) ''forbidden-domain'' (DStr d) (DBool True)
          ''forbidden domain analysis produced coverage'') (completed_domains s))
      else [])"

section \<open>The check\<close>

definition all_violations :: "policy_env \<Rightarrow> policy \<Rightarrow> policy_input \<Rightarrow> violation list" where
  "all_violations env p i =
     (let s = pi_scan i;
          (external, scanners) = external_evidence env p (scan_artifact s) (pi_external i) (scan_scanners s);
          seen = infer (pe_hostname env) (scan_findings s) (scan_observations s) in
      revocation_violations p i @ severity_violations p s @ analysis_violations p s @ completeness_violations p s @
      opaque_violations p s @ budget_violations s @ agent_violations p s @ dependency_violations env p s @
      rule_violations p s @ external @ scanner_violations p scanners @
      violate (po_require_digest p \<and> scan_subject i = []) ''artifact-digest'' (DBool True) (DBool False) ''artifact digest is required'' @
      evaluation_violations env p i @ package_violations env p i @ attestation_signature_violations env p i @
      provenance_violations env p i @ attestation_violations env p i @ closure_violations p s @ registry_violations p s @
      capability_violations p seen @ domain_violations p s)"

definition check_policy :: "policy_env \<Rightarrow> policy \<Rightarrow> policy_input \<Rightarrow> policy_result" where
  "check_policy env p i =
     (let vs = all_violations env p i in
      \<lparr>pr_decision = (if vs \<noteq> [] then ''DENY'' else ''ALLOW''), pr_violations = vs\<rparr>)"

end
