(* ===== verification/Policy_Props.thy ===== *)
theory Policy_Props
  imports Policy_Check
begin

text \<open>
  Properties of the admission policy: what an ALLOW guarantees, switches of the policy that nothing reads,
  signatures the revocation list does not reach, and a builder binding anyone with a trusted key can forge.
\<close>

section \<open>What an ALLOW guarantees\<close>

lemma violate_Nil [simp]: "violate bad r e ob m = [] \<longleftrightarrow> \<not> bad"
  by (simp add: violate_def)

lemma concat_map_Nil: "concat (map f xs) = [] \<longleftrightarrow> (\<forall>x \<in> set xs. f x = [])"
  by auto

lemma allow_iff: "pr_decision (check_policy env p i) = ''ALLOW'' \<longleftrightarrow> all_violations env p i = []"
  by (simp add: check_policy_def Let_def)

lemma all_violations_Nil:
  assumes "all_violations env p i = []"
  shows "revocation_violations p i = []" "severity_violations p (pi_scan i) = []" "analysis_violations p (pi_scan i) = []"
    "budget_violations (pi_scan i) = []" "rule_violations p (pi_scan i) = []" "dependency_violations env p (pi_scan i) = []"
    "evaluation_violations env p i = []"
    "package_violations env p i = []" "attestation_signature_violations env p i = []" "provenance_violations env p i = []"
    "attestation_violations env p i = []" "closure_violations p (pi_scan i) = []"
    "capability_violations p (infer (pe_hostname env) (scan_findings (pi_scan i)) (scan_observations (pi_scan i))) = []"
  using assms by (simp_all add: all_violations_def Let_def split: prod.splits)

text \<open>Not revoked: the artifact, the skill with and without its version, and the signers of package and attestation.\<close>

definition not_revoked :: "policy \<Rightarrow> policy_input \<Rightarrow> bool" where
  "not_revoked p i \<longleftrightarrow>
     (scan_subject i \<noteq> [] \<longrightarrow> scan_subject i \<notin> set (po_revoked_artifacts p)) \<and>
     (\<forall>k. pi_contract i = Some k \<longrightarrow> si_name (sc_skill k) \<notin> set (po_revoked_skills p) \<and>
        si_name (sc_skill k) @ ''@'' @ si_version (sc_skill k) \<notin> set (po_revoked_skills p)) \<and>
     (\<forall>st sg. pi_package i = Some st \<longrightarrow> pk_signature st = Some sg \<longrightarrow> s_key_id sg \<notin> set (po_revoked_signers p)) \<and>
     (\<forall>a sg. pi_attestation i = Some a \<longrightarrow> at_signature a = Some sg \<longrightarrow> s_key_id sg \<notin> set (po_revoked_signers p))"

lemma not_revoked_iff: "revocation_violations p i = [] \<longleftrightarrow> not_revoked p i"
  by (auto simp: revocation_violations_def not_revoked_def Let_def split: option.splits)

text \<open>A package statement about this artifact whose signature verifies under a trusted key.\<close>

definition package_proven :: "policy_env \<Rightarrow> policy \<Rightarrow> policy_input \<Rightarrow> package_statement \<Rightarrow> bool" where
  "package_proven env p i st \<longleftrightarrow> pk_package_sha st = ar_package_digest (scan_artifact (pi_scan i)) \<and>
     pk_manifest_sha st = ar_digest (scan_artifact (pi_scan i)) \<and>
     verify_package_statement (pe_crypto env) st (po_trusted_signers p) \<and>
     (\<forall>k. pi_contract i = Some k \<longrightarrow> pk_name st = si_name (sc_skill k) \<and> pk_version_name st = si_version (sc_skill k))"

lemma package_checks_Nil: "package_checks env p i st = [] \<longleftrightarrow> package_proven env p i st"
  by (auto simp: package_checks_def package_proven_def Let_def split: option.splits)

lemma package_violations_Nil:
  assumes "package_violations env p i = []"
  shows "po_require_signature p \<Longrightarrow> \<exists>st. pi_package i = Some st \<and> pk_signature st \<noteq> None"
    and "pi_package i = Some st \<Longrightarrow> package_proven env p i st"
  using assms package_checks_Nil [of env p i]
  by (auto simp: package_violations_def unsigned_package_def split: option.splits if_splits)

text \<open>Provenance of this artifact from the builder it names, signed by a trusted key, from an allowed repository.\<close>

definition provenance_proven :: "policy_env \<Rightarrow> policy \<Rightarrow> policy_input \<Rightarrow> provenance \<Rightarrow> bool" where
  "provenance_proven env p i pv \<longleftrightarrow> (\<exists>st. parse_provenance env pv = Some st \<and>
     statement_bound st (scan_subject i) \<and> verify_provenance (pe_crypto env) pv (po_trusted_signers p) \<and>
     builder_bound p pv (is_builder st) \<and>
     (po_trusted_builders p \<noteq> [] \<longrightarrow> is_builder st \<in> set (po_trusted_builders p)) \<and>
     (po_allowed_repositories p \<noteq> [] \<longrightarrow> map_str (is_parameters st) ''source_repository'' \<in> set (po_allowed_repositories p)) \<and>
     is_finished_on st \<le> pe_now env + five_minutes)"

lemma provenance_checks_Nil:
  "provenance_checks env p pv st d = [] \<Longrightarrow>
   statement_bound st d \<and> verify_provenance (pe_crypto env) pv (po_trusted_signers p) \<and> builder_bound p pv (is_builder st) \<and>
     (po_trusted_builders p \<noteq> [] \<longrightarrow> is_builder st \<in> set (po_trusted_builders p)) \<and>
     (po_allowed_repositories p \<noteq> [] \<longrightarrow> map_str (is_parameters st) ''source_repository'' \<in> set (po_allowed_repositories p)) \<and>
     is_finished_on st \<le> pe_now env + five_minutes"
  by (auto simp: provenance_checks_def Let_def split: if_splits)

lemma provenance_violations_Nil:
  assumes "provenance_violations env p i = []"
  shows "po_require_provenance p \<Longrightarrow> pi_provenance i \<noteq> None"
    and "pi_provenance i = Some pv \<Longrightarrow> provenance_proven env p i pv"
proof -
  show "pi_provenance i \<noteq> None" if "po_require_provenance p"
    using assms that by (auto simp: provenance_violations_def)
  show "provenance_proven env p i pv" if "pi_provenance i = Some pv"
  proof -
    from assms that obtain st where "parse_provenance env pv = Some st" "provenance_checks env p pv st (scan_subject i) = []"
      by (auto simp: provenance_violations_def split: option.splits)
    with provenance_checks_Nil show ?thesis unfolding provenance_proven_def by blast
  qed
qed

text \<open>The attested result is that of this scan, its evidence is about this artifact, and it is fresh.\<close>

definition attestation_proven :: "policy_env \<Rightarrow> policy \<Rightarrow> policy_input \<Rightarrow> attestation \<Rightarrow> bool" where
  "attestation_proven env p i a \<longleftrightarrow>
     verify_attestation env a (scan_artifact (pi_scan i)) (po_max_attestation_age p) \<and>
     (at_signature a \<noteq> None \<longrightarrow> verify_attestation_signature env a (po_trusted_signers p)) \<and>
     er_status (at_result a) = scan_status (pi_scan i) \<and> er_verdict (at_result a) = scan_verdict (pi_scan i) \<and>
     er_maximum_severity (at_result a) = scan_maximum (pi_scan i) \<and>
     (\<forall>e \<in> set (at_evidence a). native_scan e \<longrightarrow> ei_payload_digest e = pe_findings_digest env (scan_findings (pi_scan i))) \<and>
     (\<forall>e \<in> set (at_evidence a). native_eval e \<longrightarrow>
        (\<exists>ev. pi_eval i = Some ev \<and> ei_payload_digest e = pe_eval_digest env ev)) \<and>
     (\<forall>r c. at_closure a = Some r \<longrightarrow> scan_closure (pi_scan i) = Some c \<longrightarrow>
        cr_violations (verify_closure (pe_crypto env) r c) = [])"

lemma evidence_violations_Nil:
  "evidence_violations env i e = [] \<Longrightarrow>
     (native_scan e \<longrightarrow> ei_payload_digest e = pe_findings_digest env (scan_findings (pi_scan i))) \<and>
     (native_eval e \<longrightarrow> (\<exists>ev. pi_eval i = Some ev \<and> ei_payload_digest e = pe_eval_digest env ev))"
  by (auto simp: evidence_violations_def Let_def split: option.splits if_splits)

lemma attestation_violations_Nil:
  assumes "attestation_violations env p i = []" and "attestation_signature_violations env p i = []" and "pi_attestation i = Some a"
  shows "attestation_proven env p i a"
proof -
  from assms(1,3) have v: "verify_attestation env a (scan_artifact (pi_scan i)) (po_max_attestation_age p)"
    "\<forall>e \<in> set (at_evidence a). evidence_violations env i e = []"
    "er_status (at_result a) = scan_status (pi_scan i)" "er_verdict (at_result a) = scan_verdict (pi_scan i)"
    "er_maximum_severity (at_result a) = scan_maximum (pi_scan i)" "closure_evidence_violations env i a = []"
    by (simp_all add: attestation_violations_def Let_def)
  have "at_signature a \<noteq> None \<longrightarrow> verify_attestation_signature env a (po_trusted_signers p)"
    using assms(2,3) by (auto simp: attestation_signature_violations_def)
  moreover have "cr_violations (verify_closure (pe_crypto env) r c) = []"
    if "at_closure a = Some r" "scan_closure (pi_scan i) = Some c" for r c
    using v(6) that by (simp add: closure_evidence_violations_def)
  ultimately show ?thesis using v evidence_violations_Nil unfolding attestation_proven_def by blast
qed

definition evaluation_proven :: "policy_env \<Rightarrow> policy \<Rightarrow> policy_input \<Rightarrow> bool" where
  "evaluation_proven env p i \<longleftrightarrow> (evaluation_required p \<longrightarrow>
     (\<exists>e. pi_eval i = Some e \<and> el_artifact_digest e = scan_subject i \<and>
        (po_require_containment p \<longrightarrow> el_containment e = CoverageCompleted) \<and>
        (po_require_runtime_enforcement p \<longrightarrow> el_enforcement e = CoverageCompleted) \<and>
        (po_require_native_isolation p \<longrightarrow> el_native_isolation e = CoverageCompleted) \<and>
        (po_require_zero_side_effects p \<longrightarrow> side_effect_count e = 0)))"

lemma evaluation_Nil: "evaluation_violations env p i = [] \<Longrightarrow> evaluation_proven env p i"
  by (auto simp: evaluation_violations_def evaluation_proven_def split: option.splits)

definition scan_acceptable :: "policy \<Rightarrow> scan_result \<Rightarrow> bool" where
  "scan_acceptable p s \<longleftrightarrow> SeverityRank (scan_maximum s) \<le> policy_severity p \<and> scan_exceeded s = [] \<and>
     (\<forall>a \<in> set (po_required_analysis p). coverage s a = CoverageCompleted) \<and>
     (\<forall>f \<in> set (scan_findings s). fi_rule_id f \<in> set (po_forbidden_rules p) \<longrightarrow> fi_suppressed f) \<and>
     (\<forall>c. scan_closure s = Some c \<longrightarrow> cl_complete c \<and> cl_state c \<noteq> AssuranceUnknown \<and> cl_state c \<noteq> AssuranceUnsafe \<and>
        SeverityRank (cl_maximum_severity c) \<le> policy_severity p)"

lemma scan_acceptable_Nil:
  assumes "severity_violations p s = []" "budget_violations s = []" "analysis_violations p s = []" "rule_violations p s = []"
    "closure_violations p s = []"
  shows "scan_acceptable p s"
proof -
  have "cl_complete c \<and> cl_state c \<noteq> AssuranceUnknown \<and> cl_state c \<noteq> AssuranceUnsafe \<and> SeverityRank (cl_maximum_severity c) \<le> policy_severity p"
    if "scan_closure s = Some c" for c using assms(5) that by (simp add: closure_violations_def not_less)
  moreover have "fi_suppressed f" if "f \<in> set (scan_findings s)" "fi_rule_id f \<in> set (po_forbidden_rules p)" for f
    using assms(4) that unfolding rule_violations_def concat_map_Nil violate_Nil by blast
  ultimately show ?thesis
    using assms(1-3) by (auto simp: scan_acceptable_def severity_violations_def budget_violations_def analysis_violations_def)
qed


text \<open>A scan without findings under a policy that only bounds the severity.\<close>

definition sample_policy :: policy where
  "sample_policy = \<lparr>po_version = 1, po_maximum_severity = ''LOW'', po_required_analysis = [''pattern''],
     po_minimum_completeness = Finite 0, po_minimum_analyzability = Finite 0, po_deny_opaque = True,
     po_deny_budget_exhausted = False, po_forbidden_capabilities = [''persistence''], po_allowed_capabilities = [],
     po_forbidden_rules = [''SKIL-SH-001''], po_minimum_scans = 1, po_required_scanners = [''skil''],
     po_trusted_scanners = [''skil''], po_trusted_scanner_keys = Map.empty, po_trusted_signers = Map.empty,
     po_trusted_builders = [], po_trusted_builder_keys = Map.empty, po_allowed_repositories = [],
     po_allowed_registries = [], po_max_attestation_age = [], po_require_digest = True, po_require_signature = False,
     po_require_provenance = False, po_require_provenance_signature = False, po_max_evidence_age = [],
     po_require_behavioral = False, po_require_containment = False, po_require_runtime_enforcement = False,
     po_require_native_isolation = False, po_maximum_violation_rate = None, po_require_zero_side_effects = False,
     po_required_domains = [], po_allowed_domains = [], po_forbidden_domains = [], po_require_complete_closure = True,
     po_deny_unresolved_references = True, po_agent_execution = None, po_dependency_sources = Map.empty,
     po_revoked_signers = [''stolen''], po_revoked_artifacts = [''old''], po_revoked_skills = [''evil'']\<rparr>"

definition sample_scan :: scan_result where
  "sample_scan = \<lparr>scan_artifact = \<lparr>ar_name = ''a'', ar_version = [], ar_source = ''dir'', ar_digest = ''d1'', ar_package_digest = []\<rparr>,
     scan_status = StatusPass, scan_verdict = VerdictClear, scan_risk_score = 0, scan_maximum = ''INFO'', scan_findings = [],
     scan_observations = [], scan_coverage = [(''pattern'', ''completed'')], scan_scanners = [''skil''],
     scan_completeness = Finite 1, scan_analyzability = [], scan_analyzable = Finite 1, scan_exceeded = [], scan_closure = None\<rparr>"

definition sample_input :: policy_input where
  "sample_input = \<lparr>pi_scan = sample_scan, pi_contract = None, pi_attestation = None, pi_provenance = None,
     pi_package = None, pi_external = [], pi_eval = None\<rparr>"

definition sample_env :: policy_env where
  "sample_env = \<lparr>pe_now = 0, pe_crypto = toy_crypto, pe_parse_duration = (\<lambda>_. None), pe_sub = (\<lambda>x y. x),
     pe_parse_statement = (\<lambda>_. None), pe_attestation_json = (\<lambda>_. JNull), pe_bundle_json = (\<lambda>_. JNull),
     pe_import_sarif = (\<lambda>_ _. None), pe_findings_digest = (\<lambda>_. []), pe_inspection_digest = (\<lambda>_. []),
     pe_observations_digest = (\<lambda>_. []), pe_dependencies_digest = (\<lambda>_. []), pe_eval_digest = (\<lambda>_. []),
     pe_parse_url = (\<lambda>_. None)\<rparr>"

lemma sample_infer: "infer h [] [] = zero_observed"
  by (simp add: infer_def sort_observed_def sort_strings_def zero_observed_def)

lemma sample_severity: "policy_severity sample_policy = 1"
  by (simp add: policy_severity_def sample_policy_def SeverityRank_def severity_defs to_upper_def upper_char_def)

lemma sample_allowed: "pr_decision (check_policy sample_env sample_policy sample_input) = ''ALLOW''"
proof -
  have sc: "pi_scan sample_input = sample_scan" by (simp add: sample_input_def)
  have "revocation_violations sample_policy sample_input = []"
    by (simp add: revocation_violations_def sample_input_def sample_policy_def sample_scan_def scan_subject_def artifact_subject_digest_def)
  moreover have "severity_violations sample_policy sample_scan = []"
    by (simp add: severity_violations_def sample_severity) (simp add: sample_scan_def SeverityRank_def severity_defs)
  moreover have "analysis_violations sample_policy sample_scan = []" "completeness_violations sample_policy sample_scan = []"
    "opaque_violations sample_policy sample_scan = []" "budget_violations sample_scan = []" "agent_violations sample_policy sample_scan = []"
    "dependency_violations sample_env sample_policy sample_scan = []" "rule_violations sample_policy sample_scan = []"
    "scanner_violations sample_policy [''skil''] = []" "closure_violations sample_policy sample_scan = []"
    "registry_violations sample_policy sample_scan = []" "domain_violations sample_policy sample_scan = []"
    by (simp_all add: analysis_violations_def completeness_violations_def opaque_violations_def budget_violations_def
        agent_violations_def dependency_violations_def rule_violations_def scanner_violations_def closure_violations_def
        registry_violations_def domain_violations_def sample_policy_def sample_scan_def coverage_def map_str_def CoverageCompleted_def)
  moreover have "external_evidence sample_env sample_policy (scan_artifact sample_scan) (pi_external sample_input) (scan_scanners sample_scan) = ([], [''skil''])"
    by (simp add: sample_input_def sample_scan_def)
  moreover have "scan_subject sample_input \<noteq> []"
    by (simp add: sample_input_def sample_scan_def scan_subject_def artifact_subject_digest_def)
  moreover have "evaluation_violations sample_env sample_policy sample_input = []" "package_violations sample_env sample_policy sample_input = []"
    "attestation_signature_violations sample_env sample_policy sample_input = []" "provenance_violations sample_env sample_policy sample_input = []"
    "attestation_violations sample_env sample_policy sample_input = []"
    by (simp_all add: evaluation_violations_def evaluation_required_def package_violations_def attestation_signature_violations_def
        provenance_violations_def attestation_violations_def sample_input_def sample_policy_def)
  moreover have "scan_findings sample_scan = []" "scan_observations sample_scan = []" by (simp_all add: sample_scan_def)
  moreover have "capability_violations sample_policy zero_observed = []"
    by (simp add: capability_violations_def capability_observed_def sample_policy_def zero_observed_def)
  ultimately show ?thesis unfolding allow_iff all_violations_def sc Let_def by (simp add: sample_infer)
qed


section \<open>Switches nothing reads\<close>

definition with_unread :: "policy \<Rightarrow> bool \<Rightarrow> bool \<Rightarrow> bool \<Rightarrow> string list \<Rightarrow> policy" where
  "with_unread p closure references budget signers =
     p\<lparr>po_require_complete_closure := closure, po_deny_unresolved_references := references, po_deny_budget_exhausted := budget,
       po_revoked_signers := signers\<rparr>"

text \<open>No block of checks except the one on revocation reads any of the four.\<close>

lemma switch_sel:
  "po_maximum_severity (with_unread p a b c ks) = po_maximum_severity p" "po_required_analysis (with_unread p a b c ks) = po_required_analysis p"
  "po_minimum_completeness (with_unread p a b c ks) = po_minimum_completeness p"
  "po_minimum_analyzability (with_unread p a b c ks) = po_minimum_analyzability p" "po_deny_opaque (with_unread p a b c ks) = po_deny_opaque p"
  "po_forbidden_capabilities (with_unread p a b c ks) = po_forbidden_capabilities p"
  "po_allowed_capabilities (with_unread p a b c ks) = po_allowed_capabilities p" "po_forbidden_rules (with_unread p a b c ks) = po_forbidden_rules p"
  "po_minimum_scans (with_unread p a b c ks) = po_minimum_scans p" "po_required_scanners (with_unread p a b c ks) = po_required_scanners p"
  "po_trusted_scanners (with_unread p a b c ks) = po_trusted_scanners p"
  "po_trusted_scanner_keys (with_unread p a b c ks) = po_trusted_scanner_keys p" "po_trusted_signers (with_unread p a b c ks) = po_trusted_signers p"
  "po_trusted_builders (with_unread p a b c ks) = po_trusted_builders p" "po_trusted_builder_keys (with_unread p a b c ks) = po_trusted_builder_keys p"
  "po_allowed_repositories (with_unread p a b c ks) = po_allowed_repositories p" "po_allowed_registries (with_unread p a b c ks) = po_allowed_registries p"
  "po_max_attestation_age (with_unread p a b c ks) = po_max_attestation_age p" "po_require_digest (with_unread p a b c ks) = po_require_digest p"
  "po_require_signature (with_unread p a b c ks) = po_require_signature p" "po_require_provenance (with_unread p a b c ks) = po_require_provenance p"
  "po_require_provenance_signature (with_unread p a b c ks) = po_require_provenance_signature p"
  "po_max_evidence_age (with_unread p a b c ks) = po_max_evidence_age p" "po_require_behavioral (with_unread p a b c ks) = po_require_behavioral p"
  "po_require_containment (with_unread p a b c ks) = po_require_containment p"
  "po_require_runtime_enforcement (with_unread p a b c ks) = po_require_runtime_enforcement p"
  "po_require_native_isolation (with_unread p a b c ks) = po_require_native_isolation p"
  "po_maximum_violation_rate (with_unread p a b c ks) = po_maximum_violation_rate p"
  "po_require_zero_side_effects (with_unread p a b c ks) = po_require_zero_side_effects p"
  "po_required_domains (with_unread p a b c ks) = po_required_domains p" "po_allowed_domains (with_unread p a b c ks) = po_allowed_domains p"
  "po_forbidden_domains (with_unread p a b c ks) = po_forbidden_domains p" "po_agent_execution (with_unread p a b c ks) = po_agent_execution p"
  "po_dependency_sources (with_unread p a b c ks) = po_dependency_sources p" "po_revoked_artifacts (with_unread p a b c ks) = po_revoked_artifacts p" "po_revoked_skills (with_unread p a b c ks) = po_revoked_skills p"
  by (simp_all add: with_unread_def)

lemma switch_severity: "policy_severity (with_unread p a b c ks) = policy_severity p"
  by (simp only: policy_severity_def switch_sel)

lemma switch_external: "external_evidence env (with_unread p a b c ks) art bs s = external_evidence env p art bs s"
proof -
  have "verify_external_evidence env (with_unread p a b c ks) art x = verify_external_evidence env p art x" for x
    unfolding verify_external_evidence_def switch_sel switch_severity ..
  then show ?thesis by (induction bs arbitrary: s) simp_all
qed

lemma switch_evaluation: "evaluation_violations env (with_unread p a b c ks) i = evaluation_violations env p i"
  unfolding evaluation_violations_def evaluation_required_def switch_sel ..

lemma switch_provenance: "provenance_violations env (with_unread p a b c ks) i = provenance_violations env p i"
  unfolding provenance_violations_def provenance_checks_def builder_bound_def switch_sel ..

lemma switch_package: "package_violations env (with_unread p a b c ks) i = package_violations env p i"
  unfolding package_violations_def package_checks_def switch_sel ..

lemma unread_all:
  assumes "revocation_violations (with_unread p a b c ks) i = revocation_violations p i"
  shows "check_policy env (with_unread p a b c ks) i = check_policy env p i"
proof -
  have "all_violations env (with_unread p a b c ks) i = all_violations env p i"
    unfolding all_violations_def assms severity_violations_def analysis_violations_def
      completeness_violations_def opaque_violations_def agent_violations_def dependency_violations_def dependency_violations_of_def
      rule_violations_def scanner_violations_def attestation_signature_violations_def attestation_violations_def
      closure_violations_def registry_violations_def capability_violations_def domain_violations_def
      switch_external switch_evaluation switch_provenance switch_package switch_severity switch_sel ..
  then show ?thesis by (simp only: check_policy_def)
qed

text \<open>
  Three switches of the policy decide nothing: whether a complete transitive closure is required,
  unresolved references are denied or an exhausted budget is denied, the result is the same. A scan
  without any closure passes a policy that requires a complete one.
\<close>

theorem unread_switches:
  "check_policy env (p\<lparr>po_require_complete_closure := a, po_deny_unresolved_references := b, po_deny_budget_exhausted := c\<rparr>) i =
   check_policy env p i"
proof -
  have e: "p\<lparr>po_require_complete_closure := a, po_deny_unresolved_references := b, po_deny_budget_exhausted := c\<rparr> =
      with_unread p a b c (po_revoked_signers p)"
    by (cases p) (simp add: with_unread_def)
  have s: "po_revoked_signers (with_unread p a b c (po_revoked_signers p)) = po_revoked_signers p" by (simp add: with_unread_def)
  show ?thesis unfolding e by (rule unread_all) (simp only: revocation_violations_def switch_sel s)
qed

section \<open>Revoked signers of provenance\<close>

text \<open>
  The list of revoked signer keys does not reach provenance: without package statement and attestation,
  whatever keys are revoked, the decision is the same, so provenance signed by a revoked key still counts.
\<close>

theorem revoked_provenance_signer_accepted:
  "check_policy env (p\<lparr>po_revoked_signers := keys\<rparr>) (i\<lparr>pi_package := None, pi_attestation := None\<rparr>) =
   check_policy env p (i\<lparr>pi_package := None, pi_attestation := None\<rparr>)"
proof -
  let ?i = "i\<lparr>pi_package := None, pi_attestation := None\<rparr>"
  have e: "p\<lparr>po_revoked_signers := keys\<rparr> =
      with_unread p (po_require_complete_closure p) (po_deny_unresolved_references p) (po_deny_budget_exhausted p) keys"
    by (cases p) (simp add: with_unread_def)
  have n: "pi_package ?i = None" "pi_attestation ?i = None" by simp_all
  show ?thesis unfolding e by (rule unread_all) (simp only: revocation_violations_def switch_sel n option.case)
qed

section \<open>The builder binding\<close>

definition claim_key :: "provenance \<Rightarrow> string \<Rightarrow> provenance" where
  "claim_key pv k = pv\<lparr>pv_signatures := pv_signatures pv @ [\<lparr>sig_keyid = k, sig_value = []\<rparr>]\<rparr>"

lemma claim_key_binds:
  "verify_provenance cr pv keys \<Longrightarrow> k \<in> set (map_strs (po_trusted_builder_keys p) builder) \<Longrightarrow>
   verify_provenance cr (claim_key pv k) keys \<and> builder_bound p (claim_key pv k) builder"
  by (auto simp: verify_provenance_iff claim_key_def builder_bound_def)

text \<open>
  C17. The builder of a provenance can be claimed by anyone with a trusted key: appending an entry without a
  signature that merely names a key of the asserted builder removes the violation of the builder
  binding, and leaves the other checks, the signature check included, as they are.
\<close>

theorem builder_binding_forgeable:
  assumes "verify_provenance (pe_crypto env) pv (po_trusted_signers p)"
    and "k \<in> set (map_strs (po_trusted_builder_keys p) (is_builder st))"
  shows "provenance_checks env p (claim_key pv k) st d =
      filter (\<lambda>v. vi_rule v \<noteq> ''builder-key-binding'') (provenance_checks env p pv st d)
    \<and> parse_provenance env (claim_key pv k) = parse_provenance env pv"
proof
  have f: "filter (\<lambda>v. vi_rule v \<noteq> x) (violate b r e ob m) = (if r = x then [] else violate b r e ob m)" for b x r e ob m
    by (simp add: violate_def)
  note b = claim_key_binds [OF assms]
  show "provenance_checks env p (claim_key pv k) st d =
      filter (\<lambda>v. vi_rule v \<noteq> ''builder-key-binding'') (provenance_checks env p pv st d)"
    unfolding provenance_checks_def Let_def by (simp add: assms(1) b f)
  show "parse_provenance env (claim_key pv k) = parse_provenance env pv"
    by (simp add: parse_provenance_def claim_key_def)
qed

definition stolen_build :: provenance where
  "stolen_build = \<lparr>pv_payload_type = ''t'', pv_payload = [], pv_signatures = [sign_digest toy_crypto ''mallory'' ''m'' ''t'' []]\<rparr>"

definition builder_policy :: policy where
  "builder_policy = sample_policy\<lparr>po_trusted_signers := [''m'' \<mapsto> PublicKeyBase64 toy_crypto ''mallory''],
     po_trusted_builder_keys := [''builder'' \<mapsto> [''b'']]\<rparr>"

definition builder_statement :: intoto_statement where
  "builder_statement = \<lparr>is_type = [], is_subjects = [], is_predicate_type = [], is_parameters = Map.empty,
     is_builder = ''builder'', is_finished_on = 0\<rparr>"

lemma builder_binding_forgeable_witness:
  "\<not> builder_bound builder_policy stolen_build ''builder'' \<and>
   (\<exists>v \<in> set (provenance_checks sample_env builder_policy stolen_build builder_statement []). vi_rule v = ''builder-key-binding'') \<and>
   \<not> (\<exists>v \<in> set (provenance_checks sample_env builder_policy (claim_key stolen_build ''b'') builder_statement []).
        vi_rule v = ''builder-key-binding'')"
proof -
  have v: "verify_provenance (pe_crypto sample_env) stolen_build (po_trusted_signers builder_policy)"
  proof -
    have "b64_decode [] = Some []" by (simp add: b64_decode_def)
    moreover have "sig_ok toy_crypto (po_trusted_signers builder_policy) (dsse_pae ''t'' []) (sign_digest toy_crypto ''mallory'' ''m'' ''t'' [])"
      by (rule sign_digest_ok) (simp_all add: builder_policy_def sign_digest_def)
    ultimately show ?thesis by (simp add: verify_provenance_iff stolen_build_def sample_env_def)
  qed
  have n: "\<not> builder_bound builder_policy stolen_build ''builder''"
    by (simp add: builder_bound_def builder_policy_def stolen_build_def map_strs_def sign_digest_def)
  have k: "''b'' \<in> set (map_strs (po_trusted_builder_keys builder_policy) (is_builder builder_statement))"
    by (simp add: builder_policy_def builder_statement_def map_strs_def)
  have "is_builder builder_statement = ''builder''" by (simp add: builder_statement_def)
  then have "\<exists>v \<in> set (provenance_checks sample_env builder_policy stolen_build builder_statement []). vi_rule v = ''builder-key-binding''"
    unfolding provenance_checks_def Let_def using v n by (simp add: violate_def)
  with n builder_binding_forgeable [OF v k, of "[]"] show ?thesis by simp
qed

end
