(* ===== verification/Policy_Lifecycle.thy ===== *)
theory Policy_Lifecycle
  imports Policy_Props
begin

text \<open>
  How policies come about: synthesis from a scan (internal/policy/synthesize.go), and the facts, enforcement
  reasons and promotion stages of internal/policy/facts.go.
\<close>

section \<open>Synthesis\<close>

definition zero_policy :: policy where
  "zero_policy = \<lparr>po_version = 0, po_maximum_severity = [], po_required_analysis = [],
     po_minimum_completeness = Finite 0, po_minimum_analyzability = Finite 0, po_deny_opaque = False,
     po_deny_budget_exhausted = False, po_forbidden_capabilities = [], po_allowed_capabilities = [],
     po_forbidden_rules = [], po_minimum_scans = 0, po_required_scanners = [],
     po_trusted_scanners = [], po_trusted_scanner_keys = Map.empty, po_trusted_signers = Map.empty,
     po_trusted_builders = [], po_trusted_builder_keys = Map.empty, po_allowed_repositories = [],
     po_allowed_registries = [], po_max_attestation_age = [], po_require_digest = False, po_require_signature = False,
     po_require_provenance = False, po_require_provenance_signature = False, po_max_evidence_age = [],
     po_require_behavioral = False, po_require_containment = False, po_require_runtime_enforcement = False,
     po_require_native_isolation = False, po_maximum_violation_rate = None, po_require_zero_side_effects = False,
     po_required_domains = [], po_allowed_domains = [], po_forbidden_domains = [], po_require_complete_closure = False,
     po_deny_unresolved_references = False, po_agent_execution = None, po_dependency_sources = Map.empty,
     po_revoked_signers = [], po_revoked_artifacts = [], po_revoked_skills = []\<rparr>"

definition observed :: "scan_result \<Rightarrow> string \<Rightarrow> bool" where
  "observed s c \<longleftrightarrow> list_ex (\<lambda>ob. co_capability ob = c) (scan_observations s)"

definition found :: "scan_result \<Rightarrow> string \<Rightarrow> bool" where
  "found s r \<longleftrightarrow> list_ex (\<lambda>f. fi_rule_id f = r) (scan_findings s)"

definition shell_hook :: "scan_result \<Rightarrow> bool" where
  "shell_hook s \<longleftrightarrow> observed s ''hook.execute.command'' \<or> found s ''SKIL-AGENT-HOOK-001''"

definition remote_hook :: "scan_result \<Rightarrow> bool" where
  "remote_hook s \<longleftrightarrow> observed s ''hook.call.http'' \<or> found s ''SKIL-AGENT-HOOK-002''"

definition bypass_permission :: "scan_result \<Rightarrow> bool" where
  "bypass_permission s \<longleftrightarrow> observed s ''permission.bypass'' \<or> found s ''SKIL-AGENT-PERM-001''"

definition synthesized_execution :: "scan_result \<Rightarrow> agent_execution_policy" where
  "synthesized_execution s =
     \<lparr>ap_allow_hooks = Some (shell_hook s \<or> remote_hook s), ap_allow_shell_hooks = Some (shell_hook s),
      ap_allow_remote_hooks = Some (remote_hook s), ap_allow_permission_bypass = Some (bypass_permission s),
      ap_allowed_hook_events = [], ap_allowed_remote_domains = []\<rparr>"

definition synthesize_from_scan :: "scan_result \<Rightarrow> bool \<Rightarrow> policy" where
  "synthesize_from_scan s strict =
     (let p = zero_policy\<lparr>po_version := 1,
            po_maximum_severity := (if scan_maximum s = [] then ''HIGH'' else scan_maximum s),
            po_require_digest := True,
            po_required_analysis := map fst (filter (\<lambda>(d, state). state = CoverageCompleted) (scan_coverage s)),
            po_agent_execution := Some (synthesized_execution s)\<rparr> in
      if strict then p\<lparr>po_require_complete_closure := True, po_deny_opaque := True, po_deny_budget_exhausted := True\<rparr> else p)"

section \<open>Facts\<close>

record security_fact =
  sf_id :: string
  sf_kind :: string
  sf_subject :: string
  sf_state :: string
  sf_evidence_ids :: "string list"

definition fact_key :: "security_fact \<Rightarrow> string" where
  "fact_key f = join [sf_id f, sf_kind f, sf_subject f] nul"

definition canonical_facts :: "security_fact list \<Rightarrow> security_fact list" where
  "canonical_facts fs = sort_key fact_key (map (\<lambda>f. f\<lparr>sf_evidence_ids := sort_strings (sf_evidence_ids f)\<rparr>) fs)"

record enforcement_state =
  es_closure_incomplete :: bool
  es_identity_unresolved :: bool
  es_authorization_weakened :: bool
  es_unverified_child :: bool
  es_capability_escalation :: bool
  es_component_drift :: bool
  es_topology_drift :: bool
  es_assurance_stale :: bool
  es_runtime_violation :: bool
  es_budget_exhausted :: bool
  es_evidence_verified :: bool

definition enforcement_reasons :: "enforcement_state \<Rightarrow> string list" where
  "enforcement_reasons s =
     (if \<not> es_evidence_verified s then []
      else sort_strings (map snd (filter fst
        [(es_closure_incomplete s, ''required_closure_incomplete''), (es_identity_unresolved s, ''required_identity_unresolved''),
         (es_authorization_weakened s, ''authorization_weakened''), (es_unverified_child s, ''unverified_child_agent''),
         (es_capability_escalation s, ''transitive_capability_escalation''), (es_component_drift s, ''mutable_component_drift''),
         (es_topology_drift s, ''mcp_topology_drift''), (es_assurance_stale s, ''behavioral_assurance_stale''),
         (es_runtime_violation s, ''runtime_verified_violation''), (es_budget_exhausted s, ''required_analysis_budget_exhausted'')])))"

section \<open>Promotion\<close>

text \<open>The stages are strings in the code; any other string is an unknown stage.\<close>

datatype promotion_stage = Experimental | Shadow | Benchmarked | Enforce | UnknownStage string

record promotion_evidence =
  pm_recall :: float64
  pm_false_positive_rate :: float64
  pm_hard_negative_pass :: bool
  pm_deterministic :: bool
  pm_monotonic :: bool
  pm_benchmark_digest :: string

text \<open>The \<open>float64\<close> values of 0.95 and 0.05.\<close>

definition minimum_recall :: float64 where "minimum_recall = Finite (4278419646001971 / 4503599627370496)"
definition maximum_false_positives :: float64 where "maximum_false_positives = Finite (3602879701896397 / 72057594037927936)"

definition stable_benchmark :: "promotion_evidence \<Rightarrow> bool" where
  "stable_benchmark e \<longleftrightarrow> pm_benchmark_digest e \<noteq> [] \<and> pm_hard_negative_pass e \<and> pm_deterministic e \<and> pm_monotonic e"

definition meets_criteria :: "promotion_evidence \<Rightarrow> bool" where
  "meets_criteria e \<longleftrightarrow> stable_benchmark e \<and> \<not> f_less (pm_recall e) minimum_recall \<and>
     \<not> f_less maximum_false_positives (pm_false_positive_rate e)"

text \<open>The new stage, and whether there was an error.\<close>

fun promote :: "promotion_stage \<Rightarrow> promotion_evidence \<Rightarrow> promotion_stage \<times> bool" where
  "promote Experimental e = (Shadow, False)"
| "promote Shadow e = (if meets_criteria e then (Benchmarked, False) else (Shadow, True))"
| "promote Benchmarked e = (if stable_benchmark e then (Enforce, False) else (Benchmarked, True))"
| "promote Enforce e = (Enforce, False)"
| "promote (UnknownStage s) e = (UnknownStage s, True)"

section \<open>Properties\<close>

definition promotions :: "promotion_evidence list \<Rightarrow> promotion_stage \<Rightarrow> promotion_stage" where
  "promotions es st = foldl (\<lambda>s e. fst (promote s e)) st es"

definition justified :: "promotion_evidence list \<Rightarrow> promotion_stage \<Rightarrow> bool" where
  "justified es st = (case st of
      Experimental \<Rightarrow> es = []
    | Shadow \<Rightarrow> es \<noteq> []
    | Benchmarked \<Rightarrow> (\<exists>a x b. es = a @ x # b \<and> a \<noteq> [] \<and> meets_criteria x)
    | Enforce \<Rightarrow> (\<exists>a x b y c. es = a @ x # b @ y # c \<and> a \<noteq> [] \<and> meets_criteria x \<and> stable_benchmark y)
    | UnknownStage s \<Rightarrow> False)"

lemma promotions_justified: "justified es (promotions es Experimental)"
proof (induction es rule: rev_induct)
  case Nil
  then show ?case by (simp add: promotions_def justified_def)
next
  case (snoc e es)
  let ?s = "promotions es Experimental"
  have step: "promotions (es @ [e]) Experimental = fst (promote ?s e)" by (simp add: promotions_def)
  show ?case
  proof (cases ?s)
    case Shadow
    with snoc have "es \<noteq> []" by (simp add: justified_def)
    then have "meets_criteria e \<Longrightarrow> \<exists>a x b. es @ [e] = a @ x # b \<and> a \<noteq> [] \<and> meets_criteria x" by blast
    then show ?thesis unfolding step Shadow by (simp add: justified_def)
  next
    case Benchmarked
    with snoc obtain a x b where x: "es = a @ x # b" "a \<noteq> []" "meets_criteria x" by (auto simp: justified_def)
    then have "es @ [e] = a @ x # (b @ [e])" by simp
    moreover have "es @ [e] = a @ x # b @ e # []" using x by simp
    ultimately show ?thesis unfolding step Benchmarked using x by (simp add: justified_def) blast
  next
    case Enforce
    with snoc obtain a x b y c where x: "es = a @ x # b @ y # c" "a \<noteq> []" "meets_criteria x" "stable_benchmark y"
      by (auto simp: justified_def)
    then have "es @ [e] = a @ x # b @ y # (c @ [e])" by simp
    with x show ?thesis unfolding step Enforce by (simp add: justified_def) blast
  next
    case (UnknownStage s)
    with snoc show ?thesis by (simp add: justified_def)
  qed (use step in \<open>simp add: justified_def\<close>)
qed

text \<open>
  Every stage a policy reaches from EXPERIMENTAL is justified by the sequence of evidence it was promoted
  with: BENCHMARKED needs one that meets the criteria after the first, ENFORCE needs, after that, another
  with a stable benchmark.
\<close>

theorem promotion_is_justified: "justified es (promotions es Experimental)"
  by (rule promotions_justified)

definition mcp_hook_scan :: scan_result where
  "mcp_hook_scan = sample_scan\<lparr>scan_maximum := ''HIGH'', scan_findings := [zero_finding\<lparr>fi_rule_id := ''SKIL-AGENT-HOOK-003''\<rparr>]\<rparr>"

text \<open>
  The policy synthesized from a scan can deny that very scan: hooks found by the rule
  SKIL-AGENT-HOOK-003 are not taken into account in the synthesis, but prohibited by its result.
\<close>

theorem synthesized_policy_denies_its_scan:
  "agent_violations (synthesize_from_scan mcp_hook_scan strict) mcp_hook_scan \<noteq> [] \<and>
   pr_decision (check_policy env (synthesize_from_scan mcp_hook_scan strict) (i\<lparr>pi_scan := mcp_hook_scan\<rparr>)) = ''DENY''"
proof -
  have "po_agent_execution (synthesize_from_scan mcp_hook_scan strict) = Some (synthesized_execution mcp_hook_scan)"
    by (simp add: synthesize_from_scan_def Let_def)
  moreover have "ap_allow_hooks (synthesized_execution mcp_hook_scan) = Some False"
    by (simp add: synthesized_execution_def shell_hook_def remote_hook_def observed_def found_def mcp_hook_scan_def
        sample_scan_def zero_finding_def)
  ultimately have v: "agent_violations (synthesize_from_scan mcp_hook_scan strict) mcp_hook_scan \<noteq> []"
    by (simp add: agent_violations_def agent_finding_violations_def mcp_hook_scan_def zero_finding_def has_prefix_def)
  then have "all_violations env (synthesize_from_scan mcp_hook_scan strict) (i\<lparr>pi_scan := mcp_hook_scan\<rparr>) \<noteq> []"
    by (simp add: all_violations_def Let_def split: prod.split)
  with v show ?thesis by (simp add: check_policy_def Let_def)
qed

end
