(* ===== verification/Capability_Props.thy ===== *)
theory Capability_Props
  imports Capability_Verification
begin

text \<open>
  Properties of contract conformance: the status against its declarative meaning, inference only ever
  adds, the verdict does not feed back on itself, and what the matching lets through.
\<close>

section \<open>The status\<close>

text \<open>What the contract promises: everything observed is declared, and every observed value is allowed.\<close>

definition declared_covers :: "capabilities \<Rightarrow> observed_capabilities \<Rightarrow> bool" where
  "declared_covers c s \<longleftrightarrow>
     (oc_network_outbound s \<longrightarrow> net_outbound (cap_network c)) \<and>
     (oc_commands_execute s \<longrightarrow> cmd_execute (cap_commands c)) \<and>
     (oc_filesystem_write s \<longrightarrow> fs_write (cap_filesystem c) \<noteq> []) \<and>
     (oc_filesystem_delete s \<longrightarrow> fs_delete (cap_filesystem c) \<noteq> []) \<and>
     (oc_secrets_read s \<longrightarrow> sec_read (cap_secrets c) \<noteq> []) \<and>
     (oc_persistence s \<longrightarrow> cap_persistence c) \<and>
     (oc_external_side_effects s \<longrightarrow> ag_external_side_effects (cap_agent c))"

definition values_allowed :: "capabilities \<Rightarrow> observed_capabilities \<Rightarrow> bool" where
  "values_allowed c s \<longleftrightarrow>
     (\<forall>v \<in> set (oc_network_hosts s). match_host v (net_hosts (cap_network c))) \<and>
     (\<forall>v \<in> set (oc_commands s). match_command v (cmd_allow (cap_commands c))) \<and>
     (\<forall>v \<in> set (oc_filesystem_paths s). match_path v (fs_write (cap_filesystem c))) \<and>
     set (oc_secrets s) \<subseteq> set (sec_read (cap_secrets c)) \<and>
     set (oc_tools s) \<subseteq> set (tool_allow (cap_tools c)) \<and>
     set (oc_mcp_tools s) \<subseteq> set (mcp_tools (cap_mcp c))"

definition all_used :: "capabilities \<Rightarrow> observed_capabilities \<Rightarrow> bool" where
  "all_used c s \<longleftrightarrow>
     (net_outbound (cap_network c) \<longrightarrow> oc_network_outbound s) \<and>
     (cmd_execute (cap_commands c) \<longrightarrow> oc_commands_execute s) \<and>
     (fs_write (cap_filesystem c) \<noteq> [] \<longrightarrow> oc_filesystem_write s) \<and>
     (fs_delete (cap_filesystem c) \<noteq> [] \<longrightarrow> oc_filesystem_delete s) \<and>
     (sec_read (cap_secrets c) \<noteq> [] \<longrightarrow> oc_secrets_read s) \<and>
     (cap_persistence c \<longrightarrow> oc_persistence s) \<and>
     (ag_external_side_effects (cap_agent c) \<longrightarrow> oc_external_side_effects s) \<and>
     (fs_read (cap_filesystem c) \<noteq> [] \<longrightarrow> oc_filesystem_read s) \<and>
     (cap_environment_read c \<noteq> [] \<longrightarrow> oc_environment_read s)"

definition grave :: "mismatch \<Rightarrow> bool" where
  "grave m \<longleftrightarrow> mm_kind m = underdeclared \<or> mm_kind m = outside_allowlist"

lemma status_distinct: "StatusPass \<noteq> StatusWarn" "StatusPass \<noteq> StatusFail" "StatusWarn \<noteq> StatusFail"
  by (simp_all add: status_defs)

lemma mismatch_status_warn: "mismatch_status ms StatusWarn = (if list_ex grave ms then StatusFail else StatusWarn)"
  by (induction ms) (auto simp: grave_def status_distinct [symmetric])

lemma mismatch_status_pass:
  "mismatch_status ms StatusPass = (if list_ex grave ms then StatusFail else if ms = [] then StatusPass else StatusWarn)"
  by (cases ms) (auto simp: grave_def mismatch_status_warn)

lemma grave_declared: "list_ex grave (check_declared fs n d a sv rs) \<longleftrightarrow> a \<and> \<not> d"
  by (simp add: check_declared_def grave_def)

lemma grave_values: "list_ex grave (check_values n vs al f) \<longleftrightarrow> (\<exists>v \<in> set vs. \<not> f v al)"
  by (auto simp: check_values_def grave_def list_ex_iff)

lemma grave_overdeclared: "\<not> list_ex grave (check_overdeclared n d a)"
  by (simp add: check_overdeclared_def grave_def kind_defs)

lemma match_exact_iff: "match_exact v al \<longleftrightarrow> v \<in> set al"
  by (auto simp: match_exact_def list_ex_iff)

lemma list_ex_append_iff: "list_ex P (xs @ ys) \<longleftrightarrow> list_ex P xs \<or> list_ex P ys"
  by (induction xs) auto

lemma grave_underdeclared: "list_ex grave (underdeclared_mismatches fs c s) \<longleftrightarrow> \<not> declared_covers c s"
  unfolding underdeclared_mismatches_def declared_covers_def list_ex_append_iff grave_declared by blast

lemma grave_allowlist: "list_ex grave (allowlist_mismatches c s) \<longleftrightarrow> \<not> values_allowed c s"
  unfolding allowlist_mismatches_def values_allowed_def list_ex_append_iff grave_values match_exact_iff by blast

lemma grave_unused: "\<not> list_ex grave (overdeclared_mismatches c s)"
  unfolding overdeclared_mismatches_def list_ex_append_iff using grave_overdeclared by simp

lemma unused_empty: "overdeclared_mismatches c s = [] \<longleftrightarrow> all_used c s"
  unfolding overdeclared_mismatches_def all_used_def check_overdeclared_def by auto

lemma no_underdeclared: "declared_covers c s \<Longrightarrow> underdeclared_mismatches fs c s = []"
  unfolding underdeclared_mismatches_def declared_covers_def check_declared_def by simp

lemma no_disallowed: "values_allowed c s \<Longrightarrow> allowlist_mismatches c s = []"
  unfolding allowlist_mismatches_def values_allowed_def check_values_def
  by (auto simp: match_exact_iff filter_empty_conv)

lemma status_by_spec:
  "vr_status (verify_contract parse k fs obs) =
    (let c = sc_capabilities k; s = infer parse fs obs in
     if \<not> (declared_covers c s \<and> values_allowed c s) then StatusFail
     else if all_used c s then StatusPass else StatusWarn)"
proof -
  define c s where "c = sc_capabilities k" and "s = infer parse fs obs"
  define u al ov where "u = underdeclared_mismatches fs c s" and "al = allowlist_mismatches c s"
    and "ov = overdeclared_mismatches c s"
  have st: "vr_status (verify_contract parse k fs obs) = mismatch_status (u @ al @ ov) StatusPass"
    by (simp add: verify_contract_def Let_def c_def s_def u_def al_def ov_def)
  have g: "list_ex grave (u @ al @ ov) \<longleftrightarrow> \<not> (declared_covers c s \<and> values_allowed c s)"
    unfolding list_ex_append_iff u_def al_def ov_def grave_underdeclared grave_allowlist using grave_unused by blast
  have o': "ov = [] \<longleftrightarrow> all_used c s" unfolding ov_def by (rule unused_empty)
  show ?thesis
  proof (cases "declared_covers c s \<and> values_allowed c s")
    case True
    then have "u = []" "al = []"
      unfolding u_def al_def by (simp_all add: no_underdeclared no_disallowed)
    then have e: "(u @ al @ ov = []) = all_used c s" using o' by simp
    show ?thesis
      unfolding st mismatch_status_pass g e Let_def c_def [symmetric] s_def [symmetric] using True by (simp only: simp_thms if_True if_False)
  next
    case False
    then show ?thesis
      unfolding st mismatch_status_pass g Let_def c_def [symmetric] s_def [symmetric] by (simp only: simp_thms if_True)
  qed
qed

section \<open>One observation, one finding\<close>

text \<open>
  What the contract has to say about a capability by its name.  Reading files and environment
  variables are not among the names: no declaration is asked for them.
\<close>

definition declares :: "capabilities \<Rightarrow> string \<Rightarrow> bool" where
  "declares c k \<longleftrightarrow>
     (k = ''network.outbound'' \<longrightarrow> net_outbound (cap_network c)) \<and>
     (k = ''commands.execute'' \<longrightarrow> cmd_execute (cap_commands c)) \<and>
     (k = ''filesystem.write'' \<longrightarrow> fs_write (cap_filesystem c) \<noteq> []) \<and>
     (k = ''filesystem.delete'' \<longrightarrow> fs_delete (cap_filesystem c) \<noteq> []) \<and>
     (k = ''secrets.read'' \<longrightarrow> sec_read (cap_secrets c) \<noteq> []) \<and>
     (k = ''persistence'' \<longrightarrow> cap_persistence c) \<and>
     (k = ''external.side_effect'' \<longrightarrow> ag_external_side_effects (cap_agent c))"

text \<open>A value counts when it is not blank.\<close>

definition permits :: "(string \<Rightarrow> bool) \<Rightarrow> string \<Rightarrow> bool" where
  "permits P v \<longleftrightarrow> trim_space v = [] \<or> P v"

definition host_ok :: "capabilities \<Rightarrow> string \<Rightarrow> bool" where
  "host_ok c = permits (\<lambda>v. match_host v (net_hosts (cap_network c)))"

definition command_ok :: "capabilities \<Rightarrow> string \<Rightarrow> bool" where
  "command_ok c = permits (\<lambda>v. match_command v (cmd_allow (cap_commands c)))"

text \<open>Every path, a read one too, is held against the grants for writing.\<close>

definition path_ok :: "capabilities \<Rightarrow> string \<Rightarrow> bool" where
  "path_ok c = permits (\<lambda>v. match_path v (fs_write (cap_filesystem c)))"

definition secret_ok :: "capabilities \<Rightarrow> string \<Rightarrow> bool" where
  "secret_ok c = permits (\<lambda>v. v \<in> set (sec_read (cap_secrets c)))"

definition tool_ok :: "capabilities \<Rightarrow> string \<Rightarrow> bool" where
  "tool_ok c = permits (\<lambda>v. v \<in> set (tool_allow (cap_tools c)))"

definition mcp_tool_ok :: "capabilities \<Rightarrow> string \<Rightarrow> bool" where
  "mcp_tool_ok c = permits (\<lambda>v. v \<in> set (mcp_tools (cap_mcp c)))"

lemmas value_ok_defs = host_ok_def command_ok_def path_ok_def secret_ok_def tool_ok_def mcp_tool_ok_def permits_def

text \<open>The capability an observation is about: hooks and permissions stand for the capability they use.\<close>

definition observed_capability :: "string \<Rightarrow> string" where
  "observed_capability k =
     (if k \<in> {''network.outbound'', ''permission.network'', ''hook.call.http''} then ''network.outbound''
      else if k \<in> {''commands.execute'', ''permission.shell'', ''hook.execute.command''} then ''commands.execute''
      else if k \<in> {''filesystem.write'', ''permission.filesystem.write''} then ''filesystem.write''
      else if k = ''filesystem.delete'' then ''filesystem.delete''
      else if k = ''secrets.read'' then ''secrets.read''
      else if k = ''persistence'' then ''persistence''
      else if k = ''external.side_effect'' then ''external.side_effect''
      else [])"

text \<open>The value an observation shows is on the list for it.\<close>

definition value_granted :: "hostname_parser \<Rightarrow> capabilities \<Rightarrow> string \<Rightarrow> string \<Rightarrow> bool" where
  "value_granted parse c k v =
     (if k = ''network.outbound'' then host_ok c v
      else if k = ''permission.network'' then host_ok c (trim_prefix v ''domain:'')
      else if k = ''hook.call.http'' then host_ok c (observation_host parse v)
      else if k \<in> {''commands.execute'', ''permission.shell'', ''hook.execute.command''} then command_ok c v
      else if k \<in> {''filesystem.write'', ''filesystem.read'', ''permission.filesystem.write'', ''permission.filesystem.read''}
        then path_ok c v
      else if k = ''secrets.read'' then secret_ok c v
      else if k = ''permission.tools'' then tool_ok c v
      else if k = ''hook.call.mcp'' then mcp_tool_ok c v
      else True)"

text \<open>The contract grants what one observation shows.\<close>

definition observation_granted :: "hostname_parser \<Rightarrow> capabilities \<Rightarrow> capability_observation \<Rightarrow> bool" where
  "observation_granted parse c ob \<longleftrightarrow>
     declares c (observed_capability (co_capability ob)) \<and> value_granted parse c (co_capability ob) (co_value ob)"

text \<open>The capability a rule stands for.\<close>

definition rule_capability :: "string \<Rightarrow> string" where
  "rule_capability r =
     (if r = ''SKIL-NET-001'' \<or> r = ''SKIL-SH-001'' \<or> contains_sub r ''TAINT-NETWORK'' then ''network.outbound''
      else if r = ''SKIL-FS-001'' \<or> contains_sub r ''TAINT-FILESYSTEM'' then ''filesystem.write''
      else if r = ''SKIL-SH-003'' then ''filesystem.delete''
      else if r = ''SKIL-PY-001'' \<or> r = ''SKIL-PY-002'' \<or> has_prefix r ''SKIL-SH-'' \<or> r = ''SKIL-JS-001'' \<or>
        contains_sub r ''TAINT-EXECUTION'' then ''commands.execute''
      else if r = ''SKIL-SEC-001'' then ''secrets.read''
      else if r = ''SKIL-PERSISTENCE-STARTUP'' then ''persistence''
      else [])"

definition evidence_ok :: "evidence_map \<Rightarrow> string \<Rightarrow> (string \<Rightarrow> bool) \<Rightarrow> bool" where
  "evidence_ok ev key P = (case ev key of Some (JStr v) \<Rightarrow> P v | _ \<Rightarrow> True)"

text \<open>The contract grants what one finding shows: the capability it names, the one of its rule, and its values.\<close>

definition finding_granted :: "capabilities \<Rightarrow> finding \<Rightarrow> bool" where
  "finding_granted c f \<longleftrightarrow> fi_rule_id f = capability_mismatch_rule \<or>
     declares c (evidence_capability f) \<and> declares c (rule_capability (fi_rule_id f)) \<and>
     (has_prefix (fi_rule_id f) ''SKIL-EX-'' \<or> contains_sub (fi_rule_id f) ''TAINT-NETWORK'' \<longrightarrow> declares c ''external.side_effect'') \<and>
     evidence_ok (fi_evidence f) ''network_host'' (host_ok c) \<and> evidence_ok (fi_evidence f) ''command'' (command_ok c) \<and>
     evidence_ok (fi_evidence f) ''filesystem_path'' (path_ok c) \<and> evidence_ok (fi_evidence f) ''secret'' (secret_ok c) \<and>
     evidence_ok (fi_evidence f) ''tool'' (tool_ok c) \<and> evidence_ok (fi_evidence f) ''mcp_tool'' (mcp_tool_ok c)"

section \<open>The status from the observations and findings, one by one\<close>

definition fits :: "capabilities \<Rightarrow> observed_capabilities \<Rightarrow> bool" where
  "fits c s \<longleftrightarrow> declared_covers c s \<and> values_allowed c s"

lemmas fits_defs = fits_def declared_covers_def values_allowed_def

lemma ball_append_evidence: "(\<forall>x \<in> set (append_evidence_value v t). P x) \<longleftrightarrow> permits P v \<and> (\<forall>x \<in> set t. P x)"
  by (auto simp: append_evidence_value_def permits_def)

lemma subset_append_evidence: "set (append_evidence_value v t) \<subseteq> A \<longleftrightarrow> permits (\<lambda>x. x \<in> A) v \<and> set t \<subseteq> A"
  by (auto simp: append_evidence_value_def permits_def)

lemma ball_append_string:
  "(\<forall>x \<in> set (append_evidence_string ev k t). P x) \<longleftrightarrow> evidence_ok ev k (permits P) \<and> (\<forall>x \<in> set t. P x)"
  by (simp add: append_evidence_string_def evidence_ok_def ball_append_evidence split: option.split json.split)

lemma subset_append_string:
  "set (append_evidence_string ev k t) \<subseteq> A \<longleftrightarrow> evidence_ok ev k (permits (\<lambda>x. x \<in> A)) \<and> set t \<subseteq> A"
  by (simp add: append_evidence_string_def evidence_ok_def subset_append_evidence split: option.split json.split)

lemma fits_values: "fits c (finding_values ev s) \<longleftrightarrow> fits c s \<and>
     evidence_ok ev ''network_host'' (host_ok c) \<and> evidence_ok ev ''command'' (command_ok c) \<and>
     evidence_ok ev ''filesystem_path'' (path_ok c) \<and> evidence_ok ev ''secret'' (secret_ok c) \<and>
     evidence_ok ev ''tool'' (tool_ok c) \<and> evidence_ok ev ''mcp_tool'' (mcp_tool_ok c)"
proof -
  have "declared_covers c (finding_values ev s) = declared_covers c s"
    by (simp add: declared_covers_def finding_values_def)
  then show ?thesis
    unfolding fits_def values_allowed_def host_ok_def command_ok_def path_ok_def secret_ok_def tool_ok_def mcp_tool_ok_def
    by (simp add: finding_values_def ball_append_string subset_append_string) blast
qed

lemma fits_flags:
  "fits c (s\<lparr>oc_network_outbound := True\<rparr>) \<longleftrightarrow> declares c ''network.outbound'' \<and> fits c s"
  "fits c (s\<lparr>oc_commands_execute := True\<rparr>) \<longleftrightarrow> declares c ''commands.execute'' \<and> fits c s"
  "fits c (s\<lparr>oc_filesystem_write := True\<rparr>) \<longleftrightarrow> declares c ''filesystem.write'' \<and> fits c s"
  "fits c (s\<lparr>oc_filesystem_delete := True\<rparr>) \<longleftrightarrow> declares c ''filesystem.delete'' \<and> fits c s"
  "fits c (s\<lparr>oc_secrets_read := True\<rparr>) \<longleftrightarrow> declares c ''secrets.read'' \<and> fits c s"
  "fits c (s\<lparr>oc_persistence := True\<rparr>) \<longleftrightarrow> declares c ''persistence'' \<and> fits c s"
  "fits c (s\<lparr>oc_external_side_effects := True\<rparr>) \<longleftrightarrow> declares c ''external.side_effect'' \<and> fits c s"
  "fits c (s\<lparr>oc_filesystem_read := True\<rparr>) \<longleftrightarrow> fits c s"
  "fits c (s\<lparr>oc_environment_read := True\<rparr>) \<longleftrightarrow> fits c s"
  by (auto simp: fits_defs declares_def)

lemma covers_value_lists [simp]:
  "declared_covers c (s\<lparr>oc_network_hosts := xs\<rparr>) = declared_covers c s"
  "declared_covers c (s\<lparr>oc_commands := xs\<rparr>) = declared_covers c s"
  "declared_covers c (s\<lparr>oc_filesystem_paths := xs\<rparr>) = declared_covers c s"
  "declared_covers c (s\<lparr>oc_secrets := xs\<rparr>) = declared_covers c s"
  "declared_covers c (s\<lparr>oc_environment := xs\<rparr>) = declared_covers c s"
  "declared_covers c (s\<lparr>oc_tools := xs\<rparr>) = declared_covers c s"
  "declared_covers c (s\<lparr>oc_mcp_tools := xs\<rparr>) = declared_covers c s"
  by (simp_all add: declared_covers_def)

lemma fits_hosts: "fits c (s\<lparr>oc_network_hosts := append_evidence_value v (oc_network_hosts s)\<rparr>) \<longleftrightarrow> host_ok c v \<and> fits c s"
  by (simp add: fits_def values_allowed_def host_ok_def ball_append_evidence conj_ac)

lemma fits_commands: "fits c (s\<lparr>oc_commands := append_evidence_value v (oc_commands s)\<rparr>) \<longleftrightarrow> command_ok c v \<and> fits c s"
  by (simp add: fits_def values_allowed_def command_ok_def ball_append_evidence conj_ac)

lemma fits_paths: "fits c (s\<lparr>oc_filesystem_paths := append_evidence_value v (oc_filesystem_paths s)\<rparr>) \<longleftrightarrow> path_ok c v \<and> fits c s"
  by (simp add: fits_def values_allowed_def path_ok_def ball_append_evidence conj_ac)

lemma fits_secrets: "fits c (s\<lparr>oc_secrets := append_evidence_value v (oc_secrets s)\<rparr>) \<longleftrightarrow> secret_ok c v \<and> fits c s"
  by (simp add: fits_def values_allowed_def secret_ok_def subset_append_evidence conj_ac)

lemma fits_tools: "fits c (s\<lparr>oc_tools := append_evidence_value v (oc_tools s)\<rparr>) \<longleftrightarrow> tool_ok c v \<and> fits c s"
  by (simp add: fits_def values_allowed_def tool_ok_def subset_append_evidence conj_ac)

lemma fits_mcp_tools: "fits c (s\<lparr>oc_mcp_tools := append_evidence_value v (oc_mcp_tools s)\<rparr>) \<longleftrightarrow> mcp_tool_ok c v \<and> fits c s"
  by (simp add: fits_def values_allowed_def mcp_tool_ok_def subset_append_evidence conj_ac)

lemma fits_environment: "fits c (s\<lparr>oc_environment := es\<rparr>) \<longleftrightarrow> True \<and> fits c s"
  by (simp add: fits_def values_allowed_def)

lemmas fits_value_lists = fits_hosts fits_commands fits_paths fits_secrets fits_tools fits_mcp_tools fits_environment

lemma fits_sort: "fits c (sort_observed s) = fits c s"
  by (simp add: fits_defs sort_observed_def)

lemma fits_zero: "fits c zero_observed"
  by (simp add: fits_defs zero_observed_def)

lemma fits_side_effect: "fits c (finding_side_effect r s) \<longleftrightarrow>
    (has_prefix r ''SKIL-EX-'' \<or> contains_sub r ''TAINT-NETWORK'' \<longrightarrow> declares c ''external.side_effect'') \<and> fits c s"
  by (cases "has_prefix r ''SKIL-EX-'' \<or> contains_sub r ''TAINT-NETWORK''") (auto simp: finding_side_effect_def fits_flags)

lemma declares_none: "declares c []"
  by (simp add: declares_def)

lemma fits_choice: "fits c x = (declares c k \<and> fits c s) \<Longrightarrow> fits c y = (declares c k' \<and> fits c s) \<Longrightarrow>
    fits c (if b then x else y) = (declares c (if b then k else k') \<and> fits c s)"
  by simp

lemma fits_nothing: "fits c s = (declares c [] \<and> fits c s)"
  by (simp add: declares_none)

lemma fits_rule: "fits c (finding_rule r s) = (declares c (rule_capability r) \<and> fits c s)"
  unfolding finding_rule_def rule_capability_def
  by (rule fits_choice fits_flags(1-7) fits_nothing)+

lemma fits_case: "(k = l \<Longrightarrow> fits c x = (declares c k \<and> fits c s)) \<Longrightarrow> (k \<noteq> l \<Longrightarrow> fits c y = (declares c k \<and> fits c s)) \<Longrightarrow>
    fits c (if k = l then x else y) = (declares c k \<and> fits c s)"
  by simp

lemma fits_capability: "fits c (finding_capability k s) = (declares c k \<and> fits c s)"
proof -
  have other: "fits c s = (declares c k \<and> fits c s)"
    if "k \<noteq> ''network.outbound''" "k \<noteq> ''commands.execute''" "k \<noteq> ''filesystem.write''" "k \<noteq> ''filesystem.delete''"
      "k \<noteq> ''secrets.read''" "k \<noteq> ''persistence''" "k \<noteq> ''external.side_effect''"
    using that by (simp only: declares_def simp_thms)
  show ?thesis unfolding finding_capability_def
    by (intro fits_case other; (assumption | simp only: fits_flags))
qed

lemma fits_finding: "fits c (infer_finding f s) \<longleftrightarrow> finding_granted c f \<and> fits c s"
proof (cases "fi_rule_id f = capability_mismatch_rule")
  case True
  then show ?thesis by (simp add: infer_finding_def finding_granted_def)
next
  case False
  then show ?thesis
    unfolding infer_finding_def finding_granted_def if_not_P [OF False] fits_values fits_side_effect fits_rule fits_capability
    by blast
qed

lemma fits_flag: "fits c (observe_flag k s) = (declares c (observed_capability k) \<and> fits c s)"
proof -
  have reads: "fits c (if k \<in> {''filesystem.read'', ''permission.filesystem.read''} then s\<lparr>oc_filesystem_read := True\<rparr>
      else if k = ''environment.read'' then s\<lparr>oc_environment_read := True\<rparr> else s) = (declares c [] \<and> fits c s)"
    by (simp add: fits_flags declares_none)
  show ?thesis unfolding observe_flag_def observed_capability_def
    by (rule fits_choice fits_flags(1-7) reads)+
qed

lemma fits_value_choice: "fits c x = (P \<and> fits c s) \<Longrightarrow> fits c y = (Q \<and> fits c s) \<Longrightarrow>
    fits c (if b then x else y) = ((if b then P else Q) \<and> fits c s)"
  by simp

lemma fits_value: "fits c (observe_value parse k v s) = (value_granted parse c k v \<and> fits c s)"
proof -
  have rest: "fits c (if k = ''environment.read'' then s\<lparr>oc_environment := append_evidence_value v (oc_environment s)\<rparr>
      else if k = ''permission.tools'' then s\<lparr>oc_tools := append_evidence_value v (oc_tools s)\<rparr>
      else if k = ''hook.call.mcp'' then s\<lparr>oc_mcp_tools := append_evidence_value v (oc_mcp_tools s)\<rparr> else s) =
    ((if k = ''permission.tools'' then tool_ok c v else if k = ''hook.call.mcp'' then mcp_tool_ok c v else True) \<and> fits c s)"
    by (simp add: fits_value_lists)
  show ?thesis unfolding observe_value_def value_granted_def
    by (rule rest fits_value_choice fits_hosts fits_commands fits_paths fits_secrets)+
qed

lemma fits_observe: "fits c (observe parse ob s) \<longleftrightarrow> observation_granted parse c ob \<and> fits c s"
  unfolding observe_def observation_granted_def fits_value fits_flag by blast

lemma fits_observations: "fits c (fold (observe parse) obs s) \<longleftrightarrow> (\<forall>ob \<in> set obs. observation_granted parse c ob) \<and> fits c s"
  by (induction obs arbitrary: s) (auto simp: fits_observe)

lemma fits_findings: "fits c (fold infer_finding fs s) \<longleftrightarrow> (\<forall>f \<in> set fs. finding_granted c f) \<and> fits c s"
  by (induction fs arbitrary: s) (auto simp: fits_finding)

lemma fits_infer: "fits c (infer parse fs obs) \<longleftrightarrow>
    (\<forall>ob \<in> set obs. observation_granted parse c ob) \<and> (\<forall>f \<in> set fs. finding_granted c f)"
  unfolding infer_def fits_sort fits_findings fits_observations by (auto simp: fits_zero)


section \<open>Inference\<close>

text \<open>The order on observations: flags and values only grow.\<close>

definition observed_le :: "observed_capabilities \<Rightarrow> observed_capabilities \<Rightarrow> bool" where
  "observed_le s t \<longleftrightarrow>
     (oc_filesystem_read s \<longrightarrow> oc_filesystem_read t) \<and> (oc_filesystem_write s \<longrightarrow> oc_filesystem_write t) \<and>
     (oc_filesystem_delete s \<longrightarrow> oc_filesystem_delete t) \<and> (oc_network_outbound s \<longrightarrow> oc_network_outbound t) \<and>
     (oc_commands_execute s \<longrightarrow> oc_commands_execute t) \<and> (oc_secrets_read s \<longrightarrow> oc_secrets_read t) \<and>
     (oc_persistence s \<longrightarrow> oc_persistence t) \<and> (oc_external_side_effects s \<longrightarrow> oc_external_side_effects t) \<and>
     (oc_environment_read s \<longrightarrow> oc_environment_read t) \<and>
     set (oc_filesystem_paths s) \<subseteq> set (oc_filesystem_paths t) \<and> set (oc_network_hosts s) \<subseteq> set (oc_network_hosts t) \<and>
     set (oc_commands s) \<subseteq> set (oc_commands t) \<and> set (oc_secrets s) \<subseteq> set (oc_secrets t) \<and>
     set (oc_environment s) \<subseteq> set (oc_environment t) \<and> set (oc_tools s) \<subseteq> set (oc_tools t) \<and>
     set (oc_mcp_servers s) \<subseteq> set (oc_mcp_servers t) \<and> set (oc_mcp_tools s) \<subseteq> set (oc_mcp_tools t)"

lemma observed_le_refl: "observed_le s s"
  by (simp add: observed_le_def)

lemma observed_le_trans: "observed_le s t \<Longrightarrow> observed_le t u \<Longrightarrow> observed_le s u"
  unfolding observed_le_def by (elim conjE, intro conjI impI; (erule (1) subset_trans | simp))

lemma append_evidence_subset: "set t \<subseteq> set (append_evidence_value v t)" "set t \<subseteq> set (append_evidence_string ev k t)"
proof -
  show *: "set t \<subseteq> set (append_evidence_value v t)" for v by (auto simp: append_evidence_value_def)
  show "set t \<subseteq> set (append_evidence_string ev k t)"
    using * by (simp add: append_evidence_string_def split: option.split json.split)
qed

lemma finding_capability_le: "observed_le s (finding_capability c s)"
  by (simp add: finding_capability_def observed_le_def)

lemma finding_rule_le: "observed_le s (finding_rule r s)"
  by (simp add: finding_rule_def observed_le_def)

lemma finding_side_effect_le: "observed_le s (finding_side_effect r s)"
  by (simp add: finding_side_effect_def observed_le_def)

lemma finding_values_le: "observed_le s (finding_values ev s)"
  by (simp add: finding_values_def observed_le_def append_evidence_subset)

lemma infer_finding_le: "observed_le s (infer_finding f s)"
proof (cases "fi_rule_id f = capability_mismatch_rule")
  case False
  show ?thesis
    unfolding infer_finding_def if_not_P [OF False]
    by (rule observed_le_trans [OF finding_capability_le observed_le_trans [OF finding_rule_le
          observed_le_trans [OF finding_side_effect_le finding_values_le]]])
qed (simp add: infer_finding_def observed_le_refl)

lemma fold_infer_le: "observed_le s (fold infer_finding fs s)"
proof (induction fs arbitrary: s)
  case Nil
  then show ?case by (simp add: observed_le_refl)
next
  case (Cons f fs)
  show ?case using observed_le_trans [OF infer_finding_le Cons.IH] by simp
qed

lemma sort_observed_le: "observed_le s t \<Longrightarrow> observed_le (sort_observed s) (sort_observed t)"
  by (simp add: observed_le_def sort_observed_def)

text \<open>
  Findings only ever add to what was observed: nothing an observation or an earlier finding
  reported is lost when further findings are taken into account.
\<close>

theorem findings_only_add: "observed_le (infer parse fs obs) (infer parse (fs @ gs) obs)"
  unfolding infer_def by (simp add: sort_observed_le fold_infer_le)

section \<open>No feedback\<close>

lemma rule_of_finding: "f \<in> set (findings_of cr r a) \<Longrightarrow> fi_rule_id f = capability_mismatch_rule"
  by (auto simp: findings_of_def mismatch_finding_def Let_def)

lemma fold_infer_skip: "\<forall>f \<in> set fs. fi_rule_id f = capability_mismatch_rule \<Longrightarrow> fold infer_finding fs s = s"
  by (induction fs) (auto simp: infer_finding_def)

lemma infer_skip: "infer parse (fs @ findings_of cr r a) obs = infer parse fs obs"
proof -
  have "fold infer_finding (findings_of cr r a) s = s" for s
    by (rule fold_infer_skip) (use rule_of_finding in blast)
  then show ?thesis by (simp add: infer_def)
qed

lemma matching_skip:
  assumes "list_all (\<lambda>p. \<not> has_prefix capability_mismatch_rule p) ps"
  shows "matching (fs @ findings_of cr r a) ps = matching fs ps"
proof -
  have "filter (\<lambda>f. list_ex (has_prefix (fi_rule_id f)) ps) (findings_of cr r a) = []"
    using assms rule_of_finding [of _ cr r a] by (fastforce simp: filter_empty_conv list_all_iff list_ex_iff)
  then show ?thesis by (simp add: matching_def)
qed

lemma check_declared_skip:
  "list_all (\<lambda>p. \<not> has_prefix capability_mismatch_rule p) rs \<Longrightarrow>
   check_declared (fs @ findings_of cr r a) n d x sv rs = check_declared fs n d x sv rs"
  by (simp add: check_declared_def matching_skip)

text \<open>
  Verification is stable under its own output: the findings a verification produces change nothing
  when they are part of the findings of the next one.
\<close>

theorem verification_ignores_its_findings:
  "verify_contract parse k (fs @ findings_of cr r a) obs = verify_contract parse k fs obs"
proof -
  have "underdeclared_mismatches (fs @ findings_of cr r a) c s = underdeclared_mismatches fs c s" for c s
    unfolding underdeclared_mismatches_def
    by (subst check_declared_skip, simp add: capability_mismatch_rule_def has_prefix_def)+ (rule refl)
  then show ?thesis by (simp add: verify_contract_def infer_skip)
qed

section \<open>What matching lets through\<close>

lemma space_head_space: "space_head (CHR '' '' # s) = 1"
proof -
  have "take 6 space_runes = [[CHR 0x09], [CHR 0x0A], [CHR 0x0B], [CHR 0x0C], [CHR 0x0D], [CHR '' '']]" by code_simp
  then obtain rest where r: "space_runes = [CHR 0x09] # [CHR 0x0A] # [CHR 0x0B] # [CHR 0x0C] # [CHR 0x0D] # [CHR '' ''] # rest"
    using append_take_drop_id [of 6 space_runes] by (metis append_Cons append_Nil)
  have "find (has_prefix (CHR '' '' # s)) space_runes = Some [CHR '' '']"
    unfolding r by (simp add: has_prefix_def)
  then show ?thesis by (simp add: space_head_def)
qed

lemma fields_word:
  "list_all plain_edge w \<Longrightarrow> str_fields_aux (w @ s) 0 cur = str_fields_aux s 0 (rev w @ cur)"
proof (induction w arbitrary: cur)
  case (Cons c w)
  then have "space_head (c # w @ s) = 0" by (intro space_head_plain) simp
  with Cons show ?case by simp
qed simp

lemma fields_two:
  assumes "list_all plain_edge w" and "w \<noteq> []"
  shows "str_fields (w @ CHR '' '' # s) = w # str_fields_aux s 0 []"
  using assms fields_word [of w "CHR '' '' # s" "[]"] by (simp add: str_fields_def space_head_space)

text \<open>
  An allowed command of two words is a text prefix: whatever follows it, in the same word or after a
  separator, is allowed as well.
\<close>

theorem command_allowlist_is_prefix:
  assumes "list_all plain_edge w" and "w \<noteq> []" and "list_all plain_edge v" and "v \<noteq> []"
    and "w @ '' '' @ v \<in> set allowed"
  shows "match_command (w @ '' '' @ v @ x) allowed"
proof -
  have "str_fields_aux v 0 [] = [v]" using fields_word [OF assms(3), of "[]" "[]"] assms(4) by simp
  then have item: "str_fields (w @ '' '' @ v) = [w, v]" using fields_two [OF assms(1,2), of v] by simp
  have first: "str_fields (w @ '' '' @ v @ x) = w # str_fields_aux (v @ x) 0 []"
    using fields_two [OF assms(1,2), of "v @ x"] by simp
  have pre: "has_prefix (w @ '' '' @ v @ x) (w @ '' '' @ v)"
    using has_prefix_append [of "w @ '' '' @ v" x] by simp
  have "case str_fields (w @ '' '' @ v) of [] \<Rightarrow> False
      | g # gs \<Rightarrow> w = g \<and> (gs = [] \<or> has_prefix (w @ '' '' @ v @ x) (w @ '' '' @ v))"
    unfolding item using pre by simp
  then show ?thesis
    unfolding match_command_def first list.case list_ex_iff by (rule bexI [OF _ assms(5)])
qed

lemma command_allowlist_is_prefix_witness: "match_command ''git status; rm -rf /'' [''git status'']"
  using command_allowlist_is_prefix [of "''git''" "''status''" "[''git status'']" "''; rm -rf /''"]
  by (simp add: plain_edge_def ascii_space_def)

section \<open>Reads\<close>

definition read_contract :: skill_contract where
  "read_contract = zero_contract\<lparr>sc_capabilities :=
     zero_capabilities\<lparr>cap_filesystem := \<lparr>fs_read = [''data/**''], fs_write = [], fs_delete = []\<rparr>\<rparr>\<rparr>"

definition observation :: "string \<Rightarrow> string \<Rightarrow> capability_observation" where
  "observation c v = \<lparr>co_capability = c, co_value = v, co_location = no_location, co_analyzer = [], co_evidence = Map.empty\<rparr>"

text \<open>
  Observed reads are judged by the grants for writing, and undeclared reads of the environment are not
  judged at all: a contract that declares reading \<open>data/**\<close> fails when a read of \<open>data/x\<close> is observed, and
  the contract that declares nothing passes when a read of the variable \<open>HOME\<close> is observed.
\<close>

theorem reads_are_misjudged:
  "vr_status (verify_contract parse read_contract [] [observation ''filesystem.read'' ''data/x'']) = StatusFail \<and>
   vr_status (verify_contract parse zero_contract [] [observation ''environment.read'' ''HOME'']) = StatusPass"
proof
  have i: "infer parse [] [observation ''filesystem.read'' ''data/x''] =
      zero_observed\<lparr>oc_filesystem_read := True, oc_filesystem_paths := [''data/x'']\<rparr>"
    by (simp add: infer_def observe_def observation_def observe_flag_def observe_value_def append_evidence_value_def
        zero_observed_def sort_observed_def sort_strings_def plain_edge_def ascii_space_def)
  show "vr_status (verify_contract parse read_contract [] [observation ''filesystem.read'' ''data/x'']) = StatusFail"
    unfolding status_by_spec Let_def i
    by (simp add: values_allowed_def read_contract_def zero_capabilities_def match_path_def)
  have i: "infer parse [] [observation ''environment.read'' ''HOME''] =
      zero_observed\<lparr>oc_environment_read := True, oc_environment := [''HOME'']\<rparr>"
    by (simp add: infer_def observe_def observation_def observe_flag_def observe_value_def append_evidence_value_def
        zero_observed_def sort_observed_def sort_strings_def plain_edge_def ascii_space_def)
  show "vr_status (verify_contract parse zero_contract [] [observation ''environment.read'' ''HOME'']) = StatusPass"
    unfolding status_by_spec Let_def i
    by (simp add: values_allowed_def declared_covers_def all_used_def zero_contract_def zero_capabilities_def zero_observed_def)
qed

end
