(* ===== verification/Closure_Props.thy ===== *)
theory Closure_Props
  imports Closure
begin

text \<open>
  Properties of the assurance closure: canonical forms are idempotent and so is finalization, what a
  SAFE and a verified closure mean, the verdict of a comparison against its declarative meaning, and an
  edge the comparison cannot see.
\<close>

section \<open>Canonical forms\<close>

lemma sorted_unique_set: "sorted_unique xs = sorted_list_of_set (set xs)"
proof (rule sorted_distinct_set_unique)
  show "sorted (sorted_unique xs)" by (simp add: sorted_unique_def sort_strings_def sorted_remdups_adj)
  have "sorted ys \<Longrightarrow> distinct (remdups_adj ys)" for ys :: "string list"
    by (induction ys rule: remdups_adj.induct) (auto simp: order.strict_iff_order)
  then show "distinct (sorted_unique xs)" by (simp add: sorted_unique_def sort_strings_def)
qed (simp_all add: sorted_unique_def)

lemma sorted_unique_idem [simp]: "sorted_unique (sorted_unique xs) = sorted_unique xs"
  by (simp add: sorted_unique_set)

lemma sorted_unique_Nil [simp]: "sorted_unique xs = [] \<longleftrightarrow> xs = []"
  by (simp add: sorted_unique_set)

lemma sorted_unique_absorb: "sorted_unique (sorted_unique (xs @ ys) @ ys) = sorted_unique (xs @ ys)"
  by (simp add: sorted_unique_set Un_absorb2)

lemma canonical_node_idem [simp]: "canonical_node (canonical_node n) = canonical_node n"
  by (simp add: canonical_node_def)

lemma node_key_canonical [simp]: "node_key (canonical_node n) = node_key n"
  by (simp add: node_key_def canonical_node_def)

lemma set_canonical_nodes: "set (canonical_nodes ns) = canonical_node ` set ns"
  by (simp add: canonical_nodes_def)

lemma canonical_nodes_Nil [simp]: "canonical_nodes ns = [] \<longleftrightarrow> ns = []"
  using set_canonical_nodes [of ns] by (metis image_is_empty set_empty)

lemma canonical_nodes_idem [simp]: "canonical_nodes (canonical_nodes ns) = canonical_nodes ns"
proof -
  have "map canonical_node (canonical_nodes ns) = canonical_nodes ns"
    by (rule map_idI) (auto simp: set_canonical_nodes)
  then have "canonical_nodes (canonical_nodes ns) = sort_key node_key (canonical_nodes ns)"
    by (simp add: canonical_nodes_def)
  also have "\<dots> = canonical_nodes ns"
    unfolding canonical_nodes_def by (rule sort_key_id_if_sorted) simp
  finally show ?thesis .
qed

lemma set_dedup_edges: "edge_text ` set (dedup_edges es) = edge_text ` set es"
  by (induction es rule: dedup_edges.induct) auto

lemma dedup_edges_sorted: "sorted (map edge_text es) \<Longrightarrow> sorted (map edge_text (dedup_edges es)) \<and> distinct (map edge_text (dedup_edges es))"
proof (induction es rule: dedup_edges.induct)
  case (1 e f es)
  show ?case
  proof (cases "edge_text f = edge_text e")
    case True
    with 1 show ?thesis by simp
  next
    case False
    have "edge_text e < edge_text g" if "g \<in> set (dedup_edges (f # es))" for g
    proof -
      from that have "edge_text g \<in> edge_text ` set (f # es)" using set_dedup_edges [of "f # es"] by auto
      with 1(3) have "edge_text f \<le> edge_text g" by auto
      moreover have "edge_text e < edge_text f" using 1(3) False by (simp add: order.strict_iff_order)
      ultimately show ?thesis by simp
    qed
    then have "\<forall>x \<in> edge_text ` set (dedup_edges (f # es)). edge_text e < x" by blast
    then have "edge_text e \<notin> edge_text ` set (dedup_edges (f # es))"
      and "\<forall>x \<in> edge_text ` set (dedup_edges (f # es)). edge_text e \<le> x" by (blast, simp add: less_imp_le)
    with 1 False show ?thesis by simp
  qed
qed simp_all

lemma dedup_edges_distinct: "distinct (map edge_text es) \<Longrightarrow> dedup_edges es = es"
  by (induction es rule: dedup_edges.induct) auto

lemma canonical_edges_idem [simp]: "canonical_edges (canonical_edges es) = canonical_edges es"
proof -
  have s: "sorted (map edge_text (canonical_edges es)) \<and> distinct (map edge_text (canonical_edges es))"
    unfolding canonical_edges_def by (rule dedup_edges_sorted) simp
  then have "sort_key edge_text (canonical_edges es) = canonical_edges es" by (intro sort_key_id_if_sorted) simp
  then have "canonical_edges (canonical_edges es) = dedup_edges (canonical_edges es)"
    by (simp only: canonical_edges_def)
  with s show ?thesis by (simp add: dedup_edges_distinct)
qed

section \<open>Finalization\<close>

text \<open>
  Two runs of the loop that differ only in the completeness they start with and in the limitations
  found before lose completeness at the same nodes and add the same limitations.
\<close>

definition same_core :: "fin_state \<Rightarrow> fin_state \<Rightarrow> bool" where
  "same_core z z' \<longleftrightarrow> z'\<lparr>fz_complete := True, fz_limitations := []\<rparr> = z\<lparr>fz_complete := True, fz_limitations := []\<rparr>"

definition runs_alike :: "fin_state \<Rightarrow> fin_state \<Rightarrow> fin_state \<Rightarrow> fin_state \<Rightarrow> bool" where
  "runs_alike z z' r r' \<longleftrightarrow> same_core r r' \<and>
     (\<exists>k ext. fz_complete r = (fz_complete z \<and> k) \<and> fz_complete r' = (fz_complete z' \<and> k) \<and>
        fz_limitations r = fz_limitations z @ ext \<and> fz_limitations r' = fz_limitations z' @ ext)"

lemma runs_alike_refl: "same_core z z' \<Longrightarrow> runs_alike z z' z z'"
  unfolding runs_alike_def by (intro conjI exI [of _ True] exI [of _ "[]"]) simp_all

lemma runs_alike_trans: "runs_alike z z' r r' \<Longrightarrow> runs_alike r r' s s' \<Longrightarrow> runs_alike z z' s s'"
proof -
  assume "runs_alike z z' r r'" "runs_alike r r' s s'"
  then obtain k e k2 e2 where "same_core s s'"
    "fz_complete r = (fz_complete z \<and> k)" "fz_complete r' = (fz_complete z' \<and> k)"
    "fz_limitations r = fz_limitations z @ e" "fz_limitations r' = fz_limitations z' @ e"
    "fz_complete s = (fz_complete r \<and> k2)" "fz_complete s' = (fz_complete r' \<and> k2)"
    "fz_limitations s = fz_limitations r @ e2" "fz_limitations s' = fz_limitations r' @ e2"
    unfolding runs_alike_def by blast
  then show ?thesis unfolding runs_alike_def by (intro conjI exI [of _ "k \<and> k2"] exI [of _ "e @ e2"]) simp_all
qed

lemma same_core_fields:
  assumes "same_core z z'"
  obtains co li where "z' = z\<lparr>fz_complete := co, fz_limitations := li\<rparr>"
  using assms unfolding same_core_def by (cases z; cases z') simp

lemma finalize_node_alike: "same_core z z' \<Longrightarrow> runs_alike z z' (finalize_node n z) (finalize_node n z')"
proof -
  assume "same_core z z'"
  then obtain co li where z': "z' = z\<lparr>fz_complete := co, fz_limitations := li\<rparr>" by (rule same_core_fields)
  define k where "k \<longleftrightarrow> \<not> conflicts z n \<and> \<not> (cn_required n \<and> unresolved_node n)"
  define e where "e = (if conflicts z n then [conflict_text (cn_id n)] else [])"
  have c [simp]: "conflicts (z\<lparr>fz_complete := co, fz_limitations := li\<rparr>) n = conflicts z n" by (simp add: conflicts_def)
  show ?thesis
    unfolding runs_alike_def
  proof (intro conjI exI [of _ k] exI [of _ e])
    show "same_core (finalize_node n z) (finalize_node n z')"
      unfolding same_core_def finalize_node_def note_node_def require_node_def Let_def z' by simp
  qed (simp_all add: finalize_node_def note_node_def require_node_def Let_def k_def e_def z')
qed

lemma fold_alike: "same_core z z' \<Longrightarrow> runs_alike z z' (fold finalize_node ns z) (fold finalize_node ns z')"
proof (induction ns arbitrary: z z')
  case Nil
  then show ?case by (simp add: runs_alike_refl)
next
  case (Cons n ns)
  have a: "runs_alike z z' (finalize_node n z) (finalize_node n z')" by (rule finalize_node_alike [OF Cons.prems])
  then have "same_core (finalize_node n z) (finalize_node n z')" by (simp add: runs_alike_def)
  from runs_alike_trans [OF a Cons.IH [OF this]] show ?case by simp
qed

lemma seal_fields [simp]:
  "cl_nodes (seal cr c z) = canonical_nodes (cl_nodes c)" "cl_edges (seal cr c z) = canonical_edges (cl_edges c)"
  "cl_root_digest (seal cr c z) = cl_root_digest c" "cl_complete (seal cr c z) = fz_complete z"
  "cl_state (seal cr c z) = fz_state z" "cl_limitations (seal cr c z) = sorted_unique (fz_limitations z)"
  "cl_verified (seal cr c z) = (fz_verified z \<and> fz_complete z \<and> fz_state z = AssuranceSafe)"
  by (simp_all add: seal_def Let_def)

definition same_outcome :: "fin_state \<Rightarrow> fin_state \<Rightarrow> bool" where
  "same_outcome z z' \<longleftrightarrow> fz_complete z' = fz_complete z \<and> fz_state z' = fz_state z \<and> fz_verified z' = fz_verified z \<and>
     fz_severity z' = fz_severity z \<and> fz_required z' = fz_required z \<and> fz_unresolved z' = fz_unresolved z \<and>
     fz_blocking z' = fz_blocking z \<and> fz_depth z' = fz_depth z \<and>
     sorted_unique (fz_limitations z') = sorted_unique (fz_limitations z)"

lemma seal_again: "same_outcome z z' \<Longrightarrow> seal cr (seal cr c z) z' = seal cr c z"
  by (simp add: same_outcome_def seal_def Let_def compute_digest_def)

lemma closing_again: "same_outcome (closing_state c) (closing_state (seal cr c (closing_state c)))"
proof -
  define ns empty where "ns = canonical_nodes (cl_nodes c)" and "empty \<longleftrightarrow> cl_nodes c = [] \<or> cl_root_digest c = []"
  define z where "z = start_state c"
  define r where "r = fold finalize_node ns z"
  define z' where "z' = start_state (seal cr c (end_state r))"
  define r' where "r' = fold finalize_node ns z'"
  have cs: "closing_state c = end_state r" by (simp add: closing_state_def r_def z_def ns_def)
  then have cs': "closing_state (seal cr c (closing_state c)) = end_state r'"
    by (simp add: closing_state_def [of "seal cr c (end_state r)"] r'_def z'_def ns_def)
  have core: "same_core z z'" by (simp add: same_core_def z_def z'_def start_state_def Let_def)
  obtain k ext where k: "fz_complete r = (fz_complete z \<and> k)" "fz_complete r' = (fz_complete z' \<and> k)"
    "fz_limitations r = fz_limitations z @ ext" "fz_limitations r' = fz_limitations z' @ ext" "same_core r r'"
    using fold_alike [OF core, of ns] unfolding runs_alike_def r_def r'_def by blast
  have e: "fz_limitations (end_state s) = fz_limitations s" for s by (simp add: end_state_def)
  have l: "fz_limitations z' = sorted_unique (fz_limitations r)" by (simp add: z'_def start_state_def Let_def e)
  have nil: "fz_limitations r' = [] \<longleftrightarrow> fz_limitations r = []" by (auto simp: k(3,4) l)
  have lim: "sorted_unique (fz_limitations r') = sorted_unique (fz_limitations r)"
    unfolding k(4) l unfolding k(3) by (rule sorted_unique_absorb)
  have ez: "fz_complete z \<longrightarrow> \<not> empty" by (simp add: z_def start_state_def Let_def empty_def)
  have "fz_complete z' = (fz_complete (end_state r) \<and> \<not> empty)" by (simp add: z'_def start_state_def Let_def empty_def)
  then have co: "fz_complete (end_state r') = fz_complete (end_state r)"
    using ez k(1,2) nil by (auto simp: end_state_def)
  obtain c' l' where r': "r' = r\<lparr>fz_complete := c', fz_limitations := l'\<rparr>" by (rule same_core_fields [OF k(5)])
  have st: "fz_state (end_state r') = fz_state (end_state r)" using nil by (simp add: end_state_def r')
  have "same_outcome (end_state r) (end_state r')"
    unfolding same_outcome_def co st e lim by (simp add: end_state_def r')
  then show ?thesis unfolding cs' unfolding cs .
qed

lemma finalize_idem: "finalize cr (finalize cr c) = finalize cr c"
  unfolding finalize_def by (rule seal_again [OF closing_again])

text \<open>
  C40. Finalizing is idempotent: it is safe to call repeatedly, a finalized closure keeps every field,
  its digest included.
\<close>

theorem finalize_idempotent: "finalize cr (finalize cr c) = finalize cr c"
  by (rule finalize_idem)

section \<open>Safe and verified closures\<close>

text \<open>Nodes with one identity are the same node.\<close>

definition consistent :: "closure_node list \<Rightarrow> bool" where
  "consistent ns \<longleftrightarrow> (\<forall>a \<in> set ns. \<forall>b \<in> set ns. cn_id a = cn_id b \<longrightarrow> same_node a b)"

definition required_all :: "(closure_node \<Rightarrow> bool) \<Rightarrow> closure_node list \<Rightarrow> bool" where
  "required_all P ns \<longleftrightarrow> (\<forall>n \<in> set ns. cn_required n \<longrightarrow> P n)"

lemma required_all_snoc: "required_all P (ns @ [n]) \<longleftrightarrow> required_all P ns \<and> (cn_required n \<longrightarrow> P n)"
  by (auto simp: required_all_def)

lemma same_node_equiv: "same_node a a" "same_node a b \<Longrightarrow> same_node b a" "same_node a b \<Longrightarrow> same_node b c \<Longrightarrow> same_node a c"
  by (simp_all add: same_node_def)

definition seen_ok :: "closure_node list \<Rightarrow> fin_state \<Rightarrow> bool" where
  "seen_ok ns z \<longleftrightarrow> (\<forall>i p. fz_seen z i = Some p \<longrightarrow> p \<in> set ns \<and> cn_id p = i) \<and> (\<forall>n \<in> set ns. fz_seen z (cn_id n) \<noteq> None)"

lemma consistent_snoc: "seen_ok ns z \<Longrightarrow> consistent (ns @ [n]) \<longleftrightarrow> consistent ns \<and> \<not> conflicts z n"
proof
  assume s: "seen_ok ns z" and c: "consistent (ns @ [n])"
  from c have "consistent ns" by (simp add: consistent_def)
  moreover have "\<not> conflicts z n"
    using s c by (auto simp: conflicts_def seen_ok_def consistent_def split: option.split)
  ultimately show "consistent ns \<and> \<not> conflicts z n" by blast
next
  assume s: "seen_ok ns z" and c: "consistent ns \<and> \<not> conflicts z n"
  have n: "same_node a n" if "a \<in> set ns" "cn_id a = cn_id n" for a
  proof -
    from s that obtain p where p: "fz_seen z (cn_id n) = Some p" "p \<in> set ns" "cn_id p = cn_id n"
      unfolding seen_ok_def by (metis option.exhaust)
    with c that have "same_node a p" "same_node p n" by (auto simp: consistent_def conflicts_def)
    then show ?thesis by (rule same_node_equiv(3))
  qed
  have n': "same_node n a" if "a \<in> set ns" "cn_id n = cn_id a" for a
    by (rule same_node_equiv(2) [OF n]) (use that in simp_all)
  from c n n' show "consistent (ns @ [n])" by (auto simp: consistent_def same_node_equiv(1))
qed

text \<open>What the loop over the nodes has established.\<close>

definition loop_inv :: "fin_state \<Rightarrow> closure_node list \<Rightarrow> fin_state \<Rightarrow> bool" where
  "loop_inv z0 ns z \<longleftrightarrow> seen_ok ns z \<and>
     (fz_limitations z = [] \<longleftrightarrow> fz_limitations z0 = [] \<and> consistent ns) \<and>
     (fz_state z = AssuranceSafe \<longleftrightarrow> fz_state z0 = AssuranceSafe \<and> consistent ns \<and>
        required_all (\<lambda>n. \<not> unresolved_node n \<and> \<not> failing_node n) ns) \<and>
     (fz_complete z \<longleftrightarrow> fz_complete z0 \<and> consistent ns \<and> required_all (\<lambda>n. \<not> unresolved_node n) ns) \<and>
     (fz_verified z \<longleftrightarrow> fz_verified z0 \<and> required_all verified_node ns)"

lemma unless_unsafe_not_safe [simp]: "unless_unsafe st \<noteq> AssuranceSafe"
  by (simp add: unless_unsafe_def assurance_state_defs)

lemma states_distinct [simp]: "AssuranceUnknown \<noteq> AssuranceSafe" "AssuranceUnsafe \<noteq> AssuranceSafe"
  "AssuranceUnknown \<noteq> AssuranceUnsafe" "AssuranceUnsafe \<noteq> AssuranceUnknown"
  by (simp_all add: assurance_state_defs)

lemma note_node_fields:
  "fz_state (note_node n z) = (if conflicts z n then AssuranceUnknown else fz_state z)"
  "fz_complete (note_node n z) = (fz_complete z \<and> \<not> conflicts z n)"
  "fz_verified (note_node n z) = fz_verified z"
  "fz_limitations (note_node n z) = fz_limitations z @ (if conflicts z n then [conflict_text (cn_id n)] else [])"
  "fz_seen (note_node n z) = (fz_seen z)(cn_id n \<mapsto> n)"
  by (simp_all add: note_node_def Let_def)

lemma require_node_fields:
  "fz_state (require_node n z) = (if failing_node n then AssuranceUnsafe else if unresolved_node n then unless_unsafe (fz_state z) else fz_state z)"
  "fz_complete (require_node n z) = (fz_complete z \<and> \<not> unresolved_node n)"
  "fz_verified (require_node n z) = (fz_verified z \<and> verified_node n)"
  "fz_limitations (require_node n z) = fz_limitations z" "fz_seen (require_node n z) = fz_seen z"
  by (simp_all add: require_node_def Let_def)

lemma seen_ok_step: "seen_ok ns z \<Longrightarrow> seen_ok (ns @ [n]) (finalize_node n z)"
  by (auto simp: seen_ok_def finalize_node_def note_node_fields require_node_fields)

lemma loop_inv_step: "loop_inv z0 ns z \<Longrightarrow> loop_inv z0 (ns @ [n]) (finalize_node n z)"
proof -
  assume i: "loop_inv z0 ns z"
  then have s: "seen_ok ns z" by (simp add: loop_inv_def)
  note c = consistent_snoc [OF s, of n]
  have "seen_ok (ns @ [n]) (finalize_node n z)" by (rule seen_ok_step [OF s])
  moreover have "fz_limitations (finalize_node n z) = [] \<longleftrightarrow> fz_limitations z0 = [] \<and> consistent (ns @ [n])"
    using i unfolding c loop_inv_def by (auto simp: finalize_node_def note_node_fields require_node_fields)
  moreover have "fz_state (finalize_node n z) = AssuranceSafe \<longleftrightarrow> fz_state z0 = AssuranceSafe \<and> consistent (ns @ [n]) \<and>
      required_all (\<lambda>n. \<not> unresolved_node n \<and> \<not> failing_node n) (ns @ [n])"
    using i unfolding c loop_inv_def required_all_snoc by (auto simp: finalize_node_def note_node_fields require_node_fields)
  moreover have "fz_complete (finalize_node n z) \<longleftrightarrow> fz_complete z0 \<and> consistent (ns @ [n]) \<and>
      required_all (\<lambda>n. \<not> unresolved_node n) (ns @ [n])"
    using i unfolding c loop_inv_def required_all_snoc by (auto simp: finalize_node_def note_node_fields require_node_fields)
  moreover have "fz_verified (finalize_node n z) \<longleftrightarrow> fz_verified z0 \<and> required_all verified_node (ns @ [n])"
    using i unfolding loop_inv_def required_all_snoc by (auto simp: finalize_node_def note_node_fields require_node_fields)
  ultimately show ?thesis unfolding loop_inv_def by blast
qed

lemma loop_inv_fold: "fz_seen z0 = Map.empty \<Longrightarrow> loop_inv z0 ns (fold finalize_node ns z0)"
proof (induction ns rule: rev_induct)
  case Nil
  then show ?case by (simp add: loop_inv_def seen_ok_def consistent_def required_all_def)
next
  case (snoc n ns)
  then show ?case using loop_inv_step [of z0 ns _ n] by simp
qed

lemma canonical_node_preds [simp]:
  "unresolved_node (canonical_node n) = unresolved_node n" "failing_node (canonical_node n) = failing_node n"
  "verified_node (canonical_node n) = verified_node n" "cn_required (canonical_node n) = cn_required n"
  "cn_id (canonical_node n) = cn_id n"
  by (simp_all add: canonical_node_def unresolved_node_def failing_node_def verified_node_def)

lemma consistent_canonical: "consistent (canonical_nodes ns) = consistent ns"
  by (simp add: consistent_def set_canonical_nodes same_node_def)

lemma required_all_canonical: "(\<And>n. P (canonical_node n) = P n) \<Longrightarrow> required_all P (canonical_nodes ns) = required_all P ns"
  by (simp add: required_all_def set_canonical_nodes)

text \<open>A closure that is proven safe, and one that is verified.\<close>

definition proven_safe :: "assurance_closure \<Rightarrow> bool" where
  "proven_safe c \<longleftrightarrow> cl_nodes c \<noteq> [] \<and> cl_root_digest c \<noteq> [] \<and> cl_limitations c = [] \<and> consistent (cl_nodes c) \<and>
     required_all (\<lambda>n. \<not> unresolved_node n \<and> \<not> failing_node n) (cl_nodes c)"

lemma closure_verdict_by_inv:
  "(cl_state (finalize cr c) = AssuranceSafe \<longleftrightarrow> proven_safe c) \<and>
   (cl_verified (finalize cr c) \<longleftrightarrow> proven_safe c \<and> cl_complete c \<and> required_all verified_node (cl_nodes c))"
proof -
  let ?ns = "canonical_nodes (cl_nodes c)" and ?start = "start_state c"
  let ?final = "fold finalize_node ?ns ?start"
  have "fz_seen ?start = Map.empty" by (simp add: start_state_def Let_def)
  from loop_inv_fold [OF this, of ?ns] have i: "loop_inv ?start ?ns ?final" .
  have z0: "fz_state ?start = AssuranceSafe \<longleftrightarrow> cl_nodes c \<noteq> [] \<and> cl_root_digest c \<noteq> []"
    "fz_complete ?start \<longleftrightarrow> cl_complete c \<and> cl_nodes c \<noteq> [] \<and> cl_root_digest c \<noteq> []" "fz_limitations ?start = [] \<longleftrightarrow> cl_limitations c = []"
    by (simp_all add: start_state_def Let_def)
  have sv: "fz_verified ?start" by (simp add: start_state_def Let_def)
  have r: "required_all (\<lambda>n. \<not> unresolved_node n \<and> \<not> failing_node n) ?ns = required_all (\<lambda>n. \<not> unresolved_node n \<and> \<not> failing_node n) (cl_nodes c)"
    "required_all (\<lambda>n. \<not> unresolved_node n) ?ns = required_all (\<lambda>n. \<not> unresolved_node n) (cl_nodes c)"
    "required_all verified_node ?ns = required_all verified_node (cl_nodes c)"
    by (rule required_all_canonical, simp)+
  note f = i [unfolded loop_inv_def z0 r consistent_canonical]
  have e: "fz_state (end_state ?final) = AssuranceSafe \<longleftrightarrow> fz_limitations ?final = [] \<and> fz_state ?final = AssuranceSafe"
    "fz_complete (end_state ?final) \<longleftrightarrow> fz_limitations ?final = [] \<and> fz_complete ?final" "fz_verified (end_state ?final) = fz_verified ?final"
    by (auto simp: end_state_def)
  have s: "fz_state (end_state ?final) = AssuranceSafe \<longleftrightarrow> proven_safe c"
    using f unfolding e(1) proven_safe_def by (elim conjE) (simp only:, blast)
  have "fz_complete (end_state ?final) \<longleftrightarrow> cl_complete c" if "proven_safe c"
    using f that unfolding e(2) proven_safe_def required_all_def by (elim conjE) (simp only:, blast)
  moreover have "fz_verified (end_state ?final) \<longleftrightarrow> required_all verified_node (cl_nodes c)"
    using f sv unfolding e(3) by blast
  ultimately show ?thesis
    unfolding finalize_def seal_fields closing_state_def s by blast
qed

text \<open>
  C39. A closure counts as SAFE exactly when it has nodes and a root, no limitation, no two different nodes of
  one identity, and every required node is resolved, analyzed and not failing; it counts as verified
  exactly when, in addition, its builder called it complete and every required node is verified.
\<close>

theorem closure_verdict:
  "(cl_state (finalize cr c) = AssuranceSafe \<longleftrightarrow> proven_safe c) \<and>
   (cl_verified (finalize cr c) \<longleftrightarrow> proven_safe c \<and> cl_complete c \<and> required_all verified_node (cl_nodes c))"
  by (rule closure_verdict_by_inv)

section \<open>Comparison\<close>

definition same_surface :: "closure_node option \<Rightarrow> closure_node option \<Rightarrow> bool" where
  "same_surface want got = (case (want, got) of
      (Some w, Some g) \<Rightarrow> cn_digest w = cn_digest g \<and> cn_required w = cn_required g \<and>
        (cn_required g \<longrightarrow> cn_resolved g \<and> cn_analyzed g \<and> cn_digest g \<noteq> [])
    | (Some w, None) \<Rightarrow> \<not> cn_required w
    | (None, Some g) \<Rightarrow> \<not> cn_required g
    | (None, None) \<Rightarrow> True)"

definition drift_free :: "assurance_closure \<Rightarrow> assurance_closure \<Rightarrow> bool" where
  "drift_free e a \<longleftrightarrow> cl_root_digest e = cl_root_digest a \<and>
     (\<forall>i. same_surface (node_map (cl_nodes e) i) (node_map (cl_nodes a) i)) \<and>
     edge_text ` set (cl_edges e) = edge_text ` set (cl_edges a)"

lemma node_map_dom: "node_map ns i \<noteq> None \<longleftrightarrow> i \<in> set (node_ids ns)"
  by (auto simp: node_map_def node_ids_def map_of_eq_None_iff image_image)

lemma over_map_Nil: "over_map (node_map ns) f (node_ids ns) = [] \<longleftrightarrow> (\<forall>i n. node_map ns i = Some n \<longrightarrow> f n i = [])"
proof -
  have "over_map (node_map ns) f (node_ids ns) = [] \<longleftrightarrow>
      (\<forall>i \<in> set (node_ids ns). (case node_map ns i of None \<Rightarrow> [] | Some n \<Rightarrow> f n i) = [])"
    by (auto simp: over_map_def)
  also have "\<dots> \<longleftrightarrow> (\<forall>i n. node_map ns i = Some n \<longrightarrow> f n i = [])"
    using node_map_dom [of ns] by (auto split: option.splits)
  finally show ?thesis .
qed

lemma lost_or_changed_Nil:
  "lost_or_changed m w i = [] \<longleftrightarrow> same_surface (Some w) (m i)"
  by (cases "m i") (auto simp: lost_or_changed_def same_surface_def)

lemma unexpected_Nil: "unexpected_node m g i = [] \<longleftrightarrow> (m i = None \<longrightarrow> same_surface None (Some g))"
  by (cases "m i") (simp_all add: unexpected_node_def same_surface_def)

lemma drift_Nil: "drift e a = [] \<longleftrightarrow> drift_free e a"
proof -
  let ?en = "node_map (cl_nodes e)" and ?an = "node_map (cl_nodes a)"
  have s: "set (edge_set es) = edge_text ` set es" for es by (simp add: edge_set_def)
  have "drift e a = [] \<longleftrightarrow> cl_root_digest e = cl_root_digest a \<and>
      (\<forall>i n. ?en i = Some n \<longrightarrow> same_surface (Some n) (?an i)) \<and>
      (\<forall>i n. ?an i = Some n \<longrightarrow> ?en i = None \<longrightarrow> same_surface None (Some n)) \<and>
      edge_text ` set (cl_edges e) \<subseteq> edge_text ` set (cl_edges a) \<and> edge_text ` set (cl_edges a) \<subseteq> edge_text ` set (cl_edges e)"
    unfolding drift_def Let_def append_is_Nil_conv over_map_Nil lost_or_changed_Nil unexpected_Nil map_is_Nil_conv filter_empty_conv s
    by auto
  moreover have "(\<forall>i n. ?en i = Some n \<longrightarrow> same_surface (Some n) (?an i)) \<and>
      (\<forall>i n. ?an i = Some n \<longrightarrow> ?en i = None \<longrightarrow> same_surface None (Some n)) \<longleftrightarrow> (\<forall>i. same_surface (?en i) (?an i))"
    (is "?l \<longleftrightarrow> ?r")
  proof
    assume l: ?l
    show ?r
    proof
      fix i
      show "same_surface (?en i) (?an i)"
      proof (cases "?en i")
        case None
        with l show ?thesis by (cases "?an i") (simp_all add: same_surface_def [of None None])
      next
        case (Some n)
        with l show ?thesis by simp
      qed
    qed
  next
    assume r: ?r
    show ?l using r by metis
  qed
  ultimately show ?thesis unfolding drift_free_def by blast
qed

lemma verification_statuses: "VerificationFailed \<noteq> VerificationVerified" "VerificationUnresolved \<noteq> VerificationVerified"
  "VerificationFailed \<noteq> VerificationUnresolved"
  by (simp_all add: verification_defs)

text \<open>
  C11. The verdict on a reviewed and a current closure, both finalized first.  It is FAILED exactly when the root
  digests differ, or a node is required in one closure and absent from the other, or a node of both has another
  digest or another requiredness, or is required and now unresolved, unanalyzed or without digest, or the sets of
  the texts of the edges differ, or the digests of the closures differ; otherwise it is UNRESOLVED when the current
  closure is incomplete and VERIFIED when it is complete.  There are violations exactly when it is not VERIFIED.
  Edges are compared by their text only, so different edges with the same text count as equal
  (\<open>hidden_edge_undetected\<close>).
\<close>

theorem closure_comparison_verdict:
  "cr_status (verify_closure cr e a) =
     (if drift_free (finalize cr e) (finalize cr a) \<and> cl_digest (finalize cr e) = cl_digest (finalize cr a)
      then if cl_complete (finalize cr a) then VerificationVerified else VerificationUnresolved
      else VerificationFailed) \<and>
   (cr_violations (verify_closure cr e a) = [] \<longleftrightarrow> cr_status (verify_closure cr e a) = VerificationVerified)"
proof -
  let ?e = "finalize cr e" and ?a = "finalize cr a"
  have k: "sort_key f xs = [] \<longleftrightarrow> xs = []" for f :: "closure_violation \<Rightarrow> string" and xs
    by (metis length_0_conv length_sort)
  show ?thesis
  proof (cases "drift ?e ?a = []")
    case True
    with drift_Nil [of ?e ?a] show ?thesis
      by (simp add: verify_closure_def Let_def k verification_statuses)
  next
    case False
    with drift_Nil [of ?e ?a] show ?thesis
      by (simp add: verify_closure_def Let_def k verification_statuses)
  qed
qed

section \<open>An edge the comparison cannot see\<close>

text \<open>Two edges whose texts are equal: the second one is dropped as a duplicate.\<close>

definition plain_edge_ab :: closure_edge where
  "plain_edge_ab = \<lparr>ce_from = ''a --x--> b'', ce_to = ''c'', ce_relation = ''y''\<rparr>"

definition hidden_edge :: closure_edge where
  "hidden_edge = \<lparr>ce_from = ''a'', ce_to = ''c'', ce_relation = ''x--> b --y''\<rparr>"

text \<open>
  The text of an edge is ambiguous, and an edge whose text is already there is dropped before the
  digest: a closure with an additional, different edge is indistinguishable from the reviewed one.
\<close>

theorem hidden_edge_undetected:
  "hidden_edge \<noteq> plain_edge_ab \<and>
   finalize cr (c\<lparr>cl_edges := [plain_edge_ab, hidden_edge]\<rparr>) = finalize cr (c\<lparr>cl_edges := [plain_edge_ab]\<rparr>)"
proof
  show "hidden_edge \<noteq> plain_edge_ab" by (simp add: hidden_edge_def plain_edge_ab_def)
  have "canonical_edges [plain_edge_ab, hidden_edge] = canonical_edges [plain_edge_ab]"
    by (simp add: canonical_edges_def edge_text_def plain_edge_ab_def hidden_edge_def)
  then show "finalize cr (c\<lparr>cl_edges := [plain_edge_ab, hidden_edge]\<rparr>) = finalize cr (c\<lparr>cl_edges := [plain_edge_ab]\<rparr>)"
    by (simp add: finalize_def seal_def Let_def closing_state_def start_state_def compute_digest_def)
qed

end
