(* ===== verification/Portable_Certificate.thy ===== *)
theory Portable_Certificate
  imports Redaction Assurance Scan_Model
begin

text \<open>
  Portable assurance certificates, internal/evidence/portable.go: what an issuer puts into a
  certificate and refuses to put into one, the signed DSSE envelope, the offline verification
  with its three separate verdicts, and the import into a receiving environment.

  Two functions of the standard library are fields of \<open>cert_codec\<close>: the shortest decimal text of
  a float64, and the decoding of a JSON text into a statement.  An empty slice is a nil slice; a
  map is the list of its entries in the order the loop ranges over them; the key of a map of
  digests that is looked up is found with \<open>map_of\<close>.  \<open>sort.Slice\<close> over the evidence is the stable
  \<open>sort_key\<close>; Go's sort is not stable, which differs for evidence with equal identifiers only.
\<close>

section \<open>Data\<close>

record resource_descriptor =
  rd_name :: string
  rd_digest :: "(string \<times> string) list"

record portable_subject =
  ps_id :: string
  ps_name :: string
  ps_version :: string
  ps_digest :: string
  ps_type :: string
  ps_source :: string

record portable_producer =
  pp_id :: string
  pp_name :: string
  pp_version :: string

record portable_scanner =
  pn_id :: string
  pn_version :: string
  pn_rules :: string

record policy_binding =
  pb_id :: string
  pb_digest :: string

record manifest_entry =
  me_id :: string
  me_type :: string
  me_subject :: string
  me_digest :: string
  me_class :: string
  me_required :: bool

record coverage_summary =
  cv_universe :: "coverage_subject list"
  cv_ratio :: float64
  cv_complete :: bool

record validity_conditions =
  vc_from :: time
  vc_until :: time
  vc_required :: "string list"
  vc_env :: "(string \<times> string) list"
  vc_interval :: duration
  vc_unobserved :: "string list"
  vc_proof_valid :: bool

record dependency_identity =
  di_ecosystem :: string
  di_package :: string
  di_version :: string
  di_source_kind :: string
  di_source_url :: string
  di_artifact_digest :: string
  di_manifest_digest :: string
  di_evidence :: location

record portable_predicate =
  pc_schema :: string
  pc_subject :: portable_subject
  pc_producer :: portable_producer
  pc_scanner :: portable_scanner
  pc_policy :: policy_binding
  pc_state :: string
  pc_outcome :: string
  pc_proof :: outcome_proof
  pc_manifest :: "manifest_entry list"
  pc_coverage :: coverage_summary
  pc_methods :: "string list"
  pc_limitations :: "string list"
  pc_validity :: validity_conditions
  pc_dependencies :: "dependency_identity list"
  pc_issued :: time
  pc_expires :: time
  pc_digest :: string

record portable_statement =
  st_type :: string
  st_subject :: "resource_descriptor list"
  st_predicate_type :: string
  st_predicate :: portable_predicate

record signed_certificate =
  sg_payload_type :: string
  sg_payload :: string
  sg_signatures :: "dsse_signature list"

record cert_codec =
  cc_float :: "rat \<Rightarrow> string"
  cc_decode :: "string \<Rightarrow> portable_statement option"

definition InTotoStatementTypeV1 :: string where
  "InTotoStatementTypeV1 = ''https://in-toto.io/Statement/v1''"

definition InTotoPayloadType :: string where
  "InTotoPayloadType = ''application/vnd.in-toto+json''"

definition AssuranceCertificatePredicateV1 :: string where
  "AssuranceCertificatePredicateV1 = ''https://skil.security/assurance-certificate/v1''"

definition PortableCertificateSchemaVersion :: string where
  "PortableCertificateSchemaVersion = ''1.0''"

section \<open>Credentials and personal data\<close>

text \<open>A word boundary is a place where one neighbour is an ASCII word character and the other is
  not; the neighbour may be missing at either end of the text.\<close>

definition word_rune :: "nat \<Rightarrow> bool" where
  "word_rune r \<longleftrightarrow> letter_rune r \<or> (48 \<le> r \<and> r \<le> 57) \<or> r = 95"

definition word_at :: "nat list \<Rightarrow> bool" where
  "word_at s = (case s of [] \<Rightarrow> False | c # _ \<Rightarrow> word_rune c)"

text \<open>Does a pattern between two word boundaries match at the front of \<open>s\<close>, which follows a
  word character if \<open>after\<close>?\<close>

definition match_word :: "matcher \<Rightarrow> bool \<Rightarrow> nat list \<Rightarrow> bool" where
  "match_word m after s \<longleftrightarrow> after \<noteq> word_at s \<and>
     list_ex (\<lambda>r. length r < length s \<and> word_rune (s ! (length s - length r - 1)) \<noteq> word_at r) (m s)"

fun find_word :: "matcher \<Rightarrow> bool \<Rightarrow> nat list \<Rightarrow> bool" where
  "find_word m after [] = False"
| "find_word m after (c # cs) = (match_word m after (c # cs) \<or> find_word m (word_rune c) cs)"

definition fold_letter :: "nat \<Rightarrow> bool" where
  "fold_letter r \<longleftrightarrow> letter_rune r \<or> r = 383 \<or> r = 8490"

definition email_pii_regex :: matcher where
  "email_pii_regex =
     m_seq (m_min 1 (\<lambda>r. fold_alnum r \<or> r \<in> {46, 95, 37, 43, 45})) (m_seq (m_class (\<lambda>r. r = 64))
       (m_seq (m_min 1 (\<lambda>r. fold_alnum r \<or> r = 46 \<or> r = 45)) (m_seq (m_class (\<lambda>r. r = 46))
         (m_min 2 fold_letter))))"

definition digit_rune :: "nat \<Rightarrow> bool" where
  "digit_rune r \<longleftrightarrow> 48 \<le> r \<and> r \<le> 57"

definition ssn_pii_regex :: matcher where
  "ssn_pii_regex =
     m_seq (m_times 3 digit_rune) (m_seq (m_class (\<lambda>r. r = 45)) (m_seq (m_times 2 digit_rune)
       (m_seq (m_class (\<lambda>r. r = 45)) (m_times 4 digit_rune))))"

datatype sensitive_reason = CredentialMaterial | EmailAddress | SSNPattern

definition sensitive_value :: "string \<Rightarrow> sensitive_reason option" where
  "sensitive_value v =
     (let t = trim_space v in
      if t = [] then None
      else if contains_sensitive_credential_material t then Some CredentialMaterial
      else if find_word email_pii_regex False (runes t) then Some EmailAddress
      else if find_word ssn_pii_regex False (runes t) then Some SSNPattern
      else None)"

definition contains_sensitive_or_pii :: "string list \<Rightarrow> sensitive_reason option" where
  "contains_sensitive_or_pii vs = first_some (map sensitive_value vs)"

section \<open>Digests\<close>

definition normalize_sha256 :: "string \<Rightarrow> string" where
  "normalize_sha256 d =
     (let t = trim_space d in
      if t = [] then [] else if has_prefix t ''sha256:'' then t else ''sha256:'' @ t)"

definition hex_char :: "char \<Rightarrow> bool" where
  "hex_char c \<longleftrightarrow> (CHR ''0'' \<le> c \<and> c \<le> CHR ''9'') \<or> (CHR ''a'' \<le> c \<and> c \<le> CHR ''f'') \<or>
     (CHR ''A'' \<le> c \<and> c \<le> CHR ''F'')"

definition valid_sha256 :: "string \<Rightarrow> bool" where
  "valid_sha256 d \<longleftrightarrow> has_prefix d ''sha256:'' \<and> length (trim_prefix d ''sha256:'') = 64 \<and>
     list_all hex_char (trim_prefix d ''sha256:'')"

section \<open>Validity conditions\<close>

datatype validity_error = BadValidityWindow | NoRequiredEvidence | ProofWithAssumptions "string list"

definition validate_validity :: "validity_conditions \<Rightarrow> validity_error option" where
  "validate_validity v =
     (if time_is_zero (vc_from v) \<or> time_is_zero (vc_until v) \<or> \<not> vc_from v < vc_until v
        then Some BadValidityWindow
      else if vc_required v = [] then Some NoRequiredEvidence
      else if vc_proof_valid v \<and> vc_unobserved v \<noteq> [] then Some (ProofWithAssumptions (vc_unobserved v))
      else None)"

section \<open>The text of a certificate\<close>

definition float_json :: "cert_codec \<Rightarrow> float64 \<Rightarrow> json" where
  "float_json cc x = (case x of NaN \<Rightarrow> JUnsupported | Finite q \<Rightarrow> JNum (cc_float cc q))"

definition rd_json :: "resource_descriptor \<Rightarrow> json" where
  "rd_json r = JObj [(''name'', JStr (rd_name r)),
     (''digest'', JObj (map (\<lambda>(k, v). (k, JStr v)) (rd_digest r)))]"

definition portable_subject_json :: "portable_subject \<Rightarrow> json" where
  "portable_subject_json s = JObj ([(''subject_id'', JStr (ps_id s)), (''name'', JStr (ps_name s))] @
     omit_str ''version'' (ps_version s) @ [(''digest'', JStr (ps_digest s)),
     (''artifact_type'', JStr (ps_type s))] @ omit_str ''source'' (ps_source s))"

definition portable_producer_json :: "portable_producer \<Rightarrow> json" where
  "portable_producer_json p = JObj [(''producer_id'', JStr (pp_id p)), (''name'', JStr (pp_name p)),
     (''version'', JStr (pp_version p))]"

definition portable_scanner_json :: "portable_scanner \<Rightarrow> json" where
  "portable_scanner_json s = JObj [(''scanner_id'', JStr (pn_id s)),
     (''scanner_version'', JStr (pn_version s)), (''rule_pack_digest'', JStr (pn_rules s))]"

definition policy_binding_json :: "policy_binding \<Rightarrow> json" where
  "policy_binding_json p = JObj [(''policy_id'', JStr (pb_id p)), (''policy_digest'', JStr (pb_digest p))]"

definition manifest_entry_json :: "manifest_entry \<Rightarrow> json" where
  "manifest_entry_json e = JObj [(''evidence_id'', JStr (me_id e)), (''evidence_type'', JStr (me_type e)),
     (''subject_digest'', JStr (me_subject e)), (''digest'', JStr (me_digest e)),
     (''verification_class'', JStr (me_class e)), (''required'', JBool (me_required e))]"

definition coverage_subject_json :: "coverage_subject \<Rightarrow> json" where
  "coverage_subject_json s = JObj ([(''ID'', JStr (cs_id s)), (''PhysicalDigest'', JStr (cs_physical_digest s)),
     (''Source'', JStr (cs_source s)), (''Owner'', JStr (cs_owner s)),
     (''Disposition'', JStr (cs_disposition s)), (''Required'', JBool (cs_required s))] @
     omit_strs ''evidence'' (cs_evidence s))"

definition list_json :: "('a \<Rightarrow> json) \<Rightarrow> 'a list \<Rightarrow> json" where
  "list_json f xs = (if xs = [] then JNull else JArr (map f xs))"

definition coverage_summary_json :: "cert_codec \<Rightarrow> coverage_summary \<Rightarrow> json" where
  "coverage_summary_json cc c = JObj [
     (''universe'', JObj [(''subjects'', list_json coverage_subject_json (cv_universe c))]),
     (''completion_ratio'', float_json cc (cv_ratio c)), (''complete'', JBool (cv_complete c))]"

definition outcome_proof_json :: "outcome_proof \<Rightarrow> json" where
  "outcome_proof_json p = JObj ([(''outcome'', JStr (op_outcome p)), (''evidence'', strs_json (op_evidence p))] @
     omit_str ''policy_id'' (op_policy_id p) @ omit_str ''applicability_evidence'' (op_applicability p) @
     omit_strs ''unresolved'' (op_unresolved p))"

definition validity_json :: "validity_conditions \<Rightarrow> json" where
  "validity_json v = JObj ([(''valid_from'', time_json (vc_from v)), (''valid_until'', time_json (vc_until v)),
     (''required_evidence_ids'', strs_json (vc_required v))] @
     (if vc_env v = [] then []
      else [(''environment_constraints'', JObj (map (\<lambda>(k, x). (k, JStr x)) (vc_env v)))]) @
     omit_int ''max_reconciliation_interval'' (vc_interval v) @
     omit_strs ''unobserved_assumptions'' (vc_unobserved v) @
     [(''proof_valid'', JBool (vc_proof_valid v))])"

definition dependency_identity_json :: "dependency_identity \<Rightarrow> json" where
  "dependency_identity_json d = JObj ([(''ecosystem'', JStr (di_ecosystem d)), (''package'', JStr (di_package d))] @
     omit_str ''version'' (di_version d) @ [(''source_kind'', JStr (di_source_kind d)),
     (''source_url'', JStr (di_source_url d))] @ omit_str ''artifact_digest'' (di_artifact_digest d) @
     [(''manifest_digest'', JStr (di_manifest_digest d)), (''evidence'', location_json (di_evidence d))])"

definition predicate_json :: "cert_codec \<Rightarrow> portable_predicate \<Rightarrow> json" where
  "predicate_json cc p = JObj (
     [(''schema_version'', JStr (pc_schema p)), (''subject'', portable_subject_json (pc_subject p)),
      (''producer'', portable_producer_json (pc_producer p)), (''scanner'', portable_scanner_json (pc_scanner p)),
      (''policy'', policy_binding_json (pc_policy p)), (''assurance_state'', JStr (pc_state p)),
      (''assurance_outcome'', JStr (pc_outcome p)), (''outcome_proof'', outcome_proof_json (pc_proof p)),
      (''evidence_manifest'', list_json manifest_entry_json (pc_manifest p)),
      (''coverage_summary'', coverage_summary_json cc (pc_coverage p)),
      (''verification_methods'', strs_json (pc_methods p))] @
     omit_strs ''known_limitations'' (pc_limitations p) @
     [(''validity_conditions'', validity_json (pc_validity p))] @
     (if pc_dependencies p = [] then []
      else [(''dependencies'', JArr (map dependency_identity_json (pc_dependencies p)))]) @
     [(''issued_at'', time_json (pc_issued p)), (''expires_at'', time_json (pc_expires p)),
      (''certificate_digest'', JStr (pc_digest p))])"

definition statement_json :: "cert_codec \<Rightarrow> portable_statement \<Rightarrow> json" where
  "statement_json cc s = JObj [(''_type'', JStr (st_type s)), (''subject'', list_json rd_json (st_subject s)),
     (''predicateType'', JStr (st_predicate_type s)), (''predicate'', predicate_json cc (st_predicate s))]"

definition compute_certificate_digest :: "crypto \<Rightarrow> cert_codec \<Rightarrow> portable_predicate \<Rightarrow> string option" where
  "compute_certificate_digest cr cc p =
     map_option (sha_digest cr) (canonical_json (predicate_json cc (p\<lparr>pc_digest := []\<rparr>)))"

section \<open>Issuing\<close>

datatype issue_error =
    UnsupportedSchema string
  | BadSubject
  | BadProducer
  | BadScanner
  | BadPolicy
  | InvalidState string
  | InvalidOutcome string
  | InvalidProof outcome_error
  | SafeWithoutComplete string
  | BadIssueTimes
  | EmptyManifest
  | EmptyMethods
  | InvalidValidity validity_error
  | EntryMissingId nat
  | EntryWrongSubject nat string
  | EntryBadDigest nat string
  | EntryBadClass nat string
  | SafeOnUnknownEvidence string
  | SensitiveContent sensitive_reason
  | NotCanonical

definition known_state :: "string \<Rightarrow> bool" where
  "known_state s \<longleftrightarrow> s \<in> {AssuranceSafe, AssuranceUnsafe, AssuranceUnknown}"

definition known_outcome :: "string \<Rightarrow> bool" where
  "known_outcome s \<longleftrightarrow>
     s \<in> {OutcomeComplete, OutcomePartial, OutcomeFailed, OutcomeNotApplicable, OutcomeExcludedByPolicy}"

definition known_class :: "string \<Rightarrow> bool" where
  "known_class s \<longleftrightarrow> s \<in> {''OBSERVED'', ''INFERRED'', ''VERIFIED'', ''UNKNOWN''}"

text \<open>The defaults and normalised digests the constructor writes into its copy of the predicate.\<close>

definition normalize_predicate :: "portable_predicate \<Rightarrow> portable_predicate" where
  "normalize_predicate p = p\<lparr>
     pc_schema := (if pc_schema p = [] then PortableCertificateSchemaVersion else pc_schema p),
     pc_subject := (pc_subject p)\<lparr>ps_digest := normalize_sha256 (ps_digest (pc_subject p))\<rparr>,
     pc_scanner := (pc_scanner p)\<lparr>pn_rules := normalize_sha256 (pn_rules (pc_scanner p))\<rparr>,
     pc_policy := (pc_policy p)\<lparr>pb_digest := normalize_sha256 (pb_digest (pc_policy p))\<rparr>\<rparr>"

definition predicate_errors :: "portable_predicate \<Rightarrow> issue_error option" where
  "predicate_errors p = first_some [
     check (pc_schema p \<noteq> PortableCertificateSchemaVersion) (UnsupportedSchema (pc_schema p)),
     check (ps_id (pc_subject p) = [] \<or> ps_name (pc_subject p) = [] \<or> \<not> valid_sha256 (ps_digest (pc_subject p))) BadSubject,
     check (pp_id (pc_producer p) = [] \<or> pp_name (pc_producer p) = [] \<or> pp_version (pc_producer p) = []) BadProducer,
     check (pn_id (pc_scanner p) = [] \<or> pn_version (pc_scanner p) = [] \<or> \<not> valid_sha256 (pn_rules (pc_scanner p))) BadScanner,
     check (pb_id (pc_policy p) = [] \<or> \<not> valid_sha256 (pb_digest (pc_policy p))) BadPolicy,
     check (\<not> known_state (pc_state p)) (InvalidState (pc_state p)),
     check (\<not> known_outcome (pc_outcome p)) (InvalidOutcome (pc_outcome p)),
     map_option InvalidProof (validate_outcome (pc_proof p)),
     check (pc_state p = AssuranceSafe \<and>
        (pc_outcome p \<noteq> OutcomeComplete \<or> op_outcome (pc_proof p) \<noteq> OutcomeComplete)) (SafeWithoutComplete (pc_outcome p)),
     check (time_is_zero (pc_issued p) \<or> time_is_zero (pc_expires p) \<or> \<not> pc_issued p < pc_expires p) BadIssueTimes,
     check (pc_manifest p = []) EmptyManifest,
     check (pc_methods p = []) EmptyMethods,
     map_option InvalidValidity (validate_validity (pc_validity p))]"

definition normalize_entry :: "manifest_entry \<Rightarrow> manifest_entry" where
  "normalize_entry e = e\<lparr>me_subject := normalize_sha256 (me_subject e), me_digest := normalize_sha256 (me_digest e)\<rparr>"

definition entry_error :: "portable_predicate \<Rightarrow> nat \<times> manifest_entry \<Rightarrow> issue_error option" where
  "entry_error p = (\<lambda>(i, e). first_some [
     check (me_id e = [] \<or> me_type e = []) (EntryMissingId i),
     check (me_subject e \<noteq> ps_digest (pc_subject p)) (EntryWrongSubject i (me_id e)),
     check (\<not> valid_sha256 (me_digest e)) (EntryBadDigest i (me_id e)),
     check (\<not> known_class (me_class e)) (EntryBadClass i (me_id e)),
     check (pc_state p = AssuranceSafe \<and> me_required e \<and> me_class e = ''UNKNOWN'')
       (SafeOnUnknownEvidence (me_id e))])"

text \<open>What is searched for credentials and personal data.\<close>

definition inspected_strings :: "portable_predicate \<Rightarrow> string list" where
  "inspected_strings p =
     [ps_id (pc_subject p), ps_name (pc_subject p), ps_source (pc_subject p), pp_id (pc_producer p),
      pp_name (pc_producer p), pn_id (pc_scanner p), pb_id (pc_policy p)] @
     pc_limitations p @ pc_methods p @
     concat (map (\<lambda>(k, v). [k, v]) (vc_env (pc_validity p))) @
     concat (map (\<lambda>e. [me_id e, me_type e]) (pc_manifest p))"

definition sorted_predicate :: "portable_predicate \<Rightarrow> portable_predicate" where
  "sorted_predicate p = p\<lparr>
     pc_manifest := sort_key me_id (map normalize_entry (pc_manifest p)),
     pc_methods := sort_strings (pc_methods p),
     pc_limitations := sort_strings (pc_limitations p)\<rparr>"

definition statement_of :: "portable_predicate \<Rightarrow> portable_statement" where
  "statement_of p = \<lparr>st_type = InTotoStatementTypeV1,
     st_subject = [\<lparr>rd_name = ps_name (pc_subject p),
       rd_digest = [(''sha256'', trim_prefix (ps_digest (pc_subject p)) ''sha256:'')]\<rparr>],
     st_predicate_type = AssuranceCertificatePredicateV1, st_predicate = p\<rparr>"

definition new_portable_statement ::
  "crypto \<Rightarrow> cert_codec \<Rightarrow> portable_predicate \<Rightarrow> issue_error + portable_statement" where
  "new_portable_statement cr cc p0 =
     (let p = normalize_predicate p0 in
      case predicate_errors p of Some e \<Rightarrow> Inl e
      | None \<Rightarrow>
     (case first_some (map (entry_error p) (enumerate 0 (map normalize_entry (pc_manifest p)))) of Some e \<Rightarrow> Inl e
      | None \<Rightarrow>
     (case contains_sensitive_or_pii (inspected_strings p) of Some r \<Rightarrow> Inl (SensitiveContent r)
      | None \<Rightarrow>
     (let q = sorted_predicate p in
      case compute_certificate_digest cr cc q of None \<Rightarrow> Inl NotCanonical
      | Some d \<Rightarrow> Inr (statement_of (q\<lparr>pc_digest := d\<rparr>))))))"

section \<open>Signing\<close>

datatype sign_error = BadSigningKey | NoCanonicalPayload

definition sign_portable_certificate ::
  "crypto \<Rightarrow> cert_codec \<Rightarrow> portable_statement \<Rightarrow> string \<Rightarrow> string \<Rightarrow> sign_error + signed_certificate" where
  "sign_portable_certificate cr cc stmt key key_id =
     (if length key \<noteq> 64 then Inl BadSigningKey
      else case canonical_json (statement_json cc stmt) of
        None \<Rightarrow> Inl NoCanonicalPayload
      | Some payload \<Rightarrow> Inr \<lparr>sg_payload_type = InTotoPayloadType, sg_payload = b64_encode payload,
          sg_signatures = [sign_digest cr key key_id InTotoPayloadType payload]\<rparr>)"

section \<open>Offline verification\<close>

record local_policy =
  lp_policy_id :: string
  lp_policy_digest :: string
  lp_methods :: "string list"
  lp_complete_outcome :: bool
  lp_no_limitations :: bool

record verify_options =
  vo_expected :: string
  vo_keys :: "(string \<times> string) list"
  vo_producers :: "string list"
  vo_time :: time
  vo_skew :: duration
  vo_policy :: "local_policy option"

datatype offline_error =
    UnsupportedPayloadType string
  | MissingSignatures
  | NoTrustedKeys
  | BadPayloadEncoding
  | NoTrustedSignature
  | BadStatement
  | UnsupportedStatementType string
  | UnsupportedPredicateType string
  | UnsupportedPredicateSchema string
  | UntrustedProducer string
  | DigestNotComputable
  | DigestMismatch string string
  | EmptyEvidenceManifest
  | EmptySubject
  | SubjectMismatch string string
  | ArtifactMismatch string string
  | ManifestWrongSubject string
  | ManifestBadDigest string
  | RequiredEvidenceMissing string
  | NotYetValid
  | Expired
  | BadValidityConditions validity_error

datatype policy_rejection =
    SubjectNotSafe string string bool bool
  | PolicyIdMismatch string string
  | PolicyDigestMismatch string string
  | OutcomeNotComplete string
  | DisallowedLimitations "string list"
  | MissingMethod string

record offline_report =
  or_crypto :: bool
  or_safe :: bool
  or_accepted :: bool
  or_key :: string
  or_cert :: string
  or_subject :: string
  or_state :: string
  or_outcome :: string
  or_failures :: "offline_error list"
  or_rejections :: "policy_rejection list"
  or_statement :: "portable_statement option"

definition empty_report :: offline_report where
  "empty_report = \<lparr>or_crypto = False, or_safe = False, or_accepted = False, or_key = [], or_cert = [],
     or_subject = [], or_state = [], or_outcome = [], or_failures = [], or_rejections = [], or_statement = None\<rparr>"

definition fail_report :: "offline_report \<Rightarrow> offline_error \<Rightarrow> offline_report \<times> offline_error option" where
  "fail_report r e = (r\<lparr>or_failures := or_failures r @ [e]\<rparr>, Some e)"

text \<open>The first signature by a trusted key that verifies gives the key identifier.\<close>

definition root_signature_ok :: "crypto \<Rightarrow> (string \<times> string) list \<Rightarrow> string \<Rightarrow> dsse_signature \<Rightarrow> bool" where
  "root_signature_ok cr keys pae s =
     (case map_of keys (sig_keyid s) of
        None \<Rightarrow> False
      | Some pub \<Rightarrow> length pub = 32 \<and>
          (case b64_decode (sig_value s) of
             None \<Rightarrow> False
           | Some v \<Rightarrow> length v = 64 \<and> ed_verify cr pub pae v))"

fun root_key_id :: "crypto \<Rightarrow> (string \<times> string) list \<Rightarrow> string \<Rightarrow> dsse_signature list \<Rightarrow> string" where
  "root_key_id cr keys pae [] = []"
| "root_key_id cr keys pae (s # ss) =
     (if root_signature_ok cr keys pae s then sig_keyid s else root_key_id cr keys pae ss)"

definition identify_report :: "string \<Rightarrow> portable_statement \<Rightarrow> offline_report" where
  "identify_report kid stmt = empty_report\<lparr>or_key := kid, or_cert := pc_digest (st_predicate stmt),
     or_subject := ps_digest (pc_subject (st_predicate stmt)), or_state := pc_state (st_predicate stmt),
     or_outcome := pc_outcome (st_predicate stmt), or_statement := Some stmt\<rparr>"

definition schema_error :: "portable_statement \<Rightarrow> offline_error option" where
  "schema_error stmt = first_some [
     check (st_type stmt \<noteq> InTotoStatementTypeV1) (UnsupportedStatementType (st_type stmt)),
     check (st_predicate_type stmt \<noteq> AssuranceCertificatePredicateV1) (UnsupportedPredicateType (st_predicate_type stmt)),
     check (pc_schema (st_predicate stmt) \<noteq> PortableCertificateSchemaVersion)
       (UnsupportedPredicateSchema (pc_schema (st_predicate stmt)))]"

definition producer_error :: "verify_options \<Rightarrow> portable_predicate \<Rightarrow> offline_error option" where
  "producer_error opts p =
     check (vo_producers opts \<noteq> [] \<and> pp_id (pc_producer p) \<notin> set (vo_producers opts))
       (UntrustedProducer (pp_id (pc_producer p)))"

definition digest_error :: "crypto \<Rightarrow> cert_codec \<Rightarrow> portable_predicate \<Rightarrow> offline_error option" where
  "digest_error cr cc p =
     (case compute_certificate_digest cr cc p of
        None \<Rightarrow> Some DigestNotComputable
      | Some d \<Rightarrow> check (pc_digest p = [] \<or> pc_digest p \<noteq> d) (DigestMismatch (pc_digest p) d))"

definition subject_error :: "verify_options \<Rightarrow> portable_statement \<Rightarrow> offline_error option" where
  "subject_error opts stmt =
     (case st_subject stmt of
        [] \<Rightarrow> Some EmptySubject
      | r # _ \<Rightarrow>
          (let s = normalize_sha256 (case map_of (rd_digest r) ''sha256'' of None \<Rightarrow> [] | Some d \<Rightarrow> d);
               d = normalize_sha256 (ps_digest (pc_subject (st_predicate stmt))) in
           if \<not> valid_sha256 d \<or> s \<noteq> d then Some (SubjectMismatch s d)
           else if vo_expected opts \<noteq> [] \<and> normalize_sha256 (vo_expected opts) \<noteq> d
             then Some (ArtifactMismatch (normalize_sha256 (vo_expected opts)) d)
           else None))"

definition manifest_error :: "portable_predicate \<Rightarrow> manifest_entry \<Rightarrow> offline_error option" where
  "manifest_error p e = first_some [
     check (normalize_sha256 (me_subject e) \<noteq> normalize_sha256 (ps_digest (pc_subject p))) (ManifestWrongSubject (me_id e)),
     check (\<not> valid_sha256 (me_digest e)) (ManifestBadDigest (me_id e))]"

definition required_error :: "portable_predicate \<Rightarrow> string \<Rightarrow> offline_error option" where
  "required_error p rid = check (rid \<notin> set (map me_id (pc_manifest p))) (RequiredEvidenceMissing rid)"

definition effective_time :: "time \<Rightarrow> verify_options \<Rightarrow> time" where
  "effective_time clock opts = (if time_is_zero (vo_time opts) then clock else vo_time opts)"

definition effective_skew :: "verify_options \<Rightarrow> duration" where
  "effective_skew opts = (if vo_skew opts < 0 then 0 else vo_skew opts)"

definition temporal_error :: "time \<Rightarrow> verify_options \<Rightarrow> portable_predicate \<Rightarrow> offline_error option" where
  "temporal_error clock opts p = first_some [
     check (effective_time clock opts + effective_skew opts < pc_issued p) NotYetValid,
     check (\<not> effective_time clock opts - effective_skew opts < pc_expires p) Expired]"

text \<open>Steps 3 to 6 of the verification, in the order of the code.\<close>

definition statement_error ::
  "crypto \<Rightarrow> cert_codec \<Rightarrow> time \<Rightarrow> verify_options \<Rightarrow> portable_statement \<Rightarrow> offline_error option" where
  "statement_error cr cc clock opts stmt =
     (let p = st_predicate stmt in first_some (
        [producer_error opts p, digest_error cr cc p, check (pc_manifest p = []) EmptyEvidenceManifest,
         subject_error opts stmt] @
        map (manifest_error p) (pc_manifest p) @
        map (required_error p) (vc_required (pc_validity p)) @
        [temporal_error clock opts p, map_option BadValidityConditions (validate_validity (pc_validity p))]))"

definition unknown_required_evidence :: "portable_predicate \<Rightarrow> bool" where
  "unknown_required_evidence p \<longleftrightarrow> list_ex (\<lambda>e. me_required e \<and> me_class e = ''UNKNOWN'') (pc_manifest p)"

definition proof_complete :: "portable_predicate \<Rightarrow> bool" where
  "proof_complete p \<longleftrightarrow> validate_outcome (pc_proof p) = None \<and> op_outcome (pc_proof p) = OutcomeComplete"

definition certificate_coverage :: "portable_predicate \<Rightarrow> bool" where
  "certificate_coverage p \<longleftrightarrow> cv_complete (pc_coverage p) \<and> coverage_complete (cv_universe (pc_coverage p))"

definition subject_is_safe :: "portable_predicate \<Rightarrow> bool" where
  "subject_is_safe p \<longleftrightarrow> pc_state p = AssuranceSafe \<and> pc_outcome p = OutcomeComplete \<and> certificate_coverage p \<and>
     proof_complete p \<and> \<not> unknown_required_evidence p"

definition policy_rejections :: "local_policy \<Rightarrow> portable_predicate \<Rightarrow> policy_rejection list" where
  "policy_rejections lp p =
     (if lp_policy_id lp \<noteq> [] \<and> pb_id (pc_policy p) \<noteq> lp_policy_id lp
        then [PolicyIdMismatch (pb_id (pc_policy p)) (lp_policy_id lp)] else []) @
     (if lp_policy_digest lp \<noteq> [] \<and>
         normalize_sha256 (pb_digest (pc_policy p)) \<noteq> normalize_sha256 (lp_policy_digest lp)
        then [PolicyDigestMismatch (pb_digest (pc_policy p)) (lp_policy_digest lp)] else []) @
     (if lp_complete_outcome lp \<and> pc_outcome p \<noteq> OutcomeComplete then [OutcomeNotComplete (pc_outcome p)] else []) @
     (if lp_no_limitations lp \<and> pc_limitations p \<noteq> [] then [DisallowedLimitations (pc_limitations p)] else []) @
     map MissingMethod (filter (\<lambda>m. m \<notin> set (pc_methods p)) (lp_methods lp))"

text \<open>Steps 7 and 8: the verdicts on a certificate that is cryptographically valid.\<close>

definition judge_certificate :: "verify_options \<Rightarrow> portable_predicate \<Rightarrow> offline_report \<Rightarrow> offline_report" where
  "judge_certificate opts p r0 =
     (let r = r0\<lparr>or_crypto := True\<rparr> in
      if subject_is_safe p then
        (let rejected = (case vo_policy opts of None \<Rightarrow> [] | Some lp \<Rightarrow> policy_rejections lp p) in
         r\<lparr>or_safe := True, or_accepted := (rejected = []), or_rejections := rejected\<rparr>)
      else r\<lparr>or_safe := False, or_accepted := False,
         or_rejections := [SubjectNotSafe (pc_state p) (pc_outcome p) (certificate_coverage p) (proof_complete p)]\<rparr>)"

definition verify_portable_certificate ::
  "crypto \<Rightarrow> cert_codec \<Rightarrow> time \<Rightarrow> signed_certificate \<Rightarrow> verify_options \<Rightarrow> offline_report \<times> offline_error option" where
  "verify_portable_certificate cr cc clock env opts =
     (if sg_payload_type env \<noteq> InTotoPayloadType
        then fail_report empty_report (UnsupportedPayloadType (sg_payload_type env))
      else if sg_signatures env = [] then fail_report empty_report MissingSignatures
      else if vo_keys opts = [] then fail_report empty_report NoTrustedKeys
      else case b64_decode (sg_payload env) of
        None \<Rightarrow> fail_report empty_report BadPayloadEncoding
      | Some payload \<Rightarrow>
          (let kid = root_key_id cr (vo_keys opts) (dsse_pae (sg_payload_type env) payload) (sg_signatures env) in
           if kid = [] then fail_report empty_report NoTrustedSignature
           else case cc_decode cc payload of
             None \<Rightarrow> fail_report empty_report BadStatement
           | Some stmt \<Rightarrow>
               (case schema_error stmt of
                  Some e \<Rightarrow> fail_report empty_report e
                | None \<Rightarrow>
                    (case statement_error cr cc clock opts stmt of
                       Some e \<Rightarrow> fail_report (identify_report kid stmt) e
                     | None \<Rightarrow> (judge_certificate opts (st_predicate stmt) (identify_report kid stmt), None)))))"

section \<open>Import into an environment\<close>

record import_environment =
  en_id :: string
  en_policy_id :: string
  en_policy_digest :: string
  en_methods :: "string list"
  en_forbidden :: "string list"
  en_complete_coverage :: bool
  en_min_ratio :: float64
  en_attributes :: "(string \<times> string) list"
  en_dependencies :: "(string \<times> string) list"
  en_revoked :: "(string \<times> bool) list"

datatype import_rejection =
    VerificationFailure offline_error
  | PolicyFailure policy_rejection
  | CertificateRevoked string
  | ConstraintMismatch string string "string option"
  | CoverageIncomplete
  | CoverageBelowMinimum
  | EnvironmentMethodMissing string
  | LimitationForbidden string
  | DependencyDrifted string string string

record import_decision =
  im_accepted :: bool
  im_environment :: string
  im_cert :: string
  im_subject :: string
  im_producer :: "portable_producer option"
  im_scanner :: "portable_scanner option"
  im_policy :: "policy_binding option"
  im_local_policy_id :: string
  im_local_policy_digest :: string
  im_crypto :: bool
  im_safe :: bool
  im_rejections :: "import_rejection list"
  im_evaluated :: time

definition constraint_rejections :: "import_environment \<Rightarrow> portable_predicate \<Rightarrow> import_rejection list" where
  "constraint_rejections en p = concat (map (\<lambda>(k, v).
     if map_of (en_attributes en) k = Some v then []
     else [ConstraintMismatch k v (map_of (en_attributes en) k)]) (vc_env (pc_validity p)))"

definition coverage_rejections :: "import_environment \<Rightarrow> portable_predicate \<Rightarrow> import_rejection list" where
  "coverage_rejections en p =
     (if en_complete_coverage en \<and> \<not> cv_complete (pc_coverage p) then [CoverageIncomplete] else []) @
     (if f_less (Finite 0) (en_min_ratio en) \<and> f_less (cv_ratio (pc_coverage p)) (en_min_ratio en)
        then [CoverageBelowMinimum] else [])"

definition limitation_rejections :: "import_environment \<Rightarrow> portable_predicate \<Rightarrow> import_rejection list" where
  "limitation_rejections en p =
     (if en_forbidden en = [] \<or> pc_limitations p = [] then []
      else map LimitationForbidden (filter (\<lambda>l. ''*'' \<in> set (en_forbidden en) \<or> l \<in> set (en_forbidden en))
             (pc_limitations p)))"

definition dependency_rejections :: "import_environment \<Rightarrow> portable_predicate \<Rightarrow> import_rejection list" where
  "dependency_rejections en p = concat (map (\<lambda>d.
     case map_of (en_dependencies en) (di_package d) of
       None \<Rightarrow> []
     | Some current \<Rightarrow>
         if di_manifest_digest d \<noteq> [] \<and> current \<noteq> di_manifest_digest d
         then [DependencyDrifted (di_package d) (di_manifest_digest d) current] else [])
     (pc_dependencies p))"

definition environment_rejections ::
  "verify_options \<Rightarrow> import_environment \<Rightarrow> offline_report \<Rightarrow> portable_predicate \<Rightarrow> import_rejection list" where
  "environment_rejections opts en r p =
     (if map_of (en_revoked en) (pc_digest p) = Some True then [CertificateRevoked (pc_digest p)] else []) @
     (if \<not> or_safe r then map PolicyFailure (or_rejections r) else []) @
     (if vo_policy opts \<noteq> None \<and> \<not> or_accepted r then map PolicyFailure (or_rejections r) else []) @
     constraint_rejections en p @ coverage_rejections en p @
     map EnvironmentMethodMissing (filter (\<lambda>m. m \<notin> set (pc_methods p)) (en_methods en)) @
     limitation_rejections en p @ dependency_rejections en p"

definition import_certificate ::
  "crypto \<Rightarrow> cert_codec \<Rightarrow> time \<Rightarrow> signed_certificate \<Rightarrow> verify_options \<Rightarrow> import_environment \<Rightarrow>
   import_decision \<times> offline_error option" where
  "import_certificate cr cc clock env opts en =
     (let (r, err) = verify_portable_certificate cr cc clock env opts;
          pred = map_option st_predicate (or_statement r);
          d = \<lparr>im_accepted = False, im_environment = en_id en, im_cert = or_cert r, im_subject = or_subject r,
               im_producer = map_option pc_producer pred, im_scanner = map_option pc_scanner pred,
               im_policy = map_option pc_policy pred, im_local_policy_id = en_policy_id en,
               im_local_policy_digest = en_policy_digest en, im_crypto = or_crypto r, im_safe = or_safe r,
               im_rejections = [], im_evaluated = effective_time clock opts\<rparr> in
      if err \<noteq> None \<or> \<not> or_crypto r
      then (d\<lparr>im_rejections := map VerificationFailure (or_failures r)\<rparr>, err)
      else (case pred of
              None \<Rightarrow> (d, None)
            | Some p \<Rightarrow>
                (let rs = environment_rejections opts en r p in
                 (d\<lparr>im_rejections := rs, im_accepted := (rs = [])\<rparr>, None))))"

end
