(* ===== verification/Portable_Props.thy ===== *)
theory Portable_Props
  imports Portable_Certificate
begin

text \<open>
  Properties of portable certificates: what an issued certificate is known to hold, that it
  survives signing and offline verification, what the import of one means, and the validity
  window that no step compares with the time of verification.
\<close>

section \<open>Digests\<close>

lemma hex_char_plain:
  assumes "hex_char c"
  shows "plain_edge c \<and> c \<noteq> CHR ''s''"
proof -
  have "(of_char c :: nat) < 128 \<and> 47 < (of_char c :: nat) \<and> (of_char c :: nat) < 103"
    using assms by (auto simp: hex_char_def less_eq_char_def)
  then show ?thesis by (auto simp: plain_edge_def ascii_space_def)
qed

lemma valid_sha256_form:
  assumes "valid_sha256 d"
  obtains h where "d = ''sha256:'' @ h" "length h = 64" "list_all hex_char h" "trim_prefix d ''sha256:'' = h"
  using assms by (auto simp: valid_sha256_def has_prefix_iff trim_prefix_def)

lemma normalize_valid:
  assumes "valid_sha256 d"
  shows "normalize_sha256 d = d" and "normalize_sha256 (trim_prefix d ''sha256:'') = d"
proof -
  from assms obtain h where h: "d = ''sha256:'' @ h" "length h = 64" "list_all hex_char h"
    "trim_prefix d ''sha256:'' = h" by (rule valid_sha256_form)
  then have ne: "h \<noteq> []" by auto
  with h(3) have edges: "plain_edge (hd h)" "plain_edge (last h)" "hd h \<noteq> CHR ''s''"
    using hex_char_plain by (auto simp: list_all_iff)
  have "trim_space d = d"
    using ne edges by (intro trim_space_plain) (simp_all add: h(1) plain_edge_def ascii_space_def)
  then show "normalize_sha256 d = d" by (simp add: normalize_sha256_def h(1) has_prefix_iff)
  have "trim_space h = h" using ne edges by simp
  moreover have "\<not> has_prefix h ''sha256:''" using ne edges(3) by (auto simp: has_prefix_iff)
  ultimately show "normalize_sha256 (trim_prefix d ''sha256:'') = d"
    using ne unfolding h(4) by (simp add: normalize_sha256_def h(1))
qed

lemma compute_certificate_digest_set [simp]:
  "compute_certificate_digest cr cc (p\<lparr>pc_digest := d\<rparr>) = compute_certificate_digest cr cc p"
  by (simp add: compute_certificate_digest_def)

section \<open>What an issued certificate holds\<close>

text \<open>The contract of the constructor.\<close>

definition sound_entry :: "portable_predicate \<Rightarrow> manifest_entry \<Rightarrow> bool" where
  "sound_entry p e \<longleftrightarrow> me_id e \<noteq> [] \<and> me_type e \<noteq> [] \<and> me_subject e = ps_digest (pc_subject p) \<and>
     valid_sha256 (me_digest e) \<and> known_class (me_class e) \<and>
     \<not> (pc_state p = AssuranceSafe \<and> me_required e \<and> me_class e = ''UNKNOWN'')"

definition safe_is_complete :: "portable_predicate \<Rightarrow> bool" where
  "safe_is_complete p \<longleftrightarrow> \<not> (pc_state p = AssuranceSafe \<and>
     \<not> (pc_outcome p = OutcomeComplete \<and> proof_complete p \<and> \<not> unknown_required_evidence p))"

definition sound_predicate :: "portable_predicate \<Rightarrow> bool" where
  "sound_predicate p \<longleftrightarrow> predicate_errors p = None \<and> list_all (sound_entry p) (pc_manifest p) \<and>
     contains_sensitive_or_pii (inspected_strings p) = None"

lemma entry_error_None: "entry_error p (i, e) = None \<longleftrightarrow> sound_entry p e"
  by (auto simp: entry_error_def sound_entry_def first_some_None)

lemma entries_checked:
  "first_some (map (entry_error p) (enumerate n es)) = None \<longleftrightarrow> list_all (sound_entry p) es"
  by (induction es arbitrary: n) (auto simp: first_some_None entry_error_None)

lemma new_statement_iff:
  "new_portable_statement cr cc p0 = Inr stmt \<longleftrightarrow>
     predicate_errors (normalize_predicate p0) = None \<and>
     list_all (sound_entry (normalize_predicate p0)) (map normalize_entry (pc_manifest p0)) \<and>
     contains_sensitive_or_pii (inspected_strings (normalize_predicate p0)) = None \<and>
     (\<exists>d. compute_certificate_digest cr cc (sorted_predicate (normalize_predicate p0)) = Some d \<and>
        stmt = statement_of ((sorted_predicate (normalize_predicate p0))\<lparr>pc_digest := d\<rparr>))"
proof -
  have m: "pc_manifest (normalize_predicate p0) = pc_manifest p0" by (simp add: normalize_predicate_def)
  show ?thesis
    unfolding new_portable_statement_def Let_def m entries_checked [of _ 0, symmetric]
    by (auto split: option.splits)
qed

lemma sorted_predicate_sel [simp]:
  "pc_schema (sorted_predicate p) = pc_schema p" "pc_subject (sorted_predicate p) = pc_subject p"
  "pc_producer (sorted_predicate p) = pc_producer p" "pc_scanner (sorted_predicate p) = pc_scanner p"
  "pc_policy (sorted_predicate p) = pc_policy p" "pc_state (sorted_predicate p) = pc_state p"
  "pc_outcome (sorted_predicate p) = pc_outcome p" "pc_proof (sorted_predicate p) = pc_proof p"
  "pc_coverage (sorted_predicate p) = pc_coverage p" "pc_validity (sorted_predicate p) = pc_validity p"
  "pc_dependencies (sorted_predicate p) = pc_dependencies p" "pc_issued (sorted_predicate p) = pc_issued p"
  "pc_expires (sorted_predicate p) = pc_expires p"
  "set (pc_manifest (sorted_predicate p)) = normalize_entry ` set (pc_manifest p)"
  "set (pc_methods (sorted_predicate p)) = set (pc_methods p)"
  "set (pc_limitations (sorted_predicate p)) = set (pc_limitations p)"
  "pc_manifest (sorted_predicate p) = [] \<longleftrightarrow> pc_manifest p = []"
  "pc_methods (sorted_predicate p) = [] \<longleftrightarrow> pc_methods p = []"
proof -
  show "pc_manifest (sorted_predicate p) = [] \<longleftrightarrow> pc_manifest p = []"
    unfolding sorted_predicate_def by simp (metis length_0_conv length_map length_sort)
  show "pc_methods (sorted_predicate p) = [] \<longleftrightarrow> pc_methods p = []"
    unfolding sorted_predicate_def by simp (metis length_0_conv length_sort_strings)
qed (simp_all add: sorted_predicate_def)

lemma normalize_entry_sel [simp]:
  "me_id (normalize_entry e) = me_id e" "me_type (normalize_entry e) = me_type e"
  "me_class (normalize_entry e) = me_class e" "me_required (normalize_entry e) = me_required e"
  by (simp_all add: normalize_entry_def)

lemma predicate_errors_sorted: "predicate_errors (sorted_predicate p) = predicate_errors p"
  by (simp only: predicate_errors_def sorted_predicate_sel)

lemma sensitive_set: "contains_sensitive_or_pii xs = None \<longleftrightarrow> (\<forall>x \<in> set xs. sensitive_value x = None)"
  by (auto simp: contains_sensitive_or_pii_def first_some_None)

lemma inspected_sorted: "set (inspected_strings (sorted_predicate p)) = set (inspected_strings p)"
  unfolding inspected_strings_def by simp

lemma predicate_errors_digest [simp]: "predicate_errors (p\<lparr>pc_digest := d\<rparr>) = predicate_errors p"
  by (simp add: predicate_errors_def)

lemma inspected_digest [simp]: "inspected_strings (p\<lparr>pc_digest := d\<rparr>) = inspected_strings p"
  by (simp add: inspected_strings_def)

lemma sound_entry_cong:
  "pc_state p = pc_state q \<Longrightarrow> pc_subject p = pc_subject q \<Longrightarrow> sound_entry p = sound_entry q"
  by (simp add: sound_entry_def fun_eq_iff)

lemma predicate_errors_NoneD:
  assumes "predicate_errors p = None"
  shows "pc_schema p = PortableCertificateSchemaVersion" "valid_sha256 (ps_digest (pc_subject p))"
    "valid_sha256 (pn_rules (pc_scanner p))" "valid_sha256 (pb_digest (pc_policy p))"
    "validate_outcome (pc_proof p) = None" "pc_manifest p \<noteq> []" "pc_issued p < pc_expires p"
    "validate_validity (pc_validity p) = None"
    "pc_state p = AssuranceSafe \<Longrightarrow> pc_outcome p = OutcomeComplete \<and> op_outcome (pc_proof p) = OutcomeComplete"
  using assms unfolding predicate_errors_def first_some_None by (simp_all split: if_splits)

lemma issued_sound:
  assumes "new_portable_statement cr cc p0 = Inr stmt"
  shows "sound_predicate (st_predicate stmt)"
    and "compute_certificate_digest cr cc (st_predicate stmt) = Some (pc_digest (st_predicate stmt))"
    and "stmt = statement_of (st_predicate stmt)"
    and "sorted_predicate (st_predicate stmt) = st_predicate stmt"
    and "normalize_predicate (st_predicate stmt) = st_predicate stmt"
proof -
  let ?q = "sorted_predicate (normalize_predicate p0)"
  from assms obtain d where e: "predicate_errors (normalize_predicate p0) = None"
    and m: "list_all (sound_entry (normalize_predicate p0)) (map normalize_entry (pc_manifest p0))"
    and s: "contains_sensitive_or_pii (inspected_strings (normalize_predicate p0)) = None"
    and d: "compute_certificate_digest cr cc ?q = Some d" and st: "stmt = statement_of (?q\<lparr>pc_digest := d\<rparr>)"
    unfolding new_statement_iff by blast
  have p: "st_predicate stmt = ?q\<lparr>pc_digest := d\<rparr>" by (simp add: st statement_of_def)
  show "stmt = statement_of (st_predicate stmt)" unfolding p by (rule st)
  show "compute_certificate_digest cr cc (st_predicate stmt) = Some (pc_digest (st_predicate stmt))"
    by (simp add: p d)
  have se: "sound_entry (?q\<lparr>pc_digest := d\<rparr>) = sound_entry (normalize_predicate p0)"
    by (rule sound_entry_cong) simp_all
  have mp: "pc_manifest (normalize_predicate p0) = pc_manifest p0" by (simp add: normalize_predicate_def)
  have ent: "\<forall>x \<in> set (pc_manifest ?q). sound_entry (normalize_predicate p0) x"
    using m by (simp add: list_all_iff mp)
  show "sound_predicate (st_predicate stmt)"
    using e s ent by (simp add: p sound_predicate_def predicate_errors_sorted se list_all_iff
        sensitive_set inspected_sorted)
  have dig: "valid_sha256 (me_digest x) \<and> me_subject x = ps_digest (pc_subject (normalize_predicate p0))"
    if "x \<in> set (pc_manifest ?q)" for x
    using bspec [OF ent that] by (simp add: sound_entry_def)
  have v: "valid_sha256 (ps_digest (pc_subject (normalize_predicate p0)))"
    "valid_sha256 (pn_rules (pc_scanner (normalize_predicate p0)))"
    "valid_sha256 (pb_digest (pc_policy (normalize_predicate p0)))"
    "pc_schema (normalize_predicate p0) = PortableCertificateSchemaVersion"
    using predicate_errors_NoneD [OF e] by simp_all
  have "normalize_entry x = x" if "x \<in> set (pc_manifest ?q)" for x
    using dig [OF that] v(1) by (simp add: normalize_entry_def normalize_valid)
  then have "map normalize_entry (pc_manifest ?q) = pc_manifest ?q" by (rule map_idI)
  moreover have "sort_key me_id (pc_manifest ?q) = pc_manifest ?q"
    by (rule sort_key_id_if_sorted) (simp add: sorted_predicate_def)
  moreover have "sort_strings (pc_methods ?q) = pc_methods ?q" "sort_strings (pc_limitations ?q) = pc_limitations ?q"
    by (simp_all add: sorted_predicate_def)
  ultimately show "sorted_predicate (st_predicate stmt) = st_predicate stmt"
    unfolding p sorted_predicate_def [of "?q\<lparr>pc_digest := d\<rparr>"]
    by (intro portable_predicate.equality) (simp_all del: sorted_predicate_sel)
  have sch: "PortableCertificateSchemaVersion \<noteq> []" by (simp add: PortableCertificateSchemaVersion_def)
  show "normalize_predicate (st_predicate stmt) = st_predicate stmt"
    using v sch unfolding p normalize_predicate_def [of "?q\<lparr>pc_digest := d\<rparr>"]
    by (simp add: normalize_valid)
qed

lemma sound_predicate_safe:
  assumes "sound_predicate p"
  shows "safe_is_complete p"
proof -
  have "predicate_errors p = None" using assms by (simp add: sound_predicate_def)
  note e = predicate_errors_NoneD [OF this]
  have "\<not> (pc_state p = AssuranceSafe \<and> unknown_required_evidence p)"
    using assms by (auto simp: sound_predicate_def list_all_iff list_ex_iff sound_entry_def unknown_required_evidence_def)
  then show ?thesis using e(5,9) by (auto simp: safe_is_complete_def proof_complete_def)
qed

text \<open>
  C16. What the constructor issues is sound: every evidence entry is bound to the subject and carries a
  valid digest, nothing inspected is a credential or personal data, a SAFE certificate is COMPLETE with
  a complete proof and no UNKNOWN required evidence, the digest is the digest of the predicate, and
  issuing the predicate again gives the same statement.
\<close>

theorem issued_certificate_sound:
  assumes "new_portable_statement cr cc p0 = Inr stmt"
  shows "sound_predicate (st_predicate stmt) \<and> safe_is_complete (st_predicate stmt) \<and>
    compute_certificate_digest cr cc (st_predicate stmt) = Some (pc_digest (st_predicate stmt)) \<and>
    new_portable_statement cr cc (st_predicate stmt) = Inr stmt"
proof -
  let ?p = "st_predicate stmt"
  note i = issued_sound [OF assms]
  have d: "map normalize_entry (pc_manifest ?p) = pc_manifest ?p"
  proof (rule map_idI)
    fix e assume "e \<in> set (pc_manifest ?p)"
    then have "sound_entry ?p e" using i(1) by (simp add: sound_predicate_def list_all_iff)
    moreover have "valid_sha256 (ps_digest (pc_subject ?p))"
      using i(1) predicate_errors_NoneD by (simp add: sound_predicate_def)
    ultimately show "normalize_entry e = e"
      by (simp add: sound_entry_def normalize_entry_def normalize_valid)
  qed
  have "new_portable_statement cr cc ?p = Inr stmt"
    unfolding new_statement_iff i(5) i(4) d
    using i(1-3) by (simp add: sound_predicate_def) 
  with i(1,2) sound_predicate_safe show ?thesis by blast
qed

section \<open>What offline verification establishes\<close>

definition in_window :: "time \<Rightarrow> verify_options \<Rightarrow> portable_predicate \<Rightarrow> bool" where
  "in_window clock opts p \<longleftrightarrow> pc_issued p \<le> effective_time clock opts + effective_skew opts \<and>
     effective_time clock opts - effective_skew opts < pc_expires p"

definition producer_trusted :: "verify_options \<Rightarrow> portable_predicate \<Rightarrow> bool" where
  "producer_trusted opts p \<longleftrightarrow> vo_producers opts = [] \<or> pp_id (pc_producer p) \<in> set (vo_producers opts)"

definition expected_subject :: "verify_options \<Rightarrow> portable_predicate \<Rightarrow> bool" where
  "expected_subject opts p \<longleftrightarrow> vo_expected opts = [] \<or>
     normalize_sha256 (vo_expected opts) = normalize_sha256 (ps_digest (pc_subject p))"

definition subject_bound :: "portable_statement \<Rightarrow> bool" where
  "subject_bound stmt \<longleftrightarrow> (let d = normalize_sha256 (ps_digest (pc_subject (st_predicate stmt))) in
     valid_sha256 d \<and> st_subject stmt \<noteq> [] \<and>
     normalize_sha256 (case map_of (rd_digest (hd (st_subject stmt))) ''sha256'' of None \<Rightarrow> [] | Some x \<Rightarrow> x) = d)"

definition evidence_bound :: "portable_predicate \<Rightarrow> bool" where
  "evidence_bound p \<longleftrightarrow> pc_manifest p \<noteq> [] \<and>
     list_all (\<lambda>e. normalize_sha256 (me_subject e) = normalize_sha256 (ps_digest (pc_subject p)) \<and>
       valid_sha256 (me_digest e)) (pc_manifest p)"

definition required_present :: "portable_predicate \<Rightarrow> bool" where
  "required_present p \<longleftrightarrow> set (vc_required (pc_validity p)) \<subseteq> set (map me_id (pc_manifest p))"

definition intact_statement :: "crypto \<Rightarrow> cert_codec \<Rightarrow> time \<Rightarrow> verify_options \<Rightarrow> portable_statement \<Rightarrow> bool" where
  "intact_statement cr cc clock opts stmt \<longleftrightarrow> (let p = st_predicate stmt in
     producer_trusted opts p \<and> compute_certificate_digest cr cc p = Some (pc_digest p) \<and>
     subject_bound stmt \<and> expected_subject opts p \<and> evidence_bound p \<and> required_present p \<and>
     in_window clock opts p \<and> validate_validity (pc_validity p) = None)"

lemma digest_error_None:
  "digest_error cr cc p = None \<longleftrightarrow> compute_certificate_digest cr cc p = Some (pc_digest p)"
  by (auto simp: digest_error_def compute_certificate_digest_def split: option.splits)

lemma subject_error_None:
  "subject_error opts stmt = None \<longleftrightarrow> subject_bound stmt \<and> expected_subject opts (st_predicate stmt)"
  by (cases "st_subject stmt") (auto simp: subject_error_def subject_bound_def expected_subject_def Let_def)

lemma statement_error_None:
  "statement_error cr cc clock opts stmt = None \<longleftrightarrow> intact_statement cr cc clock opts stmt"
proof -
  let ?p = "st_predicate stmt"
  have m: "(\<forall>e \<in> set (pc_manifest ?p). manifest_error ?p e = None) \<and> pc_manifest ?p \<noteq> [] \<longleftrightarrow> evidence_bound ?p"
    by (auto simp: manifest_error_def evidence_bound_def list_all_iff first_some_None)
  have r: "(\<forall>i \<in> set (vc_required (pc_validity ?p)). required_error ?p i = None) \<longleftrightarrow> required_present ?p"
    by (auto simp: required_error_def required_present_def)
  have t: "temporal_error clock opts ?p = None \<longleftrightarrow> in_window clock opts ?p"
    by (auto simp: temporal_error_def in_window_def first_some_None)
  have pr: "producer_error opts ?p = None \<longleftrightarrow> producer_trusted opts ?p"
    by (auto simp: producer_error_def producer_trusted_def)
  show ?thesis
    unfolding statement_error_def Let_def first_some_None
    by (simp add: ball_Un digest_error_None subject_error_None pr t intact_statement_def Let_def
        m [symmetric] r [symmetric]) blast
qed

lemma schema_error_None:
  "schema_error stmt = None \<longleftrightarrow> st_type stmt = InTotoStatementTypeV1 \<and>
     st_predicate_type stmt = AssuranceCertificatePredicateV1 \<and>
     pc_schema (st_predicate stmt) = PortableCertificateSchemaVersion"
  by (auto simp: schema_error_def first_some_None)

lemma fail_report_sel [simp]: "snd (fail_report r e) = Some e" "or_crypto (fst (fail_report r e)) = or_crypto r"
  by (simp_all add: fail_report_def)

lemma empty_report_sel [simp]: "\<not> or_crypto empty_report" "\<not> or_crypto (identify_report k s)"
  "or_statement empty_report = None" "or_statement (identify_report k s) = Some s" "or_key (identify_report k s) = k"
  by (simp_all add: empty_report_def identify_report_def)

lemma judge_sel [simp]:
  "or_crypto (judge_certificate opts p r)" "or_statement (judge_certificate opts p r) = or_statement r"
  "or_key (judge_certificate opts p r) = or_key r" "or_cert (judge_certificate opts p r) = or_cert r"
  "or_safe (judge_certificate opts p r) = subject_is_safe p"
  "or_accepted (judge_certificate opts p r) \<longleftrightarrow> subject_is_safe p \<and>
     (case vo_policy opts of None \<Rightarrow> True | Some lp \<Rightarrow> policy_rejections lp p = [])"
  by (simp_all add: judge_certificate_def Let_def split: option.splits)

text \<open>The statement an envelope carries, if it is signed by a trusted root.\<close>

definition carries :: "crypto \<Rightarrow> cert_codec \<Rightarrow> verify_options \<Rightarrow> signed_certificate \<Rightarrow> string \<Rightarrow> portable_statement \<Rightarrow> bool" where
  "carries cr cc opts env kid stmt \<longleftrightarrow> sg_payload_type env = InTotoPayloadType \<and> kid \<noteq> [] \<and>
     (\<exists>payload. b64_decode (sg_payload env) = Some payload \<and> cc_decode cc payload = Some stmt \<and>
        root_key_id cr (vo_keys opts) (dsse_pae InTotoPayloadType payload) (sg_signatures env) = kid) \<and>
     schema_error stmt = None"

lemma root_key_id_sound:
  "root_key_id cr keys pae ss \<noteq> [] \<Longrightarrow>
   \<exists>s \<in> set ss. sig_keyid s = root_key_id cr keys pae ss \<and> root_signature_ok cr keys pae s"
  by (induction ss) (auto split: if_splits)

lemma root_key_id_no_keys [simp]: "root_key_id cr [] pae ss = []"
  by (induction ss) (simp_all add: root_signature_ok_def)

lemma verify_carried:
  assumes "carries cr cc opts env kid stmt"
  shows "verify_portable_certificate cr cc clock env opts =
    (case statement_error cr cc clock opts stmt of
       Some e \<Rightarrow> fail_report (identify_report kid stmt) e
     | None \<Rightarrow> (judge_certificate opts (st_predicate stmt) (identify_report kid stmt), None))"
proof -
  from assms obtain payload where p: "b64_decode (sg_payload env) = Some payload" "cc_decode cc payload = Some stmt"
    "root_key_id cr (vo_keys opts) (dsse_pae InTotoPayloadType payload) (sg_signatures env) = kid"
    and k: "kid \<noteq> []" and t: "sg_payload_type env = InTotoPayloadType" and s: "schema_error stmt = None"
    unfolding carries_def by blast
  have "sg_signatures env \<noteq> []" "vo_keys opts \<noteq> []" using p(3) k by auto
  then show ?thesis
    unfolding verify_portable_certificate_def using p k s by (simp add: t)
qed

lemma verify_ok:
  "or_crypto (fst (verify_portable_certificate cr cc clock env opts)) \<longleftrightarrow>
     (\<exists>kid stmt. carries cr cc opts env kid stmt \<and> intact_statement cr cc clock opts stmt)"
    (is "?v \<longleftrightarrow> ?c")
proof
  assume v: ?v
  have h: "sg_payload_type env = InTotoPayloadType" "sg_signatures env \<noteq> []" "vo_keys opts \<noteq> []"
    using v by (auto simp: verify_portable_certificate_def split: if_splits)
  obtain payload where p: "b64_decode (sg_payload env) = Some payload"
    using v h by (cases "b64_decode (sg_payload env)") (auto simp: verify_portable_certificate_def)
  let ?k = "root_key_id cr (vo_keys opts) (dsse_pae InTotoPayloadType payload) (sg_signatures env)"
  have k: "?k \<noteq> []" using v h p by (auto simp: verify_portable_certificate_def)
  obtain stmt where st: "cc_decode cc payload = Some stmt"
    using v h p k by (cases "cc_decode cc payload") (auto simp: verify_portable_certificate_def)
  have s: "schema_error stmt = None"
    using v h p k st by (cases "schema_error stmt") (auto simp: verify_portable_certificate_def)
  have c: "carries cr cc opts env ?k stmt" using h p k st s by (auto simp: carries_def)
  have "statement_error cr cc clock opts stmt = None"
    using v unfolding verify_carried [OF c] by (cases "statement_error cr cc clock opts stmt") auto
  with c show ?c unfolding statement_error_None by blast
next
  assume ?c
  then show ?v by (auto simp: verify_carried statement_error_None [symmetric])
qed

lemma verify_error_iff:
  "snd (verify_portable_certificate cr cc clock env opts) = None \<longleftrightarrow>
   or_crypto (fst (verify_portable_certificate cr cc clock env opts))"
  unfolding verify_portable_certificate_def by (simp add: Let_def split: option.split)

section \<open>Issue, sign, verify\<close>

lemma valid_issued_subject:
  assumes "new_portable_statement cr cc p0 = Inr stmt"
  shows "subject_bound stmt" and "evidence_bound (st_predicate stmt)" and "schema_error stmt = None"
proof -
  let ?p = "st_predicate stmt"
  note i = issued_sound [OF assms]
  have ok: "predicate_errors ?p = None" "list_all (sound_entry ?p) (pc_manifest ?p)"
    using i(1) by (simp_all add: sound_predicate_def)
  note e = predicate_errors_NoneD [OF ok(1)]
  note d = normalize_valid [OF e(2)]
  have st: "st_subject stmt = [\<lparr>rd_name = ps_name (pc_subject ?p),
      rd_digest = [(''sha256'', trim_prefix (ps_digest (pc_subject ?p)) ''sha256:'')]\<rparr>]"
    "st_type stmt = InTotoStatementTypeV1" "st_predicate_type stmt = AssuranceCertificatePredicateV1"
    by (subst i(3), simp add: statement_of_def)+
  show "subject_bound stmt" by (simp add: subject_bound_def Let_def st(1) d e(2))
  show "schema_error stmt = None" by (simp add: schema_error_None st e(1))
  have "normalize_sha256 (me_subject x) = normalize_sha256 (ps_digest (pc_subject ?p)) \<and> valid_sha256 (me_digest x)"
    if "x \<in> set (pc_manifest ?p)" for x
    using ok(2) that by (simp add: list_all_iff sound_entry_def)
  then show "evidence_bound ?p" using e(6) by (simp add: evidence_bound_def list_all_iff)
qed

text \<open>The conditions under which the holder of an issued certificate can have it verified.\<close>

definition verifiable_now :: "time \<Rightarrow> verify_options \<Rightarrow> portable_predicate \<Rightarrow> bool" where
  "verifiable_now clock opts p \<longleftrightarrow> producer_trusted opts p \<and> expected_subject opts p \<and> required_present p \<and>
     in_window clock opts p"

lemma intact_issued:
  assumes "new_portable_statement cr cc p0 = Inr stmt"
  shows "intact_statement cr cc clock opts stmt \<longleftrightarrow> verifiable_now clock opts (st_predicate stmt)"
proof -
  note i = issued_sound [OF assms]
  have "predicate_errors (st_predicate stmt) = None" using i(1) by (simp add: sound_predicate_def)
  note e = predicate_errors_NoneD [OF this]
  show ?thesis
    using valid_issued_subject [OF assms] i(2) e(8)
    by (auto simp: intact_statement_def verifiable_now_def Let_def)
qed

lemma carries_signed:
  assumes n: "new_portable_statement cr cc p0 = Inr stmt"
    and s: "sign_portable_certificate cr cc stmt key key_id = Inr env"
    and k: "signing_key cr key"
    and t: "map_of (vo_keys opts) kid = Some (ed_public cr key)" "kid \<noteq> []"
      "kid = (if key_id = [] then KeyID cr (ed_public cr key) else key_id)"
    and d: "\<And>payload. canonical_json (statement_json cc stmt) = Some payload \<Longrightarrow> cc_decode cc payload = Some stmt"
  shows "carries cr cc opts env kid stmt"
proof -
  from s obtain payload where p: "canonical_json (statement_json cc stmt) = Some payload"
    and env: "env = \<lparr>sg_payload_type = InTotoPayloadType, sg_payload = b64_encode payload,
      sg_signatures = [sign_digest cr key key_id InTotoPayloadType payload]\<rparr>"
    by (auto simp: sign_portable_certificate_def split: if_splits option.splits)
  have kid: "sig_keyid (sign_digest cr key key_id InTotoPayloadType payload) = kid"
    using t(3) by (simp add: sign_digest_def)
  have "root_signature_ok cr (vo_keys opts) (dsse_pae InTotoPayloadType payload)
      (sign_digest cr key key_id InTotoPayloadType payload)"
    using t(1) k by (simp add: root_signature_ok_def kid) (simp add: sign_digest_def signing_key_def)
  then show ?thesis
    using t(2) d [OF p] valid_issued_subject(3) [OF n] by (simp add: carries_def env kid)
qed

text \<open>
  C15. A certificate that is issued and signed verifies offline under the signer's key exactly when the
  producer is trusted, the artifact is the expected one, every required evidence is in the manifest
  and the verification time lies between issue and expiry; the verdict on the subject is then that
  of the predicate.
\<close>

theorem issued_certificate_verifies:
  assumes "new_portable_statement cr cc p0 = Inr stmt"
    and "sign_portable_certificate cr cc stmt key key_id = Inr env"
    and "signing_key cr key"
    and "map_of (vo_keys opts) kid = Some (ed_public cr key)" and "kid \<noteq> []"
    and "kid = (if key_id = [] then KeyID cr (ed_public cr key) else key_id)"
    and "\<And>payload. canonical_json (statement_json cc stmt) = Some payload \<Longrightarrow> cc_decode cc payload = Some stmt"
  shows "let r = fst (verify_portable_certificate cr cc clock env opts) in
    (or_crypto r \<longleftrightarrow> verifiable_now clock opts (st_predicate stmt)) \<and>
    (or_safe r \<longleftrightarrow> or_crypto r \<and> subject_is_safe (st_predicate stmt)) \<and> or_key r = kid"
proof -
  note c = carries_signed [OF assms(1-7)]
  note v = verify_carried [OF c, of clock] and n = statement_error_None [of cr cc clock opts stmt]
    and i = intact_issued [OF assms(1), of clock opts]
  show ?thesis
  proof (cases "statement_error cr cc clock opts stmt")
    case None
    then show ?thesis using n i by (simp add: v Let_def)
  next
    case (Some e)
    then have "\<not> verifiable_now clock opts (st_predicate stmt)" using n i by simp
    with Some show ?thesis
      by (simp add: v Let_def) (simp add: fail_report_def identify_report_def empty_report_def)
  qed
qed

section \<open>What acceptance means\<close>

definition policy_satisfied :: "verify_options \<Rightarrow> portable_predicate \<Rightarrow> bool" where
  "policy_satisfied opts p \<longleftrightarrow>
     (case vo_policy opts of None \<Rightarrow> True
      | Some lp \<Rightarrow> (lp_policy_id lp = [] \<or> pb_id (pc_policy p) = lp_policy_id lp) \<and>
          (lp_policy_digest lp = [] \<or> normalize_sha256 (pb_digest (pc_policy p)) = normalize_sha256 (lp_policy_digest lp)) \<and>
          (\<not> lp_no_limitations lp \<or> pc_limitations p = []) \<and> set (lp_methods lp) \<subseteq> set (pc_methods p))"

definition environment_satisfied :: "import_environment \<Rightarrow> portable_predicate \<Rightarrow> bool" where
  "environment_satisfied en p \<longleftrightarrow>
     map_of (en_revoked en) (pc_digest p) \<noteq> Some True \<and>
     list_all (\<lambda>(k, v). map_of (en_attributes en) k = Some v) (vc_env (pc_validity p)) \<and>
     (\<not> en_complete_coverage en \<or> cv_complete (pc_coverage p)) \<and>
     \<not> (f_less (Finite 0) (en_min_ratio en) \<and> f_less (cv_ratio (pc_coverage p)) (en_min_ratio en)) \<and>
     set (en_methods en) \<subseteq> set (pc_methods p) \<and>
     (pc_limitations p = [] \<or> (''*'' \<notin> set (en_forbidden en) \<and> set (pc_limitations p) \<inter> set (en_forbidden en) = {})) \<and>
     list_all (\<lambda>d. di_manifest_digest d = [] \<or>
       map_of (en_dependencies en) (di_package d) \<in> {None, Some (di_manifest_digest d)}) (pc_dependencies p)"

lemma policy_rejections_Nil:
  assumes "subject_is_safe p"
  shows "(case vo_policy opts of None \<Rightarrow> True | Some lp \<Rightarrow> policy_rejections lp p = []) \<longleftrightarrow> policy_satisfied opts p"
  using assms by (auto simp: policy_rejections_def policy_satisfied_def subject_is_safe_def filter_empty_conv split: option.split)

lemma environment_rejections_Nil:
  "environment_rejections opts en r p = [] \<longleftrightarrow>
     (or_safe r \<or> or_rejections r = []) \<and> (vo_policy opts = None \<or> or_accepted r \<or> or_rejections r = []) \<and>
     environment_satisfied en p"
proof -
  have c: "constraint_rejections en p = [] \<longleftrightarrow>
      list_all (\<lambda>(k, v). map_of (en_attributes en) k = Some v) (vc_env (pc_validity p))"
    by (auto simp: constraint_rejections_def list_all_iff split: if_splits)
  have d: "dependency_rejections en p = [] \<longleftrightarrow> list_all (\<lambda>d. di_manifest_digest d = [] \<or>
       map_of (en_dependencies en) (di_package d) \<in> {None, Some (di_manifest_digest d)}) (pc_dependencies p)"
  proof -
    have "(case map_of (en_dependencies en) (di_package d) of None \<Rightarrow> []
        | Some current \<Rightarrow> if di_manifest_digest d \<noteq> [] \<and> current \<noteq> di_manifest_digest d
            then [DependencyDrifted (di_package d) (di_manifest_digest d) current] else []) = [] \<longleftrightarrow>
        di_manifest_digest d = [] \<or> map_of (en_dependencies en) (di_package d) \<in> {None, Some (di_manifest_digest d)}"
      for d :: dependency_identity by (cases "map_of (en_dependencies en) (di_package d)") auto
    then show ?thesis by (simp add: dependency_rejections_def list_all_iff)
  qed
  have l: "limitation_rejections en p = [] \<longleftrightarrow>
      pc_limitations p = [] \<or> (''*'' \<notin> set (en_forbidden en) \<and> set (pc_limitations p) \<inter> set (en_forbidden en) = {})"
    by (auto simp: limitation_rejections_def filter_empty_conv)
  show ?thesis
    unfolding environment_rejections_def append_is_Nil_conv c d l environment_satisfied_def coverage_rejections_def
    by (auto simp: filter_empty_conv)
qed

lemma import_accepted:
  "im_accepted (fst (import_certificate cr cc clock env opts en)) \<longleftrightarrow>
     (\<exists>kid stmt. carries cr cc opts env kid stmt \<and> intact_statement cr cc clock opts stmt \<and>
        subject_is_safe (st_predicate stmt) \<and> policy_satisfied opts (st_predicate stmt) \<and>
        environment_satisfied en (st_predicate stmt))" (is "?a \<longleftrightarrow> ?e")
proof -
  let ?v = "verify_portable_certificate cr cc clock env opts"
  have key: "?a \<longleftrightarrow> subject_is_safe (st_predicate stmt) \<and> policy_satisfied opts (st_predicate stmt) \<and>
        environment_satisfied en (st_predicate stmt)"
    if c: "carries cr cc opts env kid stmt" and i: "intact_statement cr cc clock opts stmt" for kid stmt
  proof -
    let ?p = "st_predicate stmt" and ?j = "judge_certificate opts (st_predicate stmt) (identify_report kid stmt)"
    have v: "?v = (?j, None)" using i by (simp add: verify_carried [OF c] statement_error_None [symmetric])
    have r: "or_rejections ?j \<noteq> []" if "\<not> subject_is_safe ?p"
      using that by (simp add: judge_certificate_def)
    have "?a \<longleftrightarrow> environment_rejections opts en ?j ?p = []"
      by (simp add: import_certificate_def v Let_def)
    also have "\<dots> \<longleftrightarrow> subject_is_safe ?p \<and> (vo_policy opts = None \<or> or_accepted ?j \<or> or_rejections ?j = []) \<and>
        environment_satisfied en ?p"
      unfolding environment_rejections_Nil using r by auto
    also have "\<dots> \<longleftrightarrow> subject_is_safe ?p \<and> policy_satisfied opts ?p \<and> environment_satisfied en ?p"
      using policy_rejections_Nil [of ?p opts]
      by (auto simp: judge_certificate_def policy_satisfied_def split: option.splits)
    finally show ?thesis .
  qed
  have crypto: "or_crypto (fst ?v)" if ?a
    using that by (auto simp: import_certificate_def Let_def split: prod.splits if_splits option.splits)
  show ?thesis
  proof
    assume a: ?a
    with crypto obtain kid stmt where "carries cr cc opts env kid stmt" "intact_statement cr cc clock opts stmt"
      unfolding verify_ok by blast
    with a key show ?e by blast
  next
    assume ?e
    with key show ?a by blast
  qed
qed

section \<open>A concrete certificate\<close>

lemma pii_email_consumes: "consumes 6 email_pii_regex"
  unfolding email_pii_regex_def
  by (rule consumes_seq_le [OF consumes_min consumes_seq [OF consumes_class consumes_seq [OF consumes_min
        consumes_seq [OF consumes_class consumes_min]]]]) simp

lemma consumes_ssn: "consumes 6 ssn_pii_regex"
  unfolding ssn_pii_regex_def
  by (rule consumes_seq_le [OF consumes_times consumes_seq [OF consumes_class consumes_seq [OF consumes_times
        consumes_seq [OF consumes_class consumes_times]]]]) simp

lemma find_word_length: "consumes n m \<Longrightarrow> find_word m a s \<Longrightarrow> n \<le> length s"
proof (induction s arbitrary: a)
  case (Cons c cs)
  show ?case
  proof (cases "match_word m a (c # cs)")
    case True
    then obtain r where "r \<in> set (m (c # cs))" by (auto simp: match_word_def list_ex_iff)
    with Cons.prems(1) show ?thesis by (fastforce simp: consumes_def)
  next
    case False
    with Cons show ?thesis by fastforce
  qed
qed simp

text \<open>A text of fewer than six bytes is neither a credential nor personal data.\<close>

lemma short_not_sensitive: "length (trim_space v) < 6 \<Longrightarrow> sensitive_value v = None"
  using short_no_credential [of "trim_space v"] length_runes [of "trim_space v"]
    find_word_length [OF pii_email_consumes, of False "runes (trim_space v)"]
    find_word_length [OF consumes_ssn, of False "runes (trim_space v)"]
  by (auto simp: sensitive_value_def Let_def)

lemma json_Arr_None: "json_text (JArr xs) = None \<longleftrightarrow> (\<exists>x \<in> set xs. json_text x = None)"
proof -
  have "json_elems xs = None \<longleftrightarrow> (\<exists>x \<in> set xs. json_text x = None)"
    by (induction xs) (auto split: option.splits)
  then show ?thesis by simp
qed

lemma json_Obj_None: "json_text (JObj ms) = None \<longleftrightarrow> (\<exists>m \<in> set ms. json_text (snd m) = None)"
  by (force simp: json_members_None)

lemma json_strs_Some: "json_text (JArr (map JStr ss)) \<noteq> None" "json_text (strs_json ss) \<noteq> None"
  by (auto simp: json_Arr_None strs_json_def simp del: json_text.simps(5) not_None_eq)

lemma json_list_None: "json_text (list_json f xs) = None \<longleftrightarrow> (\<exists>x \<in> set xs. json_text (f x) = None)"
  by (auto simp: json_Arr_None list_json_def simp del: json_text.simps(5))

definition hex64 :: string where "hex64 = replicate 64 (CHR ''a'')"

definition sample_predicate :: portable_predicate where
  "sample_predicate = \<lparr>pc_schema = [],
     pc_subject = \<lparr>ps_id = ''s'', ps_name = ''n'', ps_version = [], ps_digest = ''sha256:'' @ hex64,
       ps_type = ''skill'', ps_source = []\<rparr>,
     pc_producer = \<lparr>pp_id = ''p'', pp_name = ''p'', pp_version = ''1''\<rparr>,
     pc_scanner = \<lparr>pn_id = ''c'', pn_version = ''1'', pn_rules = ''sha256:'' @ hex64\<rparr>,
     pc_policy = \<lparr>pb_id = ''d'', pb_digest = ''sha256:'' @ hex64\<rparr>,
     pc_state = AssuranceSafe, pc_outcome = OutcomeComplete,
     pc_proof = \<lparr>op_outcome = OutcomeComplete, op_evidence = [''e''], op_policy_id = [], op_applicability = [],
       op_unresolved = []\<rparr>,
     pc_manifest = [\<lparr>me_id = ''e'', me_type = ''scan'', me_subject = ''sha256:'' @ hex64,
       me_digest = ''sha256:'' @ hex64, me_class = ''VERIFIED'', me_required = True\<rparr>],
     pc_coverage = \<lparr>cv_universe = [\<lparr>cs_id = ''u'', cs_physical_digest = [], cs_source = [], cs_owner = [],
         cs_disposition = CoverageDiscovered, cs_required = True, cs_evidence = []\<rparr>],
       cv_ratio = Finite 1, cv_complete = True\<rparr>,
     pc_methods = [''scan''], pc_limitations = [],
     pc_validity = \<lparr>vc_from = 1000, vc_until = 2000, vc_required = [''e''], vc_env = [(''os'', ''linux'')],
       vc_interval = 0, vc_unobserved = [], vc_proof_valid = True\<rparr>,
     pc_dependencies = [], pc_issued = 1000, pc_expires = 9000, pc_digest = []\<rparr>"

definition sample_codec :: "portable_statement \<Rightarrow> cert_codec" where
  "sample_codec stmt = \<lparr>cc_float = (\<lambda>_. ''1''), cc_decode = (\<lambda>_. Some stmt)\<rparr>"

lemma valid_hex64: "valid_sha256 (''sha256:'' @ hex64)"
  by (simp add: valid_sha256_def has_prefix_iff trim_prefix_def hex64_def hex_char_def list_all_iff)

lemma sample_normalized:
  "normalize_predicate sample_predicate = sample_predicate\<lparr>pc_schema := PortableCertificateSchemaVersion\<rparr>"
  using normalize_valid(1) [OF valid_hex64] by (simp add: normalize_predicate_def sample_predicate_def)

lemma sample_entries: "map normalize_entry (pc_manifest sample_predicate) = pc_manifest sample_predicate"
  using normalize_valid(1) [OF valid_hex64] by (simp add: normalize_entry_def sample_predicate_def)

lemma sample_sound: "sound_predicate (normalize_predicate sample_predicate)"
proof -
  have "predicate_errors (normalize_predicate sample_predicate) = None"
    unfolding sample_normalized using valid_hex64
    by (simp add: predicate_errors_def sample_predicate_def known_state_def known_outcome_def validate_outcome_def
        validate_validity_def time_is_zero_def OutcomeComplete_def)
  moreover have "list_all (sound_entry (normalize_predicate sample_predicate)) (pc_manifest sample_predicate)"
    unfolding sample_normalized using valid_hex64
    by (simp add: sound_entry_def sample_predicate_def known_class_def)
  moreover have "contains_sensitive_or_pii (inspected_strings (normalize_predicate sample_predicate)) = None"
    unfolding sample_normalized sensitive_set
    by (simp add: inspected_strings_def sample_predicate_def short_not_sensitive plain_edge_def ascii_space_def)
  ultimately show ?thesis by (simp add: sound_predicate_def sample_normalized)
qed

text \<open>The text of a predicate exists whenever its times are representable and its ratio is a number.\<close>

lemma predicate_json_None:
  "canonical_json (predicate_json cc p) = None \<longleftrightarrow>
     \<not> (time_year_ok (pc_issued p) \<and> time_year_ok (pc_expires p) \<and> time_year_ok (vc_from (pc_validity p)) \<and>
        time_year_ok (vc_until (pc_validity p)) \<and> cv_ratio (pc_coverage p) \<noteq> NaN)"
proof -
  note leaf = json_Obj_None json_Arr_None json_strs_Some json_list_None
  note fields = omit_str_def omit_strs_def omit_int_def float_json_def time_json_def
  have "json_text (portable_subject_json x) \<noteq> None" "json_text (portable_producer_json a) \<noteq> None"
    "json_text (portable_scanner_json b) \<noteq> None" "json_text (policy_binding_json c) \<noteq> None"
    "json_text (manifest_entry_json d) \<noteq> None" for x a b c d
    unfolding portable_subject_json_def portable_producer_json_def portable_scanner_json_def policy_binding_json_def
      manifest_entry_json_def
    by (simp_all only: leaf) (auto simp: fields)
  moreover have "json_text (coverage_subject_json e) \<noteq> None" "json_text (outcome_proof_json f) \<noteq> None"
    "json_text (dependency_identity_json g) \<noteq> None" for e f g
    unfolding coverage_subject_json_def outcome_proof_json_def dependency_identity_json_def location_json_def
    by (simp_all only: leaf) (auto simp: fields leaf simp del: json_text.simps(5,6) not_None_eq)
  moreover have "json_text (coverage_summary_json cc c) = None \<longleftrightarrow> cv_ratio c = NaN" for c
    unfolding coverage_summary_json_def using calculation
    by (cases "cv_ratio c") (simp_all add: fields leaf del: json_text.simps(5,6))
  moreover have "json_text (validity_json v) = None \<longleftrightarrow> \<not> (time_year_ok (vc_from v) \<and> time_year_ok (vc_until v))" for v
    unfolding validity_json_def by (auto simp add: fields leaf simp del: json_text.simps(5,6) not_None_eq)
  ultimately show ?thesis
    unfolding canonical_json_def predicate_json_def
    by (auto simp add: fields leaf simp del: json_text.simps(5,6) not_None_eq)
qed

lemma new_statement_exists:
  assumes "sound_predicate (normalize_predicate p)"
    and "map normalize_entry (pc_manifest p) = pc_manifest p"
    and "canonical_json (predicate_json cc ((sorted_predicate (normalize_predicate p))\<lparr>pc_digest := []\<rparr>)) \<noteq> None"
  shows "\<exists>stmt. new_portable_statement cr cc p = Inr stmt"
proof -
  have "pc_manifest (normalize_predicate p) = pc_manifest p" by (simp add: normalize_predicate_def)
  with assms show ?thesis
    unfolding new_statement_iff by (auto simp: sound_predicate_def compute_certificate_digest_def)
qed

lemma sample_times_ok: "time_year_ok 1000 \<and> time_year_ok 2000 \<and> time_year_ok 9000"
  by code_simp

text \<open>The sample as it is issued, for whatever decoder.\<close>

definition issued_sample :: portable_statement where
  "issued_sample = projr (new_portable_statement toy_crypto (sample_codec (statement_of sample_predicate)) sample_predicate)"

lemma compute_digest_sample_codec:
  "compute_certificate_digest cr (sample_codec s) p = compute_certificate_digest cr (sample_codec t) p"
proof -
  have "float_json (sample_codec s) = float_json (sample_codec t)"
    by (simp add: fun_eq_iff float_json_def sample_codec_def split: float64.split)
  then show ?thesis
    by (simp only: compute_certificate_digest_def predicate_json_def coverage_summary_json_def)
qed

lemma new_sample_codec: "new_portable_statement cr (sample_codec s) p = new_portable_statement cr (sample_codec t) p"
  unfolding new_portable_statement_def compute_digest_sample_codec [of cr s _ t] by (rule refl)

lemma issued_sample: "new_portable_statement toy_crypto (sample_codec t) sample_predicate = Inr issued_sample"
proof -
  have "canonical_json (predicate_json cc ((sorted_predicate (normalize_predicate sample_predicate))\<lparr>pc_digest := []\<rparr>)) \<noteq> None" for cc
    unfolding predicate_json_None sample_normalized using sample_times_ok
    by (simp add: sorted_predicate_def sample_predicate_def)
  from new_statement_exists [OF sample_sound sample_entries this] obtain stmt where
    "new_portable_statement toy_crypto (sample_codec (statement_of sample_predicate)) sample_predicate = Inr stmt" by blast
  then show ?thesis unfolding new_sample_codec [of _ t _ "statement_of sample_predicate"] issued_sample_def by simp
qed

lemma issued_sample_sel:
  "pc_state (st_predicate issued_sample) = AssuranceSafe" "pc_validity (st_predicate issued_sample) = pc_validity sample_predicate"
  "pc_issued (st_predicate issued_sample) = 1000" "pc_expires (st_predicate issued_sample) = 9000"
  "map me_id (pc_manifest (st_predicate issued_sample)) = [''e'']" "subject_is_safe (st_predicate issued_sample)"
  "pc_limitations (st_predicate issued_sample) = []" "pc_dependencies (st_predicate issued_sample) = []"
proof -
  obtain d where i: "issued_sample = statement_of ((sorted_predicate (normalize_predicate sample_predicate))\<lparr>pc_digest := d\<rparr>)"
    using issued_sample [of undefined] unfolding new_statement_iff by blast
  note sample = sorted_predicate_def sample_predicate_def statement_of_def sort_strings_def
  show "pc_state (st_predicate issued_sample) = AssuranceSafe" "pc_validity (st_predicate issued_sample) = pc_validity sample_predicate"
    "pc_issued (st_predicate issued_sample) = 1000" "pc_expires (st_predicate issued_sample) = 9000"
    "map me_id (pc_manifest (st_predicate issued_sample)) = [''e'']" "pc_limitations (st_predicate issued_sample) = []"
    "pc_dependencies (st_predicate issued_sample) = []"
    unfolding i sample_normalized by (simp_all add: sample)
  show "subject_is_safe (st_predicate issued_sample)"
    unfolding i sample_normalized
    by (simp add: sample subject_is_safe_def certificate_coverage_def coverage_complete_def proof_complete_def
        validate_outcome_def unknown_required_evidence_def OutcomeComplete_def)
qed

definition sample_envelope :: signed_certificate where
  "sample_envelope = projr (sign_portable_certificate toy_crypto (sample_codec issued_sample) issued_sample hex64 ''kid'')"

lemma sample_envelope:
  "sign_portable_certificate toy_crypto (sample_codec issued_sample) issued_sample hex64 ''kid'' = Inr sample_envelope"
proof -
  have "cv_ratio (pc_coverage (st_predicate issued_sample)) = Finite 1"
  proof -
    obtain d where i: "issued_sample = statement_of ((sorted_predicate (normalize_predicate sample_predicate))\<lparr>pc_digest := d\<rparr>)"
      using issued_sample [of undefined] unfolding new_statement_iff by blast
    show ?thesis unfolding i sample_normalized by (simp add: sample_predicate_def statement_of_def)
  qed
  then have "canonical_json (predicate_json cc (st_predicate issued_sample)) \<noteq> None" for cc
    unfolding predicate_json_None using sample_times_ok by (simp add: issued_sample_sel sample_predicate_def)
  then have "canonical_json (statement_json cc issued_sample) \<noteq> None" for cc
    unfolding canonical_json_def statement_json_def
    by (simp add: json_Obj_None json_list_None rd_json_def split_beta del: json_text.simps(5,6) not_None_eq)
  then obtain payload where "canonical_json (statement_json (sample_codec issued_sample) issued_sample) = Some payload"
    by blast
  then show ?thesis
    unfolding sample_envelope_def by (simp add: sign_portable_certificate_def hex64_def)
qed

definition sample_options :: verify_options where
  "sample_options = \<lparr>vo_expected = [], vo_keys = [(''kid'', ed_public toy_crypto hex64)], vo_producers = [],
     vo_time = 5000, vo_skew = 0, vo_policy = None\<rparr>"

definition sample_environment :: import_environment where
  "sample_environment = \<lparr>en_id = ''ci'', en_policy_id = [], en_policy_digest = [], en_methods = [], en_forbidden = [],
     en_complete_coverage = False, en_min_ratio = Finite 0, en_attributes = [(''os'', ''linux'')],
     en_dependencies = [], en_revoked = []\<rparr>"

lemma sample_verifiable: "verifiable_now clock sample_options (st_predicate issued_sample)"
proof -
  have "required_present (st_predicate issued_sample)"
    unfolding required_present_def issued_sample_sel by (simp add: sample_predicate_def)
  then show ?thesis
    by (simp add: verifiable_now_def producer_trusted_def expected_subject_def in_window_def effective_time_def
        effective_skew_def time_is_zero_def sample_options_def issued_sample_sel)
qed

lemma sample_carries:
  "carries toy_crypto (sample_codec issued_sample) sample_options sample_envelope ''kid'' issued_sample"
  by (rule carries_signed [OF issued_sample sample_envelope])
     (simp_all add: sample_options_def sample_codec_def)

lemma sample_accepted:
  "im_accepted (fst (import_certificate toy_crypto (sample_codec issued_sample) clock sample_envelope sample_options
     sample_environment))"
proof -
  have "intact_statement toy_crypto (sample_codec issued_sample) clock sample_options issued_sample"
    unfolding intact_issued [OF issued_sample] by (rule sample_verifiable)
  moreover have "policy_satisfied sample_options (st_predicate issued_sample)"
    by (simp add: policy_satisfied_def sample_options_def)
  moreover have "environment_satisfied sample_environment (st_predicate issued_sample)"
    by (simp add: environment_satisfied_def sample_environment_def issued_sample_sel sample_predicate_def)
  ultimately show ?thesis unfolding import_accepted using sample_carries issued_sample_sel(6) by blast
qed

section \<open>Properties\<close>

lemma issued_certificate_sound_witness:
  "safe_is_complete (st_predicate issued_sample) \<and> pc_state (st_predicate issued_sample) = AssuranceSafe"
  using issued_certificate_sound [OF issued_sample] issued_sample_sel(1) by simp

lemma issued_certificate_verifies_witness:
  "or_safe (fst (verify_portable_certificate toy_crypto (sample_codec issued_sample) 0 sample_envelope sample_options))"
  using issued_certificate_verifies [OF issued_sample sample_envelope, of sample_options "''kid''" 0]
    sample_verifiable [of 0] issued_sample_sel(6)
  by (simp add: sample_options_def sample_codec_def Let_def)

text \<open>
  C6. A certificate accepted into an environment is justified: its payload is signed, under the in-toto
  payload type, by a key the verifier trusts; its digest is that of its predicate, every evidence entry
  and required evidence is bound to the expected subject, producer and times are in order; the subject is
  SAFE and COMPLETE with complete coverage, proof and known evidence; and the verifier's policy and the
  constraints of the environment hold, revocation included.
\<close>

theorem accepted_certificate_justified:
  assumes "im_accepted (fst (import_certificate cr cc clock env opts en))"
  shows "\<exists>payload stmt. \<exists>s \<in> set (sg_signatures env). sg_payload_type env = InTotoPayloadType \<and>
     b64_decode (sg_payload env) = Some payload \<and>
     root_signature_ok cr (vo_keys opts) (dsse_pae InTotoPayloadType payload) s \<and>
     cc_decode cc payload = Some stmt \<and> intact_statement cr cc clock opts stmt \<and>
     subject_is_safe (st_predicate stmt) \<and> policy_satisfied opts (st_predicate stmt) \<and>
     environment_satisfied en (st_predicate stmt)"
proof -
  from assms obtain kid stmt where c: "carries cr cc opts env kid stmt"
    and rest: "intact_statement cr cc clock opts stmt" "subject_is_safe (st_predicate stmt)"
      "policy_satisfied opts (st_predicate stmt)" "environment_satisfied en (st_predicate stmt)"
    unfolding import_accepted by blast
  from c obtain payload where p: "b64_decode (sg_payload env) = Some payload" "cc_decode cc payload = Some stmt"
    "root_key_id cr (vo_keys opts) (dsse_pae InTotoPayloadType payload) (sg_signatures env) = kid" "kid \<noteq> []"
    and t: "sg_payload_type env = InTotoPayloadType"
    unfolding carries_def by blast
  from p(3,4) root_key_id_sound obtain s where "s \<in> set (sg_signatures env)"
    "root_signature_ok cr (vo_keys opts) (dsse_pae InTotoPayloadType payload) s" by blast
  with p t rest show ?thesis by blast
qed

lemma accepted_certificate_justified_witness:
  "\<exists>payload stmt. cc_decode (sample_codec issued_sample) payload = Some stmt \<and>
     environment_satisfied sample_environment (st_predicate stmt) \<and> subject_is_safe (st_predicate stmt)"
  using accepted_certificate_justified [OF sample_accepted [of 0]] by blast

text \<open>
  C28. The validity window of a certificate is never compared with the time: the sample, whose validity
  ended at 2000, is verified, judged safe and imported at time 5000.
\<close>

theorem lapsed_validity_accepted:
  "vc_until (pc_validity (st_predicate issued_sample)) < effective_time 0 sample_options \<and>
   new_portable_statement toy_crypto (sample_codec issued_sample) sample_predicate = Inr issued_sample \<and>
   or_safe (fst (verify_portable_certificate toy_crypto (sample_codec issued_sample) 0 sample_envelope sample_options)) \<and>
   im_accepted (fst (import_certificate toy_crypto (sample_codec issued_sample) 0 sample_envelope sample_options
     sample_environment))"
proof -
  have "or_safe (fst (verify_portable_certificate toy_crypto (sample_codec issued_sample) 0 sample_envelope sample_options))"
  proof -
    have "statement_error toy_crypto (sample_codec issued_sample) 0 sample_options issued_sample = None"
      unfolding statement_error_None intact_issued [OF issued_sample] by (rule sample_verifiable)
    then show ?thesis using issued_sample_sel(6) by (simp add: verify_carried [OF sample_carries])
  qed
  moreover have "vc_until (pc_validity (st_predicate issued_sample)) < effective_time 0 sample_options"
    unfolding issued_sample_sel by (simp add: sample_predicate_def sample_options_def effective_time_def time_is_zero_def)
  ultimately show ?thesis using issued_sample sample_accepted by blast
qed

end
