(* ===== verification/Lockfile.thy ===== *)
theory Lockfile
  imports Go_Strings "HOL-Library.Multiset"
begin

text \<open>
  The skill lockfile, internal/lockfile/lockfile.go: the entries with the normalisation and
  validation of \<open>Load\<close>, the operations \<open>Put\<close>, \<open>Find\<close>, \<open>Remove\<close> and \<open>Verify\<close>, and the atomic \<open>Write\<close>.

  The YAML package is two parameters, the text of a lockfile and the lockfile of a text; the file
  at the path is a \<open>file_state\<close>.  The locale \<open>keyed_store\<close> is the contract of a store of entries
  by key; the lockfile provides it on files whose names are distinct.
\<close>

section \<open>Stores of entries by key\<close>

locale keyed_store =
  fixes valid :: "'s \<Rightarrow> bool" and key :: "'e \<Rightarrow> 'k" and get :: "'s \<Rightarrow> 'k \<Rightarrow> 'e option"
    and put :: "'s \<Rightarrow> 'e \<Rightarrow> 's" and del :: "'s \<Rightarrow> 'k \<Rightarrow> 's"
  assumes get_put: "valid s \<Longrightarrow> get (put s e) = (get s)(key e \<mapsto> e)"
    and get_del: "valid s \<Longrightarrow> get (del s k) = (get s)(k := None)"
    and valid_put: "valid s \<Longrightarrow> valid (put s e)"
    and valid_del: "valid s \<Longrightarrow> valid (del s k)"
begin

text \<open>A sequence of changes: an entry to store or a key to remove.\<close>

definition change :: "'e + 'k \<Rightarrow> 's \<Rightarrow> 's" where
  "change c s = (case c of Inl e \<Rightarrow> put s e | Inr k \<Rightarrow> del s k)"

definition effect :: "'e + 'k \<Rightarrow> ('k \<rightharpoonup> 'e) \<Rightarrow> ('k \<rightharpoonup> 'e)" where
  "effect c m = (case c of Inl e \<Rightarrow> m(key e \<mapsto> e) | Inr k \<Rightarrow> m(k := None))"

lemma valid_change: "valid s \<Longrightarrow> valid (change c s)"
  by (cases c) (simp_all add: change_def valid_put valid_del)

lemma get_change: "valid s \<Longrightarrow> get (change c s) = effect c (get s)"
  by (cases c) (simp_all add: change_def effect_def get_put get_del)

lemma run_changes: "valid s \<Longrightarrow> valid (fold change cs s) \<and> get (fold change cs s) = fold effect cs (get s)"
  by (induction cs arbitrary: s) (simp_all add: valid_change get_change)

text \<open>What is read under a key is decided by the last change of that key.\<close>

definition concerns :: "'k \<Rightarrow> 'e + 'k \<Rightarrow> bool" where
  "concerns k c \<longleftrightarrow> (case c of Inl e \<Rightarrow> key e = k | Inr j \<Rightarrow> j = k)"

lemma effect_other: "\<not> concerns k c \<Longrightarrow> effect c m k = m k"
  by (cases c) (simp_all add: effect_def concerns_def)

lemma last_change_wins:
  assumes "valid s" and "list_all (\<lambda>c. \<not> concerns (key e) c) later"
  shows "get (fold change (earlier @ Inl e # later) s) (key e) = Some e"
proof -
  have "fold effect later m (key e) = m (key e)" for m
    using assms(2) by (induction later arbitrary: m) (simp_all add: effect_other)
  with run_changes [OF assms(1), of "earlier @ Inl e # later"] show ?thesis by (simp add: effect_def)
qed

lemma untouched_key:
  assumes "valid s" and "list_all (\<lambda>c. \<not> concerns k c) cs"
  shows "get (fold change cs s) k = get s k"
proof -
  have "fold effect cs m k = m k" for m
    using assms(2) by (induction cs arbitrary: m) (simp_all add: effect_other)
  with run_changes [OF assms(1), of cs] show ?thesis by simp
qed

end

section \<open>The lockfile\<close>

record lock_entry =
  le_name :: string
  le_version :: string
  le_source :: string
  le_registry :: string
  le_package :: string
  le_content :: string
  le_commit :: string
  le_signature :: string
  le_provenance :: string
  le_artifact :: string
  le_sha256 :: string

record lock_file =
  lf_version :: int
  lf_skills :: "lock_entry list"

definition lower_hex :: "char \<Rightarrow> bool" where
  "lower_hex c \<longleftrightarrow> (CHR ''0'' \<le> c \<and> c \<le> CHR ''9'') \<or> (CHR ''a'' \<le> c \<and> c \<le> CHR ''f'')"

definition sha256_pattern :: "string \<Rightarrow> bool" where
  "sha256_pattern s \<longleftrightarrow> length s = 64 \<and> list_all lower_hex s"

datatype lock_error = UnreadableLock | UndecodableLock | UnsupportedLockVersion int | ConflictingDigests | IncompleteEntry

definition complete_entry :: "lock_entry \<Rightarrow> bool" where
  "complete_entry e \<longleftrightarrow> le_name e \<noteq> [] \<and> le_version e \<noteq> [] \<and> le_source e \<noteq> [] \<and> sha256_pattern (le_package e) \<and>
     (le_content e = [] \<or> sha256_pattern (le_content e)) \<and> le_signature e \<noteq> [] \<and> le_provenance e \<noteq> []"

text \<open>The two legacy fields are folded into the current ones.\<close>

definition load_entry :: "lock_entry \<Rightarrow> lock_error + lock_entry" where
  "load_entry e0 =
     (if le_sha256 e0 \<noteq> [] \<and> le_package e0 \<noteq> [] \<and> le_package e0 \<noteq> le_sha256 e0 then Inl ConflictingDigests
      else
        (let e1 = (if le_sha256 e0 \<noteq> [] then e0\<lparr>le_package := le_sha256 e0\<rparr> else e0);
             e2 = (if le_artifact e1 \<noteq> [] \<and> le_source e1 = [] then e1\<lparr>le_source := le_artifact e1\<rparr> else e1);
             e = e2\<lparr>le_sha256 := [], le_artifact := []\<rparr> in
         if complete_entry e then Inr e else Inl IncompleteEntry))"

fun load_entries :: "lock_entry list \<Rightarrow> lock_error + lock_entry list" where
  "load_entries [] = Inr []"
| "load_entries (e # es) =
     (case load_entry e of
        Inl err \<Rightarrow> Inl err
      | Inr e' \<Rightarrow> (case load_entries es of Inl err \<Rightarrow> Inl err | Inr es' \<Rightarrow> Inr (e' # es')))"

datatype file_state = Absent | Unreadable | Content string

definition load_lock :: "(string \<Rightarrow> lock_file option) \<Rightarrow> file_state \<Rightarrow> lock_error + lock_file" where
  "load_lock decode fs =
     (case fs of
        Absent \<Rightarrow> Inr \<lparr>lf_version = 1, lf_skills = []\<rparr>
      | Unreadable \<Rightarrow> Inl UnreadableLock
      | Content text \<Rightarrow>
          (case decode text of
             None \<Rightarrow> Inl UndecodableLock
           | Some lock \<Rightarrow>
               if lf_version lock \<noteq> 1 then Inl (UnsupportedLockVersion (lf_version lock))
               else (case load_entries (lf_skills lock) of
                       Inl err \<Rightarrow> Inl err
                     | Inr es \<Rightarrow> Inr (lock\<lparr>lf_skills := es\<rparr>))))"

definition put_entry :: "lock_file \<Rightarrow> lock_entry \<Rightarrow> lock_file" where
  "put_entry lock e =
     (let replaced = list_ex (\<lambda>x. le_name x = le_name e) (lf_skills lock);
          es = map (\<lambda>x. if le_name x = le_name e then e else x) (lf_skills lock) in
      lock\<lparr>lf_skills := sort_key le_name (if replaced then es else es @ [e])\<rparr>)"

fun find_named :: "lock_entry list \<Rightarrow> string \<Rightarrow> lock_entry option" where
  "find_named [] n = None"
| "find_named (e # es) n = (if le_name e = n then Some e else find_named es n)"

definition find_entry :: "lock_file \<Rightarrow> string \<Rightarrow> lock_entry option" where
  "find_entry lock n = find_named (lf_skills lock) n"

definition remove_entry :: "lock_file \<Rightarrow> string \<Rightarrow> lock_file" where
  "remove_entry lock n = lock\<lparr>lf_skills := filter (\<lambda>e. le_name e \<noteq> n) (lf_skills lock)\<rparr>"

text \<open>The staging file, its permissions and the rename either all succeed or leave the file alone.\<close>

definition write_lock :: "(lock_file \<Rightarrow> string) \<Rightarrow> bool \<Rightarrow> file_state \<Rightarrow> lock_file \<Rightarrow> file_state \<times> bool" where
  "write_lock encode io_ok fs lock = (if io_ok then (Content (encode lock), True) else (fs, False))"

datatype lock_mismatch = LockedDifferently string | NotLocked string

definition matches_locked :: "lock_entry \<Rightarrow> string \<Rightarrow> string \<Rightarrow> string \<Rightarrow> string \<Rightarrow> bool" where
  "matches_locked e version source package content \<longleftrightarrow>
     le_version e = version \<and> le_source e = source \<and> le_package e = package \<and>
     (le_content e = [] \<or> le_content e = content)"

definition verify_lock :: "lock_file \<Rightarrow> string \<Rightarrow> string \<Rightarrow> string \<Rightarrow> string \<Rightarrow> string \<Rightarrow> lock_mismatch option" where
  "verify_lock lock name version source package content =
     (case find_named (lf_skills lock) name of
        None \<Rightarrow> Some (NotLocked name)
      | Some e \<Rightarrow> if matches_locked e version source package content then None else Some (LockedDifferently name))"

section \<open>The contract\<close>

definition unique_names :: "lock_file \<Rightarrow> bool" where
  "unique_names lock \<longleftrightarrow> distinct (map le_name (lf_skills lock))"

lemma find_named_map_of: "find_named es n = map_of (map (\<lambda>e. (le_name e, e)) es) n"
  by (induction es) auto

lemma map_of_perm:
  assumes "distinct (map fst xs)" and "mset xs = mset ys"
  shows "map_of xs = map_of ys"
proof -
  have "set xs = set ys" using assms(2) by (rule mset_eq_setD)
  moreover have "distinct (map fst ys)"
    using assms by (metis mset_eq_imp_distinct_iff mset_map)
  ultimately show ?thesis using assms(1) map_of_inject_set by blast
qed

lemma lf_skills_set: "lf_skills (lock\<lparr>lf_skills := es\<rparr>) = es"
  by simp

lemma distinct_map_sort_key: "distinct (map f (sort_key g xs)) = distinct (map f xs)"
  using mset_eq_imp_distinct_iff [of "map f (sort_key g xs)" "map f xs"] by simp

lemma unique_names_put: "unique_names lock \<Longrightarrow> unique_names (put_entry lock e)"
proof -
  assume u: "unique_names lock"
  let ?es = "map (\<lambda>x. if le_name x = le_name e then e else x) (lf_skills lock)"
  have "(\<lambda>x. le_name (if le_name x = le_name e then e else x)) = le_name" by auto
  then have names: "map le_name ?es = map le_name (lf_skills lock)" by (simp add: comp_def)
  have "distinct (map le_name (if list_ex (\<lambda>x. le_name x = le_name e) (lf_skills lock) then ?es else ?es @ [e]))"
  proof (cases "list_ex (\<lambda>x. le_name x = le_name e) (lf_skills lock)")
    case True
    then show ?thesis using u by (simp only: if_True names unique_names_def)
  next
    case False
    then have "?es = lf_skills lock" by (intro map_idI) (auto simp: list_ex_iff)
    with False u show ?thesis by (auto simp: unique_names_def list_ex_iff)
  qed
  then show ?thesis
    by (simp only: unique_names_def put_entry_def Let_def lf_skills_set distinct_map_sort_key)
qed

text \<open>What the lockfile says about names, as a map.\<close>

definition lock_view :: "lock_file \<Rightarrow> string \<rightharpoonup> lock_entry" where
  "lock_view lock = map_of (map (\<lambda>e. (le_name e, e)) (lf_skills lock))"

lemma find_entry_view: "find_entry lock = lock_view lock"
  by (simp add: fun_eq_iff find_entry_def find_named_map_of lock_view_def)

lemma map_of_replaced:
  "map_of (map (\<lambda>e. (le_name e, e)) (map (\<lambda>x. if le_name x = le_name e then e else x) es)) n =
     (if n = le_name e \<and> list_ex (\<lambda>x. le_name x = le_name e) es then Some e
      else map_of (map (\<lambda>e. (le_name e, e)) es) n)"
  by (induction es) auto

lemma lock_view_put:
  assumes "unique_names lock"
  shows "lock_view (put_entry lock e) = (lock_view lock)(le_name e \<mapsto> e)"
proof -
  let ?pairs = "map (\<lambda>e. (le_name e, e))"
  let ?r = "list_ex (\<lambda>x. le_name x = le_name e) (lf_skills lock)"
  let ?es = "map (\<lambda>x. if le_name x = le_name e then e else x) (lf_skills lock)"
  let ?n = "if ?r then ?es else ?es @ [e]"
  have sk: "lf_skills (put_entry lock e) = sort_key le_name ?n" by (simp only: put_entry_def Let_def lf_skills_set)
  have d: "distinct (map fst (?pairs (sort_key le_name ?n)))"
    using unique_names_put [OF assms, of e] by (simp only: unique_names_def sk map_map comp_def fst_conv)
  have m: "mset (?pairs (sort_key le_name ?n)) = mset (?pairs ?n)" by (simp only: mset_map mset_sort)
  have "lock_view (put_entry lock e) = map_of (?pairs ?n)"
    unfolding lock_view_def sk by (rule map_of_perm [OF d m])
  also have "\<dots> = (lock_view lock)(le_name e \<mapsto> e)"
  proof
    fix n
    have absent: "\<not> ?r \<Longrightarrow> map_of (?pairs (lf_skills lock)) (le_name e) = None"
      by (auto simp: map_of_eq_None_iff list_ex_iff)
    show "map_of (?pairs ?n) n = ((lock_view lock)(le_name e \<mapsto> e)) n"
    proof (cases ?r)
      case True
      then show ?thesis using map_of_replaced [of e "lf_skills lock" n] by (simp add: lock_view_def)
    next
      case False
      then have "?es = lf_skills lock" by (intro map_idI) (auto simp: list_ex_iff)
      with False absent show ?thesis by (simp add: lock_view_def map_add_def split: option.split)
    qed
  qed
  finally show ?thesis .
qed

lemma lock_view_remove: "lock_view (remove_entry lock n) = (lock_view lock)(n := None)"
proof
  fix m
  have "map_of (map (\<lambda>e. (le_name e, e)) (filter (\<lambda>e. le_name e \<noteq> n) es)) m =
      (if m = n then None else map_of (map (\<lambda>e. (le_name e, e)) es) m)" for es :: "lock_entry list"
    by (induction es) auto
  then show "lock_view (remove_entry lock n) m = ((lock_view lock)(n := None)) m"
    by (simp add: lock_view_def remove_entry_def)
qed

lemma unique_names_remove: "unique_names lock \<Longrightarrow> unique_names (remove_entry lock n)"
  by (simp add: unique_names_def remove_entry_def distinct_map_filter)

interpretation lock: keyed_store unique_names le_name find_entry put_entry remove_entry
  by unfold_locales (simp_all only: find_entry_view lock_view_put lock_view_remove unique_names_put unique_names_remove)

lemma verify_lock_None:
  "verify_lock lock n v s p c = None \<longleftrightarrow> (\<exists>e. find_entry lock n = Some e \<and> matches_locked e v s p c)"
  by (simp add: verify_lock_def find_entry_def split: option.split)

section \<open>Loading what was written\<close>

definition current_form :: "lock_entry \<Rightarrow> bool" where
  "current_form e \<longleftrightarrow> complete_entry e \<and> le_sha256 e = [] \<and> le_artifact e = []"

lemma load_entry_form: "load_entry e = Inr e' \<Longrightarrow> current_form e'"
  by (auto simp: load_entry_def current_form_def Let_def complete_entry_def split: if_splits)

lemma load_entry_id: "current_form e \<Longrightarrow> load_entry e = Inr e"
  by (cases e) (simp add: load_entry_def current_form_def)

lemma load_entries_form: "load_entries es = Inr es' \<Longrightarrow> list_all current_form es'"
  by (induction es arbitrary: es') (auto split: sum.splits dest: load_entry_form)

lemma load_entries_id: "list_all current_form es \<Longrightarrow> load_entries es = Inr es"
  by (induction es) (simp_all add: load_entry_id)

definition loadable :: "lock_file \<Rightarrow> bool" where
  "loadable lock \<longleftrightarrow> lf_version lock = 1 \<and> list_all current_form (lf_skills lock)"

lemma loadable_load: "load_lock decode fs = Inr lock \<Longrightarrow> loadable lock"
  by (auto simp: load_lock_def loadable_def split: file_state.splits option.splits if_splits sum.splits
      dest: load_entries_form)

lemma loadable_put: "loadable lock \<Longrightarrow> current_form e \<Longrightarrow> loadable (put_entry lock e)"
  by (auto simp: loadable_def put_entry_def Let_def list_all_iff)

lemma loadable_remove: "loadable lock \<Longrightarrow> loadable (remove_entry lock n)"
  by (simp add: loadable_def remove_entry_def list_all_iff)

lemma load_written:
  assumes "loadable lock" and "decode (encode lock) = Some lock"
  shows "load_lock decode (Content (encode lock)) = Inr lock"
  using assms by (simp add: load_lock_def loadable_def load_entries_id)

section \<open>Properties\<close>

text \<open>One command that changes the lockfile: an entry to put or a name to remove.\<close>

definition lock_change :: "lock_entry + string \<Rightarrow> lock_file \<Rightarrow> lock_file" where
  "lock_change c lock = (case c of Inl e \<Rightarrow> put_entry lock e | Inr n \<Rightarrow> remove_entry lock n)"

definition changes_name :: "string \<Rightarrow> lock_entry + string \<Rightarrow> bool" where
  "changes_name n c \<longleftrightarrow> (case c of Inl e \<Rightarrow> le_name e = n | Inr m \<Rightarrow> m = n)"

lemma lock_change_eq: "lock.change = lock_change" "lock.concerns = changes_name"
  by (simp_all add: fun_eq_iff lock.change_def lock.concerns_def lock_change_def changes_name_def)

text \<open>
  C25. After any sequence of changes to a lockfile with unique names, the entry last put under a name is
  the one found, and the verification of a package succeeds exactly when version, source and package
  digest are those of that entry, and its content digest too if the entry has one.
\<close>

theorem last_locked_entry_verifies:
  assumes "unique_names lock" and "list_all (\<lambda>c. \<not> changes_name (le_name e) c) later"
  shows "find_entry (fold lock_change (earlier @ Inl e # later) lock) (le_name e) = Some e \<and>
    (verify_lock (fold lock_change (earlier @ Inl e # later) lock) (le_name e) v s p c = None \<longleftrightarrow>
       matches_locked e v s p c)"
  using lock.last_change_wins [OF assms(1), of e later earlier] assms(2)
  unfolding lock_change_eq verify_lock_None by simp

definition sample_entry :: lock_entry where
  "sample_entry = \<lparr>le_name = ''a'', le_version = ''1'', le_source = ''git'', le_registry = [],
     le_package = replicate 64 (CHR ''0''), le_content = [], le_commit = [], le_signature = ''s'',
     le_provenance = ''p'', le_artifact = [], le_sha256 = []\<rparr>"

definition empty_lock :: lock_file where
  "empty_lock = \<lparr>lf_version = 1, lf_skills = []\<rparr>"

lemma last_locked_entry_verifies_witness:
  "verify_lock (fold lock_change [Inl sample_entry, Inr ''b''] empty_lock) ''a'' ''1'' ''git''
     (replicate 64 (CHR ''0'')) ''any'' = None"
  using last_locked_entry_verifies [of empty_lock sample_entry "[Inr ''b'']" "[]" "''1''" "''git''"
      "replicate 64 (CHR ''0'')" "''any''"]
  by (simp add: unique_names_def empty_lock_def changes_name_def matches_locked_def sample_entry_def)

definition well_formed_change :: "lock_entry + string \<Rightarrow> bool" where
  "well_formed_change c \<longleftrightarrow> (case c of Inl e \<Rightarrow> current_form e | Inr _ \<Rightarrow> True)"

lemma loadable_changes:
  "loadable lock \<Longrightarrow> list_all well_formed_change cs \<Longrightarrow> loadable (fold lock_change cs lock)"
proof (induction cs arbitrary: lock)
  case (Cons c cs)
  then have "loadable (lock_change c lock)"
    by (cases c) (simp_all add: lock_change_def well_formed_change_def loadable_put loadable_remove)
  with Cons show ?case by simp
qed simp

text \<open>
  C24. A lockfile that was loaded stays loadable: after any changes with complete entries, what is written
  loads again as exactly the same lockfile, version and entries, with no legacy field.
\<close>

theorem changed_lockfile_reloads:
  assumes "load_lock decode fs = Inr lock" and "list_all well_formed_change cs"
    and "decode (encode (fold lock_change cs lock)) = Some (fold lock_change cs lock)"
  shows "let l = fold lock_change cs lock in
    list_all current_form (lf_skills l) \<and> lf_version l = 1 \<and>
    load_lock decode (fst (write_lock encode True fs l)) = Inr l"
proof -
  have l: "loadable (fold lock_change cs lock)"
    using loadable_load [OF assms(1)] assms(2) by (rule loadable_changes)
  then have "load_lock decode (Content (encode (fold lock_change cs lock))) = Inr (fold lock_change cs lock)"
    using assms(3) by (rule load_written)
  with l show ?thesis by (simp add: Let_def write_lock_def loadable_def)
qed

lemma changed_lockfile_reloads_witness:
  "load_lock (\<lambda>_. Some (put_entry empty_lock sample_entry))
     (fst (write_lock (\<lambda>_. ''yaml'') True Absent (put_entry empty_lock sample_entry))) =
   Inr (put_entry empty_lock sample_entry)"
proof -
  have "load_lock (\<lambda>_. Some (put_entry empty_lock sample_entry)) Absent = Inr empty_lock"
    by (simp add: load_lock_def empty_lock_def)
  moreover have "list_all well_formed_change [Inl sample_entry]"
    by (simp add: well_formed_change_def current_form_def complete_entry_def sample_entry_def sha256_pattern_def
        lower_hex_def list_all_iff)
  ultimately show ?thesis
    using changed_lockfile_reloads [of "\<lambda>_. Some (put_entry empty_lock sample_entry)" Absent empty_lock
        "[Inl sample_entry]" "\<lambda>_. ''yaml''"]
    unfolding Let_def lock_change_def fold.simps o_apply id_apply sum.case by blast
qed

end
