(* ===== verification/Revocation.thy ===== *)
theory Revocation
  imports Prelude
begin

text \<open>
  The revocation registry, internal/revocation/revocation.go: a JSON file that is read, extended and
  written back by \<open>RevokeDigest\<close> and read by \<open>IsRevoked\<close>.

  The file is represented by what reading and decoding it gives.  \<open>os.WriteFile\<close> first truncates the
  file and then writes it, and nothing locks it, so concurrent calls are processes that interleave
  in three steps: load, truncate, write.  The write of one call is one step: the mixed bytes that two
  overlapping writes can leave are not modelled.
\<close>

section \<open>The registry and its operations\<close>

record revocation_entry =
  rv_digest :: string
  rv_reason :: string
  rv_at :: time

record revocation_registry =
  rg_version :: int
  rg_revoked :: "revocation_entry list"

datatype registry_file = NoFile | NotReadable | NotJson | Registry revocation_registry

datatype registry_error = ReadFailed | ParseFailed | WriteFailed

definition load_registry :: "registry_file \<Rightarrow> registry_error + revocation_registry" where
  "load_registry f =
     (case f of
        NoFile \<Rightarrow> Inr \<lparr>rg_version = 1, rg_revoked = []\<rparr>
      | NotReadable \<Rightarrow> Inl ReadFailed
      | NotJson \<Rightarrow> Inl ParseFailed
      | Registry r \<Rightarrow> Inr r)"

definition revokes :: "string \<Rightarrow> revocation_registry \<Rightarrow> bool" where
  "revokes d r \<longleftrightarrow> list_ex (\<lambda>e. rv_digest e = d) (rg_revoked r)"

definition add_revocation :: "string \<Rightarrow> string \<Rightarrow> time \<Rightarrow> revocation_registry \<Rightarrow> revocation_registry" where
  "add_revocation d reason now r =
     r\<lparr>rg_revoked := rg_revoked r @ [\<lparr>rv_digest = d, rv_reason = reason, rv_at = now\<rparr>]\<rparr>"

definition revoke_digest :: "bool \<Rightarrow> time \<Rightarrow> string \<Rightarrow> string \<Rightarrow> registry_file \<Rightarrow> registry_file \<times> registry_error option" where
  "revoke_digest write_ok now d reason f =
     (case load_registry f of
        Inl e \<Rightarrow> (f, Some e)
      | Inr r \<Rightarrow>
          if revokes d r then (f, None)
          else if write_ok then (Registry (add_revocation d reason now r), None)
          else (f, Some WriteFailed))"

fun revocation_reason :: "revocation_entry list \<Rightarrow> string \<Rightarrow> string option" where
  "revocation_reason [] d = None"
| "revocation_reason (e # es) d = (if rv_digest e = d then Some (rv_reason e) else revocation_reason es d)"

definition is_revoked :: "registry_file \<Rightarrow> string \<Rightarrow> registry_error + string option" where
  "is_revoked f d =
     (case load_registry f of Inl e \<Rightarrow> Inl e | Inr r \<Rightarrow> Inr (revocation_reason (rg_revoked r) d))"

section \<open>Concurrent calls\<close>

datatype phase = Ready | Loaded revocation_registry | Truncated revocation_registry | Finished | Aborted

record revoker =
  ry_digest :: string
  ry_reason :: string
  ry_now :: time
  ry_phase :: phase

text \<open>What one call does next: the file and its phase after the step.\<close>

definition load_step :: "registry_file \<Rightarrow> revoker \<Rightarrow> phase" where
  "load_step f p =
     (case load_registry f of
        Inl _ \<Rightarrow> Aborted
      | Inr r \<Rightarrow> if revokes (ry_digest p) r then Finished
               else Loaded (add_revocation (ry_digest p) (ry_reason p) (ry_now p) r))"

inductive call_step :: "registry_file \<Rightarrow> revoker \<Rightarrow> registry_file \<Rightarrow> revoker \<Rightarrow> bool" where
  load: "ry_phase p = Ready \<Longrightarrow> call_step f p f (p\<lparr>ry_phase := load_step f p\<rparr>)"
| no_open: "ry_phase p = Loaded r \<Longrightarrow> call_step f p f (p\<lparr>ry_phase := Aborted\<rparr>)"
| truncate: "ry_phase p = Loaded r \<Longrightarrow> call_step f p NotJson (p\<lparr>ry_phase := Truncated r\<rparr>)"
| stored: "ry_phase p = Truncated r \<Longrightarrow> call_step f p (Registry r) (p\<lparr>ry_phase := Finished\<rparr>)"
| not_stored: "ry_phase p = Truncated r \<Longrightarrow> call_step f p f (p\<lparr>ry_phase := Aborted\<rparr>)"

inductive step :: "registry_file \<times> revoker list \<Rightarrow> registry_file \<times> revoker list \<Rightarrow> bool" where
  call: "i < length ps \<Longrightarrow> call_step f (ps ! i) f' p' \<Longrightarrow> step (f, ps) (f', ps[i := p'])"

inductive_simps call_step_simps: "call_step f p f' p'"

definition runs :: "registry_file \<times> revoker list \<Rightarrow> registry_file \<times> revoker list \<Rightarrow> bool" where
  "runs = step\<^sup>*\<^sup>*"

section \<open>One call at a time\<close>

lemma revokes_reason: "revokes d r \<longleftrightarrow> revocation_reason (rg_revoked r) d \<noteq> None"
proof -
  have "list_ex (\<lambda>e. rv_digest e = d) es \<longleftrightarrow> revocation_reason es d \<noteq> None" for es
    by (induction es) auto
  then show ?thesis by (simp add: revokes_def)
qed

lemma revocation_reason_append:
  "revocation_reason (es @ fs) d =
     (case revocation_reason es d of None \<Rightarrow> revocation_reason fs d | Some x \<Rightarrow> Some x)"
  by (induction es) auto

text \<open>
  A successful revocation makes exactly its digest revoked, keeps every earlier revocation with its
  reason, and a second one of the same digest changes nothing.
\<close>

theorem revocation_recorded:
  assumes "revoke_digest ok now d reason f = (f', None)"
  shows "is_revoked f' d' =
    (if d' = d \<and> is_revoked f d = Inr None then Inr (Some reason) else is_revoked f d')"
proof -
  from assms obtain r where r: "load_registry f = Inr r"
    by (cases "load_registry f") (auto simp: revoke_digest_def)
  show ?thesis
  proof (cases "revokes d r")
    case True
    then have "f' = f" using assms r by (simp add: revoke_digest_def)
    with True r show ?thesis by (auto simp: is_revoked_def revokes_reason)
  next
    case False
    then have f': "f' = Registry (add_revocation d reason now r)"
      using assms r by (auto simp: revoke_digest_def split: if_splits)
    have "is_revoked f d = Inr None" using False r by (simp add: is_revoked_def revokes_reason)
    with r show ?thesis
      by (simp add: f' is_revoked_def load_registry_def add_revocation_def revocation_reason_append split: option.split)
  qed
qed

lemma revocation_recorded_witness:
  "is_revoked (fst (revoke_digest True 7 ''d'' ''bad'' NoFile)) ''d'' = Inr (Some ''bad'')"
  using revocation_recorded [of True 7 "''d''" "''bad''" NoFile _ "''d''"]
  by (simp add: revoke_digest_def load_registry_def is_revoked_def revokes_def)

section \<open>A revocation can be lost\<close>

definition caller :: "string \<Rightarrow> phase \<Rightarrow> revoker" where
  "caller d ph = \<lparr>ry_digest = d, ry_reason = ''r'', ry_now = 0, ry_phase = ph\<rparr>"

definition one_entry :: "string \<Rightarrow> revocation_registry" where
  "one_entry d = add_revocation d ''r'' 0 \<lparr>rg_version = 1, rg_revoked = []\<rparr>"

lemma step_first: "call_step f p f' p' \<Longrightarrow> step (f, [p, q]) (f', [p', q])"
  using step.intros [of 0 "[p, q]"] by simp

lemma step_second: "call_step f q f' q' \<Longrightarrow> step (f, [p, q]) (f', [p, q'])"
  using step.intros [of 1 "[p, q]"] by simp

lemma caller_steps:
  "call_step NoFile (caller d Ready) NoFile (caller d (Loaded (one_entry d)))"
  "call_step f (caller d (Loaded r)) NotJson (caller d (Truncated r))"
  "call_step f (caller d (Truncated r)) (Registry r) (caller d Finished)"
  using call_step.intros(1) [of "caller d Ready" NoFile] call_step.intros(3) [of "caller d (Loaded r)" r f]
    call_step.intros(4) [of "caller d (Truncated r)" r f]
  by (simp_all add: caller_def load_step_def load_registry_def revokes_def one_entry_def)

text \<open>
  C26. Two concurrent revocations can both report success while the registry holds only the later one:
  the digest of the other is not revoked.
\<close>

theorem concurrent_revocation_lost:
  "\<exists>f. runs (NoFile, [caller ''a'' Ready, caller ''b'' Ready]) (f, [caller ''a'' Finished, caller ''b'' Finished]) \<and>
     is_revoked f ''a'' = Inr None \<and> is_revoked f ''b'' = Inr (Some ''r'')"
proof -
  let ?a = "one_entry ''a''" and ?b = "one_entry ''b''"
  note a = step_first [OF caller_steps(1)] step_first [OF caller_steps(2)] step_first [OF caller_steps(3)]
  note b = step_second [OF caller_steps(1)] step_second [OF caller_steps(2)] step_second [OF caller_steps(3)]
  have "runs (NoFile, [caller ''a'' Ready, caller ''b'' Ready])
      (Registry ?b, [caller ''a'' Finished, caller ''b'' Finished])"
    unfolding runs_def
    by (intro converse_rtranclp_into_rtranclp [where r = step, OF a(1)]
        converse_rtranclp_into_rtranclp [where r = step, OF b(1)]
        converse_rtranclp_into_rtranclp [where r = step, OF a(2)]
        converse_rtranclp_into_rtranclp [where r = step, OF a(3)]
        converse_rtranclp_into_rtranclp [where r = step, OF b(2)]
        r_into_rtranclp [where r = step, OF b(3)])
  moreover have "is_revoked (Registry ?b) ''a'' = Inr None \<and> is_revoked (Registry ?b) ''b'' = Inr (Some ''r'')"
    by (simp add: is_revoked_def load_registry_def one_entry_def add_revocation_def)
  ultimately show ?thesis by blast
qed

end
