(* ===== verification/Baseline.thy ===== *)
theory Baseline
  imports Authorization Scan_Model
begin

text \<open>
  Baselines of accepted findings, internal/baseline: the files with their validation (\<open>Load\<close>), creation
  from a scan, the occurrence identity and integrity seal of version 3, the suppression of findings,
  and saving.  The version of the scanner is an argument, and so are the encoder and the decoder of
  gopkg.in/yaml.v3: \<open>load_baseline\<close> and \<open>save_baseline\<close> are the parts of \<open>Load\<close> after the decoder and of
  \<open>Save\<close> around the encoder, \<open>load_text\<close> and \<open>save_text\<close> the whole on the text of the file.

  \<open>json.Marshal\<close> writes the fields of a struct in the order of the declaration: \<open>marshal_text\<close>.
\<close>

section \<open>Marshalling structs\<close>

fun marshal_text :: "json \<Rightarrow> string option"
and marshal_elems :: "json list \<Rightarrow> string list option"
and marshal_members :: "(string \<times> json) list \<Rightarrow> string list option" where
  "marshal_text JNull = Some ''null''"
| "marshal_text (JBool b) = Some (if b then ''true'' else ''false'')"
| "marshal_text (JNum n) = Some n"
| "marshal_text (JStr s) = Some (json_string s)"
| "marshal_text (JArr xs) = map_option (\<lambda>ts. ''['' @ join ts '','' @ '']'') (marshal_elems xs)"
| "marshal_text (JObj ms) = map_option (\<lambda>ts. ''{'' @ join ts '','' @ ''}'') (marshal_members ms)"
| "marshal_text JUnsupported = None"
| "marshal_elems [] = Some []"
| "marshal_elems (x # xs) =
     (case (marshal_text x, marshal_elems xs) of (Some t, Some ts) \<Rightarrow> Some (t # ts) | _ \<Rightarrow> None)"
| "marshal_members [] = Some []"
| "marshal_members ((k, v) # ms) =
     (case (marshal_text v, marshal_members ms) of
        (Some t, Some ts) \<Rightarrow> Some ((json_string k @ '':'' @ t) # ts) | _ \<Rightarrow> None)"

text \<open>A failed \<open>json.Marshal\<close> whose error is dropped leaves an empty text.\<close>

definition marshal_digest :: "crypto \<Rightarrow> json \<Rightarrow> string" where
  "marshal_digest cr j = sha_digest cr (case marshal_text j of None \<Rightarrow> [] | Some t \<Rightarrow> t)"

section \<open>Data\<close>

record baseline_entry =
  be_fingerprint :: string
  be_rule :: string
  be_path :: string
  be_reason :: string
  be_by :: string
  be_at :: time
  be_expires :: "time option"
  be_occurrence :: string

record baseline_rule =
  br_rule :: string
  br_path :: string
  br_message :: string
  br_reason :: string
  br_by :: string
  br_at :: time
  br_expires :: "time option"

record baseline_file =
  bf_version :: int
  bf_scanner :: string
  bf_subject :: string
  bf_entries :: "baseline_entry list"
  bf_rules :: "baseline_rule list"
  bf_integrity :: string

text \<open>A scan with the counts of its inspection ledger.\<close>

record inspected_scan = scan_result +
  is_total :: int
  is_failed :: int
  is_skipped :: int

definition entry_json :: "baseline_entry \<Rightarrow> json" where
  "entry_json e = JObj ([(''fingerprint'', JStr (be_fingerprint e)), (''rule_id'', JStr (be_rule e)),
     (''path'', JStr (be_path e)), (''reason'', JStr (be_reason e)), (''approved_by'', JStr (be_by e)),
     (''approved_at'', time_json (be_at e))] @ omit_none ''expires_at'' time_json (be_expires e) @
     omit_str ''occurrence'' (be_occurrence e))"

definition rule_json :: "baseline_rule \<Rightarrow> json" where
  "rule_json r = JObj (omit_str ''rule_id'' (br_rule r) @ omit_str ''path'' (br_path r) @
     omit_str ''message'' (br_message r) @ [(''reason'', JStr (br_reason r)), (''approved_by'', JStr (br_by r)),
     (''approved_at'', time_json (br_at r))] @ omit_none ''expires_at'' time_json (br_expires r))"

definition baseline_json :: "baseline_file \<Rightarrow> json" where
  "baseline_json f = JObj ([(''version'', JNum (dec_int (bf_version f)))] @ omit_str ''scanner_version'' (bf_scanner f) @
     omit_str ''subject_digest'' (bf_subject f) @ [(''entries'', JArr (map entry_json (bf_entries f)))] @
     (if bf_rules f = [] then [] else [(''rules'', JArr (map rule_json (bf_rules f)))]) @
     omit_str ''integrity'' (bf_integrity f))"

text \<open>The seal of a file, and the identity of one occurrence of a finding.\<close>

definition baseline_integrity :: "crypto \<Rightarrow> baseline_file \<Rightarrow> string" where
  "baseline_integrity cr f = marshal_digest cr (baseline_json (f\<lparr>bf_integrity := []\<rparr>))"

definition occurrence_json :: "finding \<Rightarrow> string \<Rightarrow> json" where
  "occurrence_json f subject = JObj [(''rule_id'', JStr (fi_rule_id f)), (''class_digest'', JStr (fi_fingerprint f)),
     (''subject_digest'', JStr subject), (''path'', JStr (loc_file (fi_location f))),
     (''start_line'', JNum (dec_int (loc_start (fi_location f)))),
     (''end_line'', JNum (dec_int (loc_end (fi_location f)))), (''artifact_digest'', JStr subject),
     (''fingerprint'', JStr [])]"

definition occurrence_of :: "crypto \<Rightarrow> finding \<Rightarrow> string \<Rightarrow> string" where
  "occurrence_of cr f subject = marshal_digest cr (occurrence_json f subject)"

section \<open>Creation\<close>

definition entry_for :: "time \<Rightarrow> string \<Rightarrow> string \<Rightarrow> finding \<Rightarrow> baseline_entry" where
  "entry_for now by reason f = \<lparr>be_fingerprint = fi_fingerprint f, be_rule = fi_rule_id f,
     be_path = loc_file (fi_location f), be_reason = reason, be_by = by, be_at = now, be_expires = None,
     be_occurrence = []\<rparr>"

definition create_baseline :: "time \<Rightarrow> finding list \<Rightarrow> string \<Rightarrow> string \<Rightarrow> baseline_file" where
  "create_baseline now fs by reason = \<lparr>bf_version = 1, bf_scanner = [], bf_subject = [],
     bf_entries = map (entry_for now by reason) fs, bf_rules = [], bf_integrity = []\<rparr>"

definition create_for_scan :: "string \<Rightarrow> time \<Rightarrow> inspected_scan \<Rightarrow> string \<Rightarrow> string \<Rightarrow> baseline_file" where
  "create_for_scan version now scan by reason =
     (create_baseline now (scan_findings scan) by reason)\<lparr>bf_version := 2, bf_scanner := version,
        bf_subject := artifact_subject_digest (scan_artifact scan)\<rparr>"

datatype ineligible =
    ScanFailed | NoSubjectDigest | NoInspectionLedger | InspectionIncomplete | BudgetExceeded "string list" | ClosureIncomplete

definition eligible_for_baseline :: "inspected_scan \<Rightarrow> ineligible option" where
  "eligible_for_baseline scan =
     (if scan_status scan = StatusError then Some ScanFailed
      else if artifact_subject_digest (scan_artifact scan) = [] then Some NoSubjectDigest
      else if is_total scan = 0 then Some NoInspectionLedger
      else if f_less (scan_completeness scan) (Finite 1) \<or> is_failed scan > 0 \<or> is_skipped scan > 0
        then Some InspectionIncomplete
      else if scan_exceeded scan \<noteq> [] then Some (BudgetExceeded (scan_exceeded scan))
      else if (case scan_closure scan of None \<Rightarrow> False | Some c \<Rightarrow> \<not> cl_complete c) then Some ClosureIncomplete
      else None)"

definition bind_occurrences :: "crypto \<Rightarrow> string \<Rightarrow> finding list \<Rightarrow> baseline_entry list \<Rightarrow> baseline_entry list" where
  "bind_occurrences cr subject fs es = map (\<lambda>(f, e). e\<lparr>be_occurrence := occurrence_of cr f subject\<rparr>) (zip fs es)"

definition create_strict ::
  "crypto \<Rightarrow> string \<Rightarrow> time \<Rightarrow> inspected_scan \<Rightarrow> string \<Rightarrow> string \<Rightarrow> ineligible + baseline_file" where
  "create_strict cr version now scan by reason =
     (case eligible_for_baseline scan of
        Some e \<Rightarrow> Inl e
      | None \<Rightarrow>
          (let subject = artifact_subject_digest (scan_artifact scan);
               f = create_for_scan version now scan by reason;
               g = f\<lparr>bf_version := 3,
                 bf_entries := sort_key be_occurrence (bind_occurrences cr subject (scan_findings scan) (bf_entries f))\<rparr> in
           Inr (g\<lparr>bf_integrity := baseline_integrity cr g\<rparr>)))"

section \<open>Loading and saving\<close>

datatype baseline_error =
    NotDecoded
  | UnsupportedBaselineVersion int
  | EntryLimit
  | UnboundEntries
  | IncompleteBaselineEntry nat
  | NoOccurrence nat
  | NoSeal
  | SealBroken
  | IncompleteRule nat
  | BadSelector nat

definition entry_problem :: "int \<Rightarrow> nat \<times> baseline_entry \<Rightarrow> baseline_error option" where
  "entry_problem v = (\<lambda>(i, e).
     if trim_space (be_fingerprint e) = [] \<or> trim_space (be_reason e) = [] then Some (IncompleteBaselineEntry i)
     else check (v = 3 \<and> trim_space (be_occurrence e) = []) (NoOccurrence i))"

definition bad_selector :: "string \<Rightarrow> bool" where
  "bad_selector s \<longleftrightarrow> 4096 < length s \<or> contains_any s [CHR 0x00, CHR 0x0D, CHR 0x0A]"

definition rule_problem :: "nat \<times> baseline_rule \<Rightarrow> baseline_error option" where
  "rule_problem = (\<lambda>(i, r).
     if trim_space (br_reason r) = [] \<or> br_rule r = [] \<and> br_path r = [] \<and> br_message r = [] then Some (IncompleteRule i)
     else check (list_ex bad_selector [br_rule r, br_path r, br_message r]) (BadSelector i))"

definition seal_problem :: "crypto \<Rightarrow> baseline_file \<Rightarrow> baseline_error option" where
  "seal_problem cr f =
     (if bf_version f = 3 then
        if bf_integrity f = [] then Some NoSeal
        else check (bf_integrity f \<noteq> baseline_integrity cr f) SealBroken
      else None)"

definition load_baseline :: "crypto \<Rightarrow> baseline_file \<Rightarrow> baseline_error + baseline_file" where
  "load_baseline cr f =
     (case first_some (
        [check (bf_version f < 1 \<or> 3 < bf_version f) (UnsupportedBaselineVersion (bf_version f)),
         check (10000 < length (bf_entries f) + length (bf_rules f)) EntryLimit,
         check (2 \<le> bf_version f \<and> bf_entries f \<noteq> [] \<and> (bf_scanner f = [] \<or> bf_subject f = [])) UnboundEntries] @
        map (entry_problem (bf_version f)) (enumerate 0 (bf_entries f)) @
        [seal_problem cr f] @ map rule_problem (enumerate 0 (bf_rules f))) of
        Some e \<Rightarrow> Inl e | None \<Rightarrow> Inr f)"

text \<open>\<open>Load\<close> on the text of a file; \<open>None\<close> is an error of the YAML decoder with its known fields.\<close>

definition load_text ::
  "crypto \<Rightarrow> (string \<Rightarrow> baseline_file option) \<Rightarrow> string \<Rightarrow> baseline_error + baseline_file" where
  "load_text cr decode text = (case decode text of None \<Rightarrow> Inl NotDecoded | Some f \<Rightarrow> load_baseline cr f)"

datatype target = NoTarget | RegularFile | Symlink | OtherFile | StatFailed

datatype save_error = InvalidSeal | ThroughSymlink | NotRegular | SaveFailed

definition save_baseline :: "crypto \<Rightarrow> target \<Rightarrow> bool \<Rightarrow> baseline_file \<Rightarrow> save_error option" where
  "save_baseline cr t io_ok f =
     (if bf_version f = 3 \<and> bf_integrity f \<noteq> baseline_integrity cr f then Some InvalidSeal
      else if t = Symlink then Some ThroughSymlink
      else if t = OtherFile then Some NotRegular
      else if t = StatFailed then Some SaveFailed
      else check (\<not> io_ok) SaveFailed)"

text \<open>The text \<open>Save\<close> leaves in the file.\<close>

definition save_text ::
  "crypto \<Rightarrow> (baseline_file \<Rightarrow> string) \<Rightarrow> target \<Rightarrow> bool \<Rightarrow> baseline_file \<Rightarrow> save_error + string" where
  "save_text cr encode t io_ok f = (case save_baseline cr t io_ok f of Some e \<Rightarrow> Inl e | None \<Rightarrow> Inr (encode f))"

section \<open>Suppression\<close>

text \<open>A glob on runes: a star stands for any runes and a question mark for one, but neither for a newline.\<close>

fun glob :: "nat list \<Rightarrow> nat list \<Rightarrow> bool" where
  "glob [] s = (s = [])"
| "glob (p # ps) [] = (p = 42 \<and> glob ps [])"
| "glob (p # ps) (c # cs) =
     (if p = 42 then glob ps (c # cs) \<or> (c \<noteq> 10 \<and> glob (p # ps) cs)
      else if p = 63 then c \<noteq> 10 \<and> glob ps cs
      else c = p \<and> glob ps cs)"

definition glob_match :: "string \<Rightarrow> string \<Rightarrow> bool \<Rightarrow> bool" where
  "glob_match pattern value fold_case \<longleftrightarrow> pattern = [] \<or>
     (if fold_case then glob (runes (to_lower pattern)) (runes (to_lower value)) else glob (runes pattern) (runes value))"

definition evidence_text :: "evidence_map \<Rightarrow> string" where
  "evidence_text ev = (case ev ''match'' of Some (JStr s) \<Rightarrow> s | _ \<Rightarrow> [])"

definition matches_rule :: "finding \<Rightarrow> baseline_rule \<Rightarrow> bool" where
  "matches_rule f r \<longleftrightarrow> glob_match (br_rule r) (fi_rule_id f) False \<and>
     glob_match (br_path r) (loc_file (fi_location f)) False \<and>
     glob_match (br_message r) (fi_message f @ '' '' @ evidence_text (fi_evidence f)) True"

definition unexpired :: "time option \<Rightarrow> time \<Rightarrow> bool" where
  "unexpired expires now \<longleftrightarrow> (case expires of None \<Rightarrow> True | Some t \<Rightarrow> now < t)"

definition exact_allowed :: "string \<Rightarrow> baseline_file \<Rightarrow> string \<Rightarrow> bool" where
  "exact_allowed version f subject \<longleftrightarrow> bf_version f < 2 \<or>
     (bf_scanner f = version \<and> bf_subject f \<noteq> [] \<and> bf_subject f = subject)"

text \<open>A later entry with the same key replaces an earlier one in the map.\<close>

definition entry_key :: "baseline_file \<Rightarrow> baseline_entry \<Rightarrow> string" where
  "entry_key f e = (if bf_version f = 3 then be_occurrence e else be_fingerprint e)"

definition finding_key :: "crypto \<Rightarrow> baseline_file \<Rightarrow> string \<Rightarrow> finding \<Rightarrow> string" where
  "finding_key cr f subject x = (if bf_version f = 3 then occurrence_of cr x subject else fi_fingerprint x)"

definition approved_entries :: "string \<Rightarrow> baseline_file \<Rightarrow> time \<Rightarrow> string \<Rightarrow> string \<rightharpoonup> baseline_entry" where
  "approved_entries version f now subject =
     (if exact_allowed version f subject
      then map_of (rev (map (\<lambda>e. (entry_key f e, e)) (filter (\<lambda>e. unexpired (be_expires e) now) (bf_entries f))))
      else Map.empty)"

definition suppress :: "string \<Rightarrow> finding \<Rightarrow> finding" where
  "suppress reason x = x\<lparr>fi_suppressed := True, fi_suppression_reason := reason\<rparr>"

definition apply_to ::
  "crypto \<Rightarrow> string \<Rightarrow> baseline_file \<Rightarrow> time \<Rightarrow> string \<Rightarrow> finding \<Rightarrow> finding" where
  "apply_to cr version f now subject x =
     (case approved_entries version f now subject (finding_key cr f subject x) of
        Some e \<Rightarrow> suppress (be_reason e) x
      | None \<Rightarrow>
          (case find (\<lambda>r. unexpired (br_expires r) now \<and> matches_rule x r) (bf_rules f) of
             Some r \<Rightarrow> suppress (br_reason r) x
           | None \<Rightarrow> x))"

definition apply_for_artifact ::
  "crypto \<Rightarrow> string \<Rightarrow> finding list \<Rightarrow> baseline_file \<Rightarrow> time \<Rightarrow> string \<Rightarrow> finding list" where
  "apply_for_artifact cr version xs f now subject = map (apply_to cr version f now subject) xs"

definition apply_baseline :: "crypto \<Rightarrow> string \<Rightarrow> finding list \<Rightarrow> baseline_file \<Rightarrow> time \<Rightarrow> finding list" where
  "apply_baseline cr version xs f now = apply_for_artifact cr version xs f now (bf_subject f)"

end
