(* ===== verification/Baseline_Props.thy ===== *)
theory Baseline_Props
  imports Baseline
begin

text \<open>
  Properties of baselines: what a baseline suppresses and why, that a baseline created from a scan loads
  and covers that scan, and that the seal of version 3 does not protect a file against being rewritten
  as version 2.
\<close>

section \<open>White space\<close>

lemma trim_right_keeps_front:
  assumes "s \<noteq> []" and "plain_edge (hd s)"
  shows "trim_right s \<noteq> []"
  using assms
proof (induction s rule: trim_right.induct)
  case (1 s)
  show ?case
  proof (cases "space_last s = 0")
    case True
    with 1(2) show ?thesis by (simp add: trim_right_id)
  next
    case False
    have "space_last s \<noteq> length s"
    proof
      assume l: "space_last s = length s"
      with 1(2) obtain r where r: "find (has_suffix s) space_runes = Some r" "length r = length s"
        by (auto simp: space_last_def split: option.splits)
      then have "r \<in> set space_runes" "has_suffix s r" by (auto simp: find_Some_iff)
      with r(2) have "s = r" by (auto simp: has_suffix_iff)
      with space_runes_shape [OF \<open>r \<in> set space_runes\<close>] 1(3) show False by simp
    qed
    then have lt: "space_last s < length s" using space_last_le [of s] 1(2) by (simp add: le_neq_implies_less)
    let ?t = "take (length s - space_last s) s"
    have "?t \<noteq> []" "hd ?t = hd s" using lt 1(2) by (auto simp: hd_take)
    with 1(1) [OF False] 1(3) have "trim_right ?t \<noteq> []" by simp
    then show ?thesis using False by (subst trim_right.simps) simp
  qed
qed

lemma trim_space_keeps_front: "s \<noteq> [] \<Longrightarrow> plain_edge (hd s) \<Longrightarrow> trim_space s \<noteq> []"
  using trim_right_keeps_front by (simp add: trim_space_def trim_left_id space_head_plain)

lemma occurrence_not_blank: "trim_space (occurrence_of cr f s) \<noteq> []"
  by (rule trim_space_keeps_front)
     (simp_all add: occurrence_of_def marshal_digest_def sha_digest_def plain_edge_def ascii_space_def)

section \<open>What is suppressed\<close>

lemma map_of_rev_Some:
  "map_of (rev (map (\<lambda>e. (k e, e)) es)) x = Some e \<Longrightarrow> e \<in> set es \<and> k e = x"
  by (auto dest!: map_of_SomeD)

lemma map_of_rev_None:
  "map_of (rev (map (\<lambda>e. (k e, e)) es)) x = None \<longleftrightarrow> (\<forall>e \<in> set es. k e \<noteq> x)"
  by (force simp: map_of_eq_None_iff)

lemma find_None_not_ex: "find P xs = None \<longleftrightarrow> \<not> (\<exists>x \<in> set xs. P x)"
  by (auto simp: find_None_iff)

lemma find_SomeD: "find P xs = Some x \<Longrightarrow> x \<in> set xs \<and> P x"
  by (auto simp: find_Some_iff)

text \<open>The approvals a baseline holds for a finding.\<close>

definition approved_by_entry :: "crypto \<Rightarrow> string \<Rightarrow> baseline_file \<Rightarrow> time \<Rightarrow> string \<Rightarrow> finding \<Rightarrow> string \<Rightarrow> bool" where
  "approved_by_entry cr version f now subject x reason \<longleftrightarrow> exact_allowed version f subject \<and>
     (\<exists>e \<in> set (bf_entries f). unexpired (be_expires e) now \<and> entry_key f e = finding_key cr f subject x \<and>
        be_reason e = reason)"

definition approved_by_rule :: "baseline_file \<Rightarrow> time \<Rightarrow> finding \<Rightarrow> string \<Rightarrow> bool" where
  "approved_by_rule f now x reason \<longleftrightarrow>
     (\<exists>r \<in> set (bf_rules f). unexpired (br_expires r) now \<and> matches_rule x r \<and> br_reason r = reason)"

lemma apply_to_cases:
  "(\<exists>reason. (approved_by_entry cr version f now subject x reason \<or> approved_by_rule f now x reason) \<and>
      apply_to cr version f now subject x = suppress reason x) \<or>
   (\<forall>reason. \<not> approved_by_entry cr version f now subject x reason \<and> \<not> approved_by_rule f now x reason) \<and>
      apply_to cr version f now subject x = x"
proof (cases "approved_entries version f now subject (finding_key cr f subject x)")
  case (Some e)
  then have "approved_by_entry cr version f now subject x (be_reason e)"
    by (auto simp: approved_entries_def approved_by_entry_def split: if_splits dest!: map_of_rev_Some)
  with Some show ?thesis by (auto simp: apply_to_def)
next
  case None
  then have n: "\<not> approved_by_entry cr version f now subject x reason" for reason
    by (auto simp: approved_entries_def approved_by_entry_def map_of_rev_None split: if_splits)
  show ?thesis
  proof (cases "find (\<lambda>r. unexpired (br_expires r) now \<and> matches_rule x r) (bf_rules f)")
    case (Some r)
    then have "approved_by_rule f now x (br_reason r)"
      using find_SomeD [OF Some] by (auto simp: approved_by_rule_def)
    with None Some show ?thesis by (auto simp: apply_to_def)
  next
    case rules: None
    then have "\<not> approved_by_rule f now x reason" for reason
      unfolding find_None_not_ex by (auto simp: approved_by_rule_def)
    with n None rules show ?thesis by (auto simp: apply_to_def)
  qed
qed

lemma suppress_sel [simp]: "fi_suppressed (suppress r x)"
  "(suppress r x)\<lparr>fi_suppressed := b, fi_suppression_reason := s\<rparr> = x\<lparr>fi_suppressed := b, fi_suppression_reason := s\<rparr>"
  by (simp_all add: suppress_def)

text \<open>
  C23. A baseline suppresses a finding exactly when it was suppressed before, or an unexpired entry for the
  same key (its occurrence in version 3, its fingerprint before) approves it and the baseline either belongs
  to this scanner version and subject or is of version 1, whose entries hold for every scanner and subject, or an
  unexpired rule matches it; and it changes nothing else of the finding.
\<close>

theorem suppression_justified:
  "(fi_suppressed (apply_to cr version f now subject x) \<longleftrightarrow> fi_suppressed x \<or>
      (\<exists>reason. approved_by_entry cr version f now subject x reason \<or> approved_by_rule f now x reason)) \<and>
   (apply_to cr version f now subject x)\<lparr>fi_suppressed := b, fi_suppression_reason := s\<rparr> =
      x\<lparr>fi_suppressed := b, fi_suppression_reason := s\<rparr>"
  using apply_to_cases [of cr version f now subject x] by (metis suppress_sel)

section \<open>A baseline of a scan\<close>

definition entry_ok :: "int \<Rightarrow> baseline_entry \<Rightarrow> bool" where
  "entry_ok v e \<longleftrightarrow> trim_space (be_fingerprint e) \<noteq> [] \<and> trim_space (be_reason e) \<noteq> [] \<and>
     (v = 3 \<longrightarrow> trim_space (be_occurrence e) \<noteq> [])"

definition rule_ok :: "baseline_rule \<Rightarrow> bool" where
  "rule_ok r \<longleftrightarrow> rule_problem (0, r) = None"

definition sealed :: "crypto \<Rightarrow> baseline_file \<Rightarrow> bool" where
  "sealed cr f \<longleftrightarrow> bf_integrity f = baseline_integrity cr f"

lemma entry_problems_None:
  "(\<forall>x \<in> set (map (entry_problem v) (enumerate n es)). x = None) \<longleftrightarrow> list_all (entry_ok v) es"
  by (induction es arbitrary: n) (auto simp: entry_problem_def entry_ok_def)

lemma rule_problems_None:
  "(\<forall>x \<in> set (map rule_problem (enumerate n rs)). x = None) \<longleftrightarrow> list_all rule_ok rs"
  by (induction rs arbitrary: n) (auto simp: rule_problem_def rule_ok_def)

lemma integrity_not_empty: "baseline_integrity cr f \<noteq> []"
  by (simp add: baseline_integrity_def marshal_digest_def)

lemma load_baseline_iff:
  "load_baseline cr f = Inr f \<longleftrightarrow> 1 \<le> bf_version f \<and> bf_version f \<le> 3 \<and>
     length (bf_entries f) + length (bf_rules f) \<le> 10000 \<and>
     (bf_version f < 2 \<or> bf_entries f = [] \<or> bf_scanner f \<noteq> [] \<and> bf_subject f \<noteq> []) \<and>
     list_all (entry_ok (bf_version f)) (bf_entries f) \<and> (bf_version f \<noteq> 3 \<or> sealed cr f) \<and>
     list_all rule_ok (bf_rules f)"
proof -
  have s: "seal_problem cr f = None \<longleftrightarrow> bf_version f \<noteq> 3 \<or> sealed cr f"
    using integrity_not_empty [of cr f] by (auto simp: seal_problem_def sealed_def)
  have "load_baseline cr f = Inr f \<longleftrightarrow> first_some (
        [check (bf_version f < 1 \<or> 3 < bf_version f) (UnsupportedBaselineVersion (bf_version f)),
         check (10000 < length (bf_entries f) + length (bf_rules f)) EntryLimit,
         check (2 \<le> bf_version f \<and> bf_entries f \<noteq> [] \<and> (bf_scanner f = [] \<or> bf_subject f = [])) UnboundEntries] @
        map (entry_problem (bf_version f)) (enumerate 0 (bf_entries f)) @
        [seal_problem cr f] @ map rule_problem (enumerate 0 (bf_rules f))) = None"
    unfolding load_baseline_def by (simp split: option.split)
  also have "\<dots> \<longleftrightarrow> (1 \<le> bf_version f \<and> bf_version f \<le> 3 \<and>
     length (bf_entries f) + length (bf_rules f) \<le> 10000 \<and>
     (bf_version f < 2 \<or> bf_entries f = [] \<or> bf_scanner f \<noteq> [] \<and> bf_subject f \<noteq> [])) \<and>
     (list_all (entry_ok (bf_version f)) (bf_entries f) \<and> seal_problem cr f = None \<and>
     list_all rule_ok (bf_rules f))"
    unfolding first_some_None set_append ball_Un entry_problems_None rule_problems_None by auto
  finally show ?thesis unfolding s by blast
qed

lemma baseline_integrity_set [simp]: "baseline_integrity cr (f\<lparr>bf_integrity := s\<rparr>) = baseline_integrity cr f"
  by (simp add: baseline_integrity_def)

lemma create_strict_form:
  assumes "create_strict cr version now scan by reason = Inr f"
  shows "eligible_for_baseline scan = None" and "bf_version f = 3" and "bf_scanner f = version"
    and "bf_subject f = artifact_subject_digest (scan_artifact scan)" and "bf_rules f = []" and "sealed cr f"
    and "set (bf_entries f) = (\<lambda>x. (entry_for now by reason x)\<lparr>be_occurrence :=
           occurrence_of cr x (artifact_subject_digest (scan_artifact scan))\<rparr>) ` set (scan_findings scan)"
    and "length (bf_entries f) = length (scan_findings scan)"
proof -
  let ?es = "sort_key be_occurrence (bind_occurrences cr (artifact_subject_digest (scan_artifact scan))
    (scan_findings scan) (bf_entries (create_for_scan version now scan by reason)))"
  let ?g = "(create_for_scan version now scan by reason)\<lparr>bf_version := 3, bf_entries := ?es\<rparr>"
  from assms have e: "eligible_for_baseline scan = None" and f: "f = ?g\<lparr>bf_integrity := baseline_integrity cr ?g\<rparr>"
    by (simp_all add: create_strict_def Let_def split: option.splits)
  show "eligible_for_baseline scan = None" by (rule e)
  show "sealed cr f" unfolding sealed_def f by (simp only: baseline_integrity_set) simp
  have m: "bind_occurrences cr s fs (map g fs) = map (\<lambda>x. (g x)\<lparr>be_occurrence := occurrence_of cr x s\<rparr>) fs"
    for s fs and g :: "finding \<Rightarrow> baseline_entry"
    by (simp add: bind_occurrences_def zip_map2 zip_same_conv_map)
  show "bf_version f = 3" "bf_scanner f = version" "bf_rules f = []"
    "bf_subject f = artifact_subject_digest (scan_artifact scan)"
    "length (bf_entries f) = length (scan_findings scan)"
    "set (bf_entries f) = (\<lambda>x. (entry_for now by reason x)\<lparr>be_occurrence :=
           occurrence_of cr x (artifact_subject_digest (scan_artifact scan))\<rparr>) ` set (scan_findings scan)"
    unfolding f by (simp_all add: create_for_scan_def create_baseline_def m)
qed

lemma eligible_subject: "eligible_for_baseline scan = None \<Longrightarrow> artifact_subject_digest (scan_artifact scan) \<noteq> []"
  by (auto simp: eligible_for_baseline_def split: if_splits)

text \<open>What a scan needs for a baseline that loads.\<close>

definition baselinable :: "inspected_scan \<Rightarrow> string \<Rightarrow> string \<Rightarrow> bool" where
  "baselinable scan version reason \<longleftrightarrow> length (scan_findings scan) \<le> 10000 \<and>
     (scan_findings scan = [] \<or> version \<noteq> [] \<and> trim_space reason \<noteq> [] \<and>
        list_all (\<lambda>x. trim_space (fi_fingerprint x) \<noteq> []) (scan_findings scan))"

lemma strict_loads_iff:
  assumes "create_strict cr version now scan by reason = Inr f"
  shows "load_baseline cr f = Inr f \<longleftrightarrow> baselinable scan version reason"
proof -
  note f = create_strict_form [OF assms]
  have e: "bf_entries f = [] \<longleftrightarrow> scan_findings scan = []" using f(8) by (metis length_0_conv)
  have "list_all (entry_ok 3) (bf_entries f) \<longleftrightarrow>
      (\<forall>x \<in> set (scan_findings scan). trim_space (fi_fingerprint x) \<noteq> [] \<and> trim_space reason \<noteq> [])"
    using occurrence_not_blank by (auto simp: list_all_iff f(7) entry_ok_def entry_for_def)
  then show ?thesis
    unfolding load_baseline_iff baselinable_def
    using f e eligible_subject [OF f(1)] by (cases "scan_findings scan") (auto simp: list_all_iff)
qed

text \<open>
  C22. The authoritative baseline of a scan is saved, and, when the YAML decoder returns the file the encoder wrote,
  it loads again exactly when the scan has at most 10000 findings and, if it has any, the scanner version is
  not empty, the reason not blank and no fingerprint blank; applied to findings of the same subject it suppresses, at any
  time, exactly those that are occurrences of findings of the scan.
\<close>

theorem strict_baseline_covers_scan:
  assumes "create_strict cr version now scan by reason = Inr f" and "decode (encode f) = Some f"
  defines "subject \<equiv> artifact_subject_digest (scan_artifact scan)"
  shows "save_text cr encode RegularFile True f = Inr (encode f) \<and>
    (load_text cr decode (encode f) = Inr f \<longleftrightarrow> baselinable scan version reason) \<and>
    (fi_suppressed (apply_to cr version f t subject x) \<longleftrightarrow> fi_suppressed x \<or>
      occurrence_of cr x subject \<in> (\<lambda>y. occurrence_of cr y subject) ` set (scan_findings scan))"
proof (intro conjI)
  note f = create_strict_form [OF assms(1)]
  show "save_text cr encode RegularFile True f = Inr (encode f)"
    using f(6) by (simp add: save_text_def save_baseline_def sealed_def)
  show "load_text cr decode (encode f) = Inr f \<longleftrightarrow> baselinable scan version reason"
    using strict_loads_iff [OF assms(1)] assms(2) by (simp add: load_text_def)
  have ex: "exact_allowed version f subject"
    using f(3,4) eligible_subject [OF f(1)] by (simp add: exact_allowed_def subject_def)
  have "(\<exists>reason. approved_by_entry cr version f t subject x reason) \<longleftrightarrow>
      occurrence_of cr x subject \<in> (\<lambda>y. occurrence_of cr y subject) ` set (scan_findings scan)"
    unfolding approved_by_entry_def f(7) entry_key_def finding_key_def f(2)
    using ex by (auto simp: unexpired_def entry_for_def image_iff subject_def) (metis (no_types))
  moreover have "\<not> approved_by_rule f t x r" for r by (simp add: approved_by_rule_def f(5))
  ultimately show "fi_suppressed (apply_to cr version f t subject x) \<longleftrightarrow> fi_suppressed x \<or>
      occurrence_of cr x subject \<in> (\<lambda>y. occurrence_of cr y subject) ` set (scan_findings scan)"
    using apply_to_cases [of cr version f t subject x] by (metis suppress_sel(1))
qed

definition sample_scan :: inspected_scan where
  "sample_scan = \<lparr>scan_artifact = \<lparr>ar_name = ''a'', ar_version = ''1'', ar_source = [], ar_digest = ''d'',
       ar_package_digest = []\<rparr>, scan_status = StatusFail, scan_verdict = VerdictBlock, scan_risk_score = 0,
     scan_maximum = ''HIGH'', scan_findings = [zero_finding\<lparr>fi_rule_id := ''R'', fi_fingerprint := ''fp''\<rparr>],
     scan_observations = [], scan_coverage = [], scan_scanners = [], scan_completeness = Finite 1,
     scan_analyzability = [], scan_analyzable = Finite 1, scan_exceeded = [], scan_closure = None,
     is_total = 1, is_failed = 0, is_skipped = 0\<rparr>"

lemma sample_strict: "\<exists>f. create_strict toy_crypto ''0.1.0'' 0 sample_scan ''me'' ''ok'' = Inr f"
proof -
  have "eligible_for_baseline sample_scan = None"
    by (simp add: eligible_for_baseline_def sample_scan_def artifact_subject_digest_def StatusFail_def StatusError_def)
  then show ?thesis by (simp add: create_strict_def Let_def)
qed

lemma sample_baselinable: "baselinable sample_scan ''0.1.0'' ''ok''"
  by (simp add: baselinable_def sample_scan_def plain_edge_def ascii_space_def)

lemma strict_baseline_covers_scan_witness:
  "\<exists>f. create_strict toy_crypto ''0.1.0'' 0 sample_scan ''me'' ''ok'' = Inr f \<and>
     load_text toy_crypto (\<lambda>_. Some f) ''file'' = Inr f \<and>
     fi_suppressed (apply_to toy_crypto ''0.1.0'' f 5 ''d'' (hd (scan_findings sample_scan)))"
proof -
  obtain f where f: "create_strict toy_crypto ''0.1.0'' 0 sample_scan ''me'' ''ok'' = Inr f"
    using sample_strict by blast
  have d: "artifact_subject_digest (scan_artifact sample_scan) = ''d''"
    by (simp add: sample_scan_def artifact_subject_digest_def)
  have "hd (scan_findings sample_scan) \<in> set (scan_findings sample_scan)" by (simp add: sample_scan_def)
  with strict_baseline_covers_scan [OF f, of "\<lambda>_. Some f" "\<lambda>_. ''file''" 5 "hd (scan_findings sample_scan)"] f sample_baselinable
  show ?thesis unfolding d by blast
qed

section \<open>The seal is not binding\<close>

text \<open>
  The seal protects nothing against a writer of the file: a version 3 baseline rewritten as version 2,
  without seal and with a further entry, loads, and the new entry suppresses every finding with its
  fingerprint.
\<close>

theorem seal_stripped_by_downgrade:
  assumes "load_baseline cr f = Inr f" and "exact_allowed version f subject" and "version \<noteq> []"
    and "bf_version f = 3" and "entry_ok 2 e" and "length (bf_entries f) + length (bf_rules f) < 10000"
    and "be_expires e = None" and "fi_fingerprint x = be_fingerprint e"
  shows "let g = f\<lparr>bf_version := 2, bf_integrity := [], bf_entries := bf_entries f @ [e]\<rparr> in
    load_baseline cr g = Inr g \<and> fi_suppressed (apply_to cr version g now subject x)"
proof -
  let ?g = "f\<lparr>bf_version := 2, bf_integrity := [], bf_entries := bf_entries f @ [e]\<rparr>"
  have s: "bf_scanner f = version" "bf_subject f \<noteq> []" "bf_subject f = subject"
    using assms(2,4) by (auto simp: exact_allowed_def)
  have "list_all (entry_ok 2) (bf_entries f)"
    using assms(1,4) unfolding load_baseline_iff by (simp add: list_all_iff entry_ok_def)
  then have "load_baseline cr ?g = Inr ?g"
    using assms(1,3-6) s unfolding load_baseline_iff by simp
  moreover have "approved_by_entry cr version ?g now subject x (be_reason e)"
    using assms(7,8) s by (auto simp: approved_by_entry_def exact_allowed_def unexpired_def entry_key_def finding_key_def)
  then have "fi_suppressed (apply_to cr version ?g now subject x)"
    using apply_to_cases [of cr version ?g now subject x] by (metis suppress_sel(1))
  ultimately show ?thesis by (simp add: Let_def)
qed

lemma seal_stripped_by_downgrade_witness:
  "\<exists>f. load_baseline toy_crypto f = Inr f \<and> bf_version f = 3 \<and>
     (let g = f\<lparr>bf_version := 2, bf_integrity := [],
            bf_entries := bf_entries f @ [entry_for 0 ''x'' ''y'' (zero_finding\<lparr>fi_fingerprint := ''new''\<rparr>)]\<rparr> in
      load_baseline toy_crypto g = Inr g \<and>
      fi_suppressed (apply_to toy_crypto ''0.1.0'' g 0 ''d'' (zero_finding\<lparr>fi_fingerprint := ''new''\<rparr>)))"
proof -
  obtain f where f: "create_strict toy_crypto ''0.1.0'' 0 sample_scan ''me'' ''ok'' = Inr f"
    using sample_strict by blast
  note c = create_strict_form [OF f]
  have "entry_ok 3 e" if "e \<in> set (bf_entries f)" for e
    using that sample_baselinable occurrence_not_blank
    by (auto simp: c(7) entry_ok_def baselinable_def entry_for_def list_all_iff)
  then have l: "load_baseline toy_crypto f = Inr f"
    unfolding load_baseline_iff using c sample_baselinable eligible_subject [OF c(1)]
    by (simp add: baselinable_def list_all_iff)
  have "bf_version f = 3" "bf_rules f = []" "length (bf_entries f) = 1" "exact_allowed ''0.1.0'' f ''d''"
    using c by (simp_all add: exact_allowed_def sample_scan_def artifact_subject_digest_def)
  moreover have "entry_ok 2 (entry_for 0 ''x'' ''y'' (zero_finding\<lparr>fi_fingerprint := ''new''\<rparr>))"
    by (simp add: entry_ok_def entry_for_def plain_edge_def ascii_space_def)
  moreover have "be_expires (entry_for 0 ''x'' ''y'' y) = None" "fi_fingerprint y = be_fingerprint (entry_for 0 ''x'' ''y'' y)"
    for y by (simp_all add: entry_for_def)
  ultimately show ?thesis
    using seal_stripped_by_downgrade [OF l, of "''0.1.0''" "''d''"
        "entry_for 0 ''x'' ''y'' (zero_finding\<lparr>fi_fingerprint := ''new''\<rparr>)"
        "zero_finding\<lparr>fi_fingerprint := ''new''\<rparr>" 0] l
    by (intro exI [of _ f]) simp
qed

end
