(* ===== verification/Derived_View.thy ===== *)
theory Derived_View
  imports Redaction "HOL-Library.Product_Lexorder" "HOL-Library.Char_ord"
begin

text \<open>
  Derived security views, internal/derived/derived.go: alternative forms of a text (decoded, normalised)
  in which every byte remembers the span of the original it comes from, and the breadth-first search
  that builds them under a budget of views, depth and bytes.

  A transformation is a \<open>transformer\<close>; the search works for every list of them.  Offsets are naturals.
  The context is the oracle \<open>bv_cancelled\<close>: whether the i-th look at it finds it cancelled.
\<close>

section \<open>Views\<close>

record derived_budget =
  db_views :: int
  db_depth :: int
  db_bytes :: int

type_synonym span = "nat \<times> nat"

record transformation_step =
  ts_kind :: string
  ts_input :: span
  ts_output :: span
  ts_original :: span
  ts_detail :: string

record view =
  vw_id :: string
  vw_path :: string
  vw_source_digest :: string
  vw_digest :: string
  vw_depth :: nat
  vw_steps :: "transformation_step list"
  vw_data :: string
  vw_mapping :: "span list"
  vw_changed :: "bool list"

record replacement =
  rp_start :: nat
  rp_end :: nat
  rp_data :: string
  rp_detail :: string

record transformer =
  tr_kind :: string
  tr_may_apply :: "string \<Rightarrow> bool"
  tr_apply :: "string \<Rightarrow> replacement list \<times> string list"

record derived_result =
  dr_views :: "view list"
  dr_complete :: bool
  dr_bytes :: int
  dr_max_depth :: nat
  dr_exceeded :: "string list"
  dr_limitations :: "string list"
  dr_polls :: nat

record source_file =
  sf_path :: string
  sf_data :: string
  sf_sha256 :: string
  sf_container_depth :: int

section \<open>Spans\<close>

definition widen :: "span \<Rightarrow> span \<Rightarrow> span" where
  "widen s t = (min (fst s) (fst t), max (snd s) (snd t))"

definition span_of :: "span list \<Rightarrow> nat \<Rightarrow> nat \<Rightarrow> span" where
  "span_of mapping s e = fold widen (take (e - (s + 1)) (drop (s + 1) mapping)) (mapping ! s)"

text \<open>The original span of a range of the output, and whether the range was transformed.\<close>

definition original_span :: "view \<Rightarrow> int \<Rightarrow> int \<Rightarrow> (span \<times> bool) option" where
  "original_span v s e =
     (let s' = nat (max 0 s); e' = nat (min e (int (length (vw_mapping v)))) in
      if e' \<le> s' then None
      else Some (span_of (vw_mapping v) s' e', list_ex (\<lambda>c. c) (take (e' - s') (drop s' (vw_changed v)))))"

section \<open>Applying replacements\<close>

record splice =
  sp_cursor :: nat
  sp_data :: string
  sp_mapping :: "span list"
  sp_changed :: "bool list"
  sp_removed :: "nat list"
  sp_steps :: "transformation_step list"

definition slice :: "'a list \<Rightarrow> nat \<Rightarrow> nat \<Rightarrow> 'a list" where
  "slice xs s e = take (e - s) (drop s xs)"

definition splice_one :: "view \<Rightarrow> string \<Rightarrow> replacement \<Rightarrow> splice \<Rightarrow> splice option" where
  "splice_one v kind r p =
     (if rp_start r < sp_cursor p \<or> rp_end r \<le> rp_start r \<or> length (vw_data v) < rp_end r then None
      else
        (let data = sp_data p @ slice (vw_data v) (sp_cursor p) (rp_start r);
             orig = span_of (vw_mapping v) (rp_start r) (rp_end r) in
         Some \<lparr>sp_cursor = rp_end r, sp_data = data @ rp_data r,
           sp_mapping = sp_mapping p @ slice (vw_mapping v) (sp_cursor p) (rp_start r) @ replicate (length (rp_data r)) orig,
           sp_changed = sp_changed p @ slice (vw_changed v) (sp_cursor p) (rp_start r) @ replicate (length (rp_data r)) True,
           sp_removed = (if rp_data r = [] then sp_removed p @ [length data] else sp_removed p),
           sp_steps = sp_steps p @ [\<lparr>ts_kind = kind, ts_input = (rp_start r, rp_end r),
             ts_output = (length data, length data + length (rp_data r)), ts_original = orig,
             ts_detail = rp_detail r\<rparr>]\<rparr>))"

fun splice_all :: "view \<Rightarrow> string \<Rightarrow> replacement list \<Rightarrow> splice \<Rightarrow> splice option" where
  "splice_all v kind [] p = Some p"
| "splice_all v kind (r # rs) p =
     (case splice_one v kind r p of None \<Rightarrow> None | Some q \<Rightarrow> splice_all v kind rs q)"

definition mark_removal :: "nat \<Rightarrow> bool list \<Rightarrow> bool list" where
  "mark_removal k changed =
     (if k < length changed then changed[k := True]
      else if 0 < k then changed[k - 1 := True] else changed)"

definition apply_replacements :: "view \<Rightarrow> string \<Rightarrow> replacement list \<Rightarrow> view option" where
  "apply_replacements v kind rs =
     (case splice_all v kind (sort_key rp_start rs)
        \<lparr>sp_cursor = 0, sp_data = [], sp_mapping = [], sp_changed = [], sp_removed = [], sp_steps = vw_steps v\<rparr> of
        None \<Rightarrow> None
      | Some p \<Rightarrow> Some \<lparr>vw_id = [], vw_path = [], vw_source_digest = [], vw_digest = [], vw_depth = 0,
          vw_steps = sp_steps p,
          vw_data = sp_data p @ drop (sp_cursor p) (vw_data v),
          vw_mapping = sp_mapping p @ drop (sp_cursor p) (vw_mapping v),
          vw_changed = fold mark_removal (sp_removed p) (sp_changed p @ drop (sp_cursor p) (vw_changed v))\<rparr>)"

definition root_view :: "string \<Rightarrow> view" where
  "root_view data = \<lparr>vw_id = [], vw_path = [], vw_source_digest = [], vw_digest = [], vw_depth = 0, vw_steps = [],
     vw_data = data, vw_mapping = map (\<lambda>i. (i, i + 1)) [0..<length data], vw_changed = replicate (length data) False\<rparr>"

section \<open>Limitations\<close>

definition add_limitation :: "string \<Rightarrow> derived_result \<Rightarrow> derived_result" where
  "add_limitation l r = r\<lparr>dr_complete := False,
     dr_limitations := (if l \<in> set (dr_limitations r) then dr_limitations r else dr_limitations r @ [l])\<rparr>"

definition mark_exceeded :: "string \<Rightarrow> string \<Rightarrow> derived_result \<Rightarrow> derived_result" where
  "mark_exceeded d l r =
     add_limitation l (if d \<in> set (dr_exceeded r) then r else r\<lparr>dr_exceeded := sort_strings (dr_exceeded r @ [d])\<rparr>)"

definition limitation :: "source_file \<Rightarrow> transformer \<Rightarrow> string \<Rightarrow> string" where
  "limitation f t issue = sf_path f @ '': '' @ tr_kind t @ '': '' @ issue"

definition reached :: "source_file \<Rightarrow> string \<Rightarrow> int \<Rightarrow> string" where
  "reached f what n = sf_path f @ '': maximum derived '' @ what @ '' '' @ dec_int n @ '' reached''"

section \<open>The search\<close>

record build_env =
  bv_crypto :: crypto
  bv_budget :: derived_budget
  bv_transformers :: "transformer list"
  bv_cancelled :: "nat \<Rightarrow> bool"

definition digest :: "build_env \<Rightarrow> string \<Rightarrow> string" where
  "digest env d = sha256_hex (bv_crypto env) d"

definition transformation_identity :: "transformation_step list \<Rightarrow> string" where
  "transformation_identity ss =
     join (map (\<lambda>s. ts_kind s @ '':'' @ dec_nat (fst (ts_original s)) @ '':'' @ dec_nat (snd (ts_original s))) ss) ''|''"

definition view_id :: "build_env \<Rightarrow> source_file \<Rightarrow> string \<Rightarrow> transformation_step list \<Rightarrow> string" where
  "view_id env f d ss = ''dv-'' @ take 20 (digest env (sf_path f @ [CHR 0x00] @ digest env (sf_data f) @ [CHR 0x00] @ d @
     [CHR 0x00] @ transformation_identity ss))"

definition max_token_bytes :: nat where
  "max_token_bytes = 1048576"

text \<open>The state of the search in one file; \<open>sr_stop\<close> is the early return at a full budget.\<close>

record search =
  sr_result :: derived_result
  sr_queue :: "view list"
  sr_seen :: "string list"
  sr_stop :: bool

definition kind_used :: "view \<Rightarrow> string \<Rightarrow> bool" where
  "kind_used v k \<longleftrightarrow> k \<in> set (map ts_kind (vw_steps v))"

definition applicable :: "view \<Rightarrow> transformer \<Rightarrow> bool" where
  "applicable v t \<longleftrightarrow> \<not> kind_used v (tr_kind t) \<and> tr_may_apply t (vw_data v)"

definition add_issues :: "source_file \<Rightarrow> transformer \<Rightarrow> string list \<Rightarrow> derived_result \<Rightarrow> derived_result" where
  "add_issues f t issues r = fold (\<lambda>i. add_limitation (limitation f t i)) issues r"

definition finish_view :: "build_env \<Rightarrow> source_file \<Rightarrow> view \<Rightarrow> view \<Rightarrow> view" where
  "finish_view env f cur next = next\<lparr>vw_path := sf_path f, vw_source_digest := digest env (sf_data f),
     vw_digest := digest env (vw_data next), vw_depth := vw_depth cur + 1,
     vw_id := view_id env f (digest env (vw_data next)) (vw_steps next)\<rparr>"

definition add_view :: "view \<Rightarrow> search \<Rightarrow> search" where
  "add_view v s = s\<lparr>sr_result := (sr_result s)\<lparr>dr_views := dr_views (sr_result s) @ [v],
       dr_bytes := dr_bytes (sr_result s) + int (length (vw_data v)),
       dr_max_depth := max (dr_max_depth (sr_result s)) (vw_depth v)\<rparr>,
     sr_queue := sr_queue s @ [v], sr_seen := vw_digest v # sr_seen s\<rparr>"

text \<open>One view the search has produced: a repeated content is dropped, a full budget ends the file.\<close>

definition offer_view :: "build_env \<Rightarrow> source_file \<Rightarrow> view \<Rightarrow> search \<Rightarrow> search" where
  "offer_view env f v s =
     (let r = sr_result s; b = bv_budget env in
      if vw_digest v \<in> set (sr_seen s) then s
      else if db_views b \<le> int (length (dr_views r))
        then s\<lparr>sr_result := mark_exceeded ''derived_views'' (reached f ''view count'' (db_views b)) r, sr_stop := True\<rparr>
      else if db_bytes b < dr_bytes r + int (length (vw_data v))
        then s\<lparr>sr_result := mark_exceeded ''derived_bytes'' (reached f ''bytes'' (db_bytes b)) r, sr_stop := True\<rparr>
      else add_view v s)"

definition expand_one :: "build_env \<Rightarrow> source_file \<Rightarrow> view \<Rightarrow> transformer \<Rightarrow> search \<Rightarrow> search" where
  "expand_one env f cur t s =
     (if sr_stop s \<or> \<not> applicable cur t then s
      else
        (let (rs, issues) = tr_apply t (vw_data cur);
             s1 = s\<lparr>sr_result := add_issues f t issues (sr_result s)\<rparr> in
         if rs = [] then s1
         else
           (case apply_replacements cur (tr_kind t) rs of
              None \<Rightarrow> s1\<lparr>sr_result := add_limitation (limitation f t ''output exceeds safe per-view bound'') (sr_result s1)\<rparr>
            | Some next \<Rightarrow>
                if max_token_bytes * 16 < length (vw_data next)
                then s1\<lparr>sr_result := add_limitation (limitation f t ''output exceeds safe per-view bound'') (sr_result s1)\<rparr>
                else offer_view env f (finish_view env f cur next) s1)))"

definition expand :: "build_env \<Rightarrow> source_file \<Rightarrow> view \<Rightarrow> search \<Rightarrow> search" where
  "expand env f cur s = fold (expand_one env f cur) (bv_transformers env) s"

text \<open>At the maximal depth nothing is built, but a transformation that would apply is recorded.\<close>

fun probe :: "build_env \<Rightarrow> source_file \<Rightarrow> view \<Rightarrow> transformer list \<Rightarrow> derived_result \<Rightarrow> derived_result" where
  "probe env f cur [] r = r"
| "probe env f cur (t # ts) r =
     (if applicable cur t then
        (let (rs, issues) = tr_apply t (vw_data cur); r1 = add_issues f t issues r in
         if rs \<noteq> [] then mark_exceeded ''derived_depth'' (reached f ''view depth'' (db_depth (bv_budget env))) r1
         else probe env f cur ts r1)
      else probe env f cur ts r)"

definition visit :: "build_env \<Rightarrow> source_file \<Rightarrow> view \<Rightarrow> search \<Rightarrow> search" where
  "visit env f cur s =
     (if db_depth (bv_budget env) \<le> int (vw_depth cur)
      then s\<lparr>sr_result := probe env f cur (bv_transformers env) (sr_result s)\<rparr>
      else expand env f cur s)"

definition poll :: "derived_result \<Rightarrow> derived_result" where
  "poll r = r\<lparr>dr_polls := dr_polls r + 1\<rparr>"

definition cancellation :: "source_file \<Rightarrow> string" where
  "cancellation f = sf_path f @ '': derived view construction cancelled''"

text \<open>The queue shrinks by one with every visit and grows only together with the bounded views.\<close>

definition search_measure :: "build_env \<Rightarrow> search \<Rightarrow> nat" where
  "search_measure env s = 2 * nat (db_views (bv_budget env) - int (length (dr_views (sr_result s)))) + length (sr_queue s)"

lemma add_limitation_sel [simp]: "dr_views (add_limitation l r) = dr_views r" "dr_bytes (add_limitation l r) = dr_bytes r"
  "dr_max_depth (add_limitation l r) = dr_max_depth r" "dr_polls (add_limitation l r) = dr_polls r"
  "\<not> dr_complete (add_limitation l r)"
  by (simp_all add: add_limitation_def)

lemma mark_exceeded_sel [simp]: "dr_views (mark_exceeded d l r) = dr_views r" "dr_bytes (mark_exceeded d l r) = dr_bytes r"
  "dr_max_depth (mark_exceeded d l r) = dr_max_depth r" "dr_polls (mark_exceeded d l r) = dr_polls r"
  "\<not> dr_complete (mark_exceeded d l r)"
  by (simp_all add: mark_exceeded_def)

lemma add_issues_sel [simp]: "dr_views (add_issues f t is r) = dr_views r" "dr_bytes (add_issues f t is r) = dr_bytes r"
  "dr_max_depth (add_issues f t is r) = dr_max_depth r" "dr_polls (add_issues f t is r) = dr_polls r"
  by (induction "is" arbitrary: r) (simp_all add: add_issues_def)

lemma probe_sel [simp]: "dr_views (probe env f cur ts r) = dr_views r" "dr_bytes (probe env f cur ts r) = dr_bytes r"
  "dr_max_depth (probe env f cur ts r) = dr_max_depth r" "dr_polls (probe env f cur ts r) = dr_polls r"
  by (induction ts arbitrary: r) (auto simp: Let_def split: prod.split)

lemma search_measure_mark: "search_measure env (s\<lparr>sr_result := r, sr_stop := b\<rparr>) = search_measure env (s\<lparr>sr_result := r\<rparr>)"
  by (simp add: search_measure_def)

lemma offer_view_measure: "search_measure env (offer_view env f v s) \<le> search_measure env s"
  by (auto simp: offer_view_def Let_def search_measure_def add_view_def)

lemma expand_one_measure: "search_measure env (expand_one env f cur t s) \<le> search_measure env s"
proof -
  have m: "search_measure env (s\<lparr>sr_result := r\<rparr>) = search_measure env s" if "dr_views r = dr_views (sr_result s)" for s r
    using that by (simp add: search_measure_def)
  show ?thesis
    unfolding expand_one_def Let_def
    using offer_view_measure [of env f _ "s\<lparr>sr_result := add_issues f t is (sr_result s)\<rparr>" for "is"]
    by (auto simp: m split: prod.split option.split)
qed

lemma expand_measure: "search_measure env (expand env f cur s) \<le> search_measure env s"
proof -
  have "search_measure env (fold (expand_one env f cur) ts s) \<le> search_measure env s" for ts
    by (induction ts arbitrary: s) (auto intro: order_trans [OF _ expand_one_measure])
  then show ?thesis by (simp add: expand_def)
qed

lemma visit_measure: "search_measure env (visit env f cur s) \<le> search_measure env s"
  using expand_measure [of env f cur s] by (simp add: visit_def search_measure_def)

function build_queue :: "build_env \<Rightarrow> source_file \<Rightarrow> search \<Rightarrow> search" where
  "build_queue env f s =
     (case sr_queue s of
        [] \<Rightarrow> s
      | cur # rest \<Rightarrow>
          if sr_stop s then s
          else
            (let r = poll (sr_result s) in
             if bv_cancelled env (dr_polls (sr_result s))
             then s\<lparr>sr_result := add_limitation (cancellation f) r, sr_stop := True\<rparr>
             else build_queue env f (visit env f cur (s\<lparr>sr_result := r, sr_queue := rest\<rparr>))))"
  by pat_completeness auto
termination
proof (relation "measure (\<lambda>(env, f, s). search_measure env s)")
  fix env :: build_env and f :: source_file and s :: search and cur rest and r :: derived_result
  assume q: "sr_queue s = cur # rest" and r: "r = poll (sr_result s)"
  let ?s = "s\<lparr>sr_result := r, sr_queue := rest\<rparr>"
  have "search_measure env ?s < search_measure env s" using q r by (simp add: search_measure_def poll_def)
  then show "((env, f, visit env f cur ?s), env, f, s) \<in> measure (\<lambda>(env, f, s). search_measure env s)"
    using visit_measure [of env f cur ?s] by simp
qed simp

declare build_queue.simps [simp del]

definition build_file :: "build_env \<Rightarrow> source_file \<Rightarrow> derived_result \<Rightarrow> derived_result" where
  "build_file env f r = sr_result (build_queue env f \<lparr>sr_result = r, sr_queue = [root_view (sf_data f)],
     sr_seen = [digest env (sf_data f)], sr_stop = False\<rparr>)"

section \<open>All files\<close>

definition valid_utf8 :: "string \<Rightarrow> bool" where
  "valid_utf8 s \<longleftrightarrow> \<not> list_ex (\<lambda>(r, c). r = 65533 \<and> length c = 1) (rune_chunks s)"

fun build_files :: "build_env \<Rightarrow> source_file list \<Rightarrow> derived_result \<Rightarrow> derived_result" where
  "build_files env [] r = r"
| "build_files env (f # fs) r =
     (let p = poll r in
      if bv_cancelled env (dr_polls r) then add_limitation (cancellation f) p
      else if \<not> valid_utf8 (sf_data f) \<or> sf_data f = [] then build_files env fs p
      else build_files env fs (build_file env f p))"

definition empty_result :: derived_result where
  "empty_result = \<lparr>dr_views = [], dr_complete = True, dr_bytes = 0, dr_max_depth = 0, dr_exceeded = [],
     dr_limitations = [], dr_polls = 0\<rparr>"

definition build_views :: "build_env \<Rightarrow> source_file list \<Rightarrow> derived_result" where
  "build_views env fs =
     (let b = bv_budget env in
      if db_views b \<le> 0 \<or> db_depth b \<le> 0 \<or> db_bytes b \<le> 0
      then empty_result\<lparr>dr_complete := False,
        dr_limitations := [''derived security view budget is disabled or invalid'']\<rparr>
      else build_files env (sort_key (\<lambda>f. (sf_path f, digest env (sf_data f))) fs) empty_result)"

end
