(* ===== verification/Derived_Props.thy ===== *)
theory Derived_Props
  imports Derived_View
begin

text \<open>
  Properties of derived views: every byte of a view is traced to the original file, a range that is not
  reported as transformed is a verbatim part of it, the search stays within its budget, and a result
  that claims to be complete leaves nothing out that its transformations could derive.
\<close>

section \<open>Cells\<close>

text \<open>A byte of a view with its span and flag.\<close>

type_synonym cell = "char \<times> span \<times> bool"

definition cells :: "string \<Rightarrow> span list \<Rightarrow> bool list \<Rightarrow> cell list" where
  "cells d m c = zip d (zip m c)"

definition traced :: "string \<Rightarrow> cell \<Rightarrow> bool" where
  "traced orig x = (case x of (b, (s, e), ch) \<Rightarrow> s < e \<and> e \<le> length orig \<and>
     (ch \<or> e = s + 1 \<and> b = orig ! s))"

text \<open>Neighbours that are both unchanged are neighbours in the original, except at the places in \<open>R\<close>.\<close>

definition follows :: "cell \<Rightarrow> cell \<Rightarrow> bool" where
  "follows x y = (case (x, y) of ((b, (s, e), ch), (b', (s', e'), ch')) \<Rightarrow> ch \<or> ch' \<or> s' = s + 1)"

definition contiguous :: "nat set \<Rightarrow> cell list \<Rightarrow> bool" where
  "contiguous R xs \<longleftrightarrow> (\<forall>i. Suc i < length xs \<longrightarrow> Suc i \<notin> R \<longrightarrow> follows (xs ! i) (xs ! Suc i))"

definition cell_changed :: "cell \<Rightarrow> bool" where
  "cell_changed x = snd (snd x)"

definition aligned :: "string \<Rightarrow> span list \<Rightarrow> bool list \<Rightarrow> bool" where
  "aligned d m c \<longleftrightarrow> length m = length d \<and> length c = length d"

definition well_traced :: "string \<Rightarrow> view \<Rightarrow> bool" where
  "well_traced orig v \<longleftrightarrow> aligned (vw_data v) (vw_mapping v) (vw_changed v) \<and>
     list_all (traced orig) (cells (vw_data v) (vw_mapping v) (vw_changed v)) \<and>
     contiguous {} (cells (vw_data v) (vw_mapping v) (vw_changed v))"

lemma cells_append:
  "aligned d m c \<Longrightarrow> cells (d @ d') (m @ m') (c @ c') = cells d m c @ cells d' m' c'"
  by (simp add: cells_def aligned_def)

lemma length_cells: "aligned d m c \<Longrightarrow> length (cells d m c) = length d"
  by (simp add: cells_def aligned_def)

lemma nth_cells: "aligned d m c \<Longrightarrow> i < length d \<Longrightarrow> cells d m c ! i = (d ! i, m ! i, c ! i)"
  by (simp add: cells_def aligned_def)

lemma aligned_append: "aligned d m c \<Longrightarrow> aligned d' m' c' \<Longrightarrow> aligned (d @ d') (m @ m') (c @ c')"
  by (simp add: aligned_def)

lemma aligned_slice: "aligned d m c \<Longrightarrow> aligned (slice d s e) (slice m s e) (slice c s e)"
  by (simp add: aligned_def slice_def)

lemma aligned_drop: "aligned d m c \<Longrightarrow> aligned (drop s d) (drop s m) (drop s c)"
  by (simp add: aligned_def)

lemma cells_slice: "cells (slice d s e) (slice m s e) (slice c s e) = slice (cells d m c) s e"
  by (simp add: cells_def slice_def take_zip drop_zip)

lemma cells_drop: "cells (drop s d) (drop s m) (drop s c) = drop s (cells d m c)"
  by (simp add: cells_def drop_zip)

lemma contiguous_append:
  assumes xs: "contiguous R xs" and ys: "contiguous {} ys"
    and join: "xs = [] \<or> cell_changed (last xs) \<or> length xs \<in> R"
  shows "contiguous R (xs @ ys)"
  unfolding contiguous_def
proof (intro allI impI)
  fix i
  assume i: "Suc i < length (xs @ ys)" and R: "Suc i \<notin> R"
  consider "Suc i < length xs" | "Suc i = length xs" | "length xs \<le> i" by linarith
  then show "follows ((xs @ ys) ! i) ((xs @ ys) ! Suc i)"
  proof cases
    case 1
    with xs R show ?thesis by (simp add: contiguous_def nth_append)
  next
    case 2
    then have ne: "xs \<noteq> []" and "length xs - 1 = i" by auto
    then have l: "(xs @ ys) ! i = last xs" using 2 by (simp add: nth_append last_conv_nth)
    with join R 2 have "cell_changed (last xs)" by auto
    then show ?thesis unfolding l by (cases "last xs") (auto simp: follows_def cell_changed_def split: prod.splits)
  next
    case 3
    then have "Suc (i - length xs) < length ys" using i by simp
    with ys have "follows (ys ! (i - length xs)) (ys ! Suc (i - length xs))" by (simp add: contiguous_def)
    with 3 show ?thesis by (simp add: nth_append Suc_diff_le)
  qed
qed

lemma contiguous_slice: "contiguous {} xs \<Longrightarrow> contiguous {} (slice xs s e)"
  by (auto simp: contiguous_def slice_def)

lemma contiguous_drop: "contiguous {} xs \<Longrightarrow> contiguous {} (drop s xs)"
  by (auto simp: contiguous_def)

lemma contiguous_mono: "contiguous R xs \<Longrightarrow> R \<subseteq> S \<Longrightarrow> contiguous S xs"
  by (auto simp: contiguous_def)

lemma contiguous_changed: "list_all cell_changed xs \<Longrightarrow> contiguous R xs"
  by (auto simp: contiguous_def list_all_length follows_def cell_changed_def split: prod.splits)

section \<open>Applying replacements keeps the trace\<close>

lemma span_of_bounds:
  assumes "s < e" and "e \<le> length m" and "list_all (\<lambda>x. fst x < snd x \<and> snd x \<le> n) m"
  shows "fst (span_of m s e) < snd (span_of m s e) \<and> snd (span_of m s e) \<le> n"
proof -
  have "fst (fold widen xs x) < snd (fold widen xs x) \<and> snd (fold widen xs x) \<le> n"
    if "list_all (\<lambda>x. fst x < snd x \<and> snd x \<le> n) xs" "fst x < snd x \<and> snd x \<le> n" for xs x
    using that by (induction xs arbitrary: x) (auto simp: widen_def)
  moreover have "list_all (\<lambda>x. fst x < snd x \<and> snd x \<le> n) (take (e - (s + 1)) (drop (s + 1) m))"
    using assms(3) by (auto simp: list_all_iff dest!: in_set_takeD in_set_dropD)
  moreover have "fst (m ! s) < snd (m ! s) \<and> snd (m ! s) \<le> n"
    using assms by (simp add: list_all_length)
  ultimately show ?thesis unfolding span_of_def by blast
qed

lemma traced_bounds: "aligned d m c \<Longrightarrow> list_all (traced orig) (cells d m c) \<Longrightarrow>
   list_all (\<lambda>x. fst x < snd x \<and> snd x \<le> length orig) m"
proof -
  assume a: "aligned d m c" and t: "list_all (traced orig) (cells d m c)"
  have "fst (m ! i) < snd (m ! i) \<and> snd (m ! i) \<le> length orig" if "i < length m" for i
  proof -
    have "i < length d" using that a by (simp add: aligned_def)
    with t a have "traced orig (d ! i, m ! i, c ! i)" by (simp add: list_all_length length_cells nth_cells)
    then show ?thesis by (cases "m ! i") (simp add: traced_def)
  qed
  then show ?thesis by (simp add: list_all_length)
qed

text \<open>The invariant of the splice: traced, contiguous but for the removals, and closed at its end.\<close>

definition splice_ok :: "string \<Rightarrow> view \<Rightarrow> splice \<Rightarrow> bool" where
  "splice_ok orig v p \<longleftrightarrow> aligned (sp_data p) (sp_mapping p) (sp_changed p) \<and> sp_cursor p \<le> length (vw_data v) \<and>
     list_all (traced orig) (cells (sp_data p) (sp_mapping p) (sp_changed p)) \<and>
     contiguous (set (sp_removed p)) (cells (sp_data p) (sp_mapping p) (sp_changed p)) \<and>
     (sp_data p = [] \<or> last (sp_changed p) \<or> length (sp_data p) \<in> set (sp_removed p))"

lemma cells_nonempty: "aligned d m c \<Longrightarrow> cells d m c = [] \<longleftrightarrow> d = []"
  using length_cells [of d m c] by (metis length_0_conv)

lemma last_cells: "aligned d m c \<Longrightarrow> d \<noteq> [] \<Longrightarrow> cell_changed (last (cells d m c)) = last c"
proof -
  assume a: "aligned d m c" and d: "d \<noteq> []"
  then have l: "length (cells d m c) = length d" "length c = length d" "length d - 1 < length d"
    by (simp_all add: length_cells aligned_def)
  then have "cells d m c \<noteq> []" "c \<noteq> []" using d by auto
  then show ?thesis using nth_cells [OF a l(3)] by (simp add: last_conv_nth l cell_changed_def)
qed

lemma splice_one_ok:
  assumes v: "well_traced orig v" and p: "splice_ok orig v p" and q: "splice_one v kind r p = Some q"
  shows "splice_ok orig v q"
proof -
  let ?d = "slice (vw_data v) (sp_cursor p) (rp_start r)" and ?m = "slice (vw_mapping v) (sp_cursor p) (rp_start r)"
    and ?c = "slice (vw_changed v) (sp_cursor p) (rp_start r)" and ?n = "length (rp_data r)"
    and ?o = "span_of (vw_mapping v) (rp_start r) (rp_end r)"
  have g: "sp_cursor p \<le> rp_start r" "rp_start r < rp_end r" "rp_end r \<le> length (vw_data v)"
    using q by (auto simp: splice_one_def split: if_splits)
  have q': "sp_cursor q = rp_end r" "sp_data q = (sp_data p @ ?d) @ rp_data r"
    "sp_mapping q = (sp_mapping p @ ?m) @ replicate ?n ?o" "sp_changed q = (sp_changed p @ ?c) @ replicate ?n True"
    "sp_removed q = (if rp_data r = [] then sp_removed p @ [length (sp_data p @ ?d)] else sp_removed p)"
    using q g by (auto simp: splice_one_def Let_def split: if_splits)
  have av: "aligned (vw_data v) (vw_mapping v) (vw_changed v)"
    and tv: "list_all (traced orig) (cells (vw_data v) (vw_mapping v) (vw_changed v))"
    and cv: "contiguous {} (cells (vw_data v) (vw_mapping v) (vw_changed v))"
    using v by (simp_all add: well_traced_def)
  have ap: "aligned (sp_data p) (sp_mapping p) (sp_changed p)" and tp: "list_all (traced orig) (cells (sp_data p) (sp_mapping p) (sp_changed p))"
    and cp: "contiguous (set (sp_removed p)) (cells (sp_data p) (sp_mapping p) (sp_changed p))"
    and ep: "sp_data p = [] \<or> last (sp_changed p) \<or> length (sp_data p) \<in> set (sp_removed p)"
    using p by (simp_all add: splice_ok_def)
  have a1: "aligned (sp_data p @ ?d) (sp_mapping p @ ?m) (sp_changed p @ ?c)"
    by (rule aligned_append [OF ap aligned_slice [OF av]])
  have a2: "aligned (rp_data r) (replicate ?n ?o) (replicate ?n True)" by (simp add: aligned_def)
  have c1: "cells (sp_data p @ ?d) (sp_mapping p @ ?m) (sp_changed p @ ?c) =
      cells (sp_data p) (sp_mapping p) (sp_changed p) @ slice (cells (vw_data v) (vw_mapping v) (vw_changed v)) (sp_cursor p) (rp_start r)"
    by (simp add: cells_append [OF ap] cells_slice)
  have o: "fst ?o < snd ?o \<and> snd ?o \<le> length orig"
    using span_of_bounds [OF g(2) _ traced_bounds [OF av tv]] g(3) av by (simp add: aligned_def)
  have t2: "list_all (traced orig) (cells (rp_data r) (replicate ?n ?o) (replicate ?n True))"
    using o by (auto simp: list_all_length length_cells [OF a2] nth_cells [OF a2] traced_def split: prod.splits)
  have t1: "list_all (traced orig) (cells (sp_data p @ ?d) (sp_mapping p @ ?m) (sp_changed p @ ?c))"
    using tp tv unfolding c1 by (auto simp: list_all_iff slice_def dest!: in_set_takeD in_set_dropD)
  have k1: "contiguous (set (sp_removed p)) (cells (sp_data p @ ?d) (sp_mapping p @ ?m) (sp_changed p @ ?c))"
    unfolding c1
    using cp contiguous_slice [OF cv] ep last_cells [OF ap] cells_nonempty [OF ap] length_cells [OF ap]
    by (intro contiguous_append) auto
  have e: "last (sp_changed q) \<or> length (sp_data q) \<in> set (sp_removed q)" if "sp_data q \<noteq> []"
    using that by (cases "rp_data r = []") (auto simp: q' last_replicate)
  have "contiguous (set (sp_removed q)) (cells (sp_data q) (sp_mapping q) (sp_changed q))"
  proof (cases "rp_data r = []")
    case True
    have "set (sp_removed p) \<subseteq> set (sp_removed q)" by (auto simp: q')
    from contiguous_mono [OF k1 this] show ?thesis by (simp add: q'(2-4) True)
  next
    case False
    have fl: "list_all cell_changed (cells (rp_data r) (replicate ?n ?o) (replicate ?n True))"
      by (auto simp: list_all_length length_cells [OF a2] nth_cells [OF a2] cell_changed_def)
    show ?thesis
      unfolding q'(2-4) cells_append [OF a1]
      unfolding contiguous_def
    proof (intro allI impI)
      fix i
      let ?xs = "cells (sp_data p @ ?d) (sp_mapping p @ ?m) (sp_changed p @ ?c)"
      let ?ys = "cells (rp_data r) (replicate ?n ?o) (replicate ?n True)"
      assume i: "Suc i < length (?xs @ ?ys)" and R: "Suc i \<notin> set (sp_removed q)"
      show "follows ((?xs @ ?ys) ! i) ((?xs @ ?ys) ! Suc i)"
      proof (cases "Suc i < length ?xs")
        case True
        with k1 R False show ?thesis by (simp add: contiguous_def nth_append q'(5))
      next
        case False
        then have "(?xs @ ?ys) ! Suc i = ?ys ! (Suc i - length ?xs)" "Suc i - length ?xs < length ?ys"
          using i by (auto simp: nth_append)
        with fl have "cell_changed ((?xs @ ?ys) ! Suc i)" by (simp add: list_all_length)
        then show ?thesis by (auto simp: follows_def cell_changed_def split: prod.splits)
      qed
    qed
  qed
  note contig = this
  have "aligned (sp_data q) (sp_mapping q) (sp_changed q)" unfolding q'(2-4) by (rule aligned_append [OF a1 a2])
  moreover have "list_all (traced orig) (cells (sp_data q) (sp_mapping q) (sp_changed q))"
    unfolding q'(2-4) cells_append [OF a1] using t1 t2 by (simp only: list_all_append)
  moreover have "sp_cursor q \<le> length (vw_data v)" using g(3) q'(1) by simp
  ultimately show ?thesis unfolding splice_ok_def using contig e by blast
qed

lemma splice_all_ok:
  "well_traced orig v \<Longrightarrow> splice_ok orig v p \<Longrightarrow> splice_all v kind rs p = Some q \<Longrightarrow> splice_ok orig v q"
  by (induction rs arbitrary: p) (auto split: option.splits dest: splice_one_ok)

text \<open>The flags set for removals: none is cleared, and every removal inside the text is flagged.\<close>

lemma mark_removal_flags:
  "length (mark_removal k c) = length c \<and> (\<forall>i<length c. c ! i \<longrightarrow> mark_removal k c ! i) \<and>
   (k < length c \<longrightarrow> mark_removal k c ! k)"
proof -
  have "i < length c \<Longrightarrow> c ! i \<Longrightarrow> c[j := True] ! i" for i j by (cases "j = i") auto
  then show ?thesis by (auto simp: mark_removal_def)
qed

lemma mark_removals_flags:
  "length (fold mark_removal ks c) = length c \<and> (\<forall>i<length c. c ! i \<longrightarrow> fold mark_removal ks c ! i) \<and>
   (\<forall>k\<in>set ks. k < length c \<longrightarrow> fold mark_removal ks c ! k)"
proof (induction ks arbitrary: c)
  case (Cons k ks)
  show ?case using Cons [of "mark_removal k c"] mark_removal_flags [of k c] by auto
qed simp

lemma flagged_traced:
  assumes a: "aligned d m c" and l: "length c' = length c" and le: "\<forall>i<length c. c ! i \<longrightarrow> c' ! i"
    and t: "list_all (traced orig) (cells d m c)"
  shows "list_all (traced orig) (cells d m c')"
proof -
  have a': "aligned d m c'" using a l by (simp add: aligned_def)
  have "traced orig (d ! i, m ! i, c' ! i)" if i: "i < length d" for i
  proof -
    have "traced orig (d ! i, m ! i, c ! i)" using t i by (simp add: list_all_length length_cells [OF a] nth_cells [OF a])
    moreover have "c ! i \<longrightarrow> c' ! i" using le i a by (simp add: aligned_def)
    ultimately show ?thesis by (cases "m ! i") (auto simp: traced_def)
  qed
  then show ?thesis by (simp add: list_all_length length_cells [OF a'] nth_cells [OF a'])
qed

lemma flagged_contiguous:
  assumes a: "aligned d m c" and l: "length c' = length c" and le: "\<forall>i<length c. c ! i \<longrightarrow> c' ! i"
    and R: "\<forall>k\<in>R. k < length c \<longrightarrow> c' ! k" and k: "contiguous R (cells d m c)"
  shows "contiguous {} (cells d m c')"
proof -
  have a': "aligned d m c'" using a l by (simp add: aligned_def)
  have "follows (d ! i, m ! i, c' ! i) (d ! Suc i, m ! Suc i, c' ! Suc i)" if i: "Suc i < length d" for i
  proof (cases "Suc i \<in> R")
    case True
    then have "c' ! Suc i" using R i a by (simp add: aligned_def)
    then show ?thesis by (simp add: follows_def split: prod.split)
  next
    case False
    with k i have "follows (d ! i, m ! i, c ! i) (d ! Suc i, m ! Suc i, c ! Suc i)"
      by (simp add: contiguous_def length_cells [OF a] nth_cells [OF a])
    moreover have "(c ! i \<longrightarrow> c' ! i) \<and> (c ! Suc i \<longrightarrow> c' ! Suc i)" using le i a by (simp add: aligned_def)
    ultimately show ?thesis by (cases "m ! i"; cases "m ! Suc i") (auto simp: follows_def)
  qed
  then show ?thesis by (simp add: contiguous_def length_cells [OF a'] nth_cells [OF a'])
qed

lemma apply_replacements_traced:
  assumes v: "well_traced orig v" and w: "apply_replacements v kind rs = Some w"
  shows "well_traced orig w"
proof -
  let ?p0 = "\<lparr>sp_cursor = 0, sp_data = [], sp_mapping = [], sp_changed = [], sp_removed = [], sp_steps = vw_steps v\<rparr>"
  obtain p where sp: "splice_all v kind (sort_key rp_start rs) ?p0 = Some p"
    and w': "vw_data w = sp_data p @ drop (sp_cursor p) (vw_data v)"
    "vw_mapping w = sp_mapping p @ drop (sp_cursor p) (vw_mapping v)"
    "vw_changed w = fold mark_removal (sp_removed p) (sp_changed p @ drop (sp_cursor p) (vw_changed v))"
    using w by (auto simp: apply_replacements_def split: option.splits)
  have "splice_ok orig v ?p0" by (simp add: splice_ok_def aligned_def cells_def contiguous_def)
  from splice_all_ok [OF v this sp] have p: "splice_ok orig v p" .
  let ?d = "drop (sp_cursor p) (vw_data v)" and ?m = "drop (sp_cursor p) (vw_mapping v)"
    and ?c = "drop (sp_cursor p) (vw_changed v)"
  have ap: "aligned (sp_data p) (sp_mapping p) (sp_changed p)"
    and av: "aligned (vw_data v) (vw_mapping v) (vw_changed v)"
    using p v by (simp_all add: splice_ok_def well_traced_def)
  have c: "cells (sp_data p @ ?d) (sp_mapping p @ ?m) (sp_changed p @ ?c) =
      cells (sp_data p) (sp_mapping p) (sp_changed p) @ drop (sp_cursor p) (cells (vw_data v) (vw_mapping v) (vw_changed v))"
    by (simp add: cells_append [OF ap] cells_drop)
  have a: "aligned (sp_data p @ ?d) (sp_mapping p @ ?m) (sp_changed p @ ?c)"
    by (rule aligned_append [OF ap aligned_drop [OF av]])
  have t: "list_all (traced orig) (cells (sp_data p @ ?d) (sp_mapping p @ ?m) (sp_changed p @ ?c))"
    using p v unfolding c splice_ok_def well_traced_def by (auto simp: list_all_iff dest: in_set_dropD)
  have k: "contiguous (set (sp_removed p)) (cells (sp_data p @ ?d) (sp_mapping p @ ?m) (sp_changed p @ ?c))"
    using p v last_cells [OF ap] cells_nonempty [OF ap] length_cells [OF ap]
    unfolding c splice_ok_def well_traced_def by (intro contiguous_append contiguous_drop) auto
  note f = mark_removals_flags [of "sp_removed p" "sp_changed p @ ?c"]
  have "aligned (vw_data w) (vw_mapping w) (vw_changed w)" using a f by (simp add: w' aligned_def)
  moreover have "list_all (traced orig) (cells (vw_data w) (vw_mapping w) (vw_changed w))"
    unfolding w' using f by (intro flagged_traced [OF a _ _ t]) auto
  moreover have "contiguous {} (cells (vw_data w) (vw_mapping w) (vw_changed w))"
    unfolding w' using f by (intro flagged_contiguous [OF a _ _ _ k]) auto
  ultimately show ?thesis by (simp add: well_traced_def)
qed

lemma root_view_traced: "well_traced data (root_view data)"
proof -
  have a: "aligned data (map (\<lambda>i. (i, Suc i)) [0..<length data]) (replicate (length data) False)"
    by (simp add: aligned_def)
  show ?thesis
    by (simp add: well_traced_def root_view_def a list_all_length length_cells [OF a] nth_cells [OF a] traced_def
        contiguous_def follows_def)
qed

section \<open>Spans\<close>

lemma fold_widen_upt: "fold widen (map (\<lambda>k. (p + 1 + k, p + k + 2)) [0..<n]) (p, p + 1) = (p, p + 1 + n)"
  by (induction n) (simp_all add: widen_def)

lemma span_of_run:
  assumes m: "\<forall>k<n. mapping ! (s + k) = (p + k, p + k + 1)" and n: "0 < n" "s + n \<le> length mapping"
  shows "span_of mapping s (s + n) = (p, p + n)"
proof -
  have "take (n - 1) (drop (s + 1) mapping) = map (\<lambda>k. (p + 1 + k, p + k + 2)) [0..<n - 1]"
  proof (rule nth_equalityI)
    fix k
    assume "k < length (take (n - 1) (drop (s + 1) mapping))"
    then have k: "k + 1 < n" by simp arith
    with m have "mapping ! (s + (k + 1)) = (p + (k + 1), p + (k + 1) + 1)" by blast
    with k n show "take (n - 1) (drop (s + 1) mapping) ! k = map (\<lambda>k. (p + 1 + k, p + k + 2)) [0..<n - 1] ! k"
      by simp
  qed (use n in simp)
  moreover have "mapping ! s = (p, p + 1)" using m n by fastforce
  ultimately have "span_of mapping s (s + n) = fold widen (map (\<lambda>k. (p + 1 + k, p + k + 2)) [0..<n - 1]) (p, p + 1)"
    by (simp add: span_of_def)
  also have "\<dots> = (p, p + n)" unfolding fold_widen_upt using n by simp
  finally show ?thesis .
qed

lemma well_traced_at:
  assumes "well_traced orig v" and "i < length (vw_data v)"
  shows "traced orig (vw_data v ! i, vw_mapping v ! i, vw_changed v ! i)"
  using assms by (auto simp: well_traced_def list_all_length length_cells nth_cells)

lemma well_traced_follows:
  assumes "well_traced orig v" and "Suc i < length (vw_data v)"
  shows "follows (vw_data v ! i, vw_mapping v ! i, vw_changed v ! i)
    (vw_data v ! Suc i, vw_mapping v ! Suc i, vw_changed v ! Suc i)"
  using assms by (auto simp: well_traced_def contiguous_def length_cells nth_cells)

lemma unchanged_run:
  assumes v: "well_traced orig v" and e: "s + n \<le> length (vw_data v)" "0 < n"
    and u: "\<forall>k<n. \<not> vw_changed v ! (s + k)"
  shows "\<forall>k<n. vw_mapping v ! (s + k) = (fst (vw_mapping v ! s) + k, fst (vw_mapping v ! s) + k + 1) \<and>
    fst (vw_mapping v ! s) + k < length orig \<and> vw_data v ! (s + k) = orig ! (fst (vw_mapping v ! s) + k)"
proof (intro allI impI)
  fix k
  assume "k < n"
  then show "vw_mapping v ! (s + k) = (fst (vw_mapping v ! s) + k, fst (vw_mapping v ! s) + k + 1) \<and>
    fst (vw_mapping v ! s) + k < length orig \<and> vw_data v ! (s + k) = orig ! (fst (vw_mapping v ! s) + k)"
  proof (induction k)
    case 0
    then show ?case using well_traced_at [OF v, of s] e u by (cases "vw_mapping v ! s") (force simp: traced_def)
  next
    case (Suc k)
    then have i: "Suc (s + k) < length (vw_data v)" using e by simp
    have f: "\<not> vw_changed v ! (s + k)" "\<not> vw_changed v ! Suc (s + k)" using u Suc by (auto dest: spec [of _ "Suc k"])
    have t: "traced orig (vw_data v ! Suc (s + k), vw_mapping v ! Suc (s + k), vw_changed v ! Suc (s + k))"
      using i by (rule well_traced_at [OF v])
    show ?case
      using well_traced_follows [OF v i] t f Suc
      by (cases "vw_mapping v ! Suc (s + k)") (simp add: follows_def traced_def)
  qed
qed

text \<open>A span lies in the original, and a range without a changed byte is the text of its span.\<close>

lemma original_span_sound:
  assumes v: "well_traced orig v" and o: "original_span v s e = Some ((a, b), changed)"
  shows "a < b \<and> b \<le> length orig \<and>
    (changed \<or> slice (vw_data v) (nat (max 0 s)) (nat (min e (int (length (vw_data v))))) = slice orig a b)"
proof -
  define s' e' where "s' = nat (max 0 s)" and "e' = nat (min e (int (length (vw_data v))))"
  have al: "aligned (vw_data v) (vw_mapping v) (vw_changed v)" using v by (simp add: well_traced_def)
  then have l: "length (vw_mapping v) = length (vw_data v)" "length (vw_changed v) = length (vw_data v)"
    by (simp_all add: aligned_def)
  have le: "s' < e'" "e' \<le> length (vw_data v)" and sp: "span_of (vw_mapping v) s' e' = (a, b)"
    and ch: "changed = list_ex (\<lambda>c. c) (take (e' - s') (drop s' (vw_changed v)))"
    using o by (auto simp: original_span_def Let_def l s'_def e'_def split: if_splits)
  have "a < b \<and> b \<le> length orig"
    using span_of_bounds [OF le(1), of "vw_mapping v" "length orig"] le traced_bounds [OF al] v l sp
    by (simp add: well_traced_def)
  moreover have "slice (vw_data v) s' e' = slice orig a b" if "\<not> changed"
  proof -
    obtain n where n: "e' = s' + n" "0 < n" using le by (metis less_imp_add_positive)
    have u: "\<forall>k<n. \<not> vw_changed v ! (s' + k)"
      using that le n l unfolding ch by (auto simp: list_ex_length)
    let ?p = "fst (vw_mapping v ! s')"
    have r: "\<forall>k<n. vw_mapping v ! (s' + k) = (?p + k, ?p + k + 1) \<and> ?p + k < length orig \<and>
        vw_data v ! (s' + k) = orig ! (?p + k)"
      using unchanged_run [OF v _ n(2) u] le n by simp
    have ab: "a = ?p" "b = ?p + n" using span_of_run [of n "vw_mapping v" s' ?p] r n le l sp by auto
    have "?p + n \<le> length orig" using r n(2) by (auto dest: spec [of _ "n - 1"])
    then show ?thesis using r n le by (intro nth_equalityI) (auto simp: slice_def ab)
  qed
  ultimately show ?thesis unfolding s'_def e'_def by blast
qed

end
