(* ===== verification/Derived_Search.thy ===== *)
theory Derived_Search
  imports Derived_Props
begin

text \<open>
  The search for derived views: what every view of a result is, the budgets it keeps, and what a result
  that calls itself complete guarantees.
\<close>

section \<open>What the search adds\<close>

text \<open>A view of a file: its provenance, digest and depth, and the trace of its bytes.\<close>

definition derived_from :: "build_env \<Rightarrow> source_file \<Rightarrow> view \<Rightarrow> bool" where
  "derived_from env f v \<longleftrightarrow> vw_path v = sf_path f \<and> vw_source_digest v = digest env (sf_data f) \<and>
     vw_digest v = digest env (vw_data v) \<and> 1 \<le> vw_depth v \<and> int (vw_depth v) \<le> db_depth (bv_budget env) \<and>
     well_traced (sf_data f) v"

definition within_budget :: "build_env \<Rightarrow> derived_result \<Rightarrow> bool" where
  "within_budget env r \<longleftrightarrow> int (length (dr_views r)) \<le> db_views (bv_budget env) \<and>
     dr_bytes r = (\<Sum>v\<leftarrow>dr_views r. int (length (vw_data v))) \<and> dr_bytes r \<le> db_bytes (bv_budget env) \<and>
     list_all (\<lambda>v. vw_depth v \<le> dr_max_depth r) (dr_views r) \<and>
     (dr_max_depth r = 0 \<or> list_ex (\<lambda>v. vw_depth v = dr_max_depth r) (dr_views r))"

definition search_ok :: "build_env \<Rightarrow> source_file \<Rightarrow> view list \<Rightarrow> search \<Rightarrow> bool" where
  "search_ok env f old s \<longleftrightarrow> within_budget env (sr_result s) \<and> list_all (well_traced (sf_data f)) (sr_queue s) \<and>
     (\<exists>new. dr_views (sr_result s) = old @ new \<and> list_all (derived_from env f) new)"

text \<open>A change that keeps the views and their counters.\<close>

definition same_views :: "derived_result \<Rightarrow> derived_result \<Rightarrow> bool" where
  "same_views r r' \<longleftrightarrow> dr_views r' = dr_views r \<and> dr_bytes r' = dr_bytes r \<and> dr_max_depth r' = dr_max_depth r"

lemma same_views_intros [simp]: "same_views r r" "same_views r (add_limitation l r)" "same_views r (mark_exceeded d l r)"
  "same_views r (add_issues f t is r)" "same_views r (probe env f cur ts r)" "same_views r (poll r)"
  "same_views r (add_limitation l (add_issues f t is r))"
  by (simp_all add: same_views_def poll_def)

lemma within_budget_same: "same_views r r' \<Longrightarrow> within_budget env r' = within_budget env r"
  by (simp add: within_budget_def same_views_def)

lemma search_ok_same:
  "search_ok env f old s \<Longrightarrow> same_views (sr_result s) r' \<Longrightarrow> search_ok env f old (s\<lparr>sr_result := r'\<rparr>)"
  "search_ok env f old s \<Longrightarrow> same_views (sr_result s) r' \<Longrightarrow> search_ok env f old (s\<lparr>sr_result := r', sr_stop := b\<rparr>)"
  by (simp_all add: search_ok_def within_budget_same) (simp_all add: same_views_def)

lemma add_view_ok:
  assumes s: "search_ok env f old s" and v: "derived_from env f v"
    and b: "int (length (dr_views (sr_result s))) < db_views (bv_budget env)"
      "dr_bytes (sr_result s) + int (length (vw_data v)) \<le> db_bytes (bv_budget env)"
  shows "search_ok env f old (add_view v s)"
proof -
  have m: "dr_max_depth (sr_result s) = 0 \<or> list_ex (\<lambda>w. vw_depth w = dr_max_depth (sr_result s)) (dr_views (sr_result s))"
    using s by (simp add: search_ok_def within_budget_def)
  have mm: "max (dr_max_depth (sr_result s)) (vw_depth v) = 0 \<or>
      list_ex (\<lambda>w. vw_depth w = max (dr_max_depth (sr_result s)) (vw_depth v)) (dr_views (sr_result s) @ [v])"
    using m by (auto simp: max_def)
  have "within_budget env (sr_result (add_view v s))"
    using s b mm by (auto simp: search_ok_def within_budget_def add_view_def list_all_iff)
  moreover have "list_all (well_traced (sf_data f)) (sr_queue (add_view v s))"
    using s v by (simp add: search_ok_def add_view_def derived_from_def)
  moreover have "\<exists>new. dr_views (sr_result (add_view v s)) = old @ new \<and> list_all (derived_from env f) new"
  proof -
    obtain new where "dr_views (sr_result s) = old @ new" "list_all (derived_from env f) new"
      using s by (auto simp: search_ok_def)
    then have "dr_views (sr_result (add_view v s)) = old @ (new @ [v]) \<and> list_all (derived_from env f) (new @ [v])"
      using v by (simp add: add_view_def)
    then show ?thesis by blast
  qed
  ultimately show ?thesis by (simp add: search_ok_def)
qed

lemma offer_view_ok:
  "search_ok env f old s \<Longrightarrow> derived_from env f v \<Longrightarrow> search_ok env f old (offer_view env f v s)"
  by (auto simp: offer_view_def Let_def search_ok_same add_view_ok)

lemma finish_view_derived:
  assumes "well_traced (sf_data f) next" and "int (vw_depth cur) < db_depth (bv_budget env)"
  shows "derived_from env f (finish_view env f cur next)"
  using assms by (simp add: derived_from_def finish_view_def well_traced_def)

lemma expand_one_ok:
  assumes s: "search_ok env f old s" and c: "well_traced (sf_data f) cur" "int (vw_depth cur) < db_depth (bv_budget env)"
  shows "search_ok env f old (expand_one env f cur t s)"
proof -
  have n: "derived_from env f (finish_view env f cur next)"
    if "apply_replacements cur (tr_kind t) rs = Some next" for rs "next"
    by (rule finish_view_derived [OF apply_replacements_traced [OF c(1) that] c(2)])
  obtain rs iss where a: "tr_apply t (vw_data cur) = (rs, iss)" by (cases "tr_apply t (vw_data cur)")
  let ?s = "s\<lparr>sr_result := add_issues f t iss (sr_result s)\<rparr>"
  have s1: "search_ok env f old ?s" by (rule search_ok_same(1) [OF s]) simp
  have lim: "search_ok env f old (?s\<lparr>sr_result := add_limitation l (sr_result ?s)\<rparr>)" for l
    by (rule search_ok_same(1) [OF s1]) (simp add: same_views_def)
  show ?thesis
  proof (cases "sr_stop s \<or> \<not> applicable cur t \<or> rs = []")
    case True
    with s s1 show ?thesis by (auto simp: expand_one_def Let_def a)
  next
    case False
    show ?thesis
    proof (cases "apply_replacements cur (tr_kind t) rs")
      case None
      then have "expand_one env f cur t s =
          ?s\<lparr>sr_result := add_limitation (limitation f t ''output exceeds safe per-view bound'') (sr_result ?s)\<rparr>"
        using False by (simp only: expand_one_def Let_def a prod.case option.case) simp
      with lim show ?thesis by (simp only:)
    next
      case (Some w)
      show ?thesis
      proof (cases "max_token_bytes * 16 < length (vw_data w)")
        case True
        then have "expand_one env f cur t s =
            ?s\<lparr>sr_result := add_limitation (limitation f t ''output exceeds safe per-view bound'') (sr_result ?s)\<rparr>"
          using False Some by (simp only: expand_one_def Let_def a prod.case option.case if_True) simp
        with lim show ?thesis by (simp only:)
      next
        case small: False
        have "\<not> (sr_stop s \<or> \<not> applicable cur t)" "rs \<noteq> []" using False by simp_all
        with small Some have "expand_one env f cur t s = offer_view env f (finish_view env f cur w) ?s"
          by (simp only: expand_one_def Let_def a prod.case option.case if_False)
        with offer_view_ok [OF s1 n [OF Some]] show ?thesis by (simp only:)
      qed
    qed
  qed
qed

lemma expand_ok:
  assumes "search_ok env f old s" and "well_traced (sf_data f) cur" "int (vw_depth cur) < db_depth (bv_budget env)"
  shows "search_ok env f old (expand env f cur s)"
proof -
  have "search_ok env f old (fold (expand_one env f cur) ts s)" for ts
    using assms(1) by (induction ts arbitrary: s) (simp_all add: expand_one_ok assms(2,3))
  then show ?thesis by (simp add: expand_def)
qed

lemma visit_ok:
  assumes "search_ok env f old s" and "well_traced (sf_data f) cur"
  shows "search_ok env f old (visit env f cur s)"
  using assms by (auto simp: visit_def intro!: search_ok_same expand_ok)

lemma search_ok_dequeue:
  "search_ok env f old s \<Longrightarrow> sr_queue s = cur # rest \<Longrightarrow>
   search_ok env f old (s\<lparr>sr_result := poll (sr_result s), sr_queue := rest\<rparr>) \<and> well_traced (sf_data f) cur"
  using within_budget_same [OF same_views_intros(6), of env "sr_result s"] by (simp add: search_ok_def) (simp add: poll_def)

lemma build_queue_ok: "search_ok env f old s \<Longrightarrow> search_ok env f old (build_queue env f s)"
proof (induction env f s rule: build_queue.induct)
  case (1 env f s)
  show ?case
  proof (cases "sr_queue s")
    case Nil
    then show ?thesis using 1(2) by (simp add: build_queue.simps)
  next
    case (Cons cur rest)
    note d = search_ok_dequeue [OF 1(2) Cons]
    show ?thesis
    proof (cases "sr_stop s \<or> bv_cancelled env (dr_polls (sr_result s))")
      case True
      have "same_views (sr_result s) (add_limitation (cancellation f) (poll (sr_result s)))"
        by (simp add: same_views_def poll_def)
      from search_ok_same(2) [OF 1(2) this] True 1(2) Cons show ?thesis
        by (auto simp: build_queue.simps [of env f s] Let_def)
    next
      case False
      then have "build_queue env f s =
          build_queue env f (visit env f cur (s\<lparr>sr_result := poll (sr_result s), sr_queue := rest\<rparr>))"
        using Cons by (simp add: build_queue.simps [of env f s] Let_def)
      moreover have "search_ok env f old (visit env f cur (s\<lparr>sr_result := poll (sr_result s), sr_queue := rest\<rparr>))"
        using d by (blast intro: visit_ok)
      ultimately show ?thesis using 1(1) [OF Cons _ refl] False by simp
    qed
  qed
qed

section \<open>All files\<close>

text \<open>The views of a result come from the files, in their order, and keep the budgets.\<close>

definition views_ok :: "build_env \<Rightarrow> source_file set \<Rightarrow> derived_result \<Rightarrow> bool" where
  "views_ok env F r \<longleftrightarrow> within_budget env r \<and> (\<forall>v\<in>set (dr_views r). \<exists>f\<in>F. derived_from env f v)"

lemma views_ok_same: "views_ok env F r \<Longrightarrow> same_views r r' \<Longrightarrow> views_ok env F r'"
  using within_budget_same [of r r' env] by (simp add: views_ok_def) (simp add: same_views_def)

lemma build_file_ok:
  assumes "views_ok env F r" and "f \<in> F"
  shows "views_ok env F (build_file env f r)"
proof -
  have "search_ok env f (dr_views r) \<lparr>sr_result = r, sr_queue = [root_view (sf_data f)],
      sr_seen = [digest env (sf_data f)], sr_stop = False\<rparr>"
    using assms(1) root_view_traced by (simp add: search_ok_def views_ok_def)
  from build_queue_ok [OF this] show ?thesis
    using assms by (auto simp: build_file_def search_ok_def views_ok_def list_all_iff)
qed

lemma build_files_ok: "views_ok env F r \<Longrightarrow> set fs \<subseteq> F \<Longrightarrow> views_ok env F (build_files env fs r)"
proof (induction fs arbitrary: r)
  case (Cons f fs)
  have p: "views_ok env F (poll r)" by (rule views_ok_same [OF Cons.prems(1)]) simp
  have "views_ok env F (add_limitation (cancellation f) (poll r))" by (rule views_ok_same [OF p]) simp
  with Cons p build_file_ok [OF p, of f] show ?case by (simp add: Let_def)
qed simp

lemma build_views_ok: "views_ok env (set fs) (build_views env fs) \<or> dr_views (build_views env fs) = []"
proof -
  let ?b = "bv_budget env"
  show ?thesis
  proof (cases "db_views ?b \<le> 0 \<or> db_depth ?b \<le> 0 \<or> db_bytes ?b \<le> 0")
    case True
    then show ?thesis by (simp add: build_views_def Let_def empty_result_def)
  next
    case False
    then have "views_ok env (set fs) empty_result" by (simp add: views_ok_def within_budget_def empty_result_def)
    with build_files_ok [OF this, of "sort_key (\<lambda>f. (sf_path f, digest env (sf_data f))) fs"] False
    show ?thesis by (simp add: build_views_def Let_def)
  qed
qed

text \<open>What the provenance of a view says of its ranges.\<close>

definition faithful :: "build_env \<Rightarrow> source_file \<Rightarrow> view \<Rightarrow> bool" where
  "faithful env f v \<longleftrightarrow> vw_path v = sf_path f \<and> vw_source_digest v = digest env (sf_data f) \<and>
     vw_digest v = digest env (vw_data v) \<and>
     (\<forall>s e a b changed. original_span v s e = Some ((a, b), changed) \<longrightarrow>
        a < b \<and> b \<le> length (sf_data f) \<and>
        (changed \<or> slice (vw_data v) (nat (max 0 s)) (nat (min e (int (length (vw_data v))))) = slice (sf_data f) a b))"

lemma derived_from_faithful: "derived_from env f v \<Longrightarrow> faithful env f v"
  unfolding faithful_def derived_from_def using original_span_sound by blast

text \<open>
  C31. Every derived view names a file it was derived from, with the digests of that file and of its own
  data, and for every range of the view the original span lies in the file; a range that is not reported
  as transformed is, byte for byte, the text of its original span.
\<close>

theorem views_are_traced:
  "list_all (\<lambda>v. list_ex (\<lambda>f. faithful env f v) fs) (dr_views (build_views env fs))"
  using build_views_ok [of env fs] derived_from_faithful
  by (fastforce simp: views_ok_def list_all_iff list_ex_iff)

text \<open>
  C34. For every list of files, transformations and cancellation, the result has at most the allowed number of
  views, no view is deeper than allowed, the bytes reported are the bytes of the views and within the
  budget, and the depth reported is the depth of the deepest view.
\<close>

theorem derived_budgets_kept:
  "let r = build_views env fs; b = bv_budget env in
   int (length (dr_views r)) \<le> max 0 (db_views b) \<and>
   dr_bytes r = (\<Sum>v\<leftarrow>dr_views r. int (length (vw_data v))) \<and> dr_bytes r \<le> max 0 (db_bytes b) \<and>
   list_all (\<lambda>v. int (vw_depth v) \<le> db_depth b) (dr_views r) \<and>
   dr_max_depth r = fold max (map vw_depth (dr_views r)) 0"
proof -
  have m: "fold max xs (0::nat) = n" if "list_all (\<lambda>x. x \<le> n) xs" "n = 0 \<or> n \<in> set xs" for xs n
  proof -
    have "fold max xs (0::nat) = Max (set (0 # xs))" by (simp only: Max.set_eq_fold)
    also have "\<dots> = n" using that by (intro Max_eqI) (auto simp: list_all_iff)
    finally show ?thesis .
  qed
  let ?r = "build_views env fs" and ?b = "bv_budget env"
  show ?thesis
  proof (cases "db_views ?b \<le> 0 \<or> db_depth ?b \<le> 0 \<or> db_bytes ?b \<le> 0")
    case True
    then show ?thesis by (simp add: build_views_def Let_def empty_result_def)
  next
    case False
    then have "views_ok env (set fs) empty_result" by (simp add: views_ok_def within_budget_def empty_result_def)
    from build_files_ok [OF this, of "sort_key (\<lambda>f. (sf_path f, digest env (sf_data f))) fs"] False
    have ok: "views_ok env (set fs) ?r" by (simp add: build_views_def Let_def)
    have d: "list_ex (\<lambda>v. vw_depth v = n) vs \<Longrightarrow> n \<in> set (map vw_depth vs)" for n vs
      by (induction vs) auto
    have "list_all (\<lambda>x. x \<le> dr_max_depth ?r) (map vw_depth (dr_views ?r))"
      "dr_max_depth ?r = 0 \<or> dr_max_depth ?r \<in> set (map vw_depth (dr_views ?r))"
      using ok d by (simp_all only: views_ok_def within_budget_def list.pred_map comp_def) blast
    then have "dr_max_depth ?r = fold max (map vw_depth (dr_views ?r)) 0" by (rule m [symmetric])
    moreover have "list_all (\<lambda>v. int (vw_depth v) \<le> db_depth ?b) (dr_views ?r)"
      using ok by (auto simp: views_ok_def derived_from_def list_all_iff)
    moreover have "x \<le> b \<Longrightarrow> x \<le> max 0 b" for x b :: int by simp
    ultimately show ?thesis using ok unfolding views_ok_def within_budget_def Let_def by blast
  qed
qed

section \<open>Complete results\<close>

text \<open>What a transformation of a view leads to: nothing, or a text that has been seen.\<close>

definition settled :: "build_env \<Rightarrow> string list \<Rightarrow> view \<Rightarrow> transformer \<Rightarrow> bool" where
  "settled env seen cur t \<longleftrightarrow> \<not> applicable cur t \<or>
     snd (tr_apply t (vw_data cur)) = [] \<and>
     (fst (tr_apply t (vw_data cur)) = [] \<or>
       int (vw_depth cur) < db_depth (bv_budget env) \<and>
       (case apply_replacements cur (tr_kind t) (fst (tr_apply t (vw_data cur))) of
          None \<Rightarrow> False | Some w \<Rightarrow> digest env (vw_data w) \<in> set seen))"

definition explored :: "build_env \<Rightarrow> string list \<Rightarrow> view \<Rightarrow> bool" where
  "explored env seen cur \<longleftrightarrow> list_all (settled env seen cur) (bv_transformers env)"

lemma settled_mono: "settled env seen cur t \<Longrightarrow> set seen \<subseteq> set seen' \<Longrightarrow> settled env seen' cur t"
  by (auto simp: settled_def split: option.splits)

lemma explored_mono: "explored env seen cur \<Longrightarrow> set seen \<subseteq> set seen' \<Longrightarrow> explored env seen' cur"
  by (auto simp: explored_def list_all_iff intro: settled_mono)

text \<open>A step that leaves the result complete only adds views, each to the queue and the seen texts.\<close>

definition grows :: "search \<Rightarrow> search \<Rightarrow> bool" where
  "grows s s' \<longleftrightarrow> dr_complete (sr_result s) \<and> sr_stop s' = sr_stop s \<and>
     (\<exists>ws. dr_views (sr_result s') = dr_views (sr_result s) @ ws \<and> sr_queue s' = sr_queue s @ ws \<and>
       set (sr_seen s') = set (sr_seen s) \<union> vw_digest ` set ws)"

lemma grows_refl: "dr_complete (sr_result s) \<Longrightarrow> grows s s"
  by (simp add: grows_def)

lemma grows_trans: "grows s t \<Longrightarrow> grows t u \<Longrightarrow> grows s u"
  unfolding grows_def by (elim conjE exE, intro conjI) (auto simp: image_Un)

lemma grows_seen: "grows s t \<Longrightarrow> set (sr_seen s) \<subseteq> set (sr_seen t)"
  by (auto simp: grows_def)

lemma grows_add_view: "dr_complete (sr_result s) \<Longrightarrow> grows s (add_view v s)"
  by (simp add: grows_def add_view_def)

lemma offer_view_grows:
  assumes "dr_complete (sr_result (offer_view env f v s))"
  shows "grows s (offer_view env f v s) \<and> vw_digest v \<in> set (sr_seen (offer_view env f v s))"
proof (cases "vw_digest v \<in> set (sr_seen s)")
  case True
  with assms show ?thesis by (simp add: offer_view_def grows_refl)
next
  case False
  with assms have o: "offer_view env f v s = add_view v s" by (auto simp: offer_view_def Let_def split: if_splits)
  then have "dr_complete (sr_result s)" using assms by (simp add: add_view_def)
  with o show ?thesis by (simp add: grows_add_view) (simp add: add_view_def)
qed

lemma add_issues_complete: "dr_complete (add_issues f t is r) \<Longrightarrow> is = [] \<and> dr_complete r"
proof -
  assume c: "dr_complete (add_issues f t is r)"
  then show ?thesis by (cases "is" rule: rev_cases) (simp_all add: add_issues_def)
qed

lemma expand_one_grows:
  assumes c: "dr_complete (sr_result (expand_one env f cur t s))" and go: "\<not> sr_stop s"
    and d: "int (vw_depth cur) < db_depth (bv_budget env)"
  shows "grows s (expand_one env f cur t s) \<and> settled env (sr_seen (expand_one env f cur t s)) cur t"
proof -
  obtain rs iss where a: "tr_apply t (vw_data cur) = (rs, iss)" by (cases "tr_apply t (vw_data cur)")
  let ?s = "s\<lparr>sr_result := add_issues f t iss (sr_result s)\<rparr>"
  show ?thesis
  proof (cases "applicable cur t")
    case False
    with c show ?thesis by (simp add: expand_one_def grows_refl settled_def)
  next
    case True
    show ?thesis
    proof (cases "rs = []")
      case True
      with c go \<open>applicable cur t\<close> a have e: "expand_one env f cur t s = ?s" by (simp add: expand_one_def)
      with c have "iss = [] \<and> dr_complete (sr_result s)" by (intro add_issues_complete) simp
      with e a True show ?thesis by (simp add: grows_refl settled_def add_issues_def)
    next
      case False
      from c obtain w where w: "apply_replacements cur (tr_kind t) rs = Some w"
        and e: "expand_one env f cur t s = offer_view env f (finish_view env f cur w) ?s"
        unfolding expand_one_def Let_def a prod.case using go True False by (auto split: option.splits if_splits)
      note o = offer_view_grows [OF c [unfolded e]]
      have "dr_complete (sr_result ?s)" using o unfolding grows_def by blast
      then have "dr_complete (add_issues f t iss (sr_result s))" by simp
      then have i: "iss = [] \<and> dr_complete (sr_result s)" by (rule add_issues_complete)
      then have s: "?s = s" by (simp add: add_issues_def)
      have "vw_digest (finish_view env f cur w) = digest env (vw_data w)" by (simp add: finish_view_def)
      with o i d False w a show ?thesis unfolding e s by (simp add: settled_def)
    qed
  qed
qed

lemma expand_one_complete:
  "dr_complete (sr_result (expand_one env f cur t s)) \<Longrightarrow> dr_complete (sr_result s)"
proof -
  assume c: "dr_complete (sr_result (expand_one env f cur t s))"
  obtain rs iss where a: "tr_apply t (vw_data cur) = (rs, iss)" by (cases "tr_apply t (vw_data cur)")
  let ?s = "s\<lparr>sr_result := add_issues f t iss (sr_result s)\<rparr>"
  consider "expand_one env f cur t s = s" | "expand_one env f cur t s = ?s"
    | w where "expand_one env f cur t s = offer_view env f w ?s"
    using c unfolding expand_one_def Let_def a prod.case by (auto split: option.splits if_splits)
  then show ?thesis
  proof cases
    case 1
    with c show ?thesis by simp
  next
    case 2
    with c have "dr_complete (add_issues f t iss (sr_result s))" by simp
    then show ?thesis by (blast dest: add_issues_complete)
  next
    case 3
    with c offer_view_grows [of env f w ?s] have "dr_complete (add_issues f t iss (sr_result s))" by (simp add: grows_def)
    then show ?thesis by (blast dest: add_issues_complete)
  qed
qed

lemma expand_grows:
  assumes "dr_complete (sr_result (fold (expand_one env f cur) ts s))" and "\<not> sr_stop s"
    and d: "int (vw_depth cur) < db_depth (bv_budget env)"
  shows "grows s (fold (expand_one env f cur) ts s) \<and>
    list_all (settled env (sr_seen (fold (expand_one env f cur) ts s)) cur) ts"
  using assms(1,2)
proof (induction ts rule: rev_induct)
  case Nil
  then show ?case by (simp add: grows_refl)
next
  case (snoc t ts)
  let ?m = "fold (expand_one env f cur) ts s"
  have c: "dr_complete (sr_result (expand_one env f cur t ?m))" using snoc.prems by simp
  show ?case
  proof (cases "dr_complete (sr_result ?m)")
    case True
    with snoc have m: "grows s ?m" "list_all (settled env (sr_seen ?m) cur) ts" by simp_all
    then have "\<not> sr_stop ?m" using snoc.prems by (simp add: grows_def)
    note e = expand_one_grows [OF c this d]
    have "set (sr_seen ?m) \<subseteq> set (sr_seen (expand_one env f cur t ?m))" by (rule grows_seen [OF conjunct1 [OF e]])
    then have "list_all (settled env (sr_seen (expand_one env f cur t ?m)) cur) ts"
      using m(2) by (auto simp: list_all_iff intro: settled_mono)
    with e grows_trans [OF m(1) conjunct1 [OF e]] show ?thesis by simp
  next
    case False
    have "dr_complete (sr_result ?m)"
      using c expand_one_complete by blast
    with False show ?thesis by simp
  qed
qed

lemma probe_complete:
  "dr_complete (probe env f cur ts r) \<Longrightarrow>
   dr_complete r \<and> list_all (\<lambda>t. \<not> applicable cur t \<or> tr_apply t (vw_data cur) = ([], [])) ts"
proof (induction ts arbitrary: r)
  case (Cons t ts)
  obtain rs iss where a: "tr_apply t (vw_data cur) = (rs, iss)" by (cases "tr_apply t (vw_data cur)")
  show ?case
  proof (cases "applicable cur t")
    case True
    with Cons.prems a have rs: "rs = []" and c: "dr_complete (probe env f cur ts (add_issues f t iss r))"
      by (auto simp: Let_def split: if_splits)
    from Cons.IH [OF c] have l: "dr_complete (add_issues f t iss r)"
      "list_all (\<lambda>t. \<not> applicable cur t \<or> tr_apply t (vw_data cur) = ([], [])) ts" by simp_all
    from add_issues_complete [OF l(1)] l(2) rs a show ?thesis by simp
  next
    case False
    with Cons show ?thesis by simp
  qed
qed simp

lemma visit_grows:
  assumes c: "dr_complete (sr_result (visit env f cur s))" and go: "\<not> sr_stop s"
  shows "grows s (visit env f cur s) \<and> explored env (sr_seen (visit env f cur s)) cur"
proof (cases "db_depth (bv_budget env) \<le> int (vw_depth cur)")
  case True
  then have v: "visit env f cur s = s\<lparr>sr_result := probe env f cur (bv_transformers env) (sr_result s)\<rparr>"
    by (simp add: visit_def)
  with c have p: "dr_complete (probe env f cur (bv_transformers env) (sr_result s))" by simp
  from probe_complete [OF p] show ?thesis
    unfolding v by (auto simp: grows_def explored_def settled_def list_all_iff)
next
  case False
  then have v: "visit env f cur s = fold (expand_one env f cur) (bv_transformers env) s"
    by (simp add: visit_def expand_def)
  with expand_grows [OF _ go, of env f cur "bv_transformers env"] c False show ?thesis by (simp add: explored_def)
qed

text \<open>The invariant of the loop: every view found so far is in the queue or explored.\<close>

definition frontier :: "build_env \<Rightarrow> source_file \<Rightarrow> view list \<Rightarrow> search \<Rightarrow> bool" where
  "frontier env f old s \<longleftrightarrow> \<not> sr_stop s \<and>
     (\<exists>new. dr_views (sr_result s) = old @ new \<and>
        set (sr_seen s) = set (digest env (sf_data f) # map vw_digest new) \<and>
        (\<forall>v\<in>set (root_view (sf_data f) # new). v \<in> set (sr_queue s) \<or> explored env (sr_seen s) v))"

lemma frontier_visit:
  assumes f: "frontier env f old s" and q: "sr_queue s = cur # rest"
    and g: "grows (s\<lparr>sr_result := poll (sr_result s), sr_queue := rest\<rparr>) t" and e: "explored env (sr_seen t) cur"
  shows "frontier env f old t"
proof -
  obtain new where new: "dr_views (sr_result s) = old @ new"
      "set (sr_seen s) = set (digest env (sf_data f) # map vw_digest new)"
      "\<forall>v\<in>set (root_view (sf_data f) # new). v \<in> set (sr_queue s) \<or> explored env (sr_seen s) v"
    using f by (auto simp: frontier_def)
  obtain ws where ws: "dr_views (sr_result t) = dr_views (sr_result s) @ ws" "sr_queue t = rest @ ws"
      "set (sr_seen t) = set (sr_seen s) \<union> vw_digest ` set ws" "sr_stop t = sr_stop s"
    using g by (auto simp: grows_def poll_def)
  have seen: "set (sr_seen s) \<subseteq> set (sr_seen t)" using ws(3) by blast
  have "v \<in> set (sr_queue t) \<or> explored env (sr_seen t) v" if "v \<in> set (root_view (sf_data f) # (new @ ws))" for v
  proof (cases "v \<in> set ws")
    case False
    with that new(3) have "v \<in> set (sr_queue s) \<or> explored env (sr_seen s) v" by auto
    then show ?thesis using q e ws(2) explored_mono [OF _ seen] by auto
  qed (simp add: ws(2))
  moreover have "dr_views (sr_result t) = old @ (new @ ws)" using ws(1) new(1) by simp
  moreover have "set (sr_seen t) = set (digest env (sf_data f) # map vw_digest (new @ ws))"
    using ws(3) new(2) by auto
  ultimately show ?thesis using f ws(4) unfolding frontier_def by blast
qed

lemma build_queue_complete:
  "dr_complete (sr_result (build_queue env f s)) \<Longrightarrow>
   dr_complete (sr_result s) \<and> (frontier env f old s \<longrightarrow>
     frontier env f old (build_queue env f s) \<and> sr_queue (build_queue env f s) = [])"
proof (induction env f s rule: build_queue.induct)
  case (1 env f s)
  show ?case
  proof (cases "sr_queue s")
    case Nil
    then show ?thesis using 1(2) by (simp add: build_queue.simps)
  next
    case (Cons cur rest)
    show ?thesis
    proof (cases "sr_stop s")
      case True
      then show ?thesis using 1(2) Cons by (simp add: build_queue.simps [of env f s] frontier_def)
    next
      case False
      let ?s = "s\<lparr>sr_result := poll (sr_result s), sr_queue := rest\<rparr>"
      have run: "\<not> bv_cancelled env (dr_polls (sr_result s))" "build_queue env f s = build_queue env f (visit env f cur ?s)"
        using 1(2) Cons False by (auto simp: build_queue.simps [of env f s] Let_def split: if_splits)
      have ih: "dr_complete (sr_result (visit env f cur ?s)) \<and> (frontier env f old (visit env f cur ?s) \<longrightarrow>
          frontier env f old (build_queue env f s) \<and> sr_queue (build_queue env f s) = [])"
        using 1(1) [OF Cons False refl run(1)] 1(2) unfolding run(2) by blast
      have v: "grows ?s (visit env f cur ?s) \<and> explored env (sr_seen (visit env f cur ?s)) cur"
        using ih False by (intro visit_grows) simp_all
      then have "dr_complete (sr_result s)" by (simp add: grows_def poll_def)
      with ih v frontier_visit [of env f old s cur rest] Cons show ?thesis by blast
    qed
  qed
qed

text \<open>The closure of a file under the transformations: a text, views of it, and what they lead to.\<close>

definition exhausted :: "build_env \<Rightarrow> derived_result \<Rightarrow> source_file \<Rightarrow> bool" where
  "exhausted env r f \<longleftrightarrow> (\<exists>vs. set vs \<subseteq> set (dr_views r) \<and>
     (\<forall>v\<in>set (root_view (sf_data f) # vs). explored env (digest env (sf_data f) # map vw_digest vs) v))"

lemma exhausted_mono: "exhausted env r f \<Longrightarrow> set (dr_views r) \<subseteq> set (dr_views r') \<Longrightarrow> exhausted env r' f"
  unfolding exhausted_def by (meson order_trans)

lemma build_file_complete:
  assumes c: "dr_complete (build_file env f r)"
  shows "dr_complete r \<and> set (dr_views r) \<subseteq> set (dr_views (build_file env f r)) \<and> exhausted env (build_file env f r) f"
proof -
  let ?s = "\<lparr>sr_result = r, sr_queue = [root_view (sf_data f)], sr_seen = [digest env (sf_data f)], sr_stop = False\<rparr>"
  let ?t = "build_queue env f ?s"
  have "frontier env f (dr_views r) ?s" by (simp add: frontier_def)
  with build_queue_complete [of env f ?s "dr_views r"] c
  have r: "dr_complete r" and fr: "frontier env f (dr_views r) ?t" and q: "sr_queue ?t = []"
    by (simp_all add: build_file_def)
  obtain new where new: "dr_views (sr_result ?t) = dr_views r @ new"
      "set (sr_seen ?t) = set (digest env (sf_data f) # map vw_digest new)"
      "\<forall>v\<in>set (root_view (sf_data f) # new). v \<in> set (sr_queue ?t) \<or> explored env (sr_seen ?t) v"
    using fr by (auto simp: frontier_def)
  have "explored env (digest env (sf_data f) # map vw_digest new) v" if "v \<in> set (root_view (sf_data f) # new)" for v
  proof -
    have "explored env (sr_seen ?t) v" using new(3) q that by auto
    then show ?thesis by (rule explored_mono) (simp only: new(2))
  qed
  then have "exhausted env (build_file env f r) f"
    using new(1) by (auto simp: exhausted_def build_file_def)
  then show ?thesis using r new(1) by (simp add: build_file_def)
qed

text \<open>The files the search looks into: non-empty texts.\<close>

definition searched :: "source_file \<Rightarrow> bool" where
  "searched f \<longleftrightarrow> valid_utf8 (sf_data f) \<and> sf_data f \<noteq> []"

lemma build_files_complete:
  "dr_complete (build_files env fs r) \<Longrightarrow> dr_complete r \<and> set (dr_views r) \<subseteq> set (dr_views (build_files env fs r)) \<and>
   (\<forall>f\<in>set fs. searched f \<longrightarrow> exhausted env (build_files env fs r) f)"
proof (induction fs arbitrary: r)
  case (Cons f fs)
  have poll: "dr_complete (poll r) = dr_complete r" "dr_views (poll r) = dr_views r" by (simp_all add: poll_def)
  show ?case
  proof (cases "searched f")
    case False
    with Cons.prems have e: "build_files env (f # fs) r = build_files env fs (poll r)"
      by (auto simp: Let_def searched_def split: if_splits)
    with Cons.IH [of "poll r"] Cons.prems False poll show ?thesis by simp
  next
    case True
    with Cons.prems have e: "build_files env (f # fs) r = build_files env fs (build_file env f (poll r))"
      by (auto simp: Let_def searched_def split: if_splits)
    with Cons.IH [of "build_file env f (poll r)"] Cons.prems
    have i: "dr_complete (build_file env f (poll r))"
      "set (dr_views (build_file env f (poll r))) \<subseteq> set (dr_views (build_files env (f # fs) r))"
      "\<forall>g\<in>set fs. searched g \<longrightarrow> exhausted env (build_files env (f # fs) r) g" by simp_all
    note b = build_file_complete [OF i(1)]
    then have "exhausted env (build_files env (f # fs) r) f" using exhausted_mono i(2) by blast
    with b i poll show ?thesis by auto
  qed
qed simp

text \<open>
  C35. A result that calls itself complete is closed: for every non-empty text file there are views in it such
  that every applicable transformation of the file's text and of each of these views reports no problem and
  yields nothing or a text already among them, so no derivable view is missing.
\<close>

theorem complete_result_is_closed:
  assumes "dr_complete (build_views env fs)"
  shows "list_all (exhausted env (build_views env fs)) (filter searched fs)"
proof -
  let ?fs = "sort_key (\<lambda>f. (sf_path f, digest env (sf_data f))) fs"
  have b: "build_views env fs = build_files env ?fs empty_result"
    using assms by (auto simp: build_views_def Let_def split: if_splits)
  with build_files_complete [of env ?fs empty_result] assms show ?thesis by (simp add: list_all_iff)
qed

text \<open>A complete search: a removal of one character applied to a text of two bytes.\<close>

definition dropper :: "char \<Rightarrow> transformer" where
  "dropper c = \<lparr>tr_kind = [c], tr_may_apply = (\<lambda>d. c \<in> set d),
     tr_apply = (\<lambda>d. (map (\<lambda>i. \<lparr>rp_start = i, rp_end = i + 1, rp_data = [], rp_detail = []\<rparr>)
       (filter (\<lambda>i. d ! i = c) [0..<length d]), []))\<rparr>"

definition sample_env :: build_env where
  "sample_env = \<lparr>bv_crypto = toy_crypto\<lparr>sha256_hex := (\<lambda>t. t)\<rparr>,
     bv_budget = \<lparr>db_views = 8, db_depth = 2, db_bytes = 100\<rparr>,
     bv_transformers = [dropper CHR ''a''], bv_cancelled = (\<lambda>_. False)\<rparr>"

definition sample_file :: source_file where
  "sample_file = \<lparr>sf_path = ''f'', sf_data = ''ab'', sf_sha256 = [], sf_container_depth = 0\<rparr>"

definition sample_view :: view where
  "sample_view = finish_view sample_env sample_file (root_view ''ab'')
     (the (apply_replacements (root_view ''ab'') ''a'' [\<lparr>rp_start = 0, rp_end = 1, rp_data = [], rp_detail = []\<rparr>]))"

lemma sample_digest: "digest sample_env d = d"
  by (simp add: digest_def sample_env_def)

lemma sample_applied:
  "apply_replacements (root_view ''ab'') ''a'' [\<lparr>rp_start = 0, rp_end = 1, rp_data = [], rp_detail = []\<rparr>] = Some w \<Longrightarrow>
   vw_data w = ''b'' \<and> kind_used w ''a''"
  by (auto simp: apply_replacements_def splice_one_def root_view_def slice_def kind_used_def Let_def)

lemma sample_visit_root:
  assumes "sr_result s = poll (poll empty_result)" "sr_queue s = []" "sr_seen s = [''ab'']" "sr_stop s = False"
  shows "visit sample_env sample_file (root_view ''ab'') s = add_view sample_view s"
proof -
  let ?rs = "[\<lparr>rp_start = 0, rp_end = 1, rp_data = [], rp_detail = []\<rparr>]"
  obtain w where w: "apply_replacements (root_view ''ab'') ''a'' ?rs = Some w"
    by (cases "apply_replacements (root_view ''ab'') ''a'' ?rs")
       (auto simp: apply_replacements_def splice_one_def root_view_def Let_def)
  have d: "vw_data w = ''b''" "vw_digest (finish_view sample_env sample_file (root_view ''ab'') w) = ''b''"
    "vw_data (finish_view sample_env sample_file (root_view ''ab'') w) = ''b''"
    using sample_applied [OF w] by (simp_all add: finish_view_def sample_digest)
  have "applicable (root_view ''ab'') (dropper CHR ''a'')"
    by (simp add: applicable_def kind_used_def root_view_def dropper_def)
  moreover have "tr_apply (dropper CHR ''a'') (vw_data (root_view ''ab'')) = (?rs, [])"
    by (simp add: dropper_def root_view_def)
  moreover have "tr_kind (dropper CHR ''a'') = ''a''" by (simp add: dropper_def)
  ultimately have "expand_one sample_env sample_file (root_view ''ab'') (dropper CHR ''a'') s =
      offer_view sample_env sample_file (finish_view sample_env sample_file (root_view ''ab'') w) s"
    using w d assms(4) by (simp add: expand_one_def add_issues_def max_token_bytes_def)
  also have "\<dots> = add_view sample_view s"
    using assms d w by (simp add: offer_view_def sample_env_def poll_def empty_result_def sample_view_def)
  finally show ?thesis by (simp add: visit_def expand_def root_view_def sample_env_def)
qed

lemma sample_visit_view: "visit sample_env sample_file sample_view s = s"
proof -
  let ?rs = "[\<lparr>rp_start = 0, rp_end = 1, rp_data = [], rp_detail = []\<rparr>]"
  obtain w where w: "apply_replacements (root_view ''ab'') ''a'' ?rs = Some w"
    by (cases "apply_replacements (root_view ''ab'') ''a'' ?rs")
       (auto simp: apply_replacements_def splice_one_def root_view_def Let_def)
  have "kind_used sample_view ''a''"
    using sample_applied [OF w] w by (simp add: sample_view_def finish_view_def kind_used_def)
  then show ?thesis by (simp add: visit_def expand_def sample_env_def expand_one_def applicable_def dropper_def)
qed

lemma sample_text: "valid_utf8 ''ab''"
proof -
  have "rune_chunks ''b'' = [(98, ''b'')]" by (subst rune_chunks.simps) (simp add: decode_rune_def byte_val_def)
  then have "rune_chunks ''ab'' = [(97, ''a''), (98, ''b'')]" by (subst rune_chunks.simps) (simp add: decode_rune_def byte_val_def)
  then show ?thesis by (simp add: valid_utf8_def)
qed

lemma sample_complete: "dr_complete (build_views sample_env [sample_file])"
proof -
  have nc: "bv_cancelled sample_env n = False" for n by (simp add: sample_env_def)
  let ?s = "\<lparr>sr_result = poll empty_result, sr_queue = [root_view ''ab''], sr_seen = [''ab''], sr_stop = False\<rparr>"
  let ?s1 = "\<lparr>sr_result = poll (poll empty_result), sr_queue = [], sr_seen = [''ab''], sr_stop = False\<rparr>"
  have "build_queue sample_env sample_file ?s = build_queue sample_env sample_file (visit sample_env sample_file (root_view ''ab'') ?s1)"
    by (simp add: build_queue.simps [of _ _ ?s] nc Let_def)
  also have "\<dots> = build_queue sample_env sample_file (add_view sample_view ?s1)"
    by (subst sample_visit_root) simp_all
  also have "\<dots> = build_queue sample_env sample_file (visit sample_env sample_file sample_view
      ((add_view sample_view ?s1)\<lparr>sr_result := poll (sr_result (add_view sample_view ?s1)), sr_queue := []\<rparr>))"
    by (subst build_queue.simps) (simp add: nc Let_def add_view_def)
  also have "\<dots> = (add_view sample_view ?s1)\<lparr>sr_result := poll (sr_result (add_view sample_view ?s1)), sr_queue := []\<rparr>"
    unfolding sample_visit_view by (subst build_queue.simps) simp
  finally have "dr_complete (sr_result (build_queue sample_env sample_file ?s))"
    by (simp add: add_view_def poll_def empty_result_def)
  moreover have "build_views sample_env [sample_file] = sr_result (build_queue sample_env sample_file ?s)"
    by (simp add: build_views_def Let_def nc sample_text build_file_def sample_digest sample_file_def) (simp add: sample_env_def)
  ultimately show ?thesis by simp
qed

lemma complete_result_is_closed_witness:
  "exhausted sample_env (build_views sample_env [sample_file]) sample_file"
proof -
  have "searched sample_file" using sample_text by (simp add: searched_def sample_file_def)
  with complete_result_is_closed [OF sample_complete] show ?thesis by simp
qed

section \<open>The number of rounds\<close>

text \<open>The queue grows exactly with the views.\<close>

definition balanced :: "search \<Rightarrow> search \<Rightarrow> bool" where
  "balanced s t \<longleftrightarrow> length (sr_queue t) + length (dr_views (sr_result s)) = length (sr_queue s) + length (dr_views (sr_result t)) \<and>
     dr_polls (sr_result t) = dr_polls (sr_result s)"

lemma balanced_result: "dr_views r = dr_views (sr_result s) \<Longrightarrow> dr_polls r = dr_polls (sr_result s) \<Longrightarrow>
    balanced s (s\<lparr>sr_result := r\<rparr>) \<and> balanced s (s\<lparr>sr_result := r, sr_stop := b\<rparr>)"
  by (simp add: balanced_def)

lemma balanced_trans: "balanced s t \<Longrightarrow> balanced t u \<Longrightarrow> balanced s u"
  by (simp add: balanced_def)

lemma offer_view_balanced: "balanced s (offer_view env f v s)"
  by (simp add: offer_view_def Let_def balanced_def add_view_def)

lemma expand_one_balanced: "balanced s (expand_one env f cur t s)"
proof -
  obtain rs iss where a: "tr_apply t (vw_data cur) = (rs, iss)" by (cases "tr_apply t (vw_data cur)")
  let ?s = "s\<lparr>sr_result := add_issues f t iss (sr_result s)\<rparr>"
  have b: "balanced s ?s" by (simp add: balanced_def)
  have o: "balanced s (offer_view env f v ?s)" for v by (rule balanced_trans [OF b offer_view_balanced])
  have l: "balanced s (?s\<lparr>sr_result := add_limitation l (sr_result ?s)\<rparr>)" for l by (simp add: balanced_def)
  have r: "balanced s s" by (simp add: balanced_def)
  show ?thesis
    unfolding expand_one_def Let_def a prod.case
    by (cases "apply_replacements cur (tr_kind t) rs")
       (simp_all only: option.case b o l r split: if_split, simp_all)
qed

lemma visit_balanced: "balanced s (visit env f cur s)"
proof -
  have "balanced s (fold (expand_one env f cur) ts s)" for ts
    by (induction ts arbitrary: s) (auto simp: balanced_def [of s s for s] intro: balanced_trans [OF expand_one_balanced])
  then show ?thesis by (simp add: visit_def expand_def) (simp add: balanced_def)
qed

lemma build_queue_polls:
  "dr_polls (sr_result (build_queue env f s)) + length (dr_views (sr_result s)) \<le>
   dr_polls (sr_result s) + length (sr_queue s) + length (dr_views (sr_result (build_queue env f s)))"
proof (induction env f s rule: build_queue.induct)
  case (1 env f s)
  show ?case
  proof (cases "sr_queue s")
    case Nil
    then show ?thesis by (simp add: build_queue.simps)
  next
    case (Cons cur rest)
    show ?thesis
    proof (cases "sr_stop s \<or> bv_cancelled env (dr_polls (sr_result s))")
      case True
      then show ?thesis using Cons by (auto simp: build_queue.simps [of env f s] Let_def poll_def)
    next
      case False
      let ?s = "s\<lparr>sr_result := poll (sr_result s), sr_queue := rest\<rparr>"
      have "build_queue env f s = build_queue env f (visit env f cur ?s)"
        using Cons False by (simp add: build_queue.simps [of env f s] Let_def)
      moreover have "balanced ?s (visit env f cur ?s)" by (rule visit_balanced)
      ultimately show ?thesis using 1 [OF Cons _ refl] False Cons by (simp add: balanced_def poll_def)
    qed
  qed
qed

lemma build_files_polls:
  "dr_polls (build_files env fs r) + length (dr_views r) \<le>
   dr_polls r + 2 * length fs + length (dr_views (build_files env fs r))"
proof (induction fs arbitrary: r)
  case (Cons f fs)
  have "dr_polls (build_file env f (poll r)) + length (dr_views r) \<le>
      dr_polls r + 2 + length (dr_views (build_file env f (poll r)))"
    using build_queue_polls [of env f "\<lparr>sr_result = poll r, sr_queue = [root_view (sf_data f)],
        sr_seen = [digest env (sf_data f)], sr_stop = False\<rparr>"]
    by (simp add: build_file_def poll_def)
  with Cons.IH [of "build_file env f (poll r)"] Cons.IH [of "poll r"] show ?case by (simp add: Let_def poll_def)
qed simp

text \<open>
  C36. The construction of derived views ends after a bounded number of rounds: for every list of files and
  transformations the context is looked at, once per file and once per round of a file's queue, at most twice
  the number of files plus the budget of views many times.
\<close>

theorem derived_search_terminates:
  "int (dr_polls (build_views env fs)) \<le> 2 * int (length fs) + max 0 (db_views (bv_budget env))"
proof (cases "db_views (bv_budget env) \<le> 0 \<or> db_depth (bv_budget env) \<le> 0 \<or> db_bytes (bv_budget env) \<le> 0")
  case True
  then show ?thesis by (auto simp: build_views_def Let_def empty_result_def)
next
  case False
  let ?fs = "sort_key (\<lambda>f. (sf_path f, digest env (sf_data f))) fs"
  have b: "build_views env fs = build_files env ?fs empty_result" using False by (simp add: build_views_def Let_def)
  have "views_ok env (set fs) empty_result" using False by (simp add: views_ok_def within_budget_def empty_result_def)
  from build_files_ok [OF this, of ?fs] have "int (length (dr_views (build_views env fs))) \<le> db_views (bv_budget env)"
    by (simp add: b views_ok_def within_budget_def)
  moreover have "dr_polls (build_views env fs) \<le> 2 * length fs + length (dr_views (build_views env fs))"
    using build_files_polls [of env ?fs empty_result] by (simp add: b empty_result_def)
  ultimately show ?thesis by linarith
qed

end
