(* ===== verification/Rule_Findings.thy ===== *)
theory Rule_Findings
  imports Redaction Scan_Model Signing
begin

text \<open>
  Findings the scan engine itself makes, internal/analyzer: fingerprints (helpers.go), the finding of a rule
  (\<open>makeFinding\<close>), the advisory for a missing capability declaration (registry.go) and the threat chains
  (chains.go).

  Title, description and remediation of a built-in rule are prose nothing reads: the parameter \<open>prose\<close>.
  SHA-256 is the parameter of \<open>crypto\<close>.
\<close>

section \<open>Rules and their findings\<close>

record prose =
  pr_title :: string
  pr_description :: string
  pr_remediation :: string

record rule =
  ru_id :: string
  ru_prose :: prose
  ru_category :: string
  ru_severity :: string
  ru_references :: "string list"
  ru_confidence :: float64

definition fingerprint :: "crypto \<Rightarrow> string list \<Rightarrow> string" where
  "fingerprint cr parts = sha256_hex cr (join parts [CHR 0x00])"

definition finding_id :: "string \<Rightarrow> string" where
  "finding_id fp = ''F-'' @ to_upper (take 12 fp)"

definition normalize_evidence :: "string \<Rightarrow> string" where
  "normalize_evidence s = join (str_fields (to_lower s)) '' ''"

text \<open>The text of a rune slice: an invalid byte becomes the replacement character.\<close>

definition chunk_text :: "nat \<times> string \<Rightarrow> string" where
  "chunk_text c = (if fst c = 65533 \<and> length (snd c) = 1 then [CHR 0xEF, CHR 0xBF, CHR 0xBD] else snd c)"

definition truncate_runes :: "nat \<Rightarrow> string \<Rightarrow> string" where
  "truncate_runes n s =
     (if length (rune_chunks s) \<le> n then s
      else concat (map chunk_text (take n (rune_chunks s))) @ [CHR 0xE2, CHR 0x80, CHR 0xA6])"

definition make_finding :: "crypto \<Rightarrow> rule \<Rightarrow> string \<Rightarrow> int \<Rightarrow> string \<Rightarrow> finding" where
  "make_finding cr r path line matched =
     (let fp = fingerprint cr [ru_id r, path, dec_int line, normalize_evidence matched] in
      \<lparr>fi_id = finding_id fp, fi_rule_id = ru_id r, fi_category = ru_category r, fi_severity = ru_severity r,
       fi_confidence = ru_confidence r, fi_title = pr_title (ru_prose r), fi_message = pr_description (ru_prose r),
       fi_description = pr_description (ru_prose r),
       fi_location = \<lparr>loc_file = path, loc_start = line, loc_end = line\<rparr>,
       fi_evidence = [''match'' \<mapsto> JStr (truncate_runes 160 matched)],
       fi_remediation = pr_remediation (ru_prose r), fi_references = ru_references r, fi_fingerprint = fp,
       fi_suppressed = False, fi_suppression_reason = [], fi_context_disposition = ''confirmed'', fi_context_reason = []\<rparr>)"

text \<open>A rule of the published table may end in a star.\<close>

definition native_rule_known :: "string list \<Rightarrow> string \<Rightarrow> bool" where
  "native_rule_known rules i =
     list_ex (\<lambda>r. r = i \<or> has_suffix r ''*'' \<and> has_prefix i (trim_suffix r ''*'')) rules"

section \<open>Missing capability declarations\<close>

definition capability_for_rule :: "string \<Rightarrow> string" where
  "capability_for_rule i =
     (if i \<in> set [''SKIL-NET-001'', ''SKIL-INTENT-EXTERNAL-TRANSFER'', ''SKIL-TAINT-NETWORK'', ''SKIL-TAINT-PRIVILEGED-CONTEXT'',
        ''SKIL-EXFIL-ENV-DUMP''] then ''network.outbound''
      else if i \<in> set [''SKIL-FS-001'', ''SKIL-TAINT-FILESYSTEM-WRITE''] then ''filesystem.write''
      else if i = ''SKIL-SEC-001'' then ''secrets.read''
      else if i \<in> set [''SKIL-PY-002'', ''SKIL-SH-001'', ''SKIL-SH-002'', ''SKIL-SH-003'', ''SKIL-SH-004'', ''SKIL-JS-001'',
        ''SKIL-INTENT-COMMAND'', ''SKIL-TAINT-EXECUTION'', ''SKIL-TAINT-OUTPUT-EXECUTION'', ''SKIL-AGENT-HOOK-001'',
        ''SKIL-AGENT-HOOK-002'', ''SKIL-AGENT-HOOK-003'', ''SKIL-AGENT-PERM-001'', ''SKIL-AGENT-PERM-002'',
        ''SKIL-INTENT-DIVERGENCE'', ''SKIL-JAILBREAK-001'', ''SKIL-JAILBREAK-002'', ''SKIL-JAILBREAK-003'',
        ''SKIL-DEP-SOURCE-OVERRIDE'', ''SKIL-DEP-SOURCE-INSECURE'', ''SKIL-DEP-SOURCE-REDIRECT'', ''SKIL-RAG-003'',
        ''SKIL-EXEC-ENCODED-CHAIN''] then ''commands.execute''
      else if i \<in> set [''SKIL-RAG-001'', ''SKIL-RAG-002'', ''SKIL-MEMORY-PERSISTENCE-001'', ''SKIL-RAG-INGESTION-001'']
        then ''persistence''
      else if i \<in> set [''SKIL-TAINT-OUTPUT-CROSS-AGENT'', ''SKIL-DEP-MALICIOUS''] then ''multi-agent''
      else if i \<in> set [''SKIL-PI-HIDDEN-COMMENT'', ''SKIL-PI-MD-HIDDEN-COMMENT'', ''SKIL-PI-MD-SUSPICIOUS-COMMENT'',
        ''SKIL-MEMORY-FALSE-RESET'', ''SKIL-MEMORY-FALSE-REPRESENTATION''] then ''instruction-integrity''
      else if i \<in> set [''SKIL-RESOURCE-UNLIMITED'', ''SKIL-RESOURCE-TIMEOUT'', ''SKIL-RESOURCE-UNBOUNDED-LOOP'']
        then ''resource-boundary''
      else [])"

text \<open>The constants .8 and .95 as the \<open>float64\<close> nearest to them.\<close>

definition float_080 :: float64 where "float_080 = Finite (3602879701896397 / 4503599627370496)"
definition float_095 :: float64 where "float_095 = Finite (4278419646001971 / 4503599627370496)"
definition float_093 :: float64 where "float_093 = Finite (8376695306909123 / 9007199254740992)"
definition float_090 :: float64 where "float_090 = Finite (8106479329266893 / 9007199254740992)"

definition finding_capability :: "finding \<Rightarrow> string" where
  "finding_capability f =
     (let c = (case fi_evidence f ''capability'' of Some (JStr s) \<Rightarrow> s | _ \<Rightarrow> []) in
      if c = [] then capability_for_rule (fi_rule_id f) else c)"

definition shows_capability :: "finding \<Rightarrow> bool" where
  "shows_capability f \<longleftrightarrow> \<not> (fi_suppressed f \<or> f_less (fi_confidence f) float_080) \<and> finding_capability f \<noteq> []"

text \<open>The location is that of the first finding which names a file.\<close>

definition first_location :: "finding list \<Rightarrow> location" where
  "first_location fs =
     foldl (\<lambda>l f. if loc_file l = [] then fi_location f else l) no_location fs"

definition declaration_rule :: "prose \<Rightarrow> rule" where
  "declaration_rule p = \<lparr>ru_id = ''SKIL-CAP-DECLARATION-MISSING'', ru_prose = p, ru_category = ''contract-conformance'',
     ru_severity = SeverityMedium, ru_references = [], ru_confidence = float_095\<rparr>"

definition missing_capability_declaration :: "crypto \<Rightarrow> (string \<Rightarrow> prose) \<Rightarrow> finding list \<Rightarrow> finding option" where
  "missing_capability_declaration cr pr findings =
     (let shown = filter shows_capability findings; loc = first_location shown;
          r = declaration_rule (pr ''SKIL-CAP-DECLARATION-MISSING'') in
      if shown = [] then None
      else Some ((make_finding cr r (loc_file loc) (loc_start loc) ''no skill contract'')
        \<lparr>fi_location := loc,
         fi_evidence := [''observed_capabilities'' \<mapsto> strs_json (sort_strings (remdups (map finding_capability shown)))]\<rparr>))"

section \<open>Threat chains\<close>

record chain_signal =
  cs_rules :: "string list"
  cs_capability :: string

record threat_chain =
  tc_rule :: rule
  tc_signals :: "chain_signal list"

text \<open>What satisfies a signal: nothing if it is not satisfied.\<close>

definition signal_matches :: "chain_signal \<Rightarrow> finding list \<Rightarrow> capability_observation list \<Rightarrow> finding list option" where
  "signal_matches s findings observations =
     (if cs_capability s \<noteq> []
      then (if list_ex (\<lambda>obs. co_capability obs = cs_capability s) observations then Some [] else None)
      else
        (let matched = filter (\<lambda>f. fi_rule_id f \<in> set (cs_rules s)) findings in
         if matched = [] then None else Some matched))"

definition by_rules :: "string list \<Rightarrow> chain_signal" where
  "by_rules ids = \<lparr>cs_rules = ids, cs_capability = []\<rparr>"

definition chain :: "(string \<Rightarrow> prose) \<Rightarrow> string \<Rightarrow> float64 \<Rightarrow> chain_signal list \<Rightarrow> threat_chain" where
  "chain pr i confidence signals = \<lparr>tc_rule = \<lparr>ru_id = i, ru_prose = pr i, ru_category = ''threat-chain'',
     ru_severity = SeverityCritical, ru_references = [], ru_confidence = confidence\<rparr>, tc_signals = signals\<rparr>"

definition threat_chain_catalog :: "(string \<Rightarrow> prose) \<Rightarrow> threat_chain list" where
  "threat_chain_catalog pr =
     [chain pr ''SKIL-CHAIN-INJECT-EXEC'' float_095
        [by_rules [''SKIL-PI-HIDDEN-COMMENT'', ''SKIL-PI-MD-HIDDEN-COMMENT'', ''SKIL-OBF-001'', ''SKIL-UNI-003'',
           ''SKIL-MCP-002'', ''SKIL-MCP-004''],
         by_rules [''SKIL-TAINT-EXECUTION'', ''SKIL-TAINT-OUTPUT-EXECUTION'']],
      chain pr ''SKIL-CHAIN-SUPPLY-CHAIN-COMPROMISE'' float_093
        [by_rules [''SKIL-DEP-001'', ''SKIL-MCP-003''],
         by_rules [''SKIL-DEP-002'', ''SKIL-DEP-MALICIOUS'', ''SKIL-DEP-VULN'']],
      chain pr ''SKIL-CHAIN-DECEPTIVE-MULTIAGENT'' float_090
        [by_rules [''SKIL-MEMORY-FALSE-RESET'', ''SKIL-MEMORY-FALSE-REPRESENTATION''],
         by_rules [''SKIL-TAINT-OUTPUT-CROSS-AGENT'']],
      chain pr ''SKIL-CHAIN-DECEPTIVE-CREDENTIAL-HARVEST'' float_090
        [by_rules [''SKIL-UNI-001'', ''SKIL-UNI-002''],
         by_rules [''SKIL-MCP-004'', ''SKIL-SEC-001'']]]"

definition chain_finding :: "crypto \<Rightarrow> rule \<Rightarrow> finding list \<Rightarrow> string list \<Rightarrow> finding" where
  "chain_finding cr r contributing0 capabilities =
     (let contributing = sort_key fi_fingerprint contributing0;
          ids = sort_strings (remdups (map fi_rule_id contributing));
          loc = (case contributing of [] \<Rightarrow> \<lparr>loc_file = ''SKILL.md'', loc_start = 1, loc_end = 0\<rparr> | f # _ \<Rightarrow> fi_location f);
          base = make_finding cr r (loc_file loc) (loc_start loc) (join ids ''+'');
          ev = (fi_evidence base)(''contributing_rules'' \<mapsto> strs_json ids,
                 ''contributing_findings'' \<mapsto> strs_json (map fi_fingerprint contributing)) in
      base\<lparr>fi_location := loc,
        fi_evidence := (if capabilities = [] then ev
          else ev(''contributing_capabilities'' \<mapsto> strs_json (sort_strings capabilities))),
        fi_message := ''Chain '' @ ru_id r @ '' correlates '' @ join ids '', ''\<rparr>)"

fun gather_signals ::
  "chain_signal list \<Rightarrow> finding list \<Rightarrow> capability_observation list \<Rightarrow> (finding list \<times> string list) option" where
  "gather_signals [] findings observations = Some ([], [])"
| "gather_signals (s # ss) findings observations =
     (case signal_matches s findings observations of
        None \<Rightarrow> None
      | Some matched \<Rightarrow>
          (case gather_signals ss findings observations of
             None \<Rightarrow> None
           | Some (contributing, capabilities) \<Rightarrow>
               Some (matched @ contributing, (if cs_capability s \<noteq> [] then [cs_capability s] else []) @ capabilities)))"

definition chain_result :: "crypto \<Rightarrow> threat_chain \<Rightarrow> finding list \<Rightarrow> capability_observation list \<Rightarrow> finding option" where
  "chain_result cr c findings observations =
     map_option (\<lambda>(contributing, capabilities). chain_finding cr (tc_rule c) contributing capabilities)
       (gather_signals (tc_signals c) findings observations)"

definition correlate_threat_chains ::
  "crypto \<Rightarrow> (string \<Rightarrow> prose) \<Rightarrow> finding list \<Rightarrow> capability_observation list \<Rightarrow> finding list" where
  "correlate_threat_chains cr pr findings observations =
     List.map_filter (\<lambda>c. chain_result cr c findings observations) (threat_chain_catalog pr)"

section \<open>When a chain fires\<close>

definition signal_present :: "chain_signal \<Rightarrow> finding list \<Rightarrow> capability_observation list \<Rightarrow> bool" where
  "signal_present s findings observations \<longleftrightarrow>
     (if cs_capability s \<noteq> [] then \<exists>obs\<in>set observations. co_capability obs = cs_capability s
      else \<exists>f\<in>set findings. fi_rule_id f \<in> set (cs_rules s))"

lemma signal_matches_present:
  "signal_matches s fs obs \<noteq> None \<longleftrightarrow> signal_present s fs obs"
  by (auto simp: signal_matches_def signal_present_def Let_def list_ex_iff filter_empty_conv)

lemma signal_matches_mset:
  "signal_matches s fs obs = Some ms \<Longrightarrow> cs_capability s = [] \<Longrightarrow> ms = filter (\<lambda>f. fi_rule_id f \<in> set (cs_rules s)) fs"
  by (auto simp: signal_matches_def Let_def split: if_splits)

lemma gather_signals_present:
  "gather_signals ss fs obs \<noteq> None \<longleftrightarrow> list_all (\<lambda>s. signal_present s fs obs) ss"
proof (induction ss)
  case (Cons s ss)
  show ?case using Cons signal_matches_present [of s fs obs] by (auto split: option.splits)
qed simp

lemma gather_signals_rules:
  assumes "gather_signals ss fs obs = Some (cs, caps)" and "list_all (\<lambda>s. cs_capability s = []) ss"
  shows "cs = concat (map (\<lambda>s. filter (\<lambda>f. fi_rule_id f \<in> set (cs_rules s)) fs) ss) \<and> caps = []"
  using assms
proof (induction ss arbitrary: cs caps)
  case (Cons s ss)
  then show ?case by (auto split: option.splits dest: signal_matches_mset)
qed simp

lemma make_finding_sel [simp]: "fi_rule_id (make_finding cr r p l m) = ru_id r"
  "fi_severity (make_finding cr r p l m) = ru_severity r" "fi_suppressed (make_finding cr r p l m) = False"
  "fi_category (make_finding cr r p l m) = ru_category r" "fi_confidence (make_finding cr r p l m) = ru_confidence r"
  by (simp_all add: make_finding_def Let_def)

lemma chain_finding_sel [simp]: "fi_rule_id (chain_finding cr r cs caps) = ru_id r"
  "fi_severity (chain_finding cr r cs caps) = ru_severity r" "fi_suppressed (chain_finding cr r cs caps) = False"
  by (simp_all add: chain_finding_def Let_def)

lemma chain_finding_evidence:
  "fi_evidence (chain_finding cr r cs []) ''contributing_findings'' =
     Some (strs_json (map fi_fingerprint (sort_key fi_fingerprint cs)))"
  by (simp add: chain_finding_def Let_def)

lemma catalog_signals: "c \<in> set (threat_chain_catalog pr) \<Longrightarrow> list_all (\<lambda>s. cs_capability s = []) (tc_signals c)"
  by (auto simp: threat_chain_catalog_def chain_def by_rules_def)

lemma catalog_ids: "distinct (map (\<lambda>c. ru_id (tc_rule c)) (threat_chain_catalog pr))"
  by (simp add: threat_chain_catalog_def chain_def)

lemma catalog_severity: "c \<in> set (threat_chain_catalog pr) \<Longrightarrow> ru_severity (tc_rule c) = SeverityCritical"
  by (auto simp: threat_chain_catalog_def chain_def)

text \<open>The findings that contribute to a chain, in the order of their fingerprints.\<close>

definition contributing :: "threat_chain \<Rightarrow> finding list \<Rightarrow> finding list" where
  "contributing c fs = sort_key fi_fingerprint
     (concat (map (\<lambda>s. filter (\<lambda>f. fi_rule_id f \<in> set (cs_rules s)) fs) (tc_signals c)))"

lemma chain_result_Some:
  assumes "c \<in> set (threat_chain_catalog pr)" and "chain_result cr c fs obs = Some x"
  shows "list_all (\<lambda>s. signal_present s fs obs) (tc_signals c) \<and> fi_rule_id x = ru_id (tc_rule c) \<and>
    fi_severity x = SeverityCritical \<and> \<not> fi_suppressed x \<and>
    fi_evidence x ''contributing_findings'' = Some (strs_json (map fi_fingerprint (contributing c fs)))"
proof -
  obtain cs caps where g: "gather_signals (tc_signals c) fs obs = Some (cs, caps)"
    and x: "x = chain_finding cr (tc_rule c) cs caps"
    using assms(2) by (auto simp: chain_result_def)
  note r = gather_signals_rules [OF g catalog_signals [OF assms(1)]]
  have "list_all (\<lambda>s. signal_present s fs obs) (tc_signals c)"
    using gather_signals_present [of "tc_signals c" fs obs] g by simp
  with r show ?thesis
    by (simp add: x chain_finding_evidence catalog_severity [OF assms(1)] contributing_def)
qed

lemma chain_result_None:
  "chain_result cr c fs obs = None \<longleftrightarrow> \<not> list_all (\<lambda>s. signal_present s fs obs) (tc_signals c)"
  using gather_signals_present [of "tc_signals c" fs obs]
  by (cases "gather_signals (tc_signals c) fs obs") (simp_all add: chain_result_def)

lemma set_map_filter: "x \<in> set (List.map_filter f cs) \<longleftrightarrow> (\<exists>c\<in>set cs. f c = Some x)"
  by (induction cs) (auto simp: List.map_filter_simps split: option.splits)

lemma map_filter_distinct:
  assumes "distinct (map g cs)" and "\<And>c x. c \<in> set cs \<Longrightarrow> f c = Some x \<Longrightarrow> h x = g c"
  shows "distinct (map h (List.map_filter f cs)) \<and> set (map h (List.map_filter f cs)) \<subseteq> set (map g cs)"
  using assms
proof (induction cs)
  case (Cons c cs)
  then have ih: "distinct (map h (List.map_filter f cs))" "set (map h (List.map_filter f cs)) \<subseteq> set (map g cs)"
    by simp_all
  show ?case
  proof (cases "f c")
    case None
    with ih show ?thesis by (auto simp: List.map_filter_simps)
  next
    case (Some x)
    then have "h x = g c" using Cons.prems(2) by simp
    with ih Some Cons.prems(1) show ?thesis by (auto simp: List.map_filter_simps)
  qed
qed (simp add: List.map_filter_simps)

text \<open>
  C33. The chain correlation is exact: each chain of the catalog yields at most one finding, and yields one
  exactly when every one of its signals occurs in the scan; that finding is critical and lists exactly the
  fingerprints of the findings that satisfied the signals.
\<close>

theorem threat_chains_exact:
  "distinct (map fi_rule_id (correlate_threat_chains cr pr fs obs)) \<and>
   set (map fi_rule_id (correlate_threat_chains cr pr fs obs)) =
     {ru_id (tc_rule c) | c. c \<in> set (threat_chain_catalog pr) \<and> list_all (\<lambda>s. signal_present s fs obs) (tc_signals c)} \<and>
   list_all (\<lambda>x. fi_severity x = SeverityCritical \<and>
       list_ex (\<lambda>c. ru_id (tc_rule c) = fi_rule_id x \<and>
         fi_evidence x ''contributing_findings'' = Some (strs_json (map fi_fingerprint (contributing c fs))))
         (threat_chain_catalog pr)) (correlate_threat_chains cr pr fs obs)"
proof (intro conjI)
  let ?f = "\<lambda>c. chain_result cr c fs obs"
  have mem: "x \<in> set (correlate_threat_chains cr pr fs obs) \<longleftrightarrow> (\<exists>c\<in>set (threat_chain_catalog pr). ?f c = Some x)" for x
    by (simp add: correlate_threat_chains_def set_map_filter)
  show "distinct (map fi_rule_id (correlate_threat_chains cr pr fs obs))"
    unfolding correlate_threat_chains_def
    by (rule conjunct1 [OF map_filter_distinct [OF catalog_ids]]) (blast dest: chain_result_Some)
  show "set (map fi_rule_id (correlate_threat_chains cr pr fs obs)) =
     {ru_id (tc_rule c) | c. c \<in> set (threat_chain_catalog pr) \<and> list_all (\<lambda>s. signal_present s fs obs) (tc_signals c)}"
  proof (intro set_eqI iffI)
    fix i
    assume "i \<in> set (map fi_rule_id (correlate_threat_chains cr pr fs obs))"
    then obtain x c where "i = fi_rule_id x" "c \<in> set (threat_chain_catalog pr)" "?f c = Some x" using mem by auto
    then show "i \<in> {ru_id (tc_rule c) | c. c \<in> set (threat_chain_catalog pr) \<and> list_all (\<lambda>s. signal_present s fs obs) (tc_signals c)}"
      using chain_result_Some [of c pr cr fs obs x] by auto
  next
    fix i
    assume "i \<in> {ru_id (tc_rule c) | c. c \<in> set (threat_chain_catalog pr) \<and> list_all (\<lambda>s. signal_present s fs obs) (tc_signals c)}"
    then obtain c where c: "c \<in> set (threat_chain_catalog pr)" "i = ru_id (tc_rule c)"
      and p: "list_all (\<lambda>s. signal_present s fs obs) (tc_signals c)" by auto
    obtain x where x: "?f c = Some x" using p chain_result_None [of cr c fs obs] by (cases "?f c") simp_all
    then have "fi_rule_id x = i" using chain_result_Some [OF c(1) x] c(2) by simp
    with x c(1) mem show "i \<in> set (map fi_rule_id (correlate_threat_chains cr pr fs obs))" by auto
  qed
  show "list_all (\<lambda>x. fi_severity x = SeverityCritical \<and>
       list_ex (\<lambda>c. ru_id (tc_rule c) = fi_rule_id x \<and>
         fi_evidence x ''contributing_findings'' = Some (strs_json (map fi_fingerprint (contributing c fs))))
         (threat_chain_catalog pr)) (correlate_threat_chains cr pr fs obs)"
    unfolding list_all_iff list_ex_iff
  proof
    fix x
    assume "x \<in> set (correlate_threat_chains cr pr fs obs)"
    then obtain c where c: "c \<in> set (threat_chain_catalog pr)" "?f c = Some x" using mem by blast
    from chain_result_Some [OF this] c(1)
    show "fi_severity x = SeverityCritical \<and> (\<exists>c\<in>set (threat_chain_catalog pr). ru_id (tc_rule c) = fi_rule_id x \<and>
        fi_evidence x ''contributing_findings'' = Some (strs_json (map fi_fingerprint (contributing c fs))))" by auto
  qed
qed

end
