(* ===== verification/Scan_Assessment.thy ===== *)
theory Scan_Assessment
  imports Baseline
begin

text \<open>
  The ledgers of a scan and their assessment: inspection work items and their summary, the usage of the
  analysis budget (internal/analyzer/registry.go), and \<open>AssessScan\<close> (internal/assurance/scan.go), which turns
  the ledgers into an assurance report.

  A quotient of counts is a \<open>float64\<close> computed by the parameter of \<open>float_ops\<close>.
\<close>

section \<open>Floating point\<close>

text \<open>Addition, multiplication, division and truncation to an integer, as the machine rounds them.\<close>

record float_ops =
  fo_add :: "float64 \<Rightarrow> float64 \<Rightarrow> float64"
  fo_mul :: "float64 \<Rightarrow> float64 \<Rightarrow> float64"
  fo_div :: "float64 \<Rightarrow> float64 \<Rightarrow> float64"
  fo_int :: "float64 \<Rightarrow> int"

text \<open>What the model relies on: a quotient of counts up to 2^53 is 1 only if they are equal.\<close>

definition exact_unit_quotient :: "float_ops \<Rightarrow> bool" where
  "exact_unit_quotient fo \<longleftrightarrow> (\<forall>m n. 0 \<le> m \<longrightarrow> m \<le> n \<longrightarrow> 0 < n \<longrightarrow> n < 2 ^ 53 \<longrightarrow>
     (f_less (fo_div fo (Finite (of_int m)) (Finite (of_int n))) (Finite 1) \<longleftrightarrow> m < n))"

section \<open>The inspection ledger\<close>

datatype inspection_outcome = InspectionCompleted | InspectionSkipped | InspectionFailed | InspectionOutOfScope

definition outcome_text :: "inspection_outcome \<Rightarrow> string" where
  "outcome_text x = (case x of InspectionCompleted \<Rightarrow> ''completed'' | InspectionSkipped \<Rightarrow> ''skipped''
     | InspectionFailed \<Rightarrow> ''failed'' | InspectionOutOfScope \<Rightarrow> ''out_of_scope'')"

record work_item =
  wi_analyzer :: string
  wi_version :: string
  wi_file :: string
  wi_outcome :: inspection_outcome
  wi_reason :: string
  wi_findings :: int

record inspection_summary =
  im_total :: int
  im_applicable :: int
  im_completed :: int
  im_skipped :: int
  im_failed :: int
  im_out_of_scope :: int
  im_completeness :: float64

definition zero_summary :: "int \<Rightarrow> inspection_summary" where
  "zero_summary n = \<lparr>im_total = n, im_applicable = 0, im_completed = 0, im_skipped = 0, im_failed = 0,
     im_out_of_scope = 0, im_completeness = Finite 0\<rparr>"

definition count_item :: "work_item \<Rightarrow> inspection_summary \<Rightarrow> inspection_summary" where
  "count_item i m = (case wi_outcome i of
      InspectionCompleted \<Rightarrow> m\<lparr>im_applicable := im_applicable m + 1, im_completed := im_completed m + 1\<rparr>
    | InspectionSkipped \<Rightarrow> m\<lparr>im_applicable := im_applicable m + 1, im_skipped := im_skipped m + 1\<rparr>
    | InspectionFailed \<Rightarrow> m\<lparr>im_applicable := im_applicable m + 1, im_failed := im_failed m + 1\<rparr>
    | InspectionOutOfScope \<Rightarrow> m\<lparr>im_out_of_scope := im_out_of_scope m + 1\<rparr>)"

definition summarize_inspection :: "float_ops \<Rightarrow> work_item list \<Rightarrow> inspection_summary" where
  "summarize_inspection fo items =
     (let m = fold count_item items (zero_summary (int (length items))) in
      m\<lparr>im_completeness := (if im_applicable m = 0 then Finite 1
         else fo_div fo (Finite (of_int (im_completed m))) (Finite (of_int (im_applicable m))))\<rparr>)"

section \<open>The usage of the budget\<close>

type_synonym budget_dimension = "int \<times> int"

record budget_usage =
  bu_raw :: budget_dimension
  bu_expanded :: budget_dimension
  bu_findings :: budget_dimension
  bu_events :: budget_dimension
  bu_views :: budget_dimension
  bu_depth :: budget_dimension
  bu_bytes :: budget_dimension
  bu_wall :: budget_dimension
  bu_exceeded :: "string list"

definition zero_usage :: budget_usage where
  "zero_usage = \<lparr>bu_raw = (0, 0), bu_expanded = (0, 0), bu_findings = (0, 0), bu_events = (0, 0), bu_views = (0, 0),
     bu_depth = (0, 0), bu_bytes = (0, 0), bu_wall = (0, 0), bu_exceeded = []\<rparr>"

definition dimension_json :: "budget_dimension \<Rightarrow> json" where
  "dimension_json d = JObj [(''used'', JNum (dec_int (fst d))), (''limit'', JNum (dec_int (snd d)))]"

definition usage_json :: "budget_usage \<Rightarrow> json" where
  "usage_json u = JObj ([(''raw_bytes'', dimension_json (bu_raw u)), (''expanded_bytes'', dimension_json (bu_expanded u)),
     (''findings'', dimension_json (bu_findings u)), (''inspection_events'', dimension_json (bu_events u)),
     (''derived_views'', dimension_json (bu_views u)), (''derived_depth'', dimension_json (bu_depth u)),
     (''derived_bytes'', dimension_json (bu_bytes u)), (''wall_time'', dimension_json (bu_wall u))] @
     omit_strs ''exceeded'' (bu_exceeded u))"

definition item_json :: "work_item \<Rightarrow> json" where
  "item_json i = JObj ([(''analyzer'', JStr (wi_analyzer i)), (''analyzer_version'', JStr (wi_version i)),
     (''file'', JStr (wi_file i)), (''outcome'', JStr (outcome_text (wi_outcome i)))] @
     omit_str ''reason'' (wi_reason i) @ [(''findings'', JNum (dec_int (wi_findings i)))])"

text \<open>A ledger that was never appended to is a nil slice.\<close>

definition items_json :: "work_item list \<Rightarrow> json" where
  "items_json is = (if is = [] then JNull else JArr (map item_json is))"

section \<open>Reports\<close>

record assurance_limitation =
  al_subject :: string
  al_phase :: string
  al_cause :: string
  al_dimensions :: "string list"
  al_evidence :: "string list"
  al_analyzer :: string
  al_control :: string
  al_effect :: string

record assurance_report =
  rp_outcome :: string
  rp_controls :: "control_proof list"
  rp_dimensions :: "dimension_result list"
  rp_limitations :: "assurance_limitation list"
  rp_evidence_digest :: string
  rp_proof :: outcome_proof

definition evidence_json :: "assurance_evidence \<Rightarrow> json" where
  "evidence_json e = JObj ([(''stage'', JStr (ae_stage e)), (''evidence_id'', JStr (ae_evidence_id e)),
     (''digest'', JStr (ae_digest e)), (''timestamp'', time_json (ae_timestamp e))] @ omit_str ''detail'' (ae_detail e))"

definition control_json :: "control_proof \<Rightarrow> json" where
  "control_json p = JObj ([(''control_id'', JStr (cp_control_id p)), (''analyzer'', JStr (cp_analyzer p)),
     (''subject_digest'', JStr (cp_subject_digest p)), (''required_stages'', strs_json (cp_required_stages p))] @
     (if cp_evidence p = [] then [] else [(''evidence'', JArr (map evidence_json (cp_evidence p)))]) @
     [(''required'', JBool (cp_required p)), (''complete'', JBool (cp_complete p))] @
     omit_str ''limitation'' (cp_limitation p))"

definition dimension_result_json :: "dimension_result \<Rightarrow> json" where
  "dimension_result_json d = JObj ([(''dimension'', JStr (dr_dimension d)), (''state'', JStr (dr_state d))] @
     omit_strs ''evidence'' (dr_evidence d) @ omit_strs ''limitations'' (dr_limitations d))"

definition limitation_json :: "assurance_limitation \<Rightarrow> json" where
  "limitation_json l = JObj ([(''subject'', JStr (al_subject l)), (''phase'', JStr (al_phase l)),
     (''cause'', JStr (al_cause l)), (''dimensions'', strs_json (al_dimensions l))] @
     omit_strs ''evidence'' (al_evidence l) @ omit_str ''analyzer'' (al_analyzer l) @
     omit_str ''control'' (al_control l) @ [(''decision_effect'', JStr (al_effect l))])"

section \<open>The assessment\<close>

definition DimensionArtifactInspection :: string where "DimensionArtifactInspection = ''ArtifactInspection''"
definition DimensionControlExecution :: string where "DimensionControlExecution = ''ControlExecution''"
definition DimensionEvidenceIntegrity :: string where "DimensionEvidenceIntegrity = ''EvidenceIntegrity''"
definition DimensionReferenceResolution :: string where "DimensionReferenceResolution = ''ReferenceResolution''"

definition dimension_state :: "bool \<Rightarrow> string" where
  "dimension_state c = (if c then ''COMPLETE'' else ''PARTIAL'')"

definition required_stages :: "bool \<Rightarrow> string list" where
  "required_stages persisted = [''EXPECTED'', ''SCHEDULED'', ''INVOCATION_BUILT'', ''EVIDENCE_PRODUCED'',
     ''EVIDENCE_COMMITTED'', ''DECISION_CONSUMED''] @ (if persisted then [''PROOF_PERSISTED''] else [])"

definition assess_item :: "crypto \<Rightarrow> string \<Rightarrow> string list \<Rightarrow> work_item \<Rightarrow> control_proof \<times> assurance_limitation option" where
  "assess_item cr subject required i =
     (let proof = \<lparr>cp_control_id = wi_analyzer i, cp_analyzer = wi_analyzer i, cp_subject_digest = subject,
            cp_required_stages = required, cp_evidence = [], cp_required = True, cp_complete = False, cp_limitation = []\<rparr>;
          cause = (if wi_reason i = [] then outcome_text (wi_outcome i) else wi_reason i) in
      if wi_outcome i = InspectionCompleted
      then (proof\<lparr>cp_complete := True, cp_evidence := map (\<lambda>st. \<lparr>ae_stage = st,
          ae_evidence_id = ''inspection:'' @ wi_analyzer i @ '':'' @ wi_file i @ '':'' @ st,
          ae_digest = marshal_digest cr (item_json i), ae_timestamp = 0, ae_detail = wi_file i\<rparr>) required\<rparr>, None)
      else (proof\<lparr>cp_limitation := cause\<rparr>,
        Some \<lparr>al_subject = wi_file i, al_phase = ''inspection'', al_cause = cause,
          al_dimensions = [DimensionArtifactInspection, DimensionControlExecution],
          al_evidence = [marshal_digest cr (item_json i)], al_analyzer = wi_analyzer i, al_control = wi_analyzer i,
          al_effect = ''prevents COMPLETE assurance''\<rparr>))"

definition budget_limitation :: "crypto \<Rightarrow> string \<Rightarrow> budget_usage \<Rightarrow> assurance_limitation list" where
  "budget_limitation cr subject u =
     (if bu_exceeded u = [] then []
      else [\<lparr>al_subject = subject, al_phase = ''budget'', al_cause = ''analysis budget exceeded'',
        al_dimensions = [DimensionArtifactInspection, DimensionControlExecution],
        al_evidence = [marshal_digest cr (usage_json u)], al_analyzer = [], al_control = [],
        al_effect = ''prevents COMPLETE assurance''\<rparr>])"

definition persistence_limitation :: "crypto \<Rightarrow> string \<Rightarrow> bool \<Rightarrow> assurance_limitation list" where
  "persistence_limitation cr subject persisted =
     (if persisted then []
      else [\<lparr>al_subject = subject, al_phase = ''persistence'', al_cause = ''proof has not been persisted'',
        al_dimensions = [DimensionEvidenceIntegrity], al_evidence = [marshal_digest cr (JBool persisted)],
        al_analyzer = [], al_control = [], al_effect = ''prevents COMPLETE assurance''\<rparr>])"

definition closure_limitation :: "assurance_closure option \<Rightarrow> assurance_limitation list" where
  "closure_limitation closure = (case closure of
      None \<Rightarrow> []
    | Some c \<Rightarrow> if cl_complete c then []
        else [\<lparr>al_subject = cl_root_digest c, al_phase = ''reference-closure'', al_cause = ''reference closure incomplete'',
          al_dimensions = [DimensionReferenceResolution], al_evidence = [cl_digest c], al_analyzer = [], al_control = [],
          al_effect = ''prevents COMPLETE assurance''\<rparr>])"

definition closure_dimension :: "assurance_closure option \<Rightarrow> dimension_result list" where
  "closure_dimension closure = (case closure of
      None \<Rightarrow> []
    | Some c \<Rightarrow> [\<lparr>dr_dimension = DimensionReferenceResolution, dr_state = dimension_state (cl_complete c),
        dr_evidence = [cl_digest c], dr_limitations = []\<rparr>])"

text \<open>
  The controls, the limitations and \<open>allComplete\<close> so far; each step may add limitations, and then clears
  \<open>allComplete\<close>.
\<close>

type_synonym assessing = "control_proof list \<times> assurance_limitation list \<times> bool"

definition assess_step :: "crypto \<Rightarrow> string \<Rightarrow> string list \<Rightarrow> work_item \<Rightarrow> assessing \<Rightarrow> assessing" where
  "assess_step cr subject required i = (\<lambda>(controls, limitations, complete).
     (case assess_item cr subject required i of
        (p, None) \<Rightarrow> (controls @ [p], limitations, complete)
      | (p, Some l) \<Rightarrow> (controls @ [p], limitations @ [l], False)))"

definition assess_block :: "assurance_limitation list \<Rightarrow> assessing \<Rightarrow> assessing" where
  "assess_block ls = (\<lambda>(controls, limitations, complete).
     if ls = [] then (controls, limitations, complete) else (controls, limitations @ ls, False))"

definition assess_scan ::
  "crypto \<Rightarrow> string \<Rightarrow> work_item list \<Rightarrow> budget_usage \<Rightarrow> bool \<Rightarrow> assurance_closure option \<Rightarrow> assurance_report" where
  "assess_scan cr subject items u persisted closure =
     (let st1 = fold (assess_step cr subject (required_stages persisted)) items ([], [], items \<noteq> []);
          st2 = assess_block (budget_limitation cr subject u) st1;
          st3 = assess_block (persistence_limitation cr subject persisted) st2;
          (controls, limitations, complete) = assess_block (closure_limitation closure) st3;
          inspected = \<lparr>dr_dimension = DimensionArtifactInspection, dr_state = dimension_state complete,
            dr_evidence = [marshal_digest cr (items_json items)], dr_limitations = []\<rparr>;
          dimensions = sort_dimensions ([inspected, inspected\<lparr>dr_dimension := DimensionControlExecution\<rparr>,
            \<lparr>dr_dimension = DimensionEvidenceIntegrity, dr_state = dimension_state (subject \<noteq> []),
             dr_evidence = [subject], dr_limitations = []\<rparr>] @ closure_dimension closure);
          outcome = (if complete then OutcomeComplete else OutcomePartial);
          cs = JArr (map control_json controls); ds = JArr (map dimension_result_json dimensions) in
      \<lparr>rp_outcome = outcome, rp_controls = controls, rp_dimensions = dimensions, rp_limitations = limitations,
       rp_evidence_digest = marshal_digest cr (JObj [(''Controls'', cs), (''Dimensions'', ds),
         (''Limitations'', JArr (map limitation_json limitations))]),
       rp_proof = \<lparr>op_outcome = outcome, op_evidence = [marshal_digest cr cs, marshal_digest cr ds], op_policy_id = [],
         op_applicability = [], op_unresolved = (if complete then []
           else [''one or more required analysis transitions are not proven''])\<rparr>\<rparr>)"

section \<open>Properties of the assessment\<close>

lemma marshal_digest_nonempty [simp]: "marshal_digest cr j \<noteq> []"
  by (simp add: marshal_digest_def sha_digest_def)

lemma assess_item_complete:
  "snd (assess_item cr subject rs i) = None \<longleftrightarrow> wi_outcome i = InspectionCompleted"
  "cp_complete (fst (assess_item cr subject rs i)) \<longleftrightarrow> wi_outcome i = InspectionCompleted"
  by (simp_all add: assess_item_def Let_def)

lemma assess_item_validates:
  assumes "subject \<noteq> []" and "wi_analyzer i \<noteq> []" and "list_all (\<lambda>s. s \<noteq> []) rs"
  shows "cp_complete (fst (assess_item cr subject rs i)) \<Longrightarrow> validate_control (fst (assess_item cr subject rs i)) = None"
  using assms unfolding validate_control_None
  by (auto simp: assess_item_def Let_def list_all_iff image_image split: if_splits)

lemma required_stages_named: "list_all (\<lambda>s. s \<noteq> []) (required_stages p)"
  by (simp add: required_stages_def)

lemma map_filter_nil: "List.map_filter f xs = [] \<longleftrightarrow> list_all (\<lambda>x. f x = None) xs"
  by (induction xs) (auto simp: List.map_filter_simps split: option.split)

lemma assess_steps:
  "fold (assess_step cr subject rs) items (cs, ls, ok) =
     (cs @ map (\<lambda>i. fst (assess_item cr subject rs i)) items,
      ls @ List.map_filter (\<lambda>i. snd (assess_item cr subject rs i)) items,
      ok \<and> List.map_filter (\<lambda>i. snd (assess_item cr subject rs i)) items = [])"
proof (induction items arbitrary: cs ls ok)
  case (Cons i items)
  obtain p l where "assess_item cr subject rs i = (p, l)" by (metis surj_pair)
  then have "assess_step cr subject rs i (cs, ls, ok) = (cs @ [p], ls @ (case l of None \<Rightarrow> [] | Some x \<Rightarrow> [x]), ok \<and> l = None)"
    by (simp add: assess_step_def split: option.split)
  with \<open>assess_item cr subject rs i = (p, l)\<close> show ?case
    by (cases l) (simp_all add: Cons List.map_filter_simps)
qed (simp add: List.map_filter_simps)

lemma assess_block_simp: "assess_block ls (cs, xs, ok) = (cs, xs @ ls, ok \<and> ls = [])"
  by (simp add: assess_block_def)

lemma assess_scan_parts:
  fixes cr subject items u persisted closure
  defines "r \<equiv> assess_scan cr subject items u persisted closure"
  shows "rp_controls r = map (\<lambda>i. fst (assess_item cr subject (required_stages persisted) i)) items"
    and "rp_limitations r = List.map_filter (\<lambda>i. snd (assess_item cr subject (required_stages persisted) i)) items @
       budget_limitation cr subject u @ persistence_limitation cr subject persisted @ closure_limitation closure"
    and "rp_outcome r = (if items \<noteq> [] \<and> rp_limitations r = [] then OutcomeComplete else OutcomePartial)"
    and "validate_outcome (rp_proof r) = None"
  by (simp_all add: r_def assess_scan_def Let_def assess_steps assess_block_simp validate_outcome_def
      OutcomeComplete_def OutcomePartial_def OutcomeExcludedByPolicy_def OutcomeNotApplicable_def OutcomeFailed_def)

text \<open>A limitation by its phase, its subject and its cause.\<close>

definition stated :: "assurance_limitation \<Rightarrow> string \<times> string \<times> string" where
  "stated l = (al_phase l, al_subject l, al_cause l)"

lemma stated_items:
  "map stated (List.map_filter (\<lambda>i. snd (assess_item cr subject rs i)) items) =
     map (\<lambda>i. (''inspection'', wi_file i, if wi_reason i = [] then outcome_text (wi_outcome i) else wi_reason i))
       (filter (\<lambda>i. wi_outcome i \<noteq> InspectionCompleted) items)"
  by (induction items) (simp_all add: List.map_filter_simps assess_item_def Let_def stated_def)

lemma stated_blocks:
  "map stated (budget_limitation cr subject u) =
     (if bu_exceeded u = [] then [] else [(''budget'', subject, ''analysis budget exceeded'')])"
  "map stated (persistence_limitation cr subject persisted) =
     (if persisted then [] else [(''persistence'', subject, ''proof has not been persisted'')])"
  "map stated (closure_limitation closure) = (case closure of None \<Rightarrow> []
     | Some c \<Rightarrow> if cl_complete c then [] else [(''reference-closure'', cl_root_digest c, ''reference closure incomplete'')])"
  by (simp_all add: budget_limitation_def persistence_limitation_def closure_limitation_def stated_def
      split: option.split)

lemma assessed_controls_validate:
  assumes c: "c \<in> set (rp_controls (assess_scan cr subject items u persisted closure))"
    and "cp_complete c" "cp_analyzer c \<noteq> []" "cp_subject_digest c \<noteq> []"
  shows "validate_control c = None"
proof -
  obtain i where i: "c = fst (assess_item cr subject (required_stages persisted) i)"
    using c by (auto simp: assess_scan_parts)
  then have "wi_analyzer i \<noteq> []" "subject \<noteq> []" using assms(3,4) by (auto simp: assess_item_def Let_def split: if_splits)
  then show ?thesis using assess_item_validates [OF _ _ required_stages_named] assms(2) unfolding i by blast
qed


section \<open>The summary of the ledger\<close>

definition outcome_count :: "inspection_outcome \<Rightarrow> work_item list \<Rightarrow> int" where
  "outcome_count x items = int (length (filter (\<lambda>i. wi_outcome i = x) items))"

lemma fold_count_item:
  "fold count_item items m = m\<lparr>im_completed := im_completed m + outcome_count InspectionCompleted items,
     im_skipped := im_skipped m + outcome_count InspectionSkipped items,
     im_failed := im_failed m + outcome_count InspectionFailed items,
     im_out_of_scope := im_out_of_scope m + outcome_count InspectionOutOfScope items,
     im_applicable := im_applicable m + outcome_count InspectionCompleted items +
       outcome_count InspectionSkipped items + outcome_count InspectionFailed items\<rparr>"
proof (induction items arbitrary: m)
  case (Cons i items)
  then show ?case by (cases "wi_outcome i") (simp_all add: outcome_count_def count_item_def)
qed (simp add: outcome_count_def)

lemma summary_counts:
  "im_total (summarize_inspection fo items) = int (length items)"
  "im_completed (summarize_inspection fo items) = outcome_count InspectionCompleted items"
  "im_skipped (summarize_inspection fo items) = outcome_count InspectionSkipped items"
  "im_failed (summarize_inspection fo items) = outcome_count InspectionFailed items"
  "im_out_of_scope (summarize_inspection fo items) = outcome_count InspectionOutOfScope items"
  "im_applicable (summarize_inspection fo items) = outcome_count InspectionCompleted items +
       outcome_count InspectionSkipped items + outcome_count InspectionFailed items"
  by (simp_all add: summarize_inspection_def Let_def fold_count_item zero_summary_def)

lemma outcome_count_total:
  "outcome_count InspectionCompleted items + outcome_count InspectionSkipped items +
   outcome_count InspectionFailed items + outcome_count InspectionOutOfScope items = int (length items)"
proof (induction items)
  case (Cons i items)
  then show ?case by (cases "wi_outcome i") (simp_all add: outcome_count_def)
qed (simp add: outcome_count_def)

end
