(* ===== verification/Scan_Engine.thy ===== *)
theory Scan_Engine
  imports Derived_View Rule_Findings Scan_Assessment "HOL-Library.AList"
begin

text \<open>
  The scan engine, internal/analyzer/registry.go: the registry of analyzers, \<open>Scan\<close> with its budget, ledger,
  coverage and error paths, the analysis of derived views, \<open>Risk\<close> and \<open>Verdict\<close>.

  An analyzer is its metadata and one of the three interfaces of the code; what it returns may depend on the
  moment of the call.  Moments are numbers, one per look at a context or clock: \<open>se_caller_done\<close> says when the
  caller's context is done and \<open>se_elapsed\<close> how many nanoseconds have passed since the start.  The inventory of
  dependencies and the classification of binary files are the parameters \<open>se_dependencies\<close> and \<open>se_classify\<close>.
  A map from keys to states is an association list changed with \<open>AList.update\<close>.
\<close>

section \<open>Analyzers\<close>

record diagnostic =
  dg_component :: string
  dg_level :: string
  dg_message :: string

record analyzer_meta =
  am_id :: string
  am_version :: string
  am_domain :: string
  am_types :: "string list"
  am_supported :: "string list"

type_synonym coverage = "(string \<times> string) list"

record analysis =
  ao_findings :: "finding list"
  ao_observations :: "capability_observation list"
  ao_diagnostics :: "diagnostic list"
  ao_coverage :: coverage

datatype analyze_method =
    AnalyzeResult "nat \<Rightarrow> source_file list \<Rightarrow> string option \<times> finding list \<times> diagnostic list \<times> coverage"
  | AnalyzeCapabilities "nat \<Rightarrow> source_file list \<Rightarrow> string option \<times> finding list \<times> capability_observation list"
  | Analyze "nat \<Rightarrow> source_file list \<Rightarrow> string option \<times> finding list"

record analyzer =
  az_meta :: analyzer_meta
  az_method :: analyze_method
  az_diagnostics :: "(nat \<Rightarrow> diagnostic list) option"

definition invoke_analyzer :: "analyzer \<Rightarrow> nat \<Rightarrow> source_file list \<Rightarrow> string option \<times> analysis" where
  "invoke_analyzer a i files = (case az_method a of
      AnalyzeResult f \<Rightarrow> (case f i files of (err, fs, ds, cov) \<Rightarrow>
        (err, \<lparr>ao_findings = fs, ao_observations = [], ao_diagnostics = ds, ao_coverage = cov\<rparr>))
    | AnalyzeCapabilities f \<Rightarrow> (case f i files of (err, fs, obs) \<Rightarrow>
        (err, \<lparr>ao_findings = fs, ao_observations = obs, ao_diagnostics = [], ao_coverage = []\<rparr>))
    | Analyze f \<Rightarrow> (case f i files of (err, fs) \<Rightarrow>
        (err, \<lparr>ao_findings = fs, ao_observations = [], ao_diagnostics = [], ao_coverage = []\<rparr>)))"

text \<open>The registry.\<close>

datatype register_error = NoAnalyzerIdentity | AlreadyRegistered string

definition register_analyzer :: "analyzer \<Rightarrow> analyzer list \<Rightarrow> register_error + analyzer list" where
  "register_analyzer a as =
     (if am_id (az_meta a) = [] \<or> am_version (az_meta a) = [] then Inl NoAnalyzerIdentity
      else if list_ex (\<lambda>b. am_id (az_meta b) = am_id (az_meta a)) as then Inl (AlreadyRegistered (am_id (az_meta a)))
      else Inr (as @ [a]))"

definition registry_metadata :: "analyzer list \<Rightarrow> analyzer_meta list" where
  "registry_metadata as = sort_key am_id (map az_meta as)"

definition registry_domains :: "analyzer list \<Rightarrow> string list" where
  "registry_domains as = sort_strings (remdups (filter (\<lambda>d. d \<noteq> []) (map (\<lambda>a. am_domain (az_meta a)) as)))"

definition analyzers_by_domain :: "string \<Rightarrow> analyzer list \<Rightarrow> analyzer list" where
  "analyzers_by_domain d as = filter (\<lambda>a. am_domain (az_meta a) = d) as"

section \<open>Coverage\<close>

definition CoverageDegraded :: string where "CoverageDegraded = ''degraded''"
definition CoverageNotAvailable :: string where "CoverageNotAvailable = ''not_available''"
definition CoverageNotRequested :: string where "CoverageNotRequested = ''not_requested''"
definition CoverageNotRun :: string where "CoverageNotRun = ''not_run''"

lemmas coverage_defs = CoverageCompleted_def CoverageDegraded_def CoverageNotAvailable_def CoverageNotRequested_def
  CoverageNotRun_def

definition domain_coverage :: "analyzer list \<Rightarrow> coverage" where
  "domain_coverage as = map (\<lambda>d. (d, CoverageNotRequested)) (registry_domains as)"

definition initial_coverage :: coverage where
  "initial_coverage = map (\<lambda>k. (k, CoverageNotRequested)) [''pattern'', ''ast'', ''static-code'', ''taint'', ''dependency'',
     ''vulnerability'', ''reputation'', ''mcp'', ''malware'', ''semantic'', ''semantic-provider'', ''trigger'',
     ''resource-config'', ''taint-output''] @ [(''behavioral'', CoverageNotRun),
     (''analysis-budget'', CoverageCompleted), (''derived-views'', CoverageCompleted)]"

definition has_degraded_coverage :: "coverage \<Rightarrow> bool" where
  "has_degraded_coverage cov = list_ex (\<lambda>s. s = CoverageDegraded \<or> s = CoverageNotAvailable) (map snd cov)"

definition coverage_of :: "coverage \<Rightarrow> string \<Rightarrow> string" where
  "coverage_of cov k = (case map_of cov k of None \<Rightarrow> [] | Some s \<Rightarrow> s)"

definition verdict_of :: "string \<Rightarrow> int \<Rightarrow> coverage \<Rightarrow> string" where
  "verdict_of maximum score cov =
     (if SeverityRank SeverityHigh \<le> SeverityRank maximum \<or> 40 \<le> score then VerdictBlock
      else if maximum = SeverityMedium \<or> 10 \<le> score \<or> has_degraded_coverage cov \<or>
        coverage_of cov ''ast'' \<noteq> CoverageCompleted \<or> coverage_of cov ''taint'' \<noteq> CoverageCompleted
      then VerdictReview else VerdictClear)"

section \<open>Risk\<close>

definition severity_weight :: "string \<Rightarrow> int" where
  "severity_weight s = (if s = SeverityLow then 3 else if s = SeverityMedium then 8
     else if s = SeverityHigh \<or> s = SeverityUnknown then 18 else if s = SeverityCritical then 30 else 0)"

definition score_finding :: "float_ops \<Rightarrow> finding \<Rightarrow> string \<times> float64 \<Rightarrow> string \<times> float64" where
  "score_finding fo f = (\<lambda>(m, score).
     if fi_suppressed f then (m, score)
     else
       (let s1 = fo_add fo score (fo_mul fo (Finite (of_int (severity_weight (fi_severity f)))) (fi_confidence f));
            s2 = (if fi_category f = ''contract-conformance'' then fo_add fo s1 (Finite 10) else s1) in
        (if SeverityRank m < SeverityRank (fi_severity f) then fi_severity f else m, s2)))"

definition status_of :: "string \<Rightarrow> string" where
  "status_of m = (if m = SeverityMedium then StatusWarn
     else if SeverityRank SeverityHigh \<le> SeverityRank m then StatusFail else StatusPass)"

definition risk :: "float_ops \<Rightarrow> finding list \<Rightarrow> coverage \<Rightarrow> string \<times> int \<times> string" where
  "risk fo fs cov =
     (let (m, score) = fold (score_finding fo) fs (SeverityInfo, Finite 0);
          s1 = (if coverage_of cov ''ast'' \<noteq> CoverageCompleted \<or> coverage_of cov ''taint'' \<noteq> CoverageCompleted
            then fo_add fo score (Finite 5) else score);
          s2 = (if f_less (Finite 100) s1 then Finite 100 else s1) in
      (m, fo_int fo (fo_add fo s2 (Finite (1 / 2))), status_of m))"

section \<open>Which files an analyzer looks at\<close>

definition path_ext :: "string \<Rightarrow> string" where
  "path_ext p =
     (let elem = rev (takeWhile (\<lambda>c. c \<noteq> CHR ''/'') (rev p)) in
      if CHR ''.'' \<in> set elem then CHR ''.'' # rev (takeWhile (\<lambda>c. c \<noteq> CHR ''.'') (rev elem)) else [])"

definition extension :: "string \<Rightarrow> string" where
  "extension p =
     (let base = to_lower (path_base p) in
      if base = ''dockerfile'' \<or> base = ''makefile'' then base else trim_prefix (to_lower (path_ext p)) ''.'')"

definition is_text :: "source_file \<Rightarrow> bool" where
  "is_text f \<longleftrightarrow> CHR 0x00 \<notin> set (sf_data f) \<and> valid_utf8 (sf_data f)"

text \<open>The shebang pattern: an optional env prefix, an optional directory, \<open>python\<close> and a version.\<close>

definition regex_space :: "char \<Rightarrow> bool" where
  "regex_space c \<longleftrightarrow> c \<in> set [CHR '' '', CHR 0x09, CHR 0x0A, CHR 0x0C, CHR 0x0D]"

definition word_char :: "char \<Rightarrow> bool" where
  "word_char c \<longleftrightarrow> is_digit c \<or> (CHR ''a'' \<le> c \<and> c \<le> CHR ''z'') \<or> (CHR ''A'' \<le> c \<and> c \<le> CHR ''Z'') \<or> c = CHR ''_''"

definition after :: "string \<Rightarrow> string \<Rightarrow> string list" where
  "after p s = (if has_prefix s p then [drop (length p) s] else [])"

definition after_spaces :: "string \<Rightarrow> string list" where
  "after_spaces s = (if s \<noteq> [] \<and> regex_space (hd s) then [dropWhile regex_space s] else [])"

definition after_env :: "string \<Rightarrow> string list" where
  "after_env s = s # concat (map (\<lambda>t. t # concat (map after_spaces (after ''-S'' t)))
     (concat (map after_spaces (after ''/usr/bin/env'' s))))"

definition after_bin :: "string \<Rightarrow> string list" where
  "after_bin s = s # after ''/usr/bin/'' s @ after ''/usr/local/bin/'' s"

definition python_word :: "string \<Rightarrow> bool" where
  "python_word s \<longleftrightarrow> (let r = dropWhile is_digit s in r = [] \<or> \<not> word_char (hd r))"

definition has_python_shebang :: "string \<Rightarrow> bool" where
  "has_python_shebang data =
     list_ex (\<lambda>s. list_ex python_word (concat (map (after ''python'') (concat (map after_bin (after_env s))))))
       (map (dropWhile regex_space) (after ''#!'' (trim_space (takeWhile (\<lambda>c. c \<noteq> CHR 0x0A) data))))"

definition supports :: "source_file \<Rightarrow> string \<Rightarrow> string \<Rightarrow> string \<Rightarrow> bool" where
  "supports f ext base kind =
     (let k = to_lower (trim_prefix kind ''.'') in
      if k = ''*'' then True
      else if k = ''text'' then is_text f
      else if k = ''markdown'' then ext = ''md'' \<or> ext = ''markdown''
      else ext = k \<or> base = k \<or> has_suffix base k)"

definition analyzer_applies :: "analyzer_meta \<Rightarrow> source_file \<Rightarrow> bool" where
  "analyzer_applies m f =
     (let e = to_lower (extension (sf_path f)); ext = (if e = [] \<and> has_python_shebang (sf_data f) then ''py'' else e);
          base = snd (path_split (to_lower (sf_path f))) in
      list_ex (supports f ext base) (am_supported m))"

section \<open>Budgets\<close>

record analysis_budget =
  ab_raw :: int
  ab_expanded :: int
  ab_findings :: int
  ab_events :: int
  ab_views :: int
  ab_depth :: int
  ab_bytes :: int
  ab_wall :: duration

definition default_budget :: analysis_budget where
  "default_budget = \<lparr>ab_raw = 100 * 2 ^ 20, ab_expanded = 150 * 2 ^ 20, ab_findings = 10000, ab_events = 200000,
     ab_views = 64, ab_depth = 3, ab_bytes = 16 * 2 ^ 20, ab_wall = 120000000000\<rparr>"

text \<open>Zero in one of the three later dimensions means unspecified.\<close>

definition effective_budget :: "analysis_budget option \<Rightarrow> analysis_budget" where
  "effective_budget ob = (case ob of
      None \<Rightarrow> default_budget
    | Some b \<Rightarrow> b\<lparr>ab_views := (if ab_views b = 0 then ab_views default_budget else ab_views b),
        ab_depth := (if ab_depth b = 0 then ab_depth default_budget else ab_depth b),
        ab_bytes := (if ab_bytes b = 0 then ab_bytes default_budget else ab_bytes b)\<rparr>)"

record derived_summary =
  dsm_views :: "view list"
  dsm_complete :: bool
  dsm_bytes :: int
  dsm_depth :: nat
  dsm_exceeded :: "string list"
  dsm_limitations :: "string list"

definition derived_summary_of :: "derived_result \<Rightarrow> derived_summary" where
  "derived_summary_of r = \<lparr>dsm_views = dr_views r, dsm_complete = dr_complete r, dsm_bytes = dr_bytes r,
     dsm_depth = dr_max_depth r, dsm_exceeded = dr_exceeded r, dsm_limitations = derived_result.dr_limitations r\<rparr>"

definition byte_count :: "bool \<Rightarrow> source_file list \<Rightarrow> int" where
  "byte_count expanded files = (\<Sum>f\<leftarrow>files. if (0 < sf_container_depth f) = expanded then int (length (sf_data f)) else 0)"

definition over :: "string \<Rightarrow> budget_dimension \<Rightarrow> string list" where
  "over name d = (if 0 < snd d \<and> snd d < fst d then [name] else [])"

definition over_new :: "string list \<Rightarrow> string \<Rightarrow> budget_dimension \<Rightarrow> string list" where
  "over_new seen name d = (if name \<in> set seen then [] else over name d)"

definition milliseconds :: "duration \<Rightarrow> int" where
  "milliseconds d = (if d < 0 then - ((- d) div 1000000) else d div 1000000)"

definition compute_budget_usage ::
  "source_file list \<Rightarrow> analysis_budget \<Rightarrow> int \<Rightarrow> int \<Rightarrow> derived_summary option \<Rightarrow> duration \<Rightarrow> bool \<Rightarrow> budget_usage" where
  "compute_budget_usage files b findings events derived elapsed wall =
     (let raw = (byte_count False files, ab_raw b); expanded = (byte_count True files, ab_expanded b);
          fs = (findings, ab_findings b); es = (events, ab_events b);
          views = (case derived of None \<Rightarrow> 0 | Some d \<Rightarrow> int (length (dsm_views d)), ab_views b);
          depth = (case derived of None \<Rightarrow> 0 | Some d \<Rightarrow> int (dsm_depth d), ab_depth b);
          bytes = (case derived of None \<Rightarrow> 0 | Some d \<Rightarrow> dsm_bytes d, ab_bytes b);
          x0 = (case derived of None \<Rightarrow> [] | Some d \<Rightarrow> dsm_exceeded d) @ over ''raw_bytes'' raw @
            over ''expanded_bytes'' expanded @ over ''findings'' fs @ over ''inspection_events'' es;
          x1 = x0 @ over_new x0 ''derived_views'' views;
          x2 = x1 @ over_new x1 ''derived_depth'' depth;
          x3 = x2 @ over_new x2 ''derived_bytes'' bytes in
      \<lparr>bu_raw = raw, bu_expanded = expanded, bu_findings = fs, bu_events = es, bu_views = views, bu_depth = depth,
       bu_bytes = bytes, bu_wall = (milliseconds elapsed, milliseconds (ab_wall b)),
       bu_exceeded = sort_strings (x3 @ (if wall then [''wall_time''] else []))\<rparr>)"

section \<open>The state of a scan\<close>

record scan_env =
  se_crypto :: crypto
  se_float :: float_ops
  se_prose :: "string \<Rightarrow> prose"
  se_native :: "string list"
  se_transformers :: "transformer list"
  se_caller_done :: "nat \<Rightarrow> bool"
  se_elapsed :: "nat \<Rightarrow> duration"
  se_dependencies :: "source_file list \<Rightarrow> capability_observation list \<Rightarrow> string option"
  se_classify :: "source_file \<Rightarrow> source_file list \<Rightarrow> analyzability_record"

record scan_input =
  si_artifact :: artifact
  si_files :: "source_file list"
  si_load_diagnostics :: "diagnostic list"
  si_contract :: bool
  si_domains :: "string list"
  si_budget :: "analysis_budget option"

record scan_state =
  ss_findings :: "finding list"
  ss_observations :: "capability_observation list"
  ss_diagnostics :: "diagnostic list"
  ss_coverage :: coverage
  ss_items :: "work_item list"
  ss_derived :: "derived_summary option"
  ss_tick :: nat
  ss_stopped :: bool

datatype scan_error = AnalyzerFailed string string | UnpublishedRule string string | DependenciesFailed string

text \<open>The two contexts: the budget's is done with the caller's or when its time is up.\<close>

definition budget_done :: "scan_env \<Rightarrow> analysis_budget \<Rightarrow> nat \<Rightarrow> bool" where
  "budget_done env b i \<longleftrightarrow> se_caller_done env i \<or> ab_wall b \<le> se_elapsed env i"

definition wall_time_over :: "scan_env \<Rightarrow> analysis_budget \<Rightarrow> nat \<Rightarrow> bool" where
  "wall_time_over env b i \<longleftrightarrow> \<not> se_caller_done env i \<and> budget_done env b (i + 1)"

definition warn :: "string \<Rightarrow> string \<Rightarrow> diagnostic" where
  "warn component message = \<lparr>dg_component = component, dg_level = ''warning'', dg_message = message\<rparr>"

definition degrade_derived :: "string \<Rightarrow> scan_state \<Rightarrow> scan_state" where
  "degrade_derived l s =
     s\<lparr>ss_coverage := AList.update ''derived-views'' CoverageDegraded (ss_coverage s),
       ss_diagnostics := ss_diagnostics s @ [warn ''derived-views'' l],
       ss_derived := map_option (\<lambda>d. d\<lparr>dsm_complete := False,
         dsm_limitations := (if l \<in> set (dsm_limitations d) then dsm_limitations d
           else sort_strings (dsm_limitations d @ [l]))\<rparr>) (ss_derived s)\<rparr>"

section \<open>Findings in derived views\<close>

fun line_start :: "string \<Rightarrow> int \<Rightarrow> int \<Rightarrow> nat \<Rightarrow> nat option" where
  "line_start [] line target i = None"
| "line_start (c # cs) line target i =
     (if line = target then Some i
      else line_start cs (if c = CHR 0x0A then line + 1 else line) target (i + 1))"

fun line_stop :: "string \<Rightarrow> int \<Rightarrow> int \<Rightarrow> nat \<Rightarrow> nat option" where
  "line_stop [] line last_line i = None"
| "line_stop (c # cs) line last_line i =
     (if c = CHR 0x0A then (if last_line \<le> line then Some i else line_stop cs (line + 1) last_line (i + 1))
      else line_stop cs line last_line (i + 1))"

definition line_byte_range :: "string \<Rightarrow> int \<Rightarrow> int \<Rightarrow> nat \<times> nat" where
  "line_byte_range data start_line end_line0 =
     (if start_line \<le> 0 then (0, length data)
      else
        (let end_line = (if end_line0 < start_line then start_line else end_line0);
             start = (case line_start data 1 start_line 0 of None \<Rightarrow> 0 | Some i \<Rightarrow> i);
             stop = (case line_stop (drop start data) start_line end_line start of None \<Rightarrow> length data | Some i \<Rightarrow> i) in
         (start, if stop \<le> start then min (length data) (start + 1) else stop)))"

definition line_for_offset :: "string \<Rightarrow> nat \<Rightarrow> int" where
  "line_for_offset data offset = 1 + int (length (filter (\<lambda>c. c = CHR 0x0A) (take offset data)))"

definition step_json :: "transformation_step \<Rightarrow> json" where
  "step_json t = JObj ([(''kind'', JStr (ts_kind t)), (''input_start'', JNum (dec_nat (fst (ts_input t)))),
     (''input_end'', JNum (dec_nat (snd (ts_input t)))), (''output_start'', JNum (dec_nat (fst (ts_output t)))),
     (''output_end'', JNum (dec_nat (snd (ts_output t)))), (''original_start'', JNum (dec_nat (fst (ts_original t)))),
     (''original_end'', JNum (dec_nat (snd (ts_original t))))] @ omit_str ''detail'' (ts_detail t))"

definition view_evidence :: "view \<Rightarrow> span \<Rightarrow> evidence_map \<Rightarrow> evidence_map" where
  "view_evidence v sp ev = ev(''derived_view_id'' \<mapsto> JStr (vw_id v), ''derived_view_digest'' \<mapsto> JStr (vw_digest v),
     ''derived_source_digest'' \<mapsto> JStr (vw_source_digest v),
     ''derived_transformations'' \<mapsto> JArr (map step_json (vw_steps v)),
     ''original_start_offset'' \<mapsto> JNum (dec_nat (fst sp)), ''original_end_offset'' \<mapsto> JNum (dec_nat (snd sp)))"

definition original_location :: "source_file \<Rightarrow> span \<Rightarrow> location \<Rightarrow> location" where
  "original_location orig sp l = l\<lparr>loc_start := line_for_offset (sf_data orig) (fst sp),
     loc_end := line_for_offset (sf_data orig) (max (fst sp) (snd sp - 1))\<rparr>"

definition changed_span :: "view \<Rightarrow> location \<Rightarrow> span option" where
  "changed_span v l =
     (let (start, stop) = line_byte_range (vw_data v) (loc_start l) (loc_end l) in
      case original_span v (int start) (int stop) of Some (sp, True) \<Rightarrow> Some sp | _ \<Rightarrow> None)"

definition annotate_finding :: "crypto \<Rightarrow> source_file \<Rightarrow> view \<Rightarrow> finding \<Rightarrow> finding option" where
  "annotate_finding cr orig v f = map_option (\<lambda>sp.
     (let fp = fingerprint cr [fi_fingerprint f, vw_id v, dec_nat (fst sp), dec_nat (snd sp)] in
      f\<lparr>fi_evidence := (view_evidence v sp (fi_evidence f))
          (''derived_start_line'' \<mapsto> JNum (dec_int (loc_start (fi_location f))),
           ''derived_end_line'' \<mapsto> JNum (dec_int (loc_end (fi_location f)))),
        fi_location := original_location orig sp (fi_location f), fi_fingerprint := fp, fi_id := finding_id fp\<rparr>))
     (changed_span v (fi_location f))"

definition annotate_observation :: "source_file \<Rightarrow> view \<Rightarrow> capability_observation \<Rightarrow> capability_observation option" where
  "annotate_observation orig v obs = map_option (\<lambda>sp.
     obs\<lparr>co_evidence := view_evidence v sp (co_evidence obs),
       co_location := original_location orig sp (co_location obs)\<rparr>) (changed_span v (co_location obs))"

definition unpublished :: "string list \<Rightarrow> finding \<Rightarrow> bool" where
  "unpublished native f \<longleftrightarrow> has_prefix (fi_rule_id f) ''SKIL-'' \<and> \<not> native_rule_known native (fi_rule_id f)"

definition view_findings :: "scan_env \<Rightarrow> source_file \<Rightarrow> view \<Rightarrow> finding list \<Rightarrow> finding list" where
  "view_findings env orig v fs = List.map_filter (\<lambda>f.
     if loc_file (fi_location f) \<noteq> sf_path orig \<or> unpublished (se_native env) f then None
     else annotate_finding (se_crypto env) orig v f) fs"

definition view_observations :: "source_file \<Rightarrow> view \<Rightarrow> capability_observation list \<Rightarrow> capability_observation list" where
  "view_observations orig v xs = List.map_filter (\<lambda>x.
     if loc_file (co_location x) \<noteq> sf_path orig then None else annotate_observation orig v x) xs"

definition degraded_state :: "string \<Rightarrow> bool" where
  "degraded_state st \<longleftrightarrow> st = CoverageDegraded \<or> st = CoverageNotAvailable"

definition analyze_view :: "scan_env \<Rightarrow> analyzer \<Rightarrow> source_file \<Rightarrow> view \<Rightarrow> scan_state \<Rightarrow> scan_state" where
  "analyze_view env a orig v s =
     (let meta = az_meta a;
          item = \<lparr>wi_analyzer = am_id meta, wi_version = am_version meta, wi_file = sf_path orig @ ''#'' @ vw_id v,
            wi_outcome = InspectionCompleted, wi_reason = ''derived security view'', wi_findings = 0\<rparr>;
          (err, r) = invoke_analyzer a (ss_tick s) [orig\<lparr>sf_data := vw_data v, sf_sha256 := vw_digest v\<rparr>];
          s0 = s\<lparr>ss_tick := ss_tick s + 1\<rparr> in
      case err of
        Some e \<Rightarrow> degrade_derived (sf_path orig @ '': '' @ am_id meta @ '' could not analyze '' @ vw_id v @ '': '' @ e)
          (s0\<lparr>ss_items := ss_items s0 @ [item\<lparr>wi_outcome := InspectionFailed,
             wi_reason := ''derived security view: '' @ e\<rparr>]\<rparr>)
      | None \<Rightarrow>
          (let s1 = fold (\<lambda>st t. if degraded_state st
                 then degrade_derived (sf_path orig @ '': '' @ am_id meta @ '' reported degraded derived-view coverage'') t else t)
                 (map snd (ao_coverage r)) s0;
               found = view_findings env orig v (ao_findings r) in
           s1\<lparr>ss_diagnostics := ss_diagnostics s1 @ map (\<lambda>d. d\<lparr>dg_component := ''derived-views/'' @ dg_component d,
                dg_message := vw_id v @ '': '' @ dg_message d\<rparr>) (ao_diagnostics r),
              ss_findings := ss_findings s1 @ found,
              ss_observations := ss_observations s1 @ view_observations orig v (ao_observations r),
              ss_items := ss_items s1 @ [item\<lparr>wi_findings := int (length found)\<rparr>]\<rparr>))"

definition add_exceeded_events :: "scan_state \<Rightarrow> scan_state" where
  "add_exceeded_events s = s\<lparr>ss_derived := map_option (\<lambda>d.
     if ''inspection_events'' \<in> set (dsm_exceeded d) then d
     else d\<lparr>dsm_exceeded := dsm_exceeded d @ [''inspection_events'']\<rparr>) (ss_derived s)\<rparr>"

fun analyze_views ::
  "scan_env \<Rightarrow> analysis_budget \<Rightarrow> source_file list \<Rightarrow> analyzer \<Rightarrow> view list \<Rightarrow> scan_state \<Rightarrow> scan_state" where
  "analyze_views env b files a [] s = s"
| "analyze_views env b files a (v # vs) s =
     (let t = s\<lparr>ss_tick := ss_tick s + 1\<rparr> in
      if budget_done env b (ss_tick s) then degrade_derived (vw_path v @ '': derived analyzer execution cancelled'') t
      else
        (case map_of (rev (map (\<lambda>f. (sf_path f, f)) files)) (vw_path v) of
           None \<Rightarrow> analyze_views env b files a vs
             (degrade_derived (vw_path v @ '': original source for derived view is unavailable'') t)
         | Some orig \<Rightarrow>
             if \<not> analyzer_applies (az_meta a) (orig\<lparr>sf_data := vw_data v, sf_sha256 := vw_digest v\<rparr>)
             then analyze_views env b files a vs t
             else if 0 < ab_events b \<and> ab_events b \<le> int (length (ss_items t))
             then add_exceeded_events (degrade_derived ''derived analyzer inspection budget exhausted'' t)
             else analyze_views env b files a vs (analyze_view env a orig v t)))"

definition analyze_derived_views ::
  "scan_env \<Rightarrow> analysis_budget \<Rightarrow> source_file list \<Rightarrow> view list \<Rightarrow> analyzer \<Rightarrow> scan_state \<Rightarrow> scan_state" where
  "analyze_derived_views env b files views a s =
     (if am_id (az_meta a) = ''builtin.obfuscation'' \<or> ''semantic-provider'' \<in> set (am_types (az_meta a)) then s
      else analyze_views env b files a views s)"

section \<open>One analyzer\<close>

definition plan_item :: "analyzer_meta \<Rightarrow> source_file \<Rightarrow> work_item" where
  "plan_item m f = (let item = \<lparr>wi_analyzer = am_id m, wi_version = am_version m, wi_file = sf_path f,
       wi_outcome = InspectionOutOfScope, wi_reason = ''file type is outside analyzer scope'', wi_findings = 0\<rparr> in
     if analyzer_applies m f then item\<lparr>wi_outcome := InspectionCompleted, wi_reason := []\<rparr> else item)"

definition skip_item :: "analyzer_meta \<Rightarrow> string \<Rightarrow> string \<Rightarrow> work_item" where
  "skip_item m file reason = \<lparr>wi_analyzer = am_id m, wi_version = am_version m, wi_file = file,
     wi_outcome = InspectionSkipped, wi_reason = reason, wi_findings = 0\<rparr>"

definition revise_completed :: "nat \<Rightarrow> inspection_outcome \<Rightarrow> string \<Rightarrow> work_item list \<Rightarrow> work_item list" where
  "revise_completed start x reason items = take start items @
     map (\<lambda>i. if wi_outcome i = InspectionCompleted then i\<lparr>wi_outcome := x, wi_reason := reason\<rparr> else i) (drop start items)"

definition count_findings :: "nat \<Rightarrow> finding list \<Rightarrow> work_item list \<Rightarrow> work_item list" where
  "count_findings start fs items = take start items @
     map (\<lambda>i. i\<lparr>wi_findings := wi_findings i +
       int (length (filter (\<lambda>f. loc_file (fi_location f) = wi_file i) fs))\<rparr>) (drop start items)"

definition mark_types :: "analyzer_meta \<Rightarrow> coverage \<Rightarrow> coverage \<Rightarrow> coverage" where
  "mark_types m override cov =
     fold (\<lambda>(k, st). AList.update k st) override (fold (\<lambda>k. AList.update k CoverageCompleted) (am_types m) cov)"

definition mark_domain :: "string list \<Rightarrow> analyzer_meta \<Rightarrow> coverage \<Rightarrow> coverage" where
  "mark_domain domains m cov =
     (if domains \<noteq> [] \<and> am_domain m \<noteq> [] \<and> am_domain m \<in> set domains
      then AList.update (''domain:'' @ am_domain m) CoverageCompleted cov else cov)"

text \<open>The results of a successful call enter the state, and the analyzer sees the derived views.\<close>

definition commit_analysis ::
  "scan_env \<Rightarrow> scan_input \<Rightarrow> analysis_budget \<Rightarrow> view list \<Rightarrow> analyzer \<Rightarrow> nat \<Rightarrow> analysis \<Rightarrow> scan_state \<Rightarrow> scan_state" where
  "commit_analysis env inp b views a start r s =
     (let s1 = s\<lparr>ss_findings := ss_findings s @ ao_findings r, ss_observations := ss_observations s @ ao_observations r,
            ss_diagnostics := ss_diagnostics s @ ao_diagnostics r\<rparr>;
          s2 = analyze_derived_views env b (si_files inp) views a s1;
          s3 = s2\<lparr>ss_diagnostics := ss_diagnostics s2 @ (case az_diagnostics a of None \<Rightarrow> [] | Some f \<Rightarrow> f (ss_tick s2))\<rparr> in
      s3\<lparr>ss_items := count_findings start (ao_findings r) (ss_items s3),
         ss_coverage := mark_domain (si_domains inp) (az_meta a) (mark_types (az_meta a) (ao_coverage r) (ss_coverage s3))\<rparr>)"

definition run_analyzer ::
  "scan_env \<Rightarrow> scan_input \<Rightarrow> analysis_budget \<Rightarrow> view list \<Rightarrow> analyzer \<Rightarrow> scan_state \<Rightarrow> scan_state \<times> scan_error option" where
  "run_analyzer env inp b views a s =
     (let m = az_meta a; start = length (ss_items s);
          (err, r) = invoke_analyzer a (ss_tick s) (si_files inp);
          s1 = s\<lparr>ss_items := ss_items s @ map (plan_item m) (si_files inp), ss_tick := ss_tick s + 1\<rparr> in
      case err of
        Some e \<Rightarrow>
          (let s2 = s1\<lparr>ss_tick := ss_tick s1 + 2\<rparr> in
           if wall_time_over env b (ss_tick s1)
           then (s2\<lparr>ss_items := revise_completed start InspectionSkipped
              ''analysis budget: wall-time limit exceeded mid-analysis'' (ss_items s2)\<rparr>, None)
           else (s2\<lparr>ss_items := revise_completed start InspectionFailed e (ss_items s2)\<rparr>, Some (AnalyzerFailed (am_id m) e)))
      | None \<Rightarrow>
          (case find (unpublished (se_native env)) (ao_findings r) of
             Some f \<Rightarrow> (s1, Some (UnpublishedRule (am_id m) (fi_rule_id f)))
           | None \<Rightarrow> (commit_analysis env inp b views a start r s1, None)))"

section \<open>All analyzers\<close>

definition events_full :: "analysis_budget \<Rightarrow> scan_state \<Rightarrow> bool" where
  "events_full b s \<longleftrightarrow> 0 < ab_events b \<and> ab_events b \<le> int (length (ss_items s))"

definition stop_scan :: "analyzer_meta \<Rightarrow> string \<Rightarrow> bool \<Rightarrow> scan_state \<Rightarrow> scan_state" where
  "stop_scan m reason stopped s = s\<lparr>ss_items := ss_items s @ [skip_item m ''*'' reason], ss_stopped := stopped\<rparr>"

definition outside_domains :: "scan_input \<Rightarrow> analyzer_meta \<Rightarrow> bool" where
  "outside_domains inp m \<longleftrightarrow> si_domains inp \<noteq> [] \<and> am_domain m \<noteq> [] \<and> am_domain m \<notin> set (si_domains inp)"

fun run_analyzers ::
  "scan_env \<Rightarrow> scan_input \<Rightarrow> analysis_budget \<Rightarrow> view list \<Rightarrow> analyzer list \<Rightarrow> scan_state \<Rightarrow> scan_state \<times> scan_error option" where
  "run_analyzers env inp b views [] s = (s, None)"
| "run_analyzers env inp b views (a # as) s =
     (let m = az_meta a in
      if 0 < ab_findings b \<and> ab_findings b < int (length (ss_findings s)) \<or> events_full b s
      then (stop_scan m ''analysis budget exhausted before analyzer start'' (events_full b s) s, None)
      else if 0 < ab_events b \<and> ab_events b < int (length (ss_items s)) + int (length (si_files inp))
      then (stop_scan m ''analysis budget: inspection event limit would be exceeded'' True s, None)
      else if outside_domains inp m then run_analyzers env inp b views as s
      else
        (let t = s\<lparr>ss_tick := ss_tick s + 2\<rparr> in
         if wall_time_over env b (ss_tick s)
         then run_analyzers env inp b views as (t\<lparr>ss_items := ss_items t @
            map (\<lambda>f. skip_item m (sf_path f) ''analysis budget: wall-time limit exceeded'') (si_files inp)\<rparr>)
         else
           (case run_analyzer env inp b views a t of
              (u, Some e) \<Rightarrow> (u, Some e)
            | (u, None) \<Rightarrow> run_analyzers env inp b views as u)))"

section \<open>The scan\<close>

record scan_report = inspected_scan +
  rep_items :: "work_item list"
  rep_summary :: inspection_summary
  rep_diagnostics :: "diagnostic list"
  rep_derived :: "derived_summary option"
  rep_usage :: budget_usage
  rep_assurance :: "assurance_report option"

text \<open>What \<open>Scan\<close> returns from a state: with an empty summary, usage and status where it returns early.\<close>

definition report_of :: "scan_input \<Rightarrow> scan_state \<Rightarrow> scan_report" where
  "report_of inp s = \<lparr>scan_artifact = si_artifact inp, scan_status = [], scan_verdict = [], scan_risk_score = 0,
     scan_maximum = [], scan_findings = ss_findings s, scan_observations = ss_observations s,
     scan_coverage = ss_coverage s, scan_scanners = [''skil''], scan_completeness = Finite 0,
     scan_analyzability = [], scan_analyzable = Finite 0, scan_exceeded = [], scan_closure = None,
     is_total = 0, is_failed = 0, is_skipped = 0, rep_items = ss_items s, rep_summary = zero_summary 0,
     rep_diagnostics = ss_diagnostics s, rep_derived = ss_derived s, rep_usage = zero_usage, rep_assurance = None\<rparr>"

definition assessed :: "scan_env \<Rightarrow> scan_report \<Rightarrow> scan_report" where
  "assessed env r = r\<lparr>rep_assurance := Some (assess_scan (se_crypto env) (artifact_subject_digest (scan_artifact r))
     (rep_items r) (rep_usage r) False (scan_closure r))\<rparr>"

definition with_summary :: "scan_env \<Rightarrow> scan_report \<Rightarrow> scan_report" where
  "with_summary env r = (let m = summarize_inspection (se_float env) (rep_items r) in
     r\<lparr>rep_summary := m, scan_completeness := im_completeness m, is_total := im_total m, is_failed := im_failed m,
       is_skipped := im_skipped m\<rparr>)"

definition analyzable_coverage :: "float_ops \<Rightarrow> analyzability_record list \<Rightarrow> float64" where
  "analyzable_coverage fo rs =
     (let n = (\<lambda>st. Finite (of_nat (length (filter (\<lambda>r. an_state r = st) rs)))) in
      if rs = [] then Finite 1
      else fo_div fo (fo_add fo (n ''full'') (fo_mul fo (Finite (1 / 2)) (n ''partial''))) (Finite (of_nat (length rs))))"

definition finding_order :: "finding \<Rightarrow> string \<times> int \<times> string" where
  "finding_order f = (loc_file (fi_location f), loc_start (fi_location f), fi_rule_id f)"

definition with_budget :: "budget_usage \<Rightarrow> scan_report \<Rightarrow> scan_report" where
  "with_budget u r =
     (let r1 = r\<lparr>rep_usage := u, scan_exceeded := bu_exceeded u\<rparr> in
      if bu_exceeded u = [] then r1
      else r1\<lparr>scan_coverage := AList.update ''analysis-budget'' CoverageDegraded (scan_coverage r1),
        scan_status := (if scan_status r1 = StatusPass then StatusWarn else scan_status r1),
        rep_diagnostics := rep_diagnostics r1 @ [warn ''analysis-budget''
          (''scan exceeded its analysis budget in: '' @ join (bu_exceeded u) '', '')]\<rparr>)"

text \<open>The end of a scan: derived findings, risk, budget and assessment.\<close>

definition final_findings :: "scan_env \<Rightarrow> scan_input \<Rightarrow> scan_state \<Rightarrow> finding list" where
  "final_findings env inp s =
     (let fs = ss_findings s @ (if si_contract inp then []
            else (case missing_capability_declaration (se_crypto env) (se_prose env) (ss_findings s) of
                    None \<Rightarrow> [] | Some f \<Rightarrow> [f])) in
      fs @ correlate_threat_chains (se_crypto env) (se_prose env) fs (ss_observations s))"

definition final_usage :: "scan_env \<Rightarrow> scan_input \<Rightarrow> analysis_budget \<Rightarrow> finding list \<Rightarrow> scan_state \<Rightarrow> budget_usage" where
  "final_usage env inp b fs s =
     (let i = ss_tick s;
          wall = (wall_time_over env b i \<or> 0 < ab_wall b \<and> ab_wall b \<le> se_elapsed env (i + 2) \<or> ab_wall b \<le> 0);
          u = compute_budget_usage (si_files inp) b (int (length fs)) (int (length (ss_items s))) (ss_derived s)
            (se_elapsed env (i + 3)) wall in
      if ss_stopped s \<and> ''inspection_events'' \<notin> set (bu_exceeded u)
      then u\<lparr>bu_exceeded := bu_exceeded u @ [''inspection_events'']\<rparr> else u)"

definition finish_scan ::
  "scan_env \<Rightarrow> scan_input \<Rightarrow> analysis_budget \<Rightarrow> scan_state \<Rightarrow> scan_report \<times> scan_error option" where
  "finish_scan env inp b s =
     (let fs = final_findings env inp s; r0 = (report_of inp s)\<lparr>scan_findings := fs\<rparr> in
      case se_dependencies env (si_files inp) (ss_observations s) of
        Some e \<Rightarrow> (assessed env r0, Some (DependenciesFailed e))
      | None \<Rightarrow>
          (let ledger = map (\<lambda>f. se_classify env f (si_files inp)) (si_files inp); sorted = sort_key finding_order fs;
               (m, score, status) = risk (se_float env) sorted (ss_coverage s);
               r1 = (with_summary env r0)\<lparr>scan_analyzability := ledger,
                 scan_analyzable := analyzable_coverage (se_float env) ledger,
                 scan_findings := sorted, scan_maximum := m, scan_risk_score := score, scan_status := status\<rparr> in
           (assessed env (with_budget (final_usage env inp b fs s) r1), None)))"

definition start_state :: "scan_env \<Rightarrow> scan_input \<Rightarrow> analyzer list \<Rightarrow> derived_result \<Rightarrow> scan_state" where
  "start_state env inp as d =
     (let cov0 = (if dr_complete d then initial_coverage
            else AList.update ''derived-views'' CoverageDegraded initial_coverage);
          cov = (if si_domains inp = [] then cov0
            else fold (\<lambda>x. AList.update (''domain:'' @ x) CoverageNotRequested)
              (filter (\<lambda>x. x \<in> set (si_domains inp)) (registry_domains as)) cov0) in
      \<lparr>ss_findings = [], ss_observations = [],
       ss_diagnostics = si_load_diagnostics inp @ (if dr_complete d then []
         else map (warn ''derived-views'') (derived_result.dr_limitations d)),
       ss_coverage = cov, ss_items = [], ss_derived = Some (derived_summary_of d), ss_tick = dr_polls d + 1, ss_stopped = False\<rparr>)"

definition derived_of :: "scan_env \<Rightarrow> scan_input \<Rightarrow> analysis_budget \<Rightarrow> derived_result" where
  "derived_of env inp b = build_views \<lparr>bv_crypto = se_crypto env,
     bv_budget = \<lparr>db_views = ab_views b, db_depth = ab_depth b, db_bytes = ab_bytes b\<rparr>,
     bv_transformers = se_transformers env, bv_cancelled = (\<lambda>i. budget_done env b (i + 1))\<rparr> (si_files inp)"

definition preflight :: "scan_env \<Rightarrow> scan_input \<Rightarrow> analysis_budget \<Rightarrow> budget_usage" where
  "preflight env inp b = compute_budget_usage (si_files inp) b 0 0 None (se_elapsed env 0) False"

definition refused_scan :: "scan_env \<Rightarrow> scan_input \<Rightarrow> budget_usage \<Rightarrow> scan_report" where
  "refused_scan env inp u =
     (let s = \<lparr>ss_findings = [], ss_observations = [], ss_diagnostics = [warn ''analysis-budget''
            (''analysis not started because the artifact exceeds: '' @ join (bu_exceeded u) '', '')],
          ss_coverage = AList.update ''analysis-budget'' CoverageDegraded initial_coverage, ss_items = [],
          ss_derived = None, ss_tick = 1, ss_stopped = False\<rparr> in
      assessed env ((report_of inp s)\<lparr>rep_usage := u, scan_exceeded := bu_exceeded u, scan_status := StatusWarn\<rparr>))"

definition scan :: "scan_env \<Rightarrow> analyzer list \<Rightarrow> scan_input \<Rightarrow> scan_report \<times> scan_error option" where
  "scan env as inp =
     (let b = effective_budget (si_budget inp); u = preflight env inp b in
      if bu_exceeded u \<noteq> [] then (refused_scan env inp u, None)
      else
        (let d = derived_of env inp b in
         case run_analyzers env inp b (dr_views d) as (start_state env inp as d) of
           (s, Some (AnalyzerFailed i e)) \<Rightarrow> (assessed env (with_summary env (report_of inp s)), Some (AnalyzerFailed i e))
         | (s, Some err) \<Rightarrow> (report_of inp s, Some err)
         | (s, None) \<Rightarrow> finish_scan env inp b s))"

end
