(* ===== verification/Scan_Props.thy ===== *)
theory Scan_Props
  imports Scan_Engine Derived_Search
begin

text \<open>
  Properties of the scan engine: the risk of a list of findings, where the findings of a scan come from, and
  what a CLEAR verdict guarantees about the work that was done.
\<close>

section \<open>Risk\<close>

definition live_ranks :: "finding list \<Rightarrow> int list" where
  "live_ranks fs = map (\<lambda>f. SeverityRank (fi_severity f)) (filter (\<lambda>f. \<not> fi_suppressed f) fs)"

lemma score_fold_max:
  "SeverityRank (fst (fold (score_finding fo) fs (m, x))) = fold max (live_ranks fs) (SeverityRank m) \<and>
   fst (fold (score_finding fo) fs (m, x)) \<in> insert m (fi_severity ` set (filter (\<lambda>f. \<not> fi_suppressed f) fs))"
proof (induction fs arbitrary: m x)
  case (Cons f fs)
  show ?case
  proof (cases "fi_suppressed f")
    case True
    then show ?thesis using Cons by (simp add: score_finding_def live_ranks_def)
  next
    case False
    then obtain y where y: "score_finding fo f (m, x) =
        (if SeverityRank m < SeverityRank (fi_severity f) then fi_severity f else m, y)"
      by (simp add: score_finding_def Let_def)
    show ?thesis using Cons [of "if SeverityRank m < SeverityRank (fi_severity f) then fi_severity f else m" y] False
      by (auto simp: y live_ranks_def max_def)
  qed
qed (simp add: live_ranks_def)

lemma risk_fst: "fst (risk fo fs cov) = fst (fold (score_finding fo) fs (SeverityInfo, Finite 0))"
  and risk_status: "snd (snd (risk fo fs cov)) = status_of (fst (risk fo fs cov))"
  by (simp_all add: risk_def Let_def split: prod.split)

lemma rank_info [simp]: "SeverityRank SeverityInfo = 0"
  by (simp add: SeverityRank_def severity_defs)

lemma fold_max_ge: "(m::int) \<le> fold max xs m \<and> (\<forall>x\<in>set xs. x \<le> fold max xs m)"
proof (induction xs arbitrary: m)
  case (Cons y ys)
  from Cons [of "max y m"] show ?case by auto
qed simp

lemma risk_rank: "SeverityRank (fst (risk fo fs cov)) = fold max (live_ranks fs) 0"
  using score_fold_max [of fo fs SeverityInfo "Finite 0"] by (simp add: risk_fst)

lemma risk_rank_bound: "f \<in> set fs \<Longrightarrow> \<not> fi_suppressed f \<Longrightarrow> SeverityRank (fi_severity f) \<le> SeverityRank (fst (risk fo fs cov))"
  using fold_max_ge [of 0 "live_ranks fs"] unfolding risk_rank by (simp add: live_ranks_def)

text \<open>
  The maximum reported for a list of findings is a severity that occurs among the unsuppressed ones, or
  INFO, and it has the highest rank of them; the status is FAIL from HIGH on, WARN for MEDIUM and PASS below,
  whatever the floating-point score.
\<close>

theorem risk_is_maximum:
  "SeverityRank (fst (risk fo fs cov)) = fold max (live_ranks fs) 0 \<and>
   fst (risk fo fs cov) \<in> insert SeverityInfo (fi_severity ` set (filter (\<lambda>f. \<not> fi_suppressed f) fs)) \<and>
   snd (snd (risk fo fs cov)) = (if 3 \<le> fold max (live_ranks fs) 0 then StatusFail
     else if 2 \<le> fold max (live_ranks fs) 0 then StatusWarn else StatusPass)"
proof -
  let ?m = "fst (risk fo fs cov)"
  have m: "?m \<in> insert SeverityInfo (fi_severity ` set (filter (\<lambda>f. \<not> fi_suppressed f) fs))"
    using score_fold_max [of fo fs SeverityInfo "Finite 0"] by (simp add: risk_fst)
  have st: "snd (snd (risk fo fs cov)) = status_of ?m" by (rule risk_status)
  have "status_of ?m = (if 3 \<le> SeverityRank ?m then StatusFail else if 2 \<le> SeverityRank ?m then StatusWarn else StatusPass)"
    by (simp add: status_of_def SeverityRank_def severity_defs)
  with m st show ?thesis by (simp add: risk_rank)
qed

section \<open>Where findings come from\<close>

text \<open>A finding of a published rule, the advisory, or a threat chain.\<close>

definition accounted :: "scan_env \<Rightarrow> finding \<Rightarrow> bool" where
  "accounted env f \<longleftrightarrow> \<not> unpublished (se_native env) f \<or> fi_rule_id f = ''SKIL-CAP-DECLARATION-MISSING'' \<or>
     fi_rule_id f \<in> set (map (\<lambda>c. ru_id (tc_rule c)) (threat_chain_catalog (se_prose env)))"

definition all_published :: "scan_env \<Rightarrow> scan_state \<Rightarrow> bool" where
  "all_published env s \<longleftrightarrow> list_all (\<lambda>f. \<not> unpublished (se_native env) f) (ss_findings s)"

lemma degrade_derived_sel [simp]: "ss_findings (degrade_derived l s) = ss_findings s"
  "ss_items (degrade_derived l s) = ss_items s" "ss_tick (degrade_derived l s) = ss_tick s"
  "ss_stopped (degrade_derived l s) = ss_stopped s" "ss_observations (degrade_derived l s) = ss_observations s"
  by (simp_all add: degrade_derived_def)

lemma add_exceeded_events_sel [simp]: "ss_findings (add_exceeded_events s) = ss_findings s"
  "ss_items (add_exceeded_events s) = ss_items s" "ss_tick (add_exceeded_events s) = ss_tick s"
  "ss_stopped (add_exceeded_events s) = ss_stopped s" "ss_coverage (add_exceeded_events s) = ss_coverage s"
  by (simp_all add: add_exceeded_events_def)

lemma fold_degrade_sel [simp]:
  "ss_findings (fold (\<lambda>st t. if p st then degrade_derived l t else t) xs s) = ss_findings s"
  "ss_items (fold (\<lambda>st t. if p st then degrade_derived l t else t) xs s) = ss_items s"
  "ss_tick (fold (\<lambda>st t. if p st then degrade_derived l t else t) xs s) = ss_tick s"
  "ss_stopped (fold (\<lambda>st t. if p st then degrade_derived l t else t) xs s) = ss_stopped s"
  by (induction xs arbitrary: s) simp_all

lemma annotate_finding_rule: "annotate_finding cr orig v f = Some g \<Longrightarrow> fi_rule_id g = fi_rule_id f"
  by (auto simp: annotate_finding_def Let_def)

lemma unpublished_rule: "fi_rule_id g = fi_rule_id f \<Longrightarrow> unpublished native g = unpublished native f"
  by (simp add: unpublished_def)

lemma view_findings_published: "list_all (\<lambda>f. \<not> unpublished (se_native env) f) (view_findings env orig v fs)"
proof -
  have "\<not> unpublished (se_native env) g" if "g \<in> set (view_findings env orig v fs)" for g
  proof -
    from that obtain f where f: "\<not> unpublished (se_native env) f" "annotate_finding (se_crypto env) orig v f = Some g"
      unfolding view_findings_def set_map_filter by (auto split: if_splits)
    then show ?thesis using unpublished_rule [OF annotate_finding_rule [OF f(2)]] by simp
  qed
  then show ?thesis by (simp add: list_all_iff)
qed

lemma analyze_view_findings:
  "\<exists>fs. ss_findings (analyze_view env a orig v s) = ss_findings s @ fs \<and>
     list_all (\<lambda>f. \<not> unpublished (se_native env) f) fs"
proof -
  obtain err r where i: "invoke_analyzer a (ss_tick s)
      [orig\<lparr>sf_data := vw_data v, sf_sha256 := vw_digest v\<rparr>] = (err, r)" by (metis surj_pair)
  show ?thesis
  proof (cases err)
    case None
    then show ?thesis using view_findings_published by (simp add: analyze_view_def i Let_def)
  next
    case (Some e)
    then show ?thesis by (simp add: analyze_view_def i Let_def)
  qed
qed

lemma analyze_views_findings:
  "\<exists>fs. ss_findings (analyze_views env b files a vs s) = ss_findings s @ fs \<and>
     list_all (\<lambda>f. \<not> unpublished (se_native env) f) fs"
proof (induction vs arbitrary: s)
  case (Cons v vs)
  have step: "\<exists>fs. ss_findings (analyze_views env b files a vs u) = ss_findings s @ fs \<and>
      list_all (\<lambda>f. \<not> unpublished (se_native env) f) fs"
    if "\<exists>fs. ss_findings u = ss_findings s @ fs \<and> list_all (\<lambda>f. \<not> unpublished (se_native env) f) fs" for u
    using that Cons [of u] by fastforce
  let ?t = "s\<lparr>ss_tick := ss_tick s + 1\<rparr>"
  show ?case
  proof (cases "budget_done env b (ss_tick s)")
    case True
    then show ?thesis by (simp add: Let_def)
  next
    case False
    show ?thesis
    proof (cases "map_of (rev (map (\<lambda>f. (sf_path f, f)) files)) (vw_path v)")
      case None
      with False step [of "degrade_derived (vw_path v @ '': original source for derived view is unavailable'') ?t"]
      show ?thesis by (simp add: Let_def)
    next
      case (Some orig)
      with False step [of ?t] step [of "analyze_view env a orig v ?t"] analyze_view_findings [of env a orig v ?t]
      show ?thesis by (simp add: Let_def)
    qed
  qed
qed simp

lemma analyze_derived_views_findings:
  "\<exists>fs. ss_findings (analyze_derived_views env b files views a s) = ss_findings s @ fs \<and>
     list_all (\<lambda>f. \<not> unpublished (se_native env) f) fs"
  using analyze_views_findings [of env b files a views s] unfolding analyze_derived_views_def
  by (cases "am_id (az_meta a) = ''builtin.obfuscation'' \<or> ''semantic-provider'' \<in> set (am_types (az_meta a))")
     (simp_all only: if_True if_False, force)

lemma commit_findings:
  assumes "find (unpublished (se_native env)) (ao_findings r) = None"
  shows "\<exists>fs. ss_findings (commit_analysis env inp b views a start r s) = ss_findings s @ fs \<and>
     list_all (\<lambda>f. \<not> unpublished (se_native env) f) fs"
proof -
  have r: "list_all (\<lambda>f. \<not> unpublished (se_native env) f) (ao_findings r)"
    using assms by (simp add: find_None_iff list_all_iff)
  let ?s = "s\<lparr>ss_findings := ss_findings s @ ao_findings r, ss_observations := ss_observations s @ ao_observations r,
       ss_diagnostics := ss_diagnostics s @ ao_diagnostics r\<rparr>"
  obtain fs where "ss_findings (analyze_derived_views env b (si_files inp) views a ?s) = ss_findings ?s @ fs"
    "list_all (\<lambda>f. \<not> unpublished (se_native env) f) fs"
    using analyze_derived_views_findings [of env b "si_files inp" views a ?s] by blast
  then have "ss_findings (commit_analysis env inp b views a start r s) = ss_findings s @ (ao_findings r @ fs)"
    "list_all (\<lambda>f. \<not> unpublished (se_native env) f) (ao_findings r @ fs)"
    using r by (simp_all add: commit_analysis_def Let_def)
  then show ?thesis by blast
qed

lemma run_analyzer_findings:
  "\<exists>fs. ss_findings (fst (run_analyzer env inp b views a s)) = ss_findings s @ fs \<and>
     list_all (\<lambda>f. \<not> unpublished (se_native env) f) fs"
proof -
  obtain err r where i: "invoke_analyzer a (ss_tick s) (si_files inp) = (err, r)" by (metis surj_pair)
  show ?thesis
  proof (cases err)
    case (Some e)
    then show ?thesis by (simp add: run_analyzer_def i Let_def)
  next
    case None
    show ?thesis
    proof (cases "find (unpublished (se_native env)) (ao_findings r)")
      case (Some f)
      then show ?thesis using None by (simp add: run_analyzer_def i Let_def)
    next
      case n: None
      let ?s = "s\<lparr>ss_items := ss_items s @ map (plan_item (az_meta a)) (si_files inp), ss_tick := ss_tick s + 1\<rparr>"
      have "fst (run_analyzer env inp b views a s) = commit_analysis env inp b views a (length (ss_items s)) r ?s"
        using None n by (simp add: run_analyzer_def i Let_def)
      with commit_findings [OF n, of inp b views a "length (ss_items s)" ?s] show ?thesis by simp
    qed
  qed
qed

lemma run_analyzers_findings:
  "\<exists>fs. ss_findings (fst (run_analyzers env inp b views as s)) = ss_findings s @ fs \<and>
     list_all (\<lambda>f. \<not> unpublished (se_native env) f) fs"
proof (induction as arbitrary: s)
  case (Cons a as)
  let ?t = "s\<lparr>ss_tick := ss_tick s + 2\<rparr>"
  obtain u e where u: "run_analyzer env inp b views a ?t = (u, e)" by (metis surj_pair)
  have f: "\<exists>fs. ss_findings u = ss_findings s @ fs \<and> list_all (\<lambda>f. \<not> unpublished (se_native env) f) fs"
    using run_analyzer_findings [of env inp b views a ?t] unfolding u by simp
  have g: "\<exists>fs. ss_findings (fst (run_analyzers env inp b views as u)) = ss_findings s @ fs \<and>
      list_all (\<lambda>f. \<not> unpublished (se_native env) f) fs"
    using f Cons [of u] by fastforce
  have w: "\<exists>fs. ss_findings (fst (run_analyzers env inp b views as (?t\<lparr>ss_items := xs\<rparr>))) = ss_findings s @ fs \<and>
      list_all (\<lambda>f. \<not> unpublished (se_native env) f) fs" for xs
    using Cons [of "?t\<lparr>ss_items := xs\<rparr>"] by simp
  show ?case
    using f g w Cons [of s] u by (cases e) (simp_all add: Let_def stop_scan_def)
qed simp

lemma final_findings_accounted:
  assumes "all_published env s"
  shows "list_all (accounted env) (final_findings env inp s)"
proof -
  have adv: "fi_rule_id f = ''SKIL-CAP-DECLARATION-MISSING''"
    if "missing_capability_declaration cr pr fs = Some f" for cr pr fs f
    using that by (auto simp: missing_capability_declaration_def Let_def declaration_rule_def split: if_splits)
  have chain: "fi_rule_id x \<in> set (map (\<lambda>c. ru_id (tc_rule c)) (threat_chain_catalog (se_prose env)))"
    if "x \<in> set (correlate_threat_chains (se_crypto env) (se_prose env) fs obs)" for x fs obs
    using that chain_result_Some unfolding correlate_threat_chains_def set_map_filter by fastforce
  show ?thesis
    using assms adv chain
    by (auto simp: final_findings_def Let_def list_all_iff accounted_def all_published_def split: option.splits if_splits)
qed

lemma report_of_sel [simp]: "scan_findings (report_of inp s) = ss_findings s" "scan_coverage (report_of inp s) = ss_coverage s"
  "rep_items (report_of inp s) = ss_items s"
  by (simp_all add: report_of_def)

lemma assessed_sel [simp]: "scan_findings (assessed env r) = scan_findings r" "scan_coverage (assessed env r) = scan_coverage r"
  "rep_items (assessed env r) = rep_items r" "scan_maximum (assessed env r) = scan_maximum r"
  "scan_risk_score (assessed env r) = scan_risk_score r" "scan_status (assessed env r) = scan_status r"
  "scan_exceeded (assessed env r) = scan_exceeded r" "rep_derived (assessed env r) = rep_derived r"
  "is_failed (assessed env r) = is_failed r" "is_skipped (assessed env r) = is_skipped r" "is_total (assessed env r) = is_total r"
  "scan_completeness (assessed env r) = scan_completeness r" "scan_artifact (assessed env r) = scan_artifact r"
  "scan_closure (assessed env r) = scan_closure r"
  by (simp_all add: assessed_def)

lemma with_summary_sel [simp]: "scan_findings (with_summary env r) = scan_findings r"
  "scan_coverage (with_summary env r) = scan_coverage r" "rep_items (with_summary env r) = rep_items r"
  by (simp_all add: with_summary_def Let_def)

lemma with_budget_sel [simp]: "scan_findings (with_budget u r) = scan_findings r" "rep_items (with_budget u r) = rep_items r"
  "scan_maximum (with_budget u r) = scan_maximum r" "scan_risk_score (with_budget u r) = scan_risk_score r"
  "scan_exceeded (with_budget u r) = bu_exceeded u" "rep_derived (with_budget u r) = rep_derived r"
  "is_failed (with_budget u r) = is_failed r" "is_skipped (with_budget u r) = is_skipped r" "is_total (with_budget u r) = is_total r"
  "scan_completeness (with_budget u r) = scan_completeness r" "scan_artifact (with_budget u r) = scan_artifact r"
  "scan_closure (with_budget u r) = scan_closure r"
  by (simp_all add: with_budget_def Let_def)

section \<open>Flaws and thorough scans\<close>

lemma coverage_of_update: "coverage_of (AList.update k v cov) k' = (if k' = k then v else coverage_of cov k')"
  by (simp add: coverage_of_def update_conv')

lemma coverage_of_degraded: "coverage_of cov k = CoverageDegraded \<Longrightarrow> has_degraded_coverage cov"
proof -
  assume "coverage_of cov k = CoverageDegraded"
  then have "(k, CoverageDegraded) \<in> set cov"
    by (auto simp: coverage_of_def coverage_defs split: option.splits dest: map_of_SomeD)
  then show ?thesis by (force simp: has_degraded_coverage_def list_ex_iff)
qed

definition derived_degraded :: "scan_state \<Rightarrow> bool" where
  "derived_degraded s \<longleftrightarrow> coverage_of (ss_coverage s) ''derived-views'' = CoverageDegraded"

lemma derived_degraded_degrade [simp]: "derived_degraded (degrade_derived l s)"
  by (simp add: derived_degraded_def degrade_derived_def coverage_of_update)

text \<open>An analyzer that does not report on the derived views in the engine's place.\<close>

definition keeps_derived :: "analyzer \<Rightarrow> bool" where
  "keeps_derived a \<longleftrightarrow> ''derived-views'' \<notin> set (am_types (az_meta a)) \<and>
     (\<forall>i files. ''derived-views'' \<notin> fst ` set (ao_coverage (snd (invoke_analyzer a i files))))"

lemma mark_types_other:
  "k \<notin> set (am_types m) \<Longrightarrow> k \<notin> fst ` set ov \<Longrightarrow> coverage_of (mark_types m ov cov) k = coverage_of cov k"
proof -
  have t: "k \<notin> set ts \<Longrightarrow> coverage_of (fold (\<lambda>k. AList.update k CoverageCompleted) ts c) k = coverage_of c k" for ts c
    by (induction ts arbitrary: c) (simp_all add: coverage_of_update)
  have "k \<notin> fst ` set ov \<Longrightarrow> coverage_of (fold (\<lambda>(k, st). AList.update k st) ov c) k = coverage_of c k" for c
    by (induction ov arbitrary: c) (auto simp: coverage_of_update)
  then show "k \<notin> set (am_types m) \<Longrightarrow> k \<notin> fst ` set ov \<Longrightarrow> coverage_of (mark_types m ov cov) k = coverage_of cov k"
    by (simp add: mark_types_def t)
qed

lemma mark_domain_other: "coverage_of (mark_domain ds m cov) ''derived-views'' = coverage_of cov ''derived-views''"
  by (simp add: mark_domain_def coverage_of_update)

text \<open>What an item says of the work, without its count of findings.\<close>

definition shape :: "work_item \<Rightarrow> string \<times> string \<times> inspection_outcome" where
  "shape i = (wi_analyzer i, wi_file i, wi_outcome i)"

definition shapes :: "scan_state \<Rightarrow> (string \<times> string \<times> inspection_outcome) list" where
  "shapes s = map shape (ss_items s)"

definition done_ok :: "string \<times> string \<times> inspection_outcome \<Rightarrow> bool" where
  "done_ok x \<longleftrightarrow> snd (snd x) = InspectionCompleted \<or> snd (snd x) = InspectionOutOfScope"

lemma shapes_count_findings: "map shape (count_findings n fs items) = map shape items"
proof -
  have "map shape (map (\<lambda>i. i\<lparr>wi_findings := wi_findings i + g i\<rparr>) xs) = map shape xs" for g xs
    by (simp add: shape_def)
  then show ?thesis
    unfolding count_findings_def map_append by (simp only: map_append [symmetric] append_take_drop_id)
qed

lemma analyze_view_effect:
  "\<exists>x. shapes (analyze_view env a orig v s) = shapes s @ [x] \<and>
     (derived_degraded (analyze_view env a orig v s) \<or> done_ok x) \<and>
     (derived_degraded s \<longrightarrow> derived_degraded (analyze_view env a orig v s)) \<and>
     ss_tick s \<le> ss_tick (analyze_view env a orig v s)"
proof -
  obtain err r where i: "invoke_analyzer a (ss_tick s)
      [orig\<lparr>sf_data := vw_data v, sf_sha256 := vw_digest v\<rparr>] = (err, r)" by (metis surj_pair)
  have keep: "derived_degraded t \<Longrightarrow> derived_degraded (fold (\<lambda>st t. if p st then degrade_derived l t else t) xs t)" for p l xs t
    by (induction xs arbitrary: t) auto
  have upd: "derived_degraded (t\<lparr>ss_diagnostics := w, ss_findings := x, ss_observations := y, ss_items := z\<rparr>) = derived_degraded t" for t w x y z
    by (simp add: derived_degraded_def)
  have tick: "derived_degraded (s\<lparr>ss_tick := n\<rparr>) = derived_degraded s" for n by (simp add: derived_degraded_def)
  show ?thesis
  proof (cases err)
    case None
    then show ?thesis
      using keep [of "s\<lparr>ss_tick := ss_tick s + 1\<rparr>" degraded_state
          "sf_path orig @ '': '' @ am_id (az_meta a) @ '' reported degraded derived-view coverage''" "map snd (ao_coverage r)"]
      by (simp add: analyze_view_def i Let_def upd shapes_def shape_def done_ok_def tick)
  next
    case (Some e)
    then show ?thesis by (simp add: analyze_view_def i Let_def shapes_def shape_def)
  qed
qed

lemma analyze_views_effect:
  "\<exists>xs. shapes (analyze_views env b files a vs s) = shapes s @ xs \<and>
     (derived_degraded (analyze_views env b files a vs s) \<or> list_all done_ok xs) \<and>
     (derived_degraded s \<longrightarrow> derived_degraded (analyze_views env b files a vs s)) \<and>
     ss_tick s \<le> ss_tick (analyze_views env b files a vs s)"
proof (induction vs arbitrary: s)
  case (Cons v vs)
  let ?t = "s\<lparr>ss_tick := ss_tick s + 1\<rparr>" and ?P = "\<lambda>u xs. shapes u = shapes s @ xs \<and>
     (derived_degraded u \<or> list_all done_ok xs) \<and> (derived_degraded s \<longrightarrow> derived_degraded u) \<and> ss_tick s \<le> ss_tick u"
  have t: "shapes ?t = shapes s" "derived_degraded ?t = derived_degraded s" "ss_tick s \<le> ss_tick ?t"
    by (simp_all add: shapes_def derived_degraded_def)
  have d: "?P (degrade_derived l ?t) []" for l using t by (simp add: shapes_def)
  have step: "\<exists>xs. ?P (analyze_views env b files a vs u) xs" if u: "\<exists>xs. ?P u xs" for u
  proof -
    obtain xs ys where "?P u xs" "shapes (analyze_views env b files a vs u) = shapes u @ ys"
      "derived_degraded (analyze_views env b files a vs u) \<or> list_all done_ok ys"
      "derived_degraded u \<longrightarrow> derived_degraded (analyze_views env b files a vs u)"
      "ss_tick u \<le> ss_tick (analyze_views env b files a vs u)" using u Cons [of u] by blast
    then have "?P (analyze_views env b files a vs u) (xs @ ys)" by auto
    then show ?thesis by blast
  qed
  show ?case
  proof (cases "budget_done env b (ss_tick s)")
    case True
    have "analyze_views env b files a (v # vs) s = degrade_derived (vw_path v @ '': derived analyzer execution cancelled'') ?t"
      using True by (simp add: Let_def)
    with d show ?thesis by (simp only:) blast
  next
    case False
    show ?thesis
    proof (cases "map_of (rev (map (\<lambda>f. (sf_path f, f)) files)) (vw_path v)")
      case None
      then have "analyze_views env b files a (v # vs) s = analyze_views env b files a vs
          (degrade_derived (vw_path v @ '': original source for derived view is unavailable'') ?t)"
        using False by (simp add: Let_def)
      with step d show ?thesis by (simp only:) blast
    next
      case (Some orig)
      let ?full = "0 < ab_events b \<and> ab_events b \<le> int (length (ss_items ?t))"
      let ?applies = "analyzer_applies (az_meta a) (orig\<lparr>sf_data := vw_data v, sf_sha256 := vw_digest v\<rparr>)"
      consider "\<not> ?applies" | "?applies" "?full" | "?applies" "\<not> ?full" by blast
      then show ?thesis
      proof cases
        case 1
        then have "analyze_views env b files a (v # vs) s = analyze_views env b files a vs ?t"
          using False Some by (simp add: Let_def)
        moreover have "?P ?t []" using t by simp
        ultimately show ?thesis using step by (simp only:) blast
      next
        case 2
        then have "analyze_views env b files a (v # vs) s =
            add_exceeded_events (degrade_derived ''derived analyzer inspection budget exhausted'' ?t)"
          using False Some by (simp add: Let_def)
        moreover have "?P (add_exceeded_events (degrade_derived ''derived analyzer inspection budget exhausted'' ?t)) []"
          using d [of "''derived analyzer inspection budget exhausted''"]
          by (simp add: shapes_def derived_degraded_def [of "add_exceeded_events _"]) (simp add: derived_degraded_def [symmetric])
        ultimately show ?thesis by (simp only:) blast
      next
        case 3
        then have e: "analyze_views env b files a (v # vs) s = analyze_views env b files a vs (analyze_view env a orig v ?t)"
          using False Some by (auto simp: Let_def)
        obtain x where "shapes (analyze_view env a orig v ?t) = shapes ?t @ [x]"
          "derived_degraded (analyze_view env a orig v ?t) \<or> done_ok x"
          "derived_degraded ?t \<longrightarrow> derived_degraded (analyze_view env a orig v ?t)"
          "ss_tick ?t \<le> ss_tick (analyze_view env a orig v ?t)"
          using analyze_view_effect [of env a orig v ?t] by blast
        with t have "?P (analyze_view env a orig v ?t) [x]" by simp
        with step e show ?thesis by (simp only:) blast
      qed
    qed
  qed
qed simp

text \<open>A flaw of a state shows in the result: too many findings, time that is up, degraded derived views.\<close>

definition spent :: "scan_env \<Rightarrow> analysis_budget \<Rightarrow> scan_state \<Rightarrow> bool" where
  "spent env b s \<longleftrightarrow> (\<exists>i < ss_tick s. ab_wall b \<le> se_elapsed env i)"

definition flawed :: "scan_env \<Rightarrow> analysis_budget \<Rightarrow> scan_state \<Rightarrow> bool" where
  "flawed env b s \<longleftrightarrow> 0 < ab_findings b \<and> ab_findings b < int (length (ss_findings s)) \<or> spent env b s \<or> derived_degraded s"

definition uncancelled :: "scan_env \<Rightarrow> bool" where
  "uncancelled env \<longleftrightarrow> (\<forall>i. \<not> se_caller_done env i)"

text \<open>What the ledger says when an analyzer has seen every file.\<close>

definition planned :: "analyzer_meta \<Rightarrow> source_file \<Rightarrow> string \<times> string \<times> inspection_outcome" where
  "planned m f = (am_id m, sf_path f, if analyzer_applies m f then InspectionCompleted else InspectionOutOfScope)"

lemma shape_plan_item: "shape (plan_item m f) = planned m f"
  by (simp add: shape_def plan_item_def planned_def Let_def)

lemma planned_ok: "done_ok (planned m f)"
  by (simp add: planned_def done_ok_def)

lemma commit_effect:
  assumes a: "keeps_derived a" and r: "(None, r) = invoke_analyzer a j files"
  shows "\<exists>xs. shapes (commit_analysis env inp b views a start r s) = shapes s @ xs \<and>
     (derived_degraded (commit_analysis env inp b views a start r s) \<or> list_all done_ok xs) \<and>
     (derived_degraded s \<longrightarrow> derived_degraded (commit_analysis env inp b views a start r s)) \<and>
     ss_tick s \<le> ss_tick (commit_analysis env inp b views a start r s)"
proof -
  let ?s1 = "s\<lparr>ss_findings := ss_findings s @ ao_findings r, ss_observations := ss_observations s @ ao_observations r,
       ss_diagnostics := ss_diagnostics s @ ao_diagnostics r\<rparr>"
  let ?s2 = "analyze_derived_views env b (si_files inp) views a ?s1"
  let ?c = "commit_analysis env inp b views a start r s"
  have ov: "''derived-views'' \<notin> fst ` set (ao_coverage r)" and ty: "''derived-views'' \<notin> set (am_types (az_meta a))"
    using a r unfolding keeps_derived_def by (metis snd_conv)+
  have s1: "shapes ?s1 = shapes s" "derived_degraded ?s1 = derived_degraded s" "ss_tick ?s1 = ss_tick s"
    by (simp_all add: shapes_def derived_degraded_def)
  have c: "shapes ?c = shapes ?s2" "derived_degraded ?c = derived_degraded ?s2" "ss_tick ?c = ss_tick ?s2"
    by (simp_all add: commit_analysis_def Let_def shapes_def shapes_count_findings derived_degraded_def
        mark_domain_other mark_types_other [OF ty ov])
  show ?thesis
  proof (cases "am_id (az_meta a) = ''builtin.obfuscation'' \<or> ''semantic-provider'' \<in> set (am_types (az_meta a))")
    case True
    then have "?s2 = ?s1" by (auto simp: analyze_derived_views_def)
    with c s1 show ?thesis by (intro exI [of _ "[]"]) simp
  next
    case False
    then have "?s2 = analyze_views env b (si_files inp) a views ?s1" by (auto simp: analyze_derived_views_def)
    with analyze_views_effect [of env b "si_files inp" a views ?s1] c s1 show ?thesis by simp
  qed
qed

text \<open>The analyzer has seen the files at some moment, and what it found is in the state.\<close>

definition ran :: "source_file list \<Rightarrow> finding list \<Rightarrow> analyzer \<Rightarrow> bool" where
  "ran files fs a \<longleftrightarrow> (\<exists>i r. invoke_analyzer a i files = (None, r) \<and> set (ao_findings r) \<subseteq> set fs)"

lemma ran_mono: "ran files fs a \<Longrightarrow> set fs \<subseteq> set gs \<Longrightarrow> ran files gs a"
  unfolding ran_def by blast

lemma commit_contains: "set (ao_findings r) \<subseteq> set (ss_findings (commit_analysis env inp b views a start r s))"
proof -
  let ?s = "s\<lparr>ss_findings := ss_findings s @ ao_findings r, ss_observations := ss_observations s @ ao_observations r,
       ss_diagnostics := ss_diagnostics s @ ao_diagnostics r\<rparr>"
  obtain fs where "ss_findings (analyze_derived_views env b (si_files inp) views a ?s) = ss_findings ?s @ fs"
    using analyze_derived_views_findings [of env b "si_files inp" views a ?s] by blast
  then show ?thesis by (auto simp: commit_analysis_def Let_def)
qed

text \<open>One analyzer: the run goes on with a flaw or with a full and undisturbed ledger for it.\<close>

lemma run_analyzer_effect:
  assumes u: "run_analyzer env inp b views a s = (u, None)" and a: "keeps_derived a" and c: "uncancelled env"
  shows "\<exists>xs. shapes u = shapes s @ xs \<and> (flawed env b u \<or> list_all done_ok xs \<and> set (map (planned (az_meta a)) (si_files inp)) \<subseteq> set xs \<and>
       ran (si_files inp) (ss_findings u) a) \<and>
     (derived_degraded s \<longrightarrow> derived_degraded u) \<and> ss_tick s \<le> ss_tick u"
proof -
  obtain err r where i: "(err, r) = invoke_analyzer a (ss_tick s) (si_files inp)" by (metis surj_pair)
  let ?s1 = "s\<lparr>ss_items := ss_items s @ map (plan_item (az_meta a)) (si_files inp), ss_tick := ss_tick s + 1\<rparr>"
  show ?thesis
  proof (cases err)
    case (Some e)
    have w: "wall_time_over env b (ss_tick ?s1)" and u': "u = ?s1\<lparr>ss_tick := ss_tick ?s1 + 2,
        ss_items := revise_completed (length (ss_items s)) InspectionSkipped
          ''analysis budget: wall-time limit exceeded mid-analysis'' (ss_items ?s1)\<rparr>"
      using u Some by (auto simp: run_analyzer_def i [symmetric] Let_def split: if_splits)
    have "ab_wall b \<le> se_elapsed env (ss_tick ?s1 + 1)"
      using w c by (simp add: wall_time_over_def budget_done_def uncancelled_def)
    moreover have "ss_tick ?s1 + 1 < ss_tick u" by (simp add: u')
    ultimately have "spent env b u" unfolding spent_def by blast
    then have "flawed env b u" by (simp add: flawed_def)
    then show ?thesis
      by (intro exI [of _ "map shape (drop (length (ss_items s)) (ss_items u))"])
         (simp add: u' shapes_def revise_completed_def derived_degraded_def)
  next
    case None
    then have n: "find (unpublished (se_native env)) (ao_findings r) = None"
      and u': "u = commit_analysis env inp b views a (length (ss_items s)) r ?s1"
      using u by (auto simp: run_analyzer_def i [symmetric] Let_def split: option.splits)
    obtain xs where "shapes u = shapes ?s1 @ xs" "derived_degraded u \<or> list_all done_ok xs"
      "derived_degraded ?s1 \<longrightarrow> derived_degraded u" "ss_tick ?s1 \<le> ss_tick u"
      using commit_effect [OF a i [unfolded None], of env inp b views "length (ss_items s)" ?s1] unfolding u' by blast
    moreover have "shapes ?s1 = shapes s @ map (planned (az_meta a)) (si_files inp)"
      by (simp add: shapes_def shape_plan_item comp_def)
    moreover have "derived_degraded ?s1 = derived_degraded s" by (simp add: derived_degraded_def)
    moreover have "ran (si_files inp) (ss_findings u) a"
      using commit_contains [of r env inp b views a "length (ss_items s)" ?s1] i None unfolding ran_def u' by metis
    ultimately show ?thesis
      by (intro exI [of _ "map (planned (az_meta a)) (si_files inp) @ xs"])
         (auto simp: flawed_def list_all_iff planned_ok)
  qed
qed

lemma run_analyzer_findings_length: "run_analyzer env inp b views a s = (u, e) \<Longrightarrow> length (ss_findings s) \<le> length (ss_findings u)"
  using run_analyzer_findings [of env inp b views a s] by auto

lemma flawed_mono:
  "flawed env b s \<Longrightarrow> length (ss_findings s) \<le> length (ss_findings u) \<Longrightarrow> ss_tick s \<le> ss_tick u \<Longrightarrow>
   (derived_degraded s \<longrightarrow> derived_degraded u) \<Longrightarrow> flawed env b u"
  unfolding flawed_def spent_def by (elim disjE) (auto intro: less_le_trans)

text \<open>All analyzers: unless the end is flawed or stopped, each one in the domains has its full ledger.\<close>

lemma run_analyzers_effect:
  assumes "run_analyzers env inp b views as s = (u, None)" and "list_all keeps_derived as" and "uncancelled env"
  shows "\<exists>xs. shapes u = shapes s @ xs \<and> (flawed env b s \<longrightarrow> flawed env b u) \<and>
     (ss_stopped u \<or> flawed env b u \<or> list_all done_ok xs \<and>
       (\<forall>a\<in>set as. outside_domains inp (az_meta a) \<or> set (map (planned (az_meta a)) (si_files inp)) \<subseteq> set xs \<and>
         ran (si_files inp) (ss_findings u) a))"
  using assms
proof (induction as arbitrary: s)
  case Nil
  then show ?case by simp
next
  case (Cons a as)
  have keep: "list_all keeps_derived as" "keeps_derived a" using Cons.prems(2) by simp_all
  let ?m = "az_meta a" and ?t = "s\<lparr>ss_tick := ss_tick s + 2\<rparr>"
  let ?over = "0 < ab_findings b \<and> ab_findings b < int (length (ss_findings s)) \<or> events_full b s"
  let ?more = "0 < ab_events b \<and> ab_events b < int (length (ss_items s)) + int (length (si_files inp))"
  have t: "shapes ?t = shapes s" "derived_degraded ?t = derived_degraded s" "ss_findings ?t = ss_findings s"
    by (simp_all add: shapes_def derived_degraded_def)
  consider "?over" | "\<not> ?over" "?more" | "\<not> ?over" "\<not> ?more" "outside_domains inp ?m"
    | "\<not> ?over" "\<not> ?more" "\<not> outside_domains inp ?m" "wall_time_over env b (ss_tick s)"
    | "\<not> ?over" "\<not> ?more" "\<not> outside_domains inp ?m" "\<not> wall_time_over env b (ss_tick s)" by blast
  then show ?case
  proof cases
    case 1
    then have u: "u = stop_scan ?m ''analysis budget exhausted before analyzer start'' (events_full b s) s"
      using Cons.prems(1) by (simp only: run_analyzers.simps Let_def if_True prod.inject simp_thms)
    have "ss_stopped u \<or> flawed env b u" using 1 by (auto simp: u stop_scan_def flawed_def)
    moreover have "flawed env b s \<longrightarrow> flawed env b u"
      by (simp add: u stop_scan_def flawed_def spent_def derived_degraded_def)
    moreover have "\<exists>xs. shapes u = shapes s @ xs" by (simp add: u stop_scan_def shapes_def)
    ultimately show ?thesis by blast
  next
    case 2
    then have u: "u = stop_scan ?m ''analysis budget: inspection event limit would be exceeded'' True s"
      using Cons.prems(1) by (simp only: run_analyzers.simps Let_def if_True if_False prod.inject simp_thms)
    have "flawed env b s \<longrightarrow> flawed env b u"
      by (simp add: u stop_scan_def flawed_def spent_def derived_degraded_def)
    then show ?thesis by (simp add: u stop_scan_def shapes_def)
  next
    case 3
    then have "run_analyzers env inp b views as s = (u, None)"
      using Cons.prems(1) by (simp only: run_analyzers.simps Let_def if_True if_False simp_thms)
    from Cons.IH [OF this keep(1) Cons.prems(3)] 3 show ?thesis by auto
  next
    case 4
    let ?w = "?t\<lparr>ss_items := ss_items ?t @
       map (\<lambda>f. skip_item ?m (sf_path f) ''analysis budget: wall-time limit exceeded'') (si_files inp)\<rparr>"
    have run: "run_analyzers env inp b views as ?w = (u, None)"
      using Cons.prems(1) 4 by (simp only: run_analyzers.simps Let_def if_True if_False simp_thms)
    have "ab_wall b \<le> se_elapsed env (ss_tick s + 1)"
      using 4(4) Cons.prems(3) by (simp add: wall_time_over_def budget_done_def uncancelled_def)
    moreover have "ss_tick s + 1 < ss_tick ?w" by simp
    ultimately have "spent env b ?w" unfolding spent_def by blast
    then have "flawed env b ?w" by (simp add: flawed_def)
    with Cons.IH [OF run keep(1) Cons.prems(3)] obtain xs where xs: "shapes u = shapes ?w @ xs" "flawed env b u" by auto
    then have "\<exists>ys. shapes u = shapes s @ ys" by (simp add: shapes_def)
    with xs(2) show ?thesis by blast
  next
    case 5
    obtain v e where v: "run_analyzer env inp b views a ?t = (v, e)" by (metis surj_pair)
    have run: "e = None" "run_analyzers env inp b views as v = (u, None)"
      using Cons.prems(1) 5 v by (cases e; simp only: run_analyzers.simps Let_def if_False prod.case option.case simp_thms; simp)+
    obtain xs where xs: "shapes v = shapes ?t @ xs"
      "flawed env b v \<or> list_all done_ok xs \<and> set (map (planned ?m) (si_files inp)) \<subseteq> set xs \<and> ran (si_files inp) (ss_findings v) a"
      "derived_degraded ?t \<longrightarrow> derived_degraded v" "ss_tick ?t \<le> ss_tick v"
      using run_analyzer_effect [OF v [unfolded run(1)] keep(2) Cons.prems(3)] by blast
    obtain ys where ys: "shapes u = shapes v @ ys" "flawed env b v \<longrightarrow> flawed env b u"
      "ss_stopped u \<or> flawed env b u \<or> list_all done_ok ys \<and>
        (\<forall>a\<in>set as. outside_domains inp (az_meta a) \<or> set (map (planned (az_meta a)) (si_files inp)) \<subseteq> set ys \<and>
          ran (si_files inp) (ss_findings u) a)"
      using Cons.IH [OF run(2) keep(1) Cons.prems(3)] by blast
    have "flawed env b s \<longrightarrow> flawed env b v"
      using flawed_mono [of env b s v] run_analyzer_findings_length [OF v] xs(3,4) t by simp
    moreover have "ran (si_files inp) (ss_findings v) a \<Longrightarrow> ran (si_files inp) (ss_findings u) a"
      using run_analyzers_findings [of env inp b views as v] unfolding run(2) by (auto elim!: ran_mono)
    ultimately show ?thesis using xs ys t by (intro exI [of _ "xs @ ys"]) auto
  qed
qed

section \<open>The end of a scan\<close>

lemma final_findings_length: "length (ss_findings s) \<le> length (final_findings env inp s)"
  by (simp add: final_findings_def Let_def)

lemma usage_exceeded:
  "bu_exceeded (compute_budget_usage files b n e d el w) = [] \<Longrightarrow> \<not> w \<and> \<not> (0 < ab_findings b \<and> ab_findings b < n)"
proof -
  assume "bu_exceeded (compute_budget_usage files b n e d el w) = []"
  then have "set (bu_exceeded (compute_budget_usage files b n e d el w)) = {}" by simp
  then show ?thesis by (simp add: compute_budget_usage_def Let_def over_def split: if_splits)
qed

lemma flawed_exceeds:
  assumes "ss_stopped s \<or> 0 < ab_findings b \<and> ab_findings b < int (length (ss_findings s)) \<or> spent env b s"
    and m: "mono (se_elapsed env)" and n: "length (ss_findings s) \<le> length fs"
  shows "bu_exceeded (final_usage env inp b fs s) \<noteq> []"
proof
  let ?w = "wall_time_over env b (ss_tick s) \<or> 0 < ab_wall b \<and> ab_wall b \<le> se_elapsed env (ss_tick s + 2) \<or> ab_wall b \<le> 0"
  let ?u = "compute_budget_usage (si_files inp) b (int (length fs)) (int (length (ss_items s))) (ss_derived s)
      (se_elapsed env (ss_tick s + 3)) ?w"
  assume "bu_exceeded (final_usage env inp b fs s) = []"
  then have st: "\<not> ss_stopped s" and u: "bu_exceeded ?u = []"
    by (auto simp: final_usage_def Let_def split: if_splits)
  note x = usage_exceeded [OF u]
  have "\<not> spent env b s"
  proof
    assume "spent env b s"
    then obtain i where i: "i < ss_tick s" "ab_wall b \<le> se_elapsed env i" by (auto simp: spent_def)
    then have "se_elapsed env i \<le> se_elapsed env (ss_tick s + 2)" using m by (simp add: monoD)
    with i x show False by linarith
  qed
  moreover have "int (length (ss_findings s)) \<le> int (length fs)" using n by simp
  ultimately show False using assms(1) st x by linarith
qed

lemma coverage_degraded_update:
  "coverage_of cov k = CoverageDegraded \<Longrightarrow> has_degraded_coverage (AList.update k' CoverageDegraded cov)"
  by (rule coverage_of_degraded [of _ k]) (simp add: coverage_of_update)

lemma clear_verdict:
  assumes "verdict_of m score cov = VerdictClear"
  shows "SeverityRank m \<le> 1 \<and> status_of m = StatusPass \<and> \<not> has_degraded_coverage cov \<and>
    coverage_of cov ''ast'' = CoverageCompleted \<and> coverage_of cov ''taint'' = CoverageCompleted"
proof -
  have v: "VerdictBlock \<noteq> VerdictClear" "VerdictReview \<noteq> VerdictClear"
    by (simp_all add: VerdictBlock_def VerdictReview_def VerdictClear_def)
  have c: "SeverityRank m < SeverityRank SeverityHigh" "m \<noteq> SeverityMedium" "\<not> has_degraded_coverage cov"
    "coverage_of cov ''ast'' = CoverageCompleted" "coverage_of cov ''taint'' = CoverageCompleted"
    using assms v unfolding verdict_of_def by (auto split: if_splits)
  then show ?thesis by (auto simp: SeverityRank_def severity_defs status_of_def split: if_splits)
qed

text \<open>The result of a scan without an error: refused at the budget, or finished from the last state.\<close>

lemma scan_cases:
  assumes "scan env as inp = (r, None)"
  obtains "bu_exceeded (preflight env inp (effective_budget (si_budget inp))) \<noteq> []"
      "r = refused_scan env inp (preflight env inp (effective_budget (si_budget inp)))"
  | s d where "run_analyzers env inp (effective_budget (si_budget inp)) (dr_views d) as (start_state env inp as d) = (s, None)"
      "finish_scan env inp (effective_budget (si_budget inp)) s = (r, None)"
proof -
  let ?b = "effective_budget (si_budget inp)"
  let ?d = "derived_of env inp ?b"
  show ?thesis
  proof (cases "bu_exceeded (preflight env inp ?b) = []")
    case False
    then show ?thesis using assms by (intro that(1)) (simp_all add: scan_def Let_def)
  next
    case True
    obtain s e where s: "run_analyzers env inp ?b (dr_views ?d) as (start_state env inp as ?d) = (s, e)" by (metis surj_pair)
    have "e = None" using assms True s by (simp add: scan_def Let_def split: option.splits scan_error.splits)
    moreover have "finish_scan env inp ?b s = (r, None)" using assms True s calculation by (simp add: scan_def Let_def)
    ultimately show ?thesis using s by (intro that(2)) simp_all
  qed
qed

lemma finish_scan_form:
  assumes "finish_scan env inp b s = (r, None)"
  defines "fs \<equiv> final_findings env inp s"
  defines "u \<equiv> final_usage env inp b fs s"
  shows "scan_findings r = sort_key finding_order fs \<and> rep_items r = ss_items s \<and> scan_exceeded r = bu_exceeded u \<and>
    scan_maximum r = fst (risk (se_float env) (sort_key finding_order fs) (ss_coverage s)) \<and>
    scan_risk_score r = fst (snd (risk (se_float env) (sort_key finding_order fs) (ss_coverage s))) \<and>
    scan_coverage r = (if bu_exceeded u = [] then ss_coverage s
      else AList.update ''analysis-budget'' CoverageDegraded (ss_coverage s)) \<and>
    scan_status r = (if bu_exceeded u \<noteq> [] \<and> status_of (scan_maximum r) = StatusPass then StatusWarn
      else status_of (scan_maximum r)) \<and>
    is_failed r = outcome_count InspectionFailed (ss_items s) \<and> is_skipped r = outcome_count InspectionSkipped (ss_items s) \<and>
    is_total r = int (length (ss_items s)) \<and>
    scan_completeness r = im_completeness (summarize_inspection (se_float env) (ss_items s)) \<and>
    scan_artifact r = si_artifact inp \<and> scan_closure r = None \<and>
    rep_assurance r = Some (assess_scan (se_crypto env) (artifact_subject_digest (si_artifact inp)) (ss_items s) u False None)"
proof -
  have dep: "se_dependencies env (si_files inp) (ss_observations s) = None"
    using assms(1) by (auto simp: finish_scan_def Let_def split: option.splits prod.splits)
  have st: "snd (snd (risk (se_float env) xs cov)) = status_of (fst (risk (se_float env) xs cov))" for xs cov
    by (rule risk_status)
  obtain m score status where r: "risk (se_float env) (sort_key finding_order fs) (ss_coverage s) = (m, score, status)"
    by (metis surj_pair)
  have status: "status = status_of m" using st [of "sort_key finding_order fs" "ss_coverage s"] by (simp add: r)
  show ?thesis
    using assms(1)
    by (auto simp: finish_scan_def Let_def dep r status fs_def [symmetric] u_def [symmetric] with_budget_def
        with_summary_def summary_counts assessed_def report_of_def)
qed

section \<open>What a scan guarantees\<close>

lemma start_state_findings: "ss_findings (start_state env inp as d) = []" and
  start_state_items: "ss_items (start_state env inp as d) = []"
  by (simp_all add: start_state_def Let_def)

text \<open>
  C12. Every finding in a scan's result, also where the scan fails, belongs to a published rule or to an external
  provider, or is the missing-declaration advisory or a finding of the catalogue of threat chains; and a scan that
  does not fail lists its findings by file, line and rule.
\<close>

theorem scan_findings_accounted:
  "list_all (accounted env) (scan_findings (fst (scan env as inp))) \<and>
   (case snd (scan env as inp) of None \<Rightarrow> sorted (map finding_order (scan_findings (fst (scan env as inp))))
    | Some err \<Rightarrow> True)"
proof -
  let ?b = "effective_budget (si_budget inp)"
  let ?d = "derived_of env inp ?b"
  obtain s e where s: "run_analyzers env inp ?b (dr_views ?d) as (start_state env inp as ?d) = (s, e)" by (metis surj_pair)
  have p: "all_published env s"
    using run_analyzers_findings [of env inp ?b "dr_views ?d" as "start_state env inp as ?d"]
    by (auto simp: s start_state_findings all_published_def)
  then have "list_all (accounted env) (ss_findings s)"
    by (auto simp: all_published_def accounted_def list_all_iff)
  moreover note final_findings_accounted [OF p, of inp]
  moreover have "sorted (map finding_order (sort_key finding_order fs))" for fs by (rule sorted_sort_key)
  moreover have "list_all q (sort_key finding_order fs) = list_all q fs" for q fs by (simp add: list_all_iff)
  moreover obtain m score status where
    "risk (se_float env) (sort_key finding_order (final_findings env inp s)) (ss_coverage s) = (m, score, status)"
    by (metis surj_pair)
  ultimately show ?thesis
    by (auto simp: scan_def refused_scan_def report_of_def finish_scan_def Let_def s split: option.splits scan_error.splits)
qed

text \<open>The ledger is clean and complete for the analyzers in the domains, and each of them has run to its end.\<close>

definition thorough :: "scan_input \<Rightarrow> analyzer list \<Rightarrow> scan_report \<Rightarrow> bool" where
  "thorough inp as r \<longleftrightarrow> list_all (\<lambda>i. done_ok (shape i)) (rep_items r) \<and>
     (\<forall>a\<in>set as. outside_domains inp (az_meta a) \<or>
       set (map (planned (az_meta a)) (si_files inp)) \<subseteq> shape ` set (rep_items r) \<and>
       ran (si_files inp) (scan_findings r) a)"

lemma no_bad_outcome:
  "list_all (\<lambda>i. done_ok (shape i)) xs \<Longrightarrow> outcome_count InspectionFailed xs = 0 \<and> outcome_count InspectionSkipped xs = 0"
  by (induction xs) (auto simp: outcome_count_def done_ok_def shape_def)

lemma refused_not_clear:
  "verdict_of m score (scan_coverage (refused_scan env inp u)) \<noteq> VerdictClear"
proof
  assume v: "verdict_of m score (scan_coverage (refused_scan env inp u)) = VerdictClear"
  have "scan_coverage (refused_scan env inp u) = AList.update ''analysis-budget'' CoverageDegraded initial_coverage"
    by (simp add: refused_scan_def Let_def report_of_def)
  then have "has_degraded_coverage (scan_coverage (refused_scan env inp u))"
    using coverage_of_degraded [of _ "''analysis-budget''"] by (simp add: coverage_of_update)
  with clear_verdict [OF v] show False by blast
qed

text \<open>
  C2. A scan whose verdict is CLEAR has done its work.  Supposed that the scan returns without an error, that the
  caller's context is never done, that the clock does not run backwards, and that no analyzer writes to the coverage
  key \<open>derived-views\<close> of the scan itself: then no limit of the budget was exceeded, the status is PASS, no
  unsuppressed finding is above LOW, nothing was skipped or failed, and every analyzer in the requested domains has
  a ledger entry for each file that says whether it applied, ran to its end on all files, and had all its findings
  reported.
\<close>

theorem clear_scan_is_thorough:
  assumes scan: "scan env as inp = (r, None)" and verdict: "verdict_of (scan_maximum r) (scan_risk_score r) (scan_coverage r) = VerdictClear"
    and c: "uncancelled env" and m: "mono (se_elapsed env)" and keep: "list_all keeps_derived as"
  shows "scan_exceeded r = [] \<and> scan_status r = StatusPass \<and> thorough inp as r \<and> is_failed r = 0 \<and> is_skipped r = 0 \<and>
    list_all (\<lambda>f. fi_suppressed f \<or> SeverityRank (fi_severity f) \<le> 1) (scan_findings r)"
  using scan
proof (cases rule: scan_cases)
  case 1
  with verdict refused_not_clear show ?thesis by blast
next
  case (2 s d)
  let ?b = "effective_budget (si_budget inp)"
  let ?fs = "final_findings env inp s"
  note f = finish_scan_form [OF 2(2)]
  note v = clear_verdict [OF verdict]
  have ex: "bu_exceeded (final_usage env inp ?b ?fs s) = []"
    using f v coverage_of_degraded [of "scan_coverage r" "''analysis-budget''"] by (auto simp: coverage_of_update split: if_splits)
  then have cov: "scan_coverage r = ss_coverage s" using f by simp
  have nd: "\<not> derived_degraded s" using v coverage_of_degraded unfolding derived_degraded_def cov by blast
  have n: "length (ss_findings s) \<le> length ?fs" by (rule final_findings_length)
  then have ok: "\<not> ss_stopped s" "\<not> flawed env ?b s"
    using flawed_exceeds [OF _ m n, of ?b inp] ex nd unfolding flawed_def by blast+
  obtain xs where xs: "shapes s = shapes (start_state env inp as d) @ xs" "list_all done_ok xs"
    "\<forall>a\<in>set as. outside_domains inp (az_meta a) \<or> set (map (planned (az_meta a)) (si_files inp)) \<subseteq> set xs \<and>
       ran (si_files inp) (ss_findings s) a"
    using run_analyzers_effect [OF 2(1) keep c] ok by blast
  then have sh: "map shape (rep_items r) = xs" using f by (simp add: shapes_def start_state_items)
  have sub: "set (ss_findings s) \<subseteq> set (scan_findings r)" using f by (auto simp: final_findings_def Let_def)
  have items: "list_all (\<lambda>i. done_ok (shape i)) (rep_items r)"
    using xs(2) unfolding sh [symmetric] by (simp add: list_all_iff)
  have "thorough inp as r"
    unfolding thorough_def using items xs(3) ran_mono [OF _ sub] unfolding sh [symmetric] by (simp only: list.set_map) blast
  moreover have "is_failed r = 0" "is_skipped r = 0" using no_bad_outcome [OF items] f by simp_all
  moreover have "scan_exceeded r = []" "scan_status r = StatusPass" using f ex v by simp_all
  moreover have "list_all (\<lambda>g. fi_suppressed g \<or> SeverityRank (fi_severity g) \<le> 1) (scan_findings r)"
    using risk_rank_bound [of _ "scan_findings r" "se_float env" "ss_coverage s"] v f by (fastforce simp: list_all_iff)
  ultimately show ?thesis by blast
qed

text \<open>A concrete scan: one file, and two analyzers that look at every file and find nothing.\<close>

definition quiet_analyzer :: "string \<Rightarrow> analyzer" where
  "quiet_analyzer k = \<lparr>az_meta = \<lparr>am_id = k, am_version = ''1'', am_domain = [], am_types = [k], am_supported = [''*'']\<rparr>,
     az_method = Analyze (\<lambda>i files. (None, [])), az_diagnostics = None\<rparr>"

definition still_env :: scan_env where
  "still_env = \<lparr>se_crypto = toy_crypto, se_float = \<lparr>fo_add = \<lambda>x y. Finite 0, fo_mul = \<lambda>x y. Finite 0,
       fo_div = \<lambda>x y. Finite 1, fo_int = \<lambda>x. 0\<rparr>, se_prose = \<lambda>i. \<lparr>pr_title = [], pr_description = [], pr_remediation = []\<rparr>,
     se_native = [], se_transformers = [], se_caller_done = \<lambda>i. False, se_elapsed = \<lambda>i. 0,
     se_dependencies = \<lambda>files observations. None,
     se_classify = \<lambda>f files. \<lparr>an_path = sf_path f, an_binary_kind = [], an_executable = False, an_state = ''full'', an_reason = []\<rparr>\<rparr>"

definition small_input :: scan_input where
  "small_input = \<lparr>si_artifact = \<lparr>ar_name = ''a'', ar_version = ''1'', ar_source = [], ar_digest = ''d'', ar_package_digest = []\<rparr>,
     si_files = [\<lparr>sf_path = ''f'', sf_data = ''ab'', sf_sha256 = [], sf_container_depth = 0\<rparr>],
     si_load_diagnostics = [], si_contract = True, si_domains = [], si_budget = None\<rparr>"

lemma quiet_applies: "analyzer_applies (az_meta (quiet_analyzer k)) f"
proof -
  have "supports f e b ''*''" for e b by (simp add: supports_def Let_def trim_prefix_def has_prefix_def to_lower_def lower_char_def)
  then show ?thesis by (simp add: analyzer_applies_def quiet_analyzer_def Let_def)
qed

lemma quiet_keeps: "k \<noteq> ''derived-views'' \<Longrightarrow> keeps_derived (quiet_analyzer k)"
  by (simp add: keeps_derived_def quiet_analyzer_def invoke_analyzer_def)

lemma no_signals: "correlate_threat_chains cr pr [] [] = []"
proof -
  have "chain_result cr c [] [] = None" if "c \<in> set (threat_chain_catalog pr)" for c
    using that by (auto simp: chain_result_None signal_present_def threat_chain_catalog_def chain_def)
  then have "x \<notin> set (correlate_threat_chains cr pr [] [])" for x
    by (auto simp: correlate_threat_chains_def set_map_filter)
  then show ?thesis by (metis list.set_intros(1) neq_Nil_conv)
qed

lemma small_derived: "derived_of still_env small_input default_budget = empty_result\<lparr>dr_polls := 2\<rparr>"
proof -
  define env where "env = \<lparr>bv_crypto = se_crypto still_env,
     bv_budget = \<lparr>db_views = ab_views default_budget, db_depth = ab_depth default_budget, db_bytes = ab_bytes default_budget\<rparr>,
     bv_transformers = [], bv_cancelled = (\<lambda>i. budget_done still_env default_budget (i + 1))\<rparr>"
  have nc: "bv_cancelled env n = False" for n
    by (simp add: env_def budget_done_def still_env_def default_budget_def)
  have d: "\<not> db_depth (bv_budget env) \<le> 0" "\<not> db_views (bv_budget env) \<le> 0" "\<not> db_bytes (bv_budget env) \<le> 0"
    by (simp_all add: env_def default_budget_def)
  have v: "visit env f (root_view x) s = s" for f x s
    using d by (simp add: visit_def expand_def root_view_def) (simp add: env_def)
  have q: "build_queue env f \<lparr>sr_result = r, sr_queue = [root_view x], sr_seen = y, sr_stop = False\<rparr> =
      \<lparr>sr_result = poll r, sr_queue = [], sr_seen = y, sr_stop = False\<rparr>" for f r x y
    by (subst build_queue.simps) (simp add: nc v Let_def build_queue.simps)
  have "build_views env (si_files small_input) = empty_result\<lparr>dr_polls := 2\<rparr>"
    using d by (simp add: build_views_def Let_def small_input_def nc sample_text build_file_def q poll_def empty_result_def)
  then show ?thesis by (simp add: derived_of_def env_def still_env_def)
qed

lemma undegraded_update:
  "\<not> has_degraded_coverage cov \<Longrightarrow> \<not> has_degraded_coverage (AList.update k CoverageCompleted cov)"
proof -
  assume a: "\<not> has_degraded_coverage cov"
  have u: "snd ` set (AList.update k v cov) \<subseteq> insert v (snd ` set cov)" for v by (induction cov) auto
  have d: "has_degraded_coverage c \<longleftrightarrow> CoverageDegraded \<in> snd ` set c \<or> CoverageNotAvailable \<in> snd ` set c" for c
    by (force simp: has_degraded_coverage_def list_ex_iff)
  have "CoverageDegraded \<noteq> CoverageCompleted" "CoverageNotAvailable \<noteq> CoverageCompleted" by (simp_all add: coverage_defs)
  then show ?thesis using a u unfolding d by blast
qed

lemma initial_undegraded: "\<not> has_degraded_coverage initial_coverage"
  by (simp add: has_degraded_coverage_def initial_coverage_def coverage_defs)

lemma default_limits: "ab_raw default_budget = 104857600" "ab_expanded default_budget = 157286400"
  "ab_findings default_budget = 10000" "ab_events default_budget = 200000" "ab_views default_budget = 64"
  "ab_depth default_budget = 3" "ab_bytes default_budget = 16777216" "ab_wall default_budget = 120000000000"
  by (simp_all add: default_budget_def)

lemma small_bytes: "byte_count False (si_files small_input) = 2" "byte_count True (si_files small_input) = 0"
  "length (si_files small_input) = 1"
  by (simp_all add: byte_count_def small_input_def)

lemma no_usage:
  assumes "n \<le> 10000" and "k \<le> 200000"
  shows "bu_exceeded (compute_budget_usage (si_files small_input) default_budget n k None el False) = []"
    and "bu_exceeded (compute_budget_usage (si_files small_input) default_budget n k
      (Some (derived_summary_of (empty_result\<lparr>dr_polls := j\<rparr>))) el False) = []"
  using assms by (simp_all add: compute_budget_usage_def Let_def over_def over_new_def default_limits small_bytes
      derived_summary_of_def empty_result_def sort_strings_def)

lemma quiet_run:
  "run_analyzer still_env small_input default_budget [] (quiet_analyzer k) s =
     (s\<lparr>ss_items := ss_items s @ map (plan_item (az_meta (quiet_analyzer k))) (si_files small_input), ss_tick := ss_tick s + 1,
        ss_coverage := AList.update k CoverageCompleted (ss_coverage s)\<rparr>, None)"
  by (simp add: run_analyzer_def invoke_analyzer_def quiet_analyzer_def commit_analysis_def Let_def
      analyze_derived_views_def count_findings_def mark_types_def mark_domain_def small_input_def)

lemma quiet_step:
  assumes "ss_findings s = []" and "length (ss_items s) < 100"
  shows "run_analyzers still_env small_input default_budget [] (quiet_analyzer k # as) s =
    run_analyzers still_env small_input default_budget [] as (s\<lparr>
      ss_items := ss_items s @ map (plan_item (az_meta (quiet_analyzer k))) (si_files small_input),
      ss_tick := Suc (Suc (Suc (ss_tick s))), ss_coverage := AList.update k CoverageCompleted (ss_coverage s)\<rparr>)"
proof -
  have "\<not> outside_domains small_input m" for m by (simp add: outside_domains_def small_input_def)
  moreover have "\<not> wall_time_over still_env default_budget i" for i
    by (simp add: wall_time_over_def budget_done_def still_env_def default_budget_def)
  ultimately show ?thesis
    using assms by (simp add: Let_def quiet_run events_full_def default_limits small_bytes)
qed

lemma small_clear:
  "verdict_of SeverityInfo 0 (AList.update ''taint'' CoverageCompleted (AList.update ''ast'' CoverageCompleted initial_coverage))
     = VerdictClear"
proof -
  have "SeverityInfo \<noteq> SeverityMedium" "SeverityRank SeverityHigh = 3" by (simp_all add: SeverityRank_def severity_defs)
  then show ?thesis
    using undegraded_update [OF undegraded_update [OF initial_undegraded]]
    by (simp add: verdict_of_def coverage_of_update)
qed

text \<open>It is CLEAR, and so it was thorough.\<close>

lemma small_scan:
  "\<exists>r. scan still_env [quiet_analyzer ''ast'', quiet_analyzer ''taint''] small_input = (r, None) \<and>
     verdict_of (scan_maximum r) (scan_risk_score r) (scan_coverage r) = VerdictClear"
proof -
  let ?d = "empty_result\<lparr>dr_polls := 2\<rparr>" and ?as = "[quiet_analyzer ''ast'', quiet_analyzer ''taint'']"
  let ?s0 = "start_state still_env small_input ?as ?d"
  have b: "effective_budget (si_budget small_input) = default_budget" by (simp add: effective_budget_def small_input_def)
  have s0: "ss_findings ?s0 = []" "ss_items ?s0 = []" "ss_observations ?s0 = []" "ss_coverage ?s0 = initial_coverage"
    "ss_derived ?s0 = Some (derived_summary_of ?d)" "\<not> ss_stopped ?s0"
    by (simp_all add: start_state_def Let_def empty_result_def small_input_def)
  obtain s where run: "run_analyzers still_env small_input default_budget [] ?as ?s0 = (s, None)"
    and s: "ss_findings s = []" "ss_observations s = []" "length (ss_items s) = 2"
      "ss_derived s = Some (derived_summary_of ?d)" "\<not> ss_stopped s"
      "ss_coverage s = AList.update ''taint'' CoverageCompleted (AList.update ''ast'' CoverageCompleted initial_coverage)"
    using s0 by (simp add: quiet_step small_bytes del: run_analyzers.simps(2))
  have fs: "final_findings still_env small_input s = []"
    using s by (simp add: final_findings_def no_signals small_input_def)
  have wall: "\<not> wall_time_over still_env default_budget i" "\<not> ab_wall default_budget \<le> se_elapsed still_env i"
      "\<not> ab_wall default_budget \<le> 0" for i
    by (simp_all add: wall_time_over_def budget_done_def still_env_def default_budget_def)
  have u: "bu_exceeded (final_usage still_env small_input default_budget [] s) = []"
    using s no_usage(2) [of 0 2 2] by (simp add: final_usage_def Let_def wall)
  have risk: "risk (se_float still_env) [] (ss_coverage s) = (SeverityInfo, 0, StatusPass)"
    using s by (simp add: risk_def Let_def coverage_of_update still_env_def status_of_def SeverityRank_def severity_defs)
  have dep: "se_dependencies still_env files obs = None" for files obs by (simp add: still_env_def)
  obtain r where r: "finish_scan still_env small_input default_budget s = (r, None)"
    by (simp add: finish_scan_def Let_def fs risk dep)
  note form = finish_scan_form [OF r, unfolded fs]
  have "verdict_of (scan_maximum r) (scan_risk_score r) (scan_coverage r) = VerdictClear"
    using form small_clear by (simp add: u risk [unfolded s(6)] s(6))
  moreover have "dr_views ?d = []" by (simp add: empty_result_def)
  then have "scan still_env ?as small_input = (r, None)"
    using run r no_usage(1) [of 0 0] by (simp add: scan_def b preflight_def small_derived Let_def del: run_analyzers.simps)
  ultimately show ?thesis by blast
qed

lemma clear_scan_is_thorough_witness:
  "thorough small_input [quiet_analyzer ''ast'', quiet_analyzer ''taint'']
     (fst (scan still_env [quiet_analyzer ''ast'', quiet_analyzer ''taint''] small_input))"
proof -
  obtain r where r: "scan still_env [quiet_analyzer ''ast'', quiet_analyzer ''taint''] small_input = (r, None)"
    "verdict_of (scan_maximum r) (scan_risk_score r) (scan_coverage r) = VerdictClear" using small_scan by blast
  have "uncancelled still_env" "mono (se_elapsed still_env)"
    by (simp_all add: uncancelled_def still_env_def mono_def)
  then show ?thesis using clear_scan_is_thorough [OF r] by (simp add: quiet_keeps r(1))
qed

end
