(* ===== verification/Spec2Isabelle.thy ===== *)
theory Spec2Isabelle
  imports Enforcer_Props Runtime_Proxy Interceptor Assured_Gateway Gateway_Monitor Pickle_Detection
    Policy_Lifecycle Capability_Props Closure_Props Portable_Props Lockfile Revocation
    Baseline_Props Derived_Search Scan_Props
begin

text \<open>
  Verification development for skil, the static-assurance and runtime-enforcement tool for agent skills
  (Go, module \<open>github.com/domehahn/skil\<close>).

  \<^bold>\<open>The program.\<close>  A skill is a package of instructions and code for an agent.  \<open>skil scan\<close> runs a registry of
  analyzers over its files (internal/analyzer/registry.go) and produces findings, coverage, an inspection ledger and
  an assurance report.  The result is compared with the contract of the skill (internal/verification), suppressed
  by baselines (internal/baseline), bound to the closure of what it references (internal/assurance), judged by an
  admission policy (internal/policy), locked (internal/lockfile), revoked (internal/revocation) and published as a
  signed certificate (internal/evidence/portable.go).  At run time an operation of an agent passes the enforcer of
  the contract (pkg/enforcement), the MCP interceptor or the runtime proxy, and the execution gateway
  (internal/receipt), which asks the continuous assurance engine (internal/continuous) whether the assured subject
  still stands, consumes a nonce, runs the handler and signs a receipt.

  \<^bold>\<open>Layers and theories.\<close>

  \<^item> Library: \<open>Prelude\<close> (64-bit integers, clock values, lists and maps, the collection \<open>go_defs\<close>), \<open>Go_Strings\<close>,
    \<open>Go_Path\<close> and \<open>Go_Encoding\<close> (the operations of strings, path/filepath, utf8, strconv, base64, RFC 3339 and
    encoding/json the source uses).
  \<^item> Contract and enforcer: \<open>Contract\<close> (pkg/skil/contracts.go, enforcement.go), \<open>Meter\<close> (the contract of a
    cumulative budget), \<open>Enforcer\<close> and \<open>Enforcer_Props\<close> (pkg/enforcement/enforcer.go: constructors, every guard,
    the four budgets on 64-bit words, the decision log, the ledger), \<open>Tool_Grants\<close> (internal/toolgrants).
  \<^item> Execution authorization (internal/receipt/authorization.go): \<open>Signing\<close> (internal/signing/ed25519.go, canonical
    JSON), \<open>File_Identity\<close>, \<open>Authorization\<close>, \<open>Nonce_Ledger\<close>, \<open>Gateway\<close>, \<open>Op_Receipt\<close>; \<open>Gateway_Monitor\<close> is the
    abstract specification the gateway refines.
  \<^item> Continuous assurance: \<open>Assurance\<close> (pkg/skil/assurance.go, severity.go), \<open>Continuous\<close> and \<open>Continuous_Props\<close>
    (internal/continuous/engine.go), \<open>Assured_Gateway\<close> (the gateway with the engine as its oracle).
  \<^item> Interception: \<open>Redaction\<close>, \<open>Runtime_Proxy\<close> (internal/runtimeproxy/proxy.go), \<open>Interceptor\<close>
    (internal/mcpinterceptor/interceptor.go).
  \<^item> Scanning: \<open>Scan_Model\<close> (pkg/skil/models.go), \<open>Rule_Findings\<close> (helpers.go, chains.go), \<open>Scan_Assessment\<close>
    (internal/assurance/scan.go), \<open>Derived_View\<close>, \<open>Derived_Props\<close>, \<open>Derived_Search\<close> (internal/derived/derived.go),
    \<open>Scan_Engine\<close> and \<open>Scan_Props\<close> (internal/analyzer/registry.go), \<open>Pickle\<close>, \<open>Pickle_Props\<close> and
    \<open>Pickle_Detection\<close> (internal/analyzer/pickle.go).
  \<^item> Judgement: \<open>Capability_Verification\<close> and \<open>Capability_Props\<close> (internal/verification), \<open>Closure\<close> and
    \<open>Closure_Props\<close> (internal/assurance/closure.go), \<open>Policy\<close>, \<open>Policy_Check\<close>, \<open>Policy_Props\<close> and
    \<open>Policy_Lifecycle\<close> (internal/policy), \<open>Baseline\<close> and \<open>Baseline_Props\<close> (internal/baseline).
  \<^item> Artifacts of an assessment: \<open>Portable_Certificate\<close> and \<open>Portable_Props\<close> (internal/evidence/portable.go),
    \<open>Lockfile\<close> (internal/lockfile), \<open>Revocation\<close> (internal/revocation).

  A Go function \<open>CamelCase\<close> is the definition \<open>camel_case\<close>, a struct a record, an error a constructor of a
  datatype; a block of a long function has a definition of its own, composed in the order of the code.

  \<^bold>\<open>Interfaces.\<close>  Four contracts are locales, interpreted on the definitions of their providers: \<open>budget_meter\<close>
  (the tool-call, mutation, network and token budgets of the enforcer), \<open>replay_guard\<close> (the ledger in memory, the
  ledger on a host directory shared by processes, and the gateway), \<open>assurance_oracle_contract\<close> (the engine alone
  and the engine behind the gateway), \<open>keyed_store\<close> (the lockfile).

  \<^bold>\<open>What the lemmas show.\<close>

  \<^item> Gateway and receipts: an accepted operation is the one that was authorized, signed by a trusted key, fresh, in
    scope, not revoked, and vouched for by the oracle; a single-use authorization is accepted once in any history, also
    over several processes; revocation is final; receipts tell the truth; drift stops execution.
  \<^item> Enforcer, interceptor and proxy: what is allowed is granted by the contract, budgets are never exceeded by
    histories that stay in the 64-bit range, and every forwarded call was authorized; the exceptions the code has
    (budgets that wrap, paths that escape after cleaning, a method hidden by case) are theorems.
  \<^item> Scan: a CLEAR verdict means that every analyzer has seen every file and nothing was skipped, failed or lost
    against the budget; every finding of a result is accounted for; the assessment, the risk and the threat
    chains are exactly what their declarative definitions say; a derived view is traced byte by byte, its search
    ends within its budgets and is complete when it says so.
  \<^item> Judgement and artifacts: an ALLOW of the policy is justified, a contract is verified against each observation and
    finding by itself, closures are compared as specified, certificates are issued, verified and imported soundly,
    baselines suppress exactly what they approve, lockfiles verify what was locked, a revocation is recorded; of two
    concurrent revocations one can be lost.
  \<^item> Pickle scanner: what the walk reaches is reported when the scan ends; a length near 2^63 makes it panic, and a
    reference that goes through the memo is never reported.

  \<^bold>\<open>Parameters.\<close>  Code outside the repository is an argument of the definitions that use it: SHA-256 and Ed25519 (the
  record \<open>crypto\<close>; signatures of an honest key verify, nothing else is assumed), \<open>net/url\<close> (a parsed host),
  JSON decoding and the text of a float64 (\<open>cert_codec\<close>, \<open>json_lib\<close>), the YAML encoder and decoder, float64 arithmetic (\<open>float_ops\<close>), the clock,
  file-system snapshots and their changes, lock files, handlers and the reauthorizer, \<open>filepath.Abs\<close>, regular
  expressions of policies (\<open>policy_env\<close>).  The scan engine takes its analyzers (the interfaces of pkg/skil), the
  table of native rules, their prose, the transformations of derived views, and the moments at which the caller's
  context or the budget's clock has run out.

  \<^bold>\<open>Bounds and conventions.\<close>  Go's int and int64 are 64-bit words where the source adds or compares values from
  outside (the enforcer's budgets, lengths in a pickle), and integers elsewhere.  Recursion is total: the search
  for derived views by a measure of views left and the queue, the walk over a pickle by its position; the limits of
  the source (200000 opcodes and 64 streams of a pickle, lines of 2^20 bytes and 16 MiB views) are the source's.
  Strings are lists of bytes.  \<open>strings.ToLower\<close> and \<open>strings.EqualFold\<close>, which are Unicode in Go, fold ASCII only, in
  the proxy and the policies as elsewhere, so the theorems say nothing about letters beyond ASCII there.
  \<open>sort.Slice\<close> is modelled by the stable sort; Go's is not stable, so the order of elements with equal keys
  (evidence of a certificate with the same identifier) may differ.  A range over a map goes over an association
  list; a nil and an empty slice are told apart only in JSON texts.  Offsets of derived views are naturals.
  A mutex is the atomicity of a step; where the source takes none (revocation, the host ledger) the steps
  interleave.  A write of the revocation registry truncates and stores in two steps; the mixed bytes of two
  overlapping writes are not modelled.  The authorizer an enforcer asks is a function of the operation, its answer
  at that call: the state a gateway behind it changes is part of \<open>Gateway\<close>, not of \<open>Enforcer\<close>.

  \<^bold>\<open>Not modelled.\<close>  The individual analyzers (pattern and syntax heuristics behind the modelled interface), the
  evidence graph, dependency inventory and binary classification of a scan, the transformations of derived views;
  the command line, reports, discovery and registries; evaluation runtimes and isolation, providers and network
  clients; older evidence formats, Sigstore bundles; linting, taxonomy, test generators.  They are effects,
  rendering or heuristics without a contract the code states.  \<open>policy.Load\<close> is YAML decoding and validation by an
  embedded schema.
\<close>

end
